(* ===== verification/Prelude.thy ===== *)
theory Prelude
  imports Main "HOL-Library.Word" "HOL-Library.Multiset"
begin

text \<open>
  Names and lemmas the components share: the machine integers of the source, reads of a byte
  buffer that say when they leave it, the overlapping block moves and the element shifts of
  fixed arrays, and the collections the component proofs add to.
\<close>

unbundle bit_operations_syntax

section \<open>Machine integers\<close>

type_synonym u8 = "8 word"
type_synonym u16 = "16 word"
type_synonym u32 = "32 word"
type_synonym u64 = "64 word"

text \<open>\<open>keeps\<close> collects the preservation lemmas of the component invariants, \<open>frames\<close> the
  fields an operation leaves alone, \<open>lengths\<close> the lengths of updated arrays.\<close>

named_theorems keeps
named_theorems frames
named_theorems lengths

text \<open>The 16-bit big-endian value \<open>(*p << 8) | *(p+1)\<close> that every table parser reads.\<close>

definition be16 :: "u8 \<Rightarrow> u8 \<Rightarrow> u16" where
  "be16 h l = push_bit 8 (ucast h) OR ucast l"

text \<open>The bytes of a 32-bit value, most significant first.\<close>

definition be32_bytes :: "u32 \<Rightarrow> u8 list" where
  "be32_bytes w = [ucast (drop_bit 24 w), ucast (drop_bit 16 w), ucast (drop_bit 8 w), ucast w]"

lemma length_be32_bytes [simp]: "length (be32_bytes w) = 4"
  by (simp add: be32_bytes_def)

lemma unat_and_mask_less: "unat (w AND mask n :: 'a::len word) < 2 ^ n"
  by (simp add: take_bit_eq_mask [symmetric] unsigned_take_bit_eq)

lemma unat_and_fff_less: "unat (w AND 0x0fff :: u16) < 4096"
  using unat_and_mask_less [of w 12] by (simp add: mask_eq_exp_minus_1)

section \<open>Byte buffers\<close>

text \<open>Reading one byte through a pointer: \<open>None\<close> is a read outside the array, which C++
  leaves undefined.\<close>

definition rd :: "u8 list \<Rightarrow> nat \<Rightarrow> u8 option" where
  "rd m i = (if i < length m then Some (m ! i) else None)"

lemma rd_Some [simp]: "i < length m \<Longrightarrow> rd m i = Some (m ! i)"
  by (simp add: rd_def)

lemma rd_None [simp]: "length m \<le> i \<Longrightarrow> rd m i = None"
  by (simp add: rd_def)

text \<open>The bytes of \<open>[from, to)\<close>.\<close>

definition slice :: "'a list \<Rightarrow> nat \<Rightarrow> nat \<Rightarrow> 'a list" where
  "slice xs f t = take (t - f) (drop f xs)"

lemma length_slice: "t \<le> length xs \<Longrightarrow> length (slice xs f t) = t - f"
  by (simp add: slice_def)

lemma slice_empty [simp]: "slice xs f f = []"
  by (simp add: slice_def)

lemma slice_append_left: "t \<le> length xs \<Longrightarrow> slice (xs @ ys) f t = slice xs f t"
  by (simp add: slice_def)

lemma slice_take: "t \<le> n \<Longrightarrow> slice (take n xs) f t = slice xs f t"
  by (simp add: slice_def drop_take min_def)

lemma slice_split:
  "\<lbrakk>f \<le> m; m \<le> t\<rbrakk> \<Longrightarrow> slice xs f t = slice xs f m @ slice xs m t"
proof -
  assume le: "f \<le> m" "m \<le> t"
  have "t - f = (m - f) + (t - m)" using le by simp
  then have "take (t - f) (drop f xs)
      = take (m - f) (drop f xs) @ take (t - m) (drop (m - f) (drop f xs))"
    by (simp only: take_add)
  with le show ?thesis by (simp add: slice_def)
qed

text \<open>\<open>memcpy (tmp, src, n); memcpy (dst, tmp, n)\<close>: an overlapping move inside one array.\<close>

definition block_move :: "'a list \<Rightarrow> nat \<Rightarrow> nat \<Rightarrow> nat \<Rightarrow> 'a list" where
  "block_move xs dst src n = take dst xs @ take n (drop src xs) @ drop (dst + n) xs"

lemma length_block_move [simp, lengths]:
  "\<lbrakk>src + n \<le> length xs; dst + n \<le> length xs\<rbrakk> \<Longrightarrow> length (block_move xs dst src n) = length xs"
  by (simp add: block_move_def)

lemma nth_slice: "\<lbrakk>i < t - f; t \<le> length xs\<rbrakk> \<Longrightarrow> slice xs f t ! i = xs ! (f + i)"
  by (simp add: slice_def)

lemma nth_block_move_before:
  "\<lbrakk>k < dst; dst \<le> length xs\<rbrakk> \<Longrightarrow> block_move xs dst src n ! k = xs ! k"
  by (simp add: block_move_def nth_append)

lemma nth_block_move_moved:
  assumes "dst \<le> k" "k < dst + n" "src + n \<le> length xs" "dst + n \<le> length xs"
  shows "block_move xs dst src n ! k = xs ! (src + (k - dst))"
proof -
  have "block_move xs dst src n ! k = (take n (drop src xs) @ drop (dst + n) xs) ! (k - dst)"
    using assms by (simp add: block_move_def nth_append)
  also have "\<dots> = xs ! (src + (k - dst))"
    using assms by (subst nth_append) auto
  finally show ?thesis .
qed

lemma slice_block_move_before:
  assumes "t \<le> dst" "src + n \<le> length xs" "dst + n \<le> length xs"
  shows "slice (block_move xs dst src n) f t = slice xs f t"
proof (rule nth_equalityI)
  show "length (slice (block_move xs dst src n) f t) = length (slice xs f t)"
    using assms by (simp add: length_slice)
next
  fix i assume "i < length (slice (block_move xs dst src n) f t)"
  then have i: "i < t - f" using assms by (simp add: length_slice)
  with assms show "slice (block_move xs dst src n) f t ! i = slice xs f t ! i"
    by (simp add: nth_slice nth_block_move_before)
qed

lemma slice_block_move_moved:
  assumes "dst \<le> src" "src \<le> f" "f \<le> t" "t \<le> src + n" "src + n \<le> length xs"
  shows "slice (block_move xs dst src n) (f - (src - dst)) (t - (src - dst)) = slice xs f t"
proof (rule nth_equalityI)
  show len: "length (slice (block_move xs dst src n) (f - (src - dst)) (t - (src - dst)))
      = length (slice xs f t)"
    using assms by (simp add: length_slice)
  fix i assume "i < length (slice (block_move xs dst src n) (f - (src - dst)) (t - (src - dst)))"
  then have i: "i < t - f" using len assms by (simp add: length_slice)
  have at: "src + (f - (src - dst) + i - dst) = f + i" using assms by simp
  have "slice (block_move xs dst src n) (f - (src - dst)) (t - (src - dst)) ! i
      = block_move xs dst src n ! (f - (src - dst) + i)"
    using i assms by (intro nth_slice) auto
  also have "\<dots> = xs ! (src + (f - (src - dst) + i - dst))"
    using i assms by (intro nth_block_move_moved) auto
  also have "\<dots> = slice xs f t ! i"
    using i assms by (simp only: at) (simp add: nth_slice)
  finally show "slice (block_move xs dst src n) (f - (src - dst)) (t - (src - dst)) ! i
      = slice xs f t ! i" .
qed

section \<open>Fixed arrays\<close>

text \<open>\<open>for (j = i; j < N - 1; ++ j) a[j] = a[j+1]\<close>: the loop that closes a gap at \<open>i\<close>.\<close>

definition shift_left :: "nat \<Rightarrow> 'a list \<Rightarrow> 'a list" where
  "shift_left i xs = fold (\<lambda>j a. a[j := a ! (j + 1)]) [i..<length xs - 1] xs"

text \<open>\<open>for (j = N - 1; j > i; -- j) a[j] = a[j-1]\<close>: the loop that opens a gap at \<open>i\<close>.\<close>

definition shift_right :: "nat \<Rightarrow> 'a list \<Rightarrow> 'a list" where
  "shift_right i xs = fold (\<lambda>j a. a[j := a ! (j - 1)]) (rev [i + 1..<length xs]) xs"

lemma length_fold_upd [simp]:
  "length (fold (\<lambda>j a. a[j := f j a]) ks xs) = length xs"
  by (induction ks arbitrary: xs) simp_all

lemma nth_shift_left_upto:
  "\<lbrakk>i \<le> k; k < length xs; m < length xs\<rbrakk> \<Longrightarrow>
   fold (\<lambda>j a. a[j := a ! (j + 1)]) [i..<k] xs ! m
     = (if i \<le> m \<and> m < k then xs ! Suc m else xs ! m)"
proof (induction k arbitrary: m)
  case 0
  then show ?case by simp
next
  case (Suc k)
  show ?case
  proof (cases "i \<le> k")
    case False
    with Suc.prems have "i = Suc k" by simp
    then show ?thesis by auto
  next
    case True
    with Suc show ?thesis by (auto simp: nth_list_update)
  qed
qed

lemma nth_shift_left:
  assumes "i < length xs" "m < length xs"
  shows "shift_left i xs ! m = (if i \<le> m \<and> Suc m < length xs then xs ! Suc m else xs ! m)"
  unfolding shift_left_def using nth_shift_left_upto [of i "length xs - 1" xs m] assms by auto

lemma length_shift_left [simp, lengths]: "length (shift_left i xs) = length xs"
  by (simp add: shift_left_def)

text \<open>Closing the gap and clearing the last cell drops element \<open>i\<close> and appends the blank.\<close>

lemma shift_left_clear:
  assumes "i < length xs"
  shows "(shift_left i xs)[length xs - 1 := d] = take i xs @ drop (Suc i) xs @ [d]"
proof (rule nth_equalityI)
  show "length ((shift_left i xs)[length xs - 1 := d]) = length (take i xs @ drop (Suc i) xs @ [d])"
    using assms by simp
  fix m assume "m < length ((shift_left i xs)[length xs - 1 := d])"
  then have "m < length xs" by simp
  then show "(shift_left i xs)[length xs - 1 := d] ! m = (take i xs @ drop (Suc i) xs @ [d]) ! m"
    using assms by (auto simp: nth_list_update nth_append nth_shift_left nth_Cons' not_less)
qed

lemma length_shift_right [simp, lengths]: "length (shift_right i xs) = length xs"
  by (simp add: shift_right_def)

lemma nth_shift_right_down:
  "\<lbrakk>i \<le> n; n \<le> length xs; m < length xs\<rbrakk> \<Longrightarrow>
   fold (\<lambda>j a. a[j := a ! (j - 1)]) (rev [Suc i..<n]) xs ! m
     = (if i < m \<and> m < n then xs ! (m - 1) else xs ! m)"
proof (induction n arbitrary: xs)
  case 0
  then show ?case by simp
next
  case (Suc n)
  show ?case
  proof (cases "i < n")
    case False
    with Suc.prems show ?thesis by auto
  next
    case True
    with Suc show ?thesis by (auto simp: nth_list_update)
  qed
qed

lemma nth_shift_right:
  assumes "i < length xs" "m < length xs"
  shows "shift_right i xs ! m = (if i < m then xs ! (m - 1) else xs ! m)"
  unfolding shift_right_def using nth_shift_right_down [of i "length xs" xs m] assms by simp

text \<open>Opening a gap and writing into it inserts at \<open>i\<close> and drops the last element.\<close>

lemma shift_right_write:
  assumes "i < length xs"
  shows "(shift_right i xs)[i := x] = take i xs @ x # butlast (drop i xs)"
proof (rule nth_equalityI)
  show "length ((shift_right i xs)[i := x]) = length (take i xs @ x # butlast (drop i xs))"
    using assms by simp
  fix m assume "m < length ((shift_right i xs)[i := x])"
  then have "m < length xs" by simp
  then show "(shift_right i xs)[i := x] ! m = (take i xs @ x # butlast (drop i xs)) ! m"
    using assms by (auto simp: nth_list_update nth_append nth_shift_right nth_Cons' nth_butlast)
qed

section \<open>Slots: a used prefix of an array\<close>

text \<open>Arrays such as \<open>reserves_\<close> mark the cells in use by a flag and keep them in front.\<close>

definition used_prefix :: "('a \<Rightarrow> bool) \<Rightarrow> 'a list \<Rightarrow> bool" where
  "used_prefix used xs \<longleftrightarrow> (\<exists>us fs. xs = us @ fs \<and> list_all used us \<and> list_all (\<lambda>x. \<not> used x) fs)"

lemma used_prefixI:
  "\<lbrakk>list_all used us; list_all (\<lambda>x. \<not> used x) fs\<rbrakk> \<Longrightarrow> used_prefix used (us @ fs)"
  by (auto simp: used_prefix_def)

lemma used_prefix_split:
  assumes "used_prefix used xs"
  shows "xs = filter used xs @ filter (\<lambda>x. \<not> used x) xs"
proof -
  obtain us fs where xs: "xs = us @ fs" "list_all used us" "list_all (\<lambda>x. \<not> used x) fs"
    using assms by (auto simp: used_prefix_def)
  have "filter used us = us" "filter used fs = []"
    "filter (\<lambda>x. \<not> used x) us = []" "filter (\<lambda>x. \<not> used x) fs = fs"
    using xs by (simp_all add: filter_id_conv filter_empty_conv list_all_iff)
  with xs show ?thesis by simp
qed

end
