(* ===== verification/Crc32.thy ===== *)
theory Crc32
  imports Prelude
begin

text \<open>
  \<open>ts_arib_common::crc32\<close> (src/src/parser/ts_arib_common.cpp): the table-driven CRC-32 of
  MPEG-2 sections. The table is the source's, entry by entry. The lemmas show that the table
  is the eightfold shift of the polynomial 0x04c11db7 (so the routine equals the bitwise
  definition of the checksum), that a message followed by its own checksum has residue 0, that
  no other four trailing bytes do, and that a change of one byte is always seen.
\<close>

definition g_crc32table :: "u32 list" where
  "g_crc32table =
    [0x00000000, 0x04c11db7, 0x09823b6e, 0x0d4326d9,
     0x130476dc, 0x17c56b6b, 0x1a864db2, 0x1e475005,
     0x2608edb8, 0x22c9f00f, 0x2f8ad6d6, 0x2b4bcb61,
     0x350c9b64, 0x31cd86d3, 0x3c8ea00a, 0x384fbdbd,
     0x4c11db70, 0x48d0c6c7, 0x4593e01e, 0x4152fda9,
     0x5f15adac, 0x5bd4b01b, 0x569796c2, 0x52568b75,
     0x6a1936c8, 0x6ed82b7f, 0x639b0da6, 0x675a1011,
     0x791d4014, 0x7ddc5da3, 0x709f7b7a, 0x745e66cd,
     0x9823b6e0, 0x9ce2ab57, 0x91a18d8e, 0x95609039,
     0x8b27c03c, 0x8fe6dd8b, 0x82a5fb52, 0x8664e6e5,
     0xbe2b5b58, 0xbaea46ef, 0xb7a96036, 0xb3687d81,
     0xad2f2d84, 0xa9ee3033, 0xa4ad16ea, 0xa06c0b5d,
     0xd4326d90, 0xd0f37027, 0xddb056fe, 0xd9714b49,
     0xc7361b4c, 0xc3f706fb, 0xceb42022, 0xca753d95,
     0xf23a8028, 0xf6fb9d9f, 0xfbb8bb46, 0xff79a6f1,
     0xe13ef6f4, 0xe5ffeb43, 0xe8bccd9a, 0xec7dd02d,
     0x34867077, 0x30476dc0, 0x3d044b19, 0x39c556ae,
     0x278206ab, 0x23431b1c, 0x2e003dc5, 0x2ac12072,
     0x128e9dcf, 0x164f8078, 0x1b0ca6a1, 0x1fcdbb16,
     0x018aeb13, 0x054bf6a4, 0x0808d07d, 0x0cc9cdca,
     0x7897ab07, 0x7c56b6b0, 0x71159069, 0x75d48dde,
     0x6b93dddb, 0x6f52c06c, 0x6211e6b5, 0x66d0fb02,
     0x5e9f46bf, 0x5a5e5b08, 0x571d7dd1, 0x53dc6066,
     0x4d9b3063, 0x495a2dd4, 0x44190b0d, 0x40d816ba,
     0xaca5c697, 0xa864db20, 0xa527fdf9, 0xa1e6e04e,
     0xbfa1b04b, 0xbb60adfc, 0xb6238b25, 0xb2e29692,
     0x8aad2b2f, 0x8e6c3698, 0x832f1041, 0x87ee0df6,
     0x99a95df3, 0x9d684044, 0x902b669d, 0x94ea7b2a,
     0xe0b41de7, 0xe4750050, 0xe9362689, 0xedf73b3e,
     0xf3b06b3b, 0xf771768c, 0xfa325055, 0xfef34de2,
     0xc6bcf05f, 0xc27dede8, 0xcf3ecb31, 0xcbffd686,
     0xd5b88683, 0xd1799b34, 0xdc3abded, 0xd8fba05a,
     0x690ce0ee, 0x6dcdfd59, 0x608edb80, 0x644fc637,
     0x7a089632, 0x7ec98b85, 0x738aad5c, 0x774bb0eb,
     0x4f040d56, 0x4bc510e1, 0x46863638, 0x42472b8f,
     0x5c007b8a, 0x58c1663d, 0x558240e4, 0x51435d53,
     0x251d3b9e, 0x21dc2629, 0x2c9f00f0, 0x285e1d47,
     0x36194d42, 0x32d850f5, 0x3f9b762c, 0x3b5a6b9b,
     0x0315d626, 0x07d4cb91, 0x0a97ed48, 0x0e56f0ff,
     0x1011a0fa, 0x14d0bd4d, 0x19939b94, 0x1d528623,
     0xf12f560e, 0xf5ee4bb9, 0xf8ad6d60, 0xfc6c70d7,
     0xe22b20d2, 0xe6ea3d65, 0xeba91bbc, 0xef68060b,
     0xd727bbb6, 0xd3e6a601, 0xdea580d8, 0xda649d6f,
     0xc423cd6a, 0xc0e2d0dd, 0xcda1f604, 0xc960ebb3,
     0xbd3e8d7e, 0xb9ff90c9, 0xb4bcb610, 0xb07daba7,
     0xae3afba2, 0xaafbe615, 0xa7b8c0cc, 0xa379dd7b,
     0x9b3660c6, 0x9ff77d71, 0x92b45ba8, 0x9675461f,
     0x8832161a, 0x8cf30bad, 0x81b02d74, 0x857130c3,
     0x5d8a9099, 0x594b8d2e, 0x5408abf7, 0x50c9b640,
     0x4e8ee645, 0x4a4ffbf2, 0x470cdd2b, 0x43cdc09c,
     0x7b827d21, 0x7f436096, 0x7200464f, 0x76c15bf8,
     0x68860bfd, 0x6c47164a, 0x61043093, 0x65c52d24,
     0x119b4be9, 0x155a565e, 0x18197087, 0x1cd86d30,
     0x029f3d35, 0x065e2082, 0x0b1d065b, 0x0fdc1bec,
     0x3793a651, 0x3352bbe6, 0x3e119d3f, 0x3ad08088,
     0x2497d08d, 0x2056cd3a, 0x2d15ebe3, 0x29d4f654,
     0xc5a92679, 0xc1683bce, 0xcc2b1d17, 0xc8ea00a0,
     0xd6ad50a5, 0xd26c4d12, 0xdf2f6bcb, 0xdbee767c,
     0xe3a1cbc1, 0xe760d676, 0xea23f0af, 0xeee2ed18,
     0xf0a5bd1d, 0xf464a0aa, 0xf9278673, 0xfde69bc4,
     0x89b8fd09, 0x8d79e0be, 0x803ac667, 0x84fbdbd0,
     0x9abc8bd5, 0x9e7d9662, 0x933eb0bb, 0x97ffad0c,
     0xafb010b1, 0xab710d06, 0xa6322bdf, 0xa2f33668,
     0xbcb4666d, 0xb8757bda, 0xb5365d03, 0xb1f740b4]"

definition crc32_step :: "u32 \<Rightarrow> u8 \<Rightarrow> u32" where
  "crc32_step crc p =
     push_bit 8 crc XOR g_crc32table ! unat ((drop_bit 24 crc XOR ucast p) AND 0xff)"

definition crc32_from :: "u32 \<Rightarrow> u8 list \<Rightarrow> u32" where
  "crc32_from crc buff = foldl crc32_step crc buff"

definition crc32 :: "u8 list \<Rightarrow> u32" where
  "crc32 buff = crc32_from 0xffffffff buff"

section \<open>The bitwise definition\<close>

text \<open>One bit of the division by the generator polynomial, most significant bit first.\<close>

definition crc_bit :: "u32 \<Rightarrow> u32" where
  "crc_bit c = (if bit c 31 then push_bit 1 c XOR 0x04c11db7 else push_bit 1 c)"

definition crc_byte :: "u32 \<Rightarrow> u8 \<Rightarrow> u32" where
  "crc_byte c b = (crc_bit ^^ 8) (c XOR push_bit 24 (ucast b))"

lemma length_g_crc32table: "length g_crc32table = 256"
  by (simp add: g_crc32table_def)

fun every_other :: "'a list \<Rightarrow> 'a list" where
  "every_other (x # y # xs) = x # every_other xs"
| "every_other xs = xs"

lemma even_entries: "map crc_bit (take 128 g_crc32table) = every_other g_crc32table"
  by (simp add: g_crc32table_def crc_bit_def)

lemma odd_entries:
  "map (\<lambda>x. x XOR g_crc32table ! 1) (every_other g_crc32table) = every_other (tl g_crc32table)"
  by (simp add: g_crc32table_def)

lemma length_every_other: "length (every_other xs) = (length xs + 1) div 2"
  by (induction xs rule: every_other.induct) auto

lemma nth_every_other: "2 * i < length xs \<Longrightarrow> every_other xs ! i = xs ! (2 * i)"
proof (induction xs arbitrary: i rule: every_other.induct)
  case (1 x y xs)
  then show ?case by (cases i) auto
qed auto

lemma table_even: "i < 128 \<Longrightarrow> g_crc32table ! (2 * i) = crc_bit (g_crc32table ! i)"
proof -
  assume i: "i < 128"
  then have "every_other g_crc32table ! i = map crc_bit (take 128 g_crc32table) ! i"
    by (simp only: even_entries)
  with i show ?thesis
    by (simp add: nth_every_other length_g_crc32table)
qed

lemma table_odd:
  "i < 128 \<Longrightarrow> g_crc32table ! (2 * i + 1) = g_crc32table ! (2 * i) XOR g_crc32table ! 1"
proof -
  assume i: "i < 128"
  then have "every_other (tl g_crc32table) ! i
      = map (\<lambda>x. x XOR g_crc32table ! 1) (every_other g_crc32table) ! i"
    by (simp only: odd_entries)
  with i show ?thesis
    by (simp add: nth_every_other length_every_other length_g_crc32table nth_tl)
qed

lemma table_0: "g_crc32table ! 0 = 0" and table_1: "g_crc32table ! 1 = 0x04c11db7"
  by (simp_all add: g_crc32table_def)

lemma crc_bit_xor: "crc_bit (a XOR b) = crc_bit a XOR crc_bit b"
  by (auto simp: crc_bit_def bit_xor_iff push_bit_xor ac_simps simp del: push_bit_Suc_numeral)

lemma crc_bits_xor: "(crc_bit ^^ n) (a XOR b) = (crc_bit ^^ n) a XOR (crc_bit ^^ n) b"
  by (induction n) (simp_all add: crc_bit_xor)

lemma crc_bits_push:
  "(\<And>k. k < n \<Longrightarrow> \<not> bit x (31 - k)) \<Longrightarrow> n \<le> 32 \<Longrightarrow> (crc_bit ^^ n) x = push_bit n x"
proof (induction n)
  case 0
  then show ?case by simp
next
  case (Suc n)
  then have ih: "(crc_bit ^^ n) x = push_bit n x" by simp
  have "\<not> bit (push_bit n x) 31"
    using Suc.prems(1) [of n] Suc.prems(2) by (simp add: bit_push_bit_iff)
  then have "crc_bit (push_bit n x) = push_bit 1 (push_bit n x)"
    by (simp add: crc_bit_def)
  with ih show ?case by (simp add: push_bit_push_bit)
qed

lemma crc_poly: "(crc_bit ^^ 8) (push_bit 24 1) = 0x04c11db7"
proof -
  have "(crc_bit ^^ 7) (push_bit 24 1) = push_bit 7 (push_bit 24 1)"
  proof (rule crc_bits_push)
    show "\<not> bit (push_bit 24 (1 :: u32)) (31 - k)" if "k < 7" for k
      using that by (simp only: bit_push_bit_iff bit_1_iff) arith
  qed simp
  then have "(crc_bit ^^ Suc 7) (push_bit 24 1) = crc_bit (push_bit 7 (push_bit 24 1))"
    by (simp only: funpow.simps comp_apply)
  moreover have "Suc 7 = 8" by simp
  ultimately have "(crc_bit ^^ 8) (push_bit 24 1) = crc_bit (push_bit 7 (push_bit 24 1))"
    by metis
  also have "\<dots> = 0x04c11db7" by (simp add: crc_bit_def)
  finally show ?thesis .
qed

lemma table_shifted:
  "i < 256 \<Longrightarrow> g_crc32table ! i = (crc_bit ^^ 8) (push_bit 24 (of_nat i))"
proof (induction i rule: less_induct)
  case (less i)
  show ?case
  proof (cases "i = 0")
    case True
    have "(crc_bit ^^ 8) 0 = push_bit 8 0" by (rule crc_bits_push) auto
    with True show ?thesis by (simp add: table_0)
  next
    case False
    define j where "j = i div 2"
    have j: "j < i" "j < 128" using False less.prems by (auto simp: j_def)
    have "\<not> bit j 7" using j by (simp add: bit_iff_odd)
    then have "\<not> bit (of_nat j :: u32) 7" by transfer (simp add: bit_take_bit_iff bit_of_nat_iff_bit)
    then have top: "\<not> bit (push_bit 24 (of_nat j :: u32)) 31"
      by (simp only: bit_push_bit_iff) simp
    have "push_bit 24 (of_nat (2 * j) :: u32) = push_bit 1 (push_bit 24 (of_nat j))"
      by (simp add: push_bit_eq_mult)
    then have "push_bit 24 (of_nat (2 * j) :: u32) = crc_bit (push_bit 24 (of_nat j))"
      using top by (simp add: crc_bit_def)
    then have even: "g_crc32table ! (2 * j) = (crc_bit ^^ 8) (push_bit 24 (of_nat (2 * j)))"
      using less.IH [of j] j by (simp add: table_even funpow_swap1)
    show ?thesis
    proof (cases "even i")
      case True
      then have "i = 2 * j" by (auto simp: j_def)
      with even show ?thesis by simp
    next
      case False
      then have i: "i = 2 * j + 1" by (auto simp: j_def elim: oddE)
      have "(of_nat (2 * j + 1) :: u32) = of_nat (2 * j) XOR 1"
          by (simp add: xor_one_eq)
      then have "push_bit 24 (of_nat i :: u32) = push_bit 24 (of_nat (2 * j)) XOR push_bit 24 1"
        using i by (simp add: push_bit_xor)
      then show ?thesis
        using i even crc_poly j by (simp only: crc_bits_xor table_odd table_1)
    qed
  qed
qed

lemma low24: "(0x00ffffff :: u32) = mask 24" and low8: "(0xff :: u32) = mask 8"
  by (simp_all add: mask_eq_exp_minus_1)

lemma word_parts: "(x :: u32) = (x AND 0x00ffffff) XOR push_bit 24 (drop_bit 24 x)"
  unfolding low24 by (rule bit_word_eqI) (auto simp: bit_simps)

lemma crc32_step_bitwise: "crc32_step c p = crc_byte c p"
proof -
  define x where "x = c XOR push_bit 24 (ucast p)"
  define i where "i = unat ((drop_bit 24 c XOR ucast p) AND 0xff)"
  have top: "drop_bit 24 x = (drop_bit 24 c XOR ucast p) AND 0xff"
    unfolding x_def low8 by (rule bit_word_eqI) (auto simp: bit_simps dest: bit_imp_le_length)
  have i256: "i < 256"
    unfolding i_def using unat_and_mask_less [of _ 8] by (simp add: mask_eq_exp_minus_1)
  have "(crc_bit ^^ 8) (x AND 0x00ffffff) = push_bit 8 (x AND 0x00ffffff)"
    unfolding low24 by (rule crc_bits_push) (auto simp: bit_simps)
  also have "\<dots> = push_bit 8 c"
    unfolding x_def low24 by (rule bit_word_eqI) (auto simp: bit_simps)
  finally have lo: "(crc_bit ^^ 8) (x AND 0x00ffffff) = push_bit 8 c" .
  have "(crc_bit ^^ 8) (push_bit 24 (drop_bit 24 x)) = g_crc32table ! i"
    using table_shifted [OF i256] top by (simp add: i_def)
  then have "(crc_bit ^^ 8) x = push_bit 8 c XOR g_crc32table ! i"
    using lo by (subst word_parts [of x]) (simp only: crc_bits_xor)
  then show ?thesis
    by (simp add: crc32_step_def crc_byte_def x_def i_def)
qed


section \<open>Residue\<close>

lemma crc32_from_append: "crc32_from c (xs @ ys) = crc32_from (crc32_from c xs) ys"
  by (simp add: crc32_from_def)

lemma crc32_from_Cons: "crc32_from c (x # xs) = crc32_from (crc32_step c x) xs"
  by (simp add: crc32_from_def)

lemma crc32_from_Nil: "crc32_from c [] = c"
  by (simp add: crc32_from_def)

lemma crc32_step_top: "crc32_step c (ucast (drop_bit 24 c)) = push_bit 8 c"
proof -
  have "(drop_bit 24 c XOR ucast (ucast (drop_bit 24 c) :: u8)) AND 0xff = 0"
    unfolding low8 by (rule bit_word_eqI) (auto simp: bit_simps)
  then show ?thesis by (simp add: crc32_step_def table_0)
qed

text \<open>A message followed by its checksum has residue 0.\<close>

lemma crc32_residue: "crc32_from c (be32_bytes c) = 0"
proof -
  have b1: "(ucast (drop_bit 16 c) :: u8) = ucast (drop_bit 24 (push_bit 8 c))"
    by (rule bit_word_eqI) (auto simp: bit_simps)
  have b2: "(ucast (drop_bit 8 c) :: u8) = ucast (drop_bit 24 (push_bit 8 (push_bit 8 c)))"
    by (rule bit_word_eqI) (auto simp: bit_simps)
  have b3: "(ucast c :: u8) = ucast (drop_bit 24 (push_bit 8 (push_bit 8 (push_bit 8 c))))"
    by (rule bit_word_eqI) (auto simp: bit_simps)
  have z: "push_bit 8 (push_bit 8 (push_bit 8 (push_bit 8 c))) = 0"
    by (rule bit_word_eqI) (auto simp: bit_simps)
  show ?thesis
    unfolding be32_bytes_def b1 b2 b3 by (simp only: crc32_from_Cons crc32_from_Nil crc32_step_top z)
qed

text \<open>The step is injective in the state and in the byte: the low bytes of the table entries
  are pairwise different.\<close>

lemma xor_left_cancel: "(a :: 'a::len word) XOR b = a XOR c \<longleftrightarrow> b = c"
proof
  assume eq: "a XOR b = a XOR c"
  show "b = c"
  proof (rule bit_word_eqI)
    fix n assume "n < LENGTH('a)"
    have "bit (a XOR b) n = bit (a XOR c) n" using eq by simp
    then show "bit b n = bit c n" by (auto simp: bit_xor_iff)
  qed
qed simp

lemma xor_right_cancel: "(b :: 'a::len word) XOR a = c XOR a \<longleftrightarrow> b = c"
  using xor_left_cancel [of a b c] by (simp add: ac_simps)

lemma crc_bit_inj: "crc_bit a = crc_bit b \<Longrightarrow> a = b"
proof (rule bit_word_eqI)
  fix n assume eq: "crc_bit a = crc_bit b" and n: "n < LENGTH(32)"
  have odd: "odd (crc_bit x) = bit x 31" for x
    by (simp only: crc_bit_def bit_0 [symmetric] split: if_split) (simp add: even_xor_iff bit_0)
  have 31: "bit a 31 = bit b 31" using eq odd by metis
  then have "push_bit 1 a = push_bit 1 b"
    using eq by (auto simp: crc_bit_def xor_right_cancel split: if_splits)
  then have "bit (push_bit 1 a) (Suc n) = bit (push_bit 1 b) (Suc n)" by (simp only:)
  moreover have "bit (push_bit 1 x) (Suc n) \<longleftrightarrow> n < 31 \<and> bit x n" for x :: u32
    by (simp only: bit_push_bit_iff) auto
  ultimately show "bit a n = bit b n"
    using 31 n by (cases "n = 31") auto
qed

lemma crc_bits_inj: "(crc_bit ^^ n) a = (crc_bit ^^ n) b \<Longrightarrow> a = b"
  by (induction n) (auto dest: crc_bit_inj)

lemma crc32_step_inj_state: "crc32_step c p = crc32_step d p \<Longrightarrow> c = d"
  unfolding crc32_step_bitwise crc_byte_def
  by (drule crc_bits_inj) (simp only: xor_right_cancel)

lemma crc32_step_inj_byte: "crc32_step c p = crc32_step c q \<Longrightarrow> p = q"
proof -
  assume "crc32_step c p = crc32_step c q"
  then have "c XOR push_bit 24 (ucast p) = c XOR push_bit 24 (ucast q)"
    unfolding crc32_step_bitwise crc_byte_def by (rule crc_bits_inj)
  then have eq: "push_bit 24 (ucast p :: u32) = push_bit 24 (ucast q)"
    by (simp only: xor_left_cancel)
  show "p = q"
  proof (rule bit_word_eqI)
    fix n assume n: "n < LENGTH(8)"
    have "bit (push_bit 24 (ucast p :: u32)) (24 + n) = bit (push_bit 24 (ucast q :: u32)) (24 + n)"
      using eq by simp
    with n show "bit p n = bit q n" by (simp add: bit_simps)
  qed
qed

lemma crc32_from_inj: "crc32_from c xs = crc32_from d xs \<Longrightarrow> c = d"
  by (induction xs arbitrary: c d) (auto simp: crc32_from_Cons crc32_from_Nil dest: crc32_step_inj_state)

lemma crc_bits_0_iff: "(crc_bit ^^ n) c = 0 \<longleftrightarrow> c = 0"
proof
  have "(crc_bit ^^ n) 0 = 0" by (induction n) (simp_all add: crc_bit_def)
  then show "(crc_bit ^^ n) c = 0 \<Longrightarrow> c = 0" by (metis crc_bits_inj)
  show "c = 0 \<Longrightarrow> (crc_bit ^^ n) c = 0"
    using \<open>(crc_bit ^^ n) 0 = 0\<close> by simp
qed

lemma crc_bits_byte:
  "k \<le> 16 \<Longrightarrow> (crc_bit ^^ 8) (push_bit k (ucast (b :: u8))) = push_bit (k + 8) (ucast b)"
proof -
  assume k: "k \<le> 16"
  have "(crc_bit ^^ 8) (push_bit k (ucast b)) = push_bit 8 (push_bit k (ucast b))"
  proof (rule crc_bits_push)
    fix j :: nat assume "j < 8"
    with k show "\<not> bit (push_bit k (ucast b :: u32)) (31 - j)"
      by (auto simp: bit_simps dest: bit_imp_le_length)
  qed simp
  then show ?thesis by (simp add: push_bit_push_bit ac_simps)
qed

lemma crc_bits_add: "(crc_bit ^^ m) ((crc_bit ^^ n) c) = (crc_bit ^^ (m + n)) c"
  by (simp add: funpow_add)

text \<open>Four bytes at once: the state is xored with their big-endian word and shifted 32 times.\<close>

definition be32_word :: "u8 list \<Rightarrow> u32" where
  "be32_word t = push_bit 24 (ucast (t ! 0)) XOR push_bit 16 (ucast (t ! 1))
     XOR push_bit 8 (ucast (t ! 2)) XOR ucast (t ! 3)"

lemma crc32_from_4:
  "crc32_from c [a1, a2, a3, a4] = (crc_bit ^^ 32) (c XOR be32_word [a1, a2, a3, a4])"
proof -
  let ?f = "crc_bit ^^ 8"
  have a2: "push_bit 24 (ucast a2 :: u32) = ?f (push_bit 16 (ucast a2))"
    using crc_bits_byte [of 16 a2] by simp
  have a3: "push_bit 24 (ucast a3 :: u32) = ?f (?f (push_bit 8 (ucast a3)))"
    using crc_bits_byte [of 16 a3] crc_bits_byte [of 8 a3] by simp
  have a4: "push_bit 24 (ucast a4 :: u32) = ?f (?f (?f (ucast a4)))"
    using crc_bits_byte [of 16 a4] crc_bits_byte [of 8 a4] crc_bits_byte [of 0 a4] by simp
  have "crc32_from c [a1, a2, a3, a4] =
      ?f (?f (?f (?f (c XOR push_bit 24 (ucast a1)) XOR push_bit 24 (ucast a2))
        XOR push_bit 24 (ucast a3)) XOR push_bit 24 (ucast a4))"
    by (simp only: crc32_from_Cons crc32_from_Nil crc32_step_bitwise crc_byte_def)
  also have "\<dots> = ?f (?f (?f (?f (c XOR be32_word [a1, a2, a3, a4]))))"
    by (simp only: a2 a3 a4 crc_bits_xor be32_word_def xor.assoc) (simp add: crc_bits_xor xor.assoc)
  finally show ?thesis by (simp add: crc_bits_add)
qed

lemma be32_word_bytes: "length t = 4 \<Longrightarrow> be32_bytes (be32_word t) = t"
proof -
  assume "length t = 4"
  then obtain a1 a2 a3 a4 where t: "t = [a1, a2, a3, a4]"
    by (auto simp: numeral_eq_Suc length_Suc_conv)
  have "ucast (drop_bit 24 (be32_word t)) = a1" "ucast (drop_bit 16 (be32_word t)) = a2"
    "ucast (drop_bit 8 (be32_word t)) = a3" "ucast (be32_word t) = a4"
    unfolding be32_word_def t
    by (rule bit_word_eqI; auto simp: bit_simps dest: bit_imp_le_length)+
  then show ?thesis by (simp add: be32_bytes_def t)
qed

lemma crc32_residue_exact:
  "length t = 4 \<Longrightarrow> crc32_from c t = 0 \<longleftrightarrow> t = be32_bytes c"
proof -
  assume len: "length t = 4"
  then obtain a1 a2 a3 a4 where t: "t = [a1, a2, a3, a4]"
    by (auto simp: numeral_eq_Suc length_Suc_conv)
  have "crc32_from c t = 0 \<longleftrightarrow> c XOR be32_word t = 0"
    unfolding t crc32_from_4 crc_bits_0_iff ..
  also have "\<dots> \<longleftrightarrow> be32_word t = c"
    using xor_left_cancel [of c "be32_word t" c] by auto
  finally show ?thesis
    using len be32_word_bytes [OF len] crc32_residue [of c] by metis
qed

lemma crc32_from_4_inj:
  "crc32_from c [a1, a2, a3, a4] = crc32_from c [b1, b2, b3, b4] \<Longrightarrow>
   [a1, a2, a3, a4] = [b1, b2, b3, b4]"
proof -
  assume "crc32_from c [a1, a2, a3, a4] = crc32_from c [b1, b2, b3, b4]"
  then have "c XOR be32_word [a1, a2, a3, a4] = c XOR be32_word [b1, b2, b3, b4]"
    unfolding crc32_from_4 by (rule crc_bits_inj)
  then have "be32_word [a1, a2, a3, a4] = be32_word [b1, b2, b3, b4]"
    by (simp only: xor_left_cancel)
  then have "be32_bytes (be32_word [a1, a2, a3, a4]) = be32_bytes (be32_word [b1, b2, b3, b4])"
    by (rule arg_cong)
  then show ?thesis by (simp add: be32_word_bytes)
qed

section \<open>Properties\<close>

text \<open>C36: the table-driven checksum equals the bitwise division by the generator polynomial,
  for every buffer.\<close>

theorem crc32_is_bitwise: "crc32 buff = foldl crc_byte 0xffffffff buff"
proof -
  have "crc32_step = crc_byte"
    by (intro ext) (rule crc32_step_bitwise)
  then show ?thesis by (simp add: crc32_def crc32_from_def)
qed

text \<open>The check \<open>crc32 (...) == 0\<close> accepts a message with four trailing bytes exactly
  when these bytes are the checksum of the message, big-endian.\<close>

theorem crc32_accepts_own_checksum_only:
  "crc32 (m @ [a, b, c, d]) = 0 \<longleftrightarrow> [a, b, c, d] = be32_bytes (crc32 m)"
  by (simp add: crc32_def crc32_from_append crc32_residue_exact)

text \<open>A change confined to four consecutive bytes always changes the checksum.\<close>

theorem crc32_detects_burst:
  "crc32 (xs @ [a, b, c, d] @ ys) = crc32 (xs @ [a', b', c', d'] @ ys)
    \<longleftrightarrow> [a, b, c, d] = [a', b', c', d']"
proof
  assume "crc32 (xs @ [a, b, c, d] @ ys) = crc32 (xs @ [a', b', c', d'] @ ys)"
  then have "crc32_from (crc32_from 0xffffffff xs) [a, b, c, d]
      = crc32_from (crc32_from 0xffffffff xs) [a', b', c', d']"
    unfolding crc32_def crc32_from_append by (rule crc32_from_inj)
  then show "[a, b, c, d] = [a', b', c', d']" by (rule crc32_from_4_inj)
qed auto

end
