(* ===== verification/Section_Parser.thy ===== *)
theory Section_Parser
  imports Crc32
begin

text \<open>
  \<open>section_info\<close> and \<open>section_parser\<close> (src/src/parser/section_parser.cpp, section_parser.h):
  the reassembly of MPEG-2 sections from the payloads of TS packets. The bytes of all sections
  live in one pool; a section is an interval of it. The linked list of heap objects is a list
  of records with their addresses, pointers into the pool are offsets. The virtual methods of
  the table classes are a listener, an argument of the operations that call them.
\<close>

section \<open>Data\<close>

text \<open>\<open>ST_SECTION_HEADER\<close> (ts_arib_common.h), without the two reserved fields, which no code
  writes or reads.\<close>

record section_header =
  table_id :: u8
  section_syntax_indicator :: u8
  private_indicator :: u8
  section_length :: u16
  table_id_extension :: u16
  version_number :: u8
  current_next_indicator :: u8
  section_number :: u8
  last_section_number :: u8

definition zero_header :: section_header where
  "zero_header = \<lparr>table_id = 0, section_syntax_indicator = 0, private_indicator = 0,
     section_length = 0, table_id_extension = 0, version_number = 0,
     current_next_indicator = 0, section_number = 0, last_section_number = 0\<rparr>"

datatype section_state = S_INIT | S_RECEIVING | S_RECEIVED | S_COMPLETE

datatype section_type = T_PSISI | T_DSMCC

datatype check_result = COMPLETED | COMPLETED_ALREADY | RECEIVING | CANCELED | CRC32_ERR | IGNORE | INVALID

text \<open>The data pointer of a section: NULL when the header was too short to be parsed, an offset
  into the pool, or a value computed from NULL by pointer arithmetic.\<close>

datatype data_ptr = NullPtr | Off nat | WildPtr

record section_info =
  addr :: nat
  sect_hdr :: section_header
  raw :: nat
  data :: data_ptr
  tail :: nat
  sstate :: section_state
  stype :: section_type

record section_parser =
  parser_pid :: u16
  sects :: "section_info list"
  list_is_fifo :: bool
  fifo_num :: int
  work :: "nat option"
  pool :: "u8 list"
  pool_ind :: nat
  pool_size :: nat
  ptype :: section_type
  is_async_delete :: bool
  is_ignore :: bool
  next_addr :: nat

text \<open>What a table class plugs in: \<open>on_section_started\<close> reads the header and may refuse the
  section, \<open>on_section_completed\<close> gets the completed section and may change the parser (it
  may detach the section) and its own state.\<close>

record 'c listener =
  on_started :: "section_info \<Rightarrow> bool"
  on_completed :: "nat \<Rightarrow> section_parser \<times> 'c \<Rightarrow> section_parser \<times> 'c"

definition POOL_SIZE :: nat where
  "POOL_SIZE = 4096"

definition new_parser :: "nat \<Rightarrow> int \<Rightarrow> section_type \<Rightarrow> section_parser" where
  "new_parser psize fifo ty =
     \<lparr>parser_pid = 0, sects = [], list_is_fifo = (fifo > 0),
      fifo_num = (if fifo > 0 then fifo else 0), work = None,
      pool = replicate psize 0, pool_ind = 0, pool_size = psize, ptype = ty,
      is_async_delete = False, is_ignore = False, next_addr = 0\<rparr>"

section \<open>Sections\<close>

text \<open>The static \<open>parse_header\<close>: the bytes from \<open>p_start\<close> to \<open>p_end\<close>, and the offset of
  the data part behind the header that was read.\<close>

definition parse_header :: "section_header \<Rightarrow> u8 list \<Rightarrow> section_type \<Rightarrow> section_header \<times> nat option" where
  "parse_header hdr bs ty =
     (if length bs < 3 then (hdr, None)
      else
        let h = hdr\<lparr>table_id := bs ! 0,
                    section_syntax_indicator := drop_bit 7 (bs ! 1) AND 0x01,
                    private_indicator := drop_bit 6 (bs ! 1) AND 0x01,
                    section_length := be16 (bs ! 1) (bs ! 2) AND 0x0fff\<rparr>
        in if ty = T_PSISI \<and> section_syntax_indicator h = 0 then (h, Some 3)
           else if length bs < 8 then (h, None)
           else (h\<lparr>table_id_extension := be16 (bs ! 3) (bs ! 4),
                   version_number := drop_bit 1 (bs ! 5) AND 0x1f,
                   current_next_indicator := (bs ! 5) AND 0x01,
                   section_number := bs ! 6,
                   last_section_number := bs ! 7\<rparr>, Some 8))"

text \<open>The constructor: the header is parsed before \<open>type_\<close> is stored, always as
  \<open>EN_SECTION_TYPE__PSISI\<close>.\<close>

definition new_section_info :: "nat \<Rightarrow> nat \<Rightarrow> u8 list \<Rightarrow> section_type \<Rightarrow> section_info" where
  "new_section_info a off bs ty =
     (let (h, d) = parse_header zero_header bs T_PSISI
      in \<lparr>addr = a, sect_hdr = h, raw = off,
          data = (case d of None \<Rightarrow> NullPtr | Some n \<Rightarrow> Off (off + n)),
          tail = off + length bs, sstate = S_INIT, stype = ty\<rparr>)"

text \<open>Header and data part together: \<open>section_length\<close> counts from behind its own field.\<close>

definition total_len :: "section_info \<Rightarrow> nat" where
  "total_len s = unat (section_length (sect_hdr s)) + 3"

definition get_data_part_len :: "section_info \<Rightarrow> u16" where
  "get_data_part_len s =
     (case stype s of
        T_PSISI \<Rightarrow>
          (if section_syntax_indicator (sect_hdr s) = 0 then section_length (sect_hdr s) - 4
           else section_length (sect_hdr s) - 5 - 4)
      | T_DSMCC \<Rightarrow> section_length (sect_hdr s) - 5 - 4)"

definition is_receive_all :: "section_info \<Rightarrow> bool" where
  "is_receive_all s \<longleftrightarrow> \<not> (tail s - raw s < total_len s)"

text \<open>\<open>section_info::truncate\<close> and the number of bytes it cuts off.\<close>

definition truncate_len :: "section_info \<Rightarrow> nat" where
  "truncate_len s = (if is_receive_all s then (tail s - raw s) - total_len s else 0)"

definition truncate_info :: "section_info \<Rightarrow> section_info" where
  "truncate_info s = s\<lparr>tail := tail s - truncate_len s\<rparr>"

definition cleared_info :: section_info where
  "cleared_info = \<lparr>addr = 0, sect_hdr = zero_header, raw = 0, data = NullPtr, tail = 0,
     sstate = S_INIT, stype = T_PSISI\<rparr>"

definition sect_bytes :: "u8 list \<Rightarrow> section_info \<Rightarrow> u8 list" where
  "sect_bytes m s = slice m (raw s) (tail s)"

definition check_crc32 :: "u8 list \<Rightarrow> section_info \<Rightarrow> bool" where
  "check_crc32 m s \<longleftrightarrow> crc32 (slice m (raw s) (raw s + total_len s)) = 0"

text \<open>\<open>operator==\<close>: equal lengths and \<open>memcmp\<close> 0.\<close>

definition same_section :: "u8 list \<Rightarrow> section_info \<Rightarrow> section_info \<Rightarrow> bool" where
  "same_section m s t \<longleftrightarrow> sect_bytes m s = sect_bytes m t"

section \<open>The list\<close>

definition sect_at :: "section_parser \<Rightarrow> nat \<Rightarrow> section_info" where
  "sect_at sp a = (case List.find (\<lambda>s. addr s = a) (sects sp) of None \<Rightarrow> cleared_info | Some s \<Rightarrow> s)"

definition upd_sect :: "nat \<Rightarrow> (section_info \<Rightarrow> section_info) \<Rightarrow> section_parser \<Rightarrow> section_parser" where
  "upd_sect a f sp = sp\<lparr>sects := map (\<lambda>s. if addr s = a then f s else s) (sects sp)\<rparr>"

definition set_sstate :: "section_state \<Rightarrow> section_info \<Rightarrow> section_info" where
  "set_sstate st s = s\<lparr>sstate := st\<rparr>"

definition add_section_list :: "section_info \<Rightarrow> section_parser \<Rightarrow> section_parser" where
  "add_section_list s sp = sp\<lparr>sects := sects sp @ [s], next_addr := next_addr sp + 1\<rparr>"

text \<open>\<open>delete_section_list (p, false)\<close>: the section is taken out of the list by its address.\<close>

fun remove_addr :: "nat \<Rightarrow> section_info list \<Rightarrow> section_info list" where
  "remove_addr a [] = []"
| "remove_addr a (s # ss) = (if addr s = a then ss else s # remove_addr a ss)"

text \<open>The pool is closed up over \<open>[raw, tail)\<close> of a section.\<close>

definition close_gap :: "section_info \<Rightarrow> section_parser \<Rightarrow> section_parser" where
  "close_gap s sp =
     sp\<lparr>pool := block_move (pool sp) (raw s) (tail s) (pool_size sp - tail s),
        pool_ind := pool_ind sp - (tail s - raw s)\<rparr>"

definition detach_section_list :: "nat \<Rightarrow> section_parser \<Rightarrow> section_parser" where
  "detach_section_list a sp =
     (let s = sect_at sp a;
          sp1 = close_gap s (sp\<lparr>sects := remove_addr a (sects sp)\<rparr>)
      in if work sp1 = Some a then sp1\<lparr>work := None\<rparr> else sp1)"

definition detach_all_section_list :: "section_parser \<Rightarrow> section_parser" where
  "detach_all_section_list sp =
     sp\<lparr>sects := [], pool := replicate (pool_size sp) 0, pool_ind := 0, work := None\<rparr>"

fun shift_ptr :: "nat \<Rightarrow> data_ptr \<Rightarrow> data_ptr" where
  "shift_ptr n NullPtr = WildPtr"
| "shift_ptr n (Off d) = Off (d - n)"
| "shift_ptr n WildPtr = WildPtr"

definition shift_section :: "nat \<Rightarrow> section_info \<Rightarrow> section_info" where
  "shift_section n s = s\<lparr>raw := raw s - n, data := shift_ptr n (data s), tail := tail s - n\<rparr>"

definition shift_all_section_list :: "nat \<Rightarrow> section_parser \<Rightarrow> section_parser" where
  "shift_all_section_list n sp = sp\<lparr>sects := map (shift_section n) (sects sp)\<rparr>"

text \<open>\<open>search_section_list\<close>: the first section of the list with the same bytes.\<close>

definition search_section_list :: "section_info \<Rightarrow> section_parser \<Rightarrow> section_info option" where
  "search_section_list s sp = List.find (\<lambda>t. same_section (pool sp) t s) (sects sp)"

text \<open>Taking the first section out of list and pool, shared by the two callers below.\<close>

definition drop_top :: "section_parser \<Rightarrow> section_parser" where
  "drop_top sp =
     (case sects sp of
        [] \<Rightarrow> sp
      | d # ss \<Rightarrow>
          let sp1 = shift_all_section_list (tail d - raw d) (close_gap d (sp\<lparr>sects := ss\<rparr>))
          in if work sp1 = Some (addr d) then sp1\<lparr>work := None\<rparr> else sp1)"

definition check_detach_fifo_section_list :: "section_parser \<Rightarrow> section_parser" where
  "check_detach_fifo_section_list sp =
     (if \<not> list_is_fifo sp then sp
      else if fifo_num sp \<ge> int (length (sects sp)) then sp
      else drop_top sp)"

definition evict_oldest_section :: "section_parser \<Rightarrow> section_parser \<times> bool" where
  "evict_oldest_section sp =
     (case sects sp of
        [] \<Rightarrow> (sp, False)
      | d # ss \<Rightarrow> if sstate d \<noteq> S_COMPLETE then (sp, False) else (drop_top sp, True))"

definition get_latest_complete_section :: "section_parser \<Rightarrow> section_info option" where
  "get_latest_complete_section sp =
     fold (\<lambda>s latest. if sstate s = S_COMPLETE then Some s else latest) (sects sp) None"

section \<open>Attaching payload bytes\<close>

text \<open>\<open>while ((pool_size_ - pool_ind_) < size) if (!evict_oldest_section ()) return NULL\<close>.\<close>

function make_room :: "nat \<Rightarrow> section_parser \<Rightarrow> section_parser \<times> bool" where
  "make_room n sp =
     (if pool_size sp - pool_ind sp < n then
        (case evict_oldest_section sp of
           (sp', False) \<Rightarrow> (sp', False)
         | (sp', True) \<Rightarrow> make_room n sp')
      else (sp, True))"
  by pat_completeness auto
termination
  by (relation "measure (\<lambda>(n, sp). length (sects sp))")
    (auto simp: evict_oldest_section_def drop_top_def shift_all_section_list_def close_gap_def Let_def
       split: list.splits if_splits)

declare make_room.simps [simp del]

definition write_pool :: "u8 list \<Rightarrow> section_parser \<Rightarrow> section_parser" where
  "write_pool bs sp =
     sp\<lparr>pool := take (pool_ind sp) (pool sp) @ bs @ drop (pool_ind sp + length bs) (pool sp),
        pool_ind := pool_ind sp + length bs\<rparr>"

text \<open>\<open>attach_section_list\<close>: the payload goes to the end of the pool; it extends the section
  being received or starts a new one. \<open>add_section_list\<close> cannot fail, so the branch that takes
  the bytes out of the pool again is not reached.\<close>

definition attach_section_list :: "u8 list \<Rightarrow> section_parser \<Rightarrow> section_parser \<times> nat option" where
  "attach_section_list bs sp =
     (if bs = [] then (sp, None)
      else case make_room (length bs) sp of
        (sp1, False) \<Rightarrow> (sp1, None)
      | (sp1, True) \<Rightarrow>
          let p_cur = pool_ind sp1; sp2 = write_pool bs sp1 in
          (case work sp2 of
             Some w \<Rightarrow>
               if sstate (sect_at sp2 w) = S_RECEIVING
               then (upd_sect w (\<lambda>s. s\<lparr>tail := p_cur + length bs\<rparr>) sp2, Some w)
               else (add_section_list (new_section_info (next_addr sp2) p_cur bs (ptype sp2)) sp2,
                     Some (next_addr sp2))
           | None \<Rightarrow>
               (add_section_list (new_section_info (next_addr sp2) p_cur bs (ptype sp2)) sp2,
                Some (next_addr sp2))))"

text \<open>\<open>truncate\<close>: the bytes behind the section are cleared and given back.\<close>

definition truncate_pool :: "nat \<Rightarrow> section_parser \<Rightarrow> section_parser" where
  "truncate_pool n sp =
     sp\<lparr>pool := take (pool_ind sp - n) (pool sp) @ replicate n 0 @ drop (pool_ind sp) (pool sp),
        pool_ind := pool_ind sp - n\<rparr>"

definition truncate_section :: "nat \<Rightarrow> section_parser \<Rightarrow> section_parser" where
  "truncate_section a sp =
     truncate_pool (truncate_len (sect_at sp a)) (upd_sect a truncate_info sp)"

section \<open>Checking a packet\<close>

text \<open>What both paths do with a section whose bytes have all arrived: CRC, truncation to its
  length, search for the same section, completion.\<close>

definition call_completed ::
  "'c listener \<Rightarrow> section_parser \<times> 'c \<Rightarrow> section_parser \<times> 'c" where
  "call_completed L st =
     (case work (fst st) of None \<Rightarrow> st | Some a \<Rightarrow> on_completed L a st)"

definition drop_work :: "nat \<Rightarrow> section_parser \<Rightarrow> section_parser" where
  "drop_work a sp = (detach_section_list a sp)\<lparr>work := None\<rparr>"

definition finish_section ::
  "'c listener \<Rightarrow> nat \<Rightarrow> section_parser \<times> 'c \<Rightarrow> (section_parser \<times> 'c) \<times> check_result" where
  "finish_section L a st =
     (let (sp, c) = st; sp1 = upd_sect a (set_sstate S_RECEIVED) sp in
      if \<not> check_crc32 (pool sp1) (sect_at sp1 a) then ((drop_work a sp1, c), CRC32_ERR)
      else
        let sp2 = truncate_section a sp1 in
        case search_section_list (sect_at sp2 a) sp2 of
          Some f \<Rightarrow>
            if sstate f = S_COMPLETE then ((drop_work a sp2, c), COMPLETED_ALREADY)
            else (call_completed L
                    (check_detach_fifo_section_list (upd_sect a (set_sstate S_COMPLETE) sp2), c),
                  COMPLETED)
        | None \<Rightarrow>
            (call_completed L
               (check_detach_fifo_section_list (upd_sect a (set_sstate S_COMPLETE) sp2), c),
             COMPLETED))"

definition start_over :: "section_parser \<Rightarrow> section_parser" where
  "start_over sp =
     (case work sp of
        None \<Rightarrow> sp
      | Some w \<Rightarrow>
          if sstate (sect_at sp w) = S_INIT \<or> sstate (sect_at sp w) = S_RECEIVING
          then drop_work w sp else sp)"

text \<open>The loop over the sections of one payload: \<open>bs\<close> are the \<open>size\<close> bytes at \<open>p\<close>.\<close>

function first_loop ::
  "'c listener \<Rightarrow> u8 list \<Rightarrow> check_result \<Rightarrow> bool \<Rightarrow> section_parser \<times> 'c
    \<Rightarrow> (section_parser \<times> 'c) \<times> check_result" where
  "first_loop L bs r once (sp, c) =
     (if bs = [] \<or> hd bs = 0xff then ((sp, c), if once then COMPLETED else r)
      else
        case attach_section_list bs (start_over sp) of
          (sp1, None) \<Rightarrow> ((sp1, c), INVALID)
        | (sp1, Some a) \<Rightarrow>
            let sp2 = sp1\<lparr>work := Some a\<rparr>; s = sect_at sp2 a; rest = drop (total_len s) bs in
            if \<not> on_started L s then
              first_loop L rest IGNORE once ((drop_work a sp2)\<lparr>is_ignore := True\<rparr>, c)
            else
              let sp3 = sp2\<lparr>is_ignore := False\<rparr> in
              if \<not> is_receive_all s then
                ((upd_sect a (set_sstate S_RECEIVING) sp3, c),
                 if once then COMPLETED else RECEIVING)
              else
                let (st4, r4) = finish_section L a (sp3, c) in
                first_loop L rest r4 (once \<or> r4 = COMPLETED)
                  ((fst st4)\<lparr>work := None\<rparr>, snd st4))"
  by pat_completeness auto
termination
  by (relation "measure (\<lambda>(L, bs, r, once, st). length bs)") (auto simp: total_len_def)

declare first_loop.simps [simp del]

definition check_section_follow ::
  "'c listener \<Rightarrow> u8 list \<Rightarrow> section_parser \<times> 'c \<Rightarrow> (section_parser \<times> 'c) \<times> check_result" where
  "check_section_follow L payload st =
     (let (sp, c) = st in
      if is_ignore sp then (st, IGNORE)
      else if payload = [] then (st, INVALID)
      else case work sp of
        None \<Rightarrow> (st, INVALID)
      | Some w \<Rightarrow>
          if sstate (sect_at sp w) \<noteq> S_RECEIVING then (st, INVALID)
          else case attach_section_list payload sp of
            (sp1, None) \<Rightarrow> ((sp1, c), INVALID)
          | (sp1, Some a) \<Rightarrow>
              if work sp1 \<noteq> Some a then ((sp1, c), INVALID)
              else if \<not> is_receive_all (sect_at sp1 a) then
                ((upd_sect a (set_sstate S_RECEIVING) sp1, c), RECEIVING)
              else finish_section L a (sp1, c))"

definition check_section_first ::
  "'c listener \<Rightarrow> u8 list \<Rightarrow> section_parser \<times> 'c \<Rightarrow> (section_parser \<times> 'c) \<times> check_result" where
  "check_section_first L payload st =
     (if payload = [] then (st, INVALID)
      else
        let pointer_field = unat (hd payload) in
        if 1 + pointer_field \<ge> length payload then (st, INVALID)
        else if pointer_field > 0 then
          (case check_section_follow L (take pointer_field (tl payload)) st of
             (st1, chk) \<Rightarrow>
               if chk = RECEIVING \<or> chk = INVALID then (st1, INVALID)
               else first_loop L (drop pointer_field (tl payload)) COMPLETED False st1)
        else first_loop L (tl payload) COMPLETED False st)"

text \<open>\<open>check_section\<close>: the two header fields it reads, the payload, the parser.\<close>

definition check_section ::
  "'c listener \<Rightarrow> u16 \<Rightarrow> u8 \<Rightarrow> u8 list \<Rightarrow> section_parser \<times> 'c
    \<Rightarrow> (section_parser \<times> 'c) \<times> check_result" where
  "check_section L pid pusi payload st =
     (if payload = [] then (st, INVALID)
      else
        let st1 = ((fst st)\<lparr>parser_pid := pid\<rparr>, snd st) in
        if pusi = 0 then check_section_follow L payload st1
        else check_section_first L payload st1)"

definition check_async_delete :: "section_parser \<Rightarrow> section_parser" where
  "check_async_delete sp =
     (if is_async_delete sp then (detach_all_section_list sp)\<lparr>is_async_delete := False\<rparr> else sp)"

definition async_delete :: "section_parser \<Rightarrow> section_parser" where
  "async_delete sp = sp\<lparr>is_async_delete := True\<rparr>"

text \<open>The virtual methods of the base class.\<close>

definition base_listener :: "'c listener" where
  "base_listener = \<lparr>on_started = (\<lambda>s. True), on_completed = (\<lambda>a st. st)\<rparr>"

end
