(* ===== verification/Section_Layout.thy ===== *)
theory Section_Layout
  imports Section_Parser
begin

text \<open>
  The layout invariant of the section pool: the sections of the list lie in the pool one after
  the other from offset 0, their addresses are distinct, nothing reaches past the pool. One
  lemma per list and pool operation of \<open>section_parser\<close>, with what it does to the bytes of
  every section.
\<close>

fun laid_out :: "nat \<Rightarrow> section_info list \<Rightarrow> nat \<Rightarrow> bool" where
  "laid_out off [] e \<longleftrightarrow> off = e"
| "laid_out off (s # ss) e \<longleftrightarrow> raw s = off \<and> raw s < tail s \<and> laid_out (tail s) ss e"

definition wf_parser :: "section_parser \<Rightarrow> bool" where
  "wf_parser sp \<longleftrightarrow>
     length (pool sp) = pool_size sp \<and> laid_out 0 (sects sp) (pool_ind sp) \<and>
     pool_ind sp \<le> pool_size sp \<and> distinct (map addr (sects sp)) \<and>
     (\<forall>s \<in> set (sects sp). addr s < next_addr sp) \<and>
     (list_is_fifo sp \<longrightarrow> 0 < fifo_num sp)"

text \<open>The bytes of all sections, in list order.\<close>

definition all_bytes :: "section_parser \<Rightarrow> u8 list list" where
  "all_bytes sp = map (sect_bytes (pool sp)) (sects sp)"

lemma laid_out_append:
  "laid_out o1 (ss @ ts) e \<longleftrightarrow> (\<exists>m. laid_out o1 ss m \<and> laid_out m ts e)"
  by (induction ss arbitrary: o1) auto

lemma laid_out_le: "laid_out off ss e \<Longrightarrow> off \<le> e"
  by (induction ss arbitrary: off) fastforce+

lemma laid_out_bounds:
  "\<lbrakk>laid_out off ss e; s \<in> set ss\<rbrakk> \<Longrightarrow> off \<le> raw s \<and> raw s < tail s \<and> tail s \<le> e"
proof (induction ss arbitrary: off)
  case (Cons t ss)
  then show ?case
    using laid_out_le [of "tail t" ss e] by fastforce
qed simp

lemma laid_out_shift:
  "\<lbrakk>laid_out off ss e; n \<le> off\<rbrakk> \<Longrightarrow> laid_out (off - n) (map (shift_section n) ss) (e - n)"
proof (induction ss arbitrary: off)
  case Nil
  then show ?case by simp
next
  case (Cons t ss)
  then have "laid_out (tail t - n) (map (shift_section n) ss) (e - n)"
    by (intro Cons.IH) auto
  moreover have "raw (shift_section n t) = raw t - n" "tail (shift_section n t) = tail t - n"
    by (simp_all add: shift_section_def)
  ultimately show ?case using Cons.prems by auto
qed

text \<open>No list operation changes the FIFO settings or the size of the pool.\<close>

lemma fifo_frames [frames, simp]:
  "list_is_fifo (detach_section_list a sp) = list_is_fifo sp"
  "fifo_num (detach_section_list a sp) = fifo_num sp"
  "list_is_fifo (drop_top sp) = list_is_fifo sp" "fifo_num (drop_top sp) = fifo_num sp"
  "list_is_fifo (truncate_section a sp) = list_is_fifo sp"
  "fifo_num (truncate_section a sp) = fifo_num sp"
  "list_is_fifo (write_pool bs sp) = list_is_fifo sp" "fifo_num (write_pool bs sp) = fifo_num sp"
  "list_is_fifo (upd_sect a f sp) = list_is_fifo sp" "pool_size (upd_sect a f sp) = pool_size sp"
  "is_ignore (upd_sect a f sp) = is_ignore sp"
  "pool_size (detach_section_list a sp) = pool_size sp"
  "pool_size (truncate_section a sp) = pool_size sp"
  by (auto simp: detach_section_list_def drop_top_def Let_def close_gap_def write_pool_def
      shift_all_section_list_def truncate_section_def truncate_pool_def upd_sect_def split: list.splits)

section \<open>The last section of the list\<close>

lemma wf_lastD:
  assumes "wf_parser sp" and "sects sp = ss @ [s]"
  shows "laid_out 0 ss (raw s)" "raw s < tail s" "tail s = pool_ind sp"
    "pool_ind sp \<le> pool_size sp" "length (pool sp) = pool_size sp"
    "addr s \<notin> addr ` set ss" "distinct (map addr ss)" "addr s < next_addr sp"
    "\<forall>t \<in> set ss. addr t < next_addr sp" "list_is_fifo sp \<longrightarrow> 0 < fifo_num sp"
  using assms by (auto simp: wf_parser_def laid_out_append)

lemma find_addr_None: "a \<notin> addr ` set ss \<Longrightarrow> List.find (\<lambda>s. addr s = a) ss = None"
  by (induction ss) auto

lemma find_append:
  "List.find P (xs @ ys) = (case List.find P xs of None \<Rightarrow> List.find P ys | Some x \<Rightarrow> Some x)"
  by (induction xs) auto

lemma sect_at_last:
  "\<lbrakk>sects sp = ss @ [s]; addr s \<notin> addr ` set ss; a = addr s\<rbrakk> \<Longrightarrow> sect_at sp a = s"
  by (simp add: sect_at_def find_append find_addr_None)

lemma upd_sect_last:
  "\<lbrakk>sects sp = ss @ [s]; addr s \<notin> addr ` set ss; a = addr s\<rbrakk> \<Longrightarrow>
   upd_sect a f sp = sp\<lparr>sects := ss @ [f s]\<rparr>"
proof -
  assume *: "sects sp = ss @ [s]" "addr s \<notin> addr ` set ss" "a = addr s"
  then have "map (\<lambda>t. if addr t = a then f t else t) ss = ss"
    by (intro map_idI) (metis imageI)
  with * show ?thesis by (simp add: upd_sect_def)
qed

lemma remove_addr_last: "addr s \<notin> addr ` set ss \<Longrightarrow> remove_addr (addr s) (ss @ [s]) = ss"
  by (induction ss) auto

lemma sect_bytes_before:
  assumes "laid_out 0 ss e" "t \<in> set ss" "e \<le> k"
    and "src + n \<le> length m" "k + n \<le> length m"
  shows "sect_bytes (block_move m k src n) t = sect_bytes m t"
  using laid_out_bounds [OF assms(1,2)] assms by (simp add: sect_bytes_def slice_block_move_before)

text \<open>Detaching the last section takes it out of list and pool and leaves every other one
  alone.\<close>

lemma detach_last:
  assumes wf: "wf_parser sp" and ss: "sects sp = ss @ [s]" and a: "a = addr s"
  shows "sects (detach_section_list a sp) = ss"
    and "wf_parser (detach_section_list a sp)"
    and "\<forall>t \<in> set ss. sect_bytes (pool (detach_section_list a sp)) t = sect_bytes (pool sp) t"
    and "work (detach_section_list a sp) = (if work sp = Some a then None else work sp)"
    and "pool_ind (detach_section_list a sp) = raw s"
    and "pool_size (detach_section_list a sp) = pool_size sp"
proof -
  note d = wf_lastD [OF wf ss]
  have at: "sect_at sp a = s" by (rule sect_at_last [OF ss]) (use d a in auto)
  have rm: "remove_addr a (sects sp) = ss" using remove_addr_last d ss a by simp
  let ?sp = "detach_section_list a sp"
  have sects: "sects ?sp = ss" and work: "work ?sp = (if work sp = Some a then None else work sp)"
    and pool: "pool ?sp = block_move (pool sp) (raw s) (tail s) (pool_size sp - tail s)"
    and ind: "pool_ind ?sp = raw s" and size: "pool_size ?sp = pool_size sp"
    and nxt: "next_addr ?sp = next_addr sp"
    using d by (auto simp: detach_section_list_def Let_def at rm close_gap_def)
  show "sects ?sp = ss" "work ?sp = (if work sp = Some a then None else work sp)"
    "pool_ind ?sp = raw s" "pool_size ?sp = pool_size sp"
    by (fact sects work ind size)+
  show "\<forall>t \<in> set ss. sect_bytes (pool ?sp) t = sect_bytes (pool sp) t"
    unfolding pool using d by (intro ballI sect_bytes_before [OF d(1)]) auto
  show "wf_parser ?sp"
    unfolding wf_parser_def sects pool ind size nxt using d by auto
qed

section \<open>The first section of the list\<close>

lemma sect_bytes_shift:
  assumes "laid_out off ss e" "t \<in> set ss" "e \<le> length m"
  shows "sect_bytes (block_move m 0 off (length m - off)) (shift_section off t) = sect_bytes m t"
proof -
  have b: "off \<le> raw t" "raw t < tail t" "tail t \<le> e"
    using laid_out_bounds [OF assms(1,2)] by auto
  then have "slice (block_move m 0 off (length m - off)) (raw t - (off - 0)) (tail t - (off - 0))
      = slice m (raw t) (tail t)"
    using assms(3) by (intro slice_block_move_moved) auto
  then show ?thesis by (simp add: sect_bytes_def shift_section_def)
qed

lemma drop_top_Cons:
  assumes wf: "wf_parser sp" and ss: "sects sp = d # ss"
  shows "sects (drop_top sp) = map (shift_section (tail d)) ss"
    and "wf_parser (drop_top sp)"
    and "\<forall>t \<in> set ss. sect_bytes (pool (drop_top sp)) (shift_section (tail d) t) = sect_bytes (pool sp) t"
    and "work (drop_top sp) = (if work sp = Some (addr d) then None else work sp)"
    and "pool_size (drop_top sp) = pool_size sp"
proof -
  have len: "length (pool sp) = pool_size sp" and lay: "raw d = 0" "0 < tail d"
    "laid_out (tail d) ss (pool_ind sp)" and ind: "pool_ind sp \<le> pool_size sp"
    and dist: "distinct (map addr ss)" and nxt: "\<forall>s \<in> set ss. addr s < next_addr sp"
    and fifo: "list_is_fifo sp \<longrightarrow> 0 < fifo_num sp"
    using wf ss by (auto simp: wf_parser_def)
  have td: "tail d \<le> pool_ind sp" using lay(3) by (rule laid_out_le)
  let ?sp = "drop_top sp"
  have sects: "sects ?sp = map (shift_section (tail d)) ss"
    and work: "work ?sp = (if work sp = Some (addr d) then None else work sp)"
    and pool: "pool ?sp = block_move (pool sp) 0 (tail d) (length (pool sp) - tail d)"
    and pind: "pool_ind ?sp = pool_ind sp - tail d" and size: "pool_size ?sp = pool_size sp"
    and next_a: "next_addr ?sp = next_addr sp"
    using ss lay len by (auto simp: drop_top_def Let_def close_gap_def shift_all_section_list_def)
  show "sects ?sp = map (shift_section (tail d)) ss"
    "work ?sp = (if work sp = Some (addr d) then None else work sp)" "pool_size ?sp = pool_size sp"
    by (fact sects work size)+
  show "\<forall>t \<in> set ss. sect_bytes (pool ?sp) (shift_section (tail d) t) = sect_bytes (pool sp) t"
    unfolding pool using lay ind len by (intro ballI sect_bytes_shift [OF lay(3)]) auto
  have addrs: "map addr (map (shift_section (tail d)) ss) = map addr ss"
    by (simp add: shift_section_def)
  show "wf_parser ?sp"
    unfolding wf_parser_def sects pool pind size next_a addrs
    using laid_out_shift [OF lay(3) order_refl] td ind len dist nxt fifo
    by (auto simp: shift_section_def)
qed

section \<open>Writing behind the last section\<close>

lemma write_pool_simps [simp]:
  "sects (write_pool bs sp) = sects sp" "work (write_pool bs sp) = work sp"
  "pool_ind (write_pool bs sp) = pool_ind sp + length bs"
  "pool_size (write_pool bs sp) = pool_size sp" "next_addr (write_pool bs sp) = next_addr sp"
  "ptype (write_pool bs sp) = ptype sp" "is_ignore (write_pool bs sp) = is_ignore sp"
  by (simp_all add: write_pool_def)

lemma slice_write_before:
  "\<lbrakk>t \<le> k; k \<le> length m\<rbrakk> \<Longrightarrow> slice (take k m @ bs @ rest) f t = slice m f t"
  using slice_append_left [of t "take k m" "bs @ rest" f] by (simp add: slice_take)

lemma slice_write_at: "k \<le> length m \<Longrightarrow> slice (take k m @ bs @ rest) k (k + length bs) = bs"
  by (simp add: slice_def)

lemma sect_bytes_write:
  assumes "wf_parser sp" "t \<in> set (sects sp)"
  shows "sect_bytes (pool (write_pool bs sp)) t = sect_bytes (pool sp) t"
  using assms laid_out_bounds [of 0 "sects sp" "pool_ind sp" t]
  by (simp add: wf_parser_def write_pool_def sect_bytes_def slice_write_before)

lemma slice_write_new:
  assumes "wf_parser sp"
  shows "slice (pool (write_pool bs sp)) (pool_ind sp) (pool_ind sp + length bs) = bs"
  using assms by (simp add: wf_parser_def write_pool_def slice_write_at)

lemma length_write_pool:
  "\<lbrakk>wf_parser sp; length bs \<le> pool_size sp - pool_ind sp\<rbrakk> \<Longrightarrow>
   length (pool (write_pool bs sp)) = pool_size sp"
  by (auto simp: wf_parser_def write_pool_def)

section \<open>Truncating the last section\<close>

lemma slice_truncate_before:
  "\<lbrakk>t \<le> k; k \<le> length m\<rbrakk> \<Longrightarrow> slice (take k m @ rest) f t = slice m f t"
  using slice_write_before [of t k m rest "[]" f] by simp

lemma truncate_section_last:
  assumes wf: "wf_parser sp" and ss: "sects sp = ss @ [s]" and a: "a = addr s"
    and all: "is_receive_all s"
  shows "sects (truncate_section a sp) = ss @ [truncate_info s]"
    and "wf_parser (truncate_section a sp)"
    and "\<forall>t \<in> set ss. sect_bytes (pool (truncate_section a sp)) t = sect_bytes (pool sp) t"
    and "sect_bytes (pool (truncate_section a sp)) (truncate_info s)
          = slice (pool sp) (raw s) (raw s + total_len s)"
    and "work (truncate_section a sp) = work sp"
    and "pool_size (truncate_section a sp) = pool_size sp"
proof -
  note d = wf_lastD [OF wf ss]
  have at: "sect_at sp a = s" by (rule sect_at_last [OF ss]) (use d a in auto)
  have up: "upd_sect a truncate_info sp = sp\<lparr>sects := ss @ [truncate_info s]\<rparr>"
    by (rule upd_sect_last [OF ss]) (use d a in auto)
  have len: "total_len s \<le> tail s - raw s" "0 < total_len s"
    using all by (auto simp: is_receive_all_def total_len_def)
  have tl: "tail (truncate_info s) = raw s + total_len s" "raw (truncate_info s) = raw s"
    "addr (truncate_info s) = addr s"
    using len all d(2) by (auto simp: truncate_info_def truncate_len_def)
  have cut: "pool_ind sp - truncate_len s = raw s + total_len s" "truncate_len s \<le> pool_ind sp"
    using len all d by (auto simp: truncate_len_def)
  let ?sp = "truncate_section a sp"
  have pool: "pool ?sp = take (raw s + total_len s) (pool sp) @
      (replicate (truncate_len s) 0 @ drop (pool_ind sp) (pool sp))"
    and ind: "pool_ind ?sp = raw s + total_len s"
    and sects: "sects ?sp = ss @ [truncate_info s]" and work: "work ?sp = work sp"
    and size: "pool_size ?sp = pool_size sp" and nxt: "next_addr ?sp = next_addr sp"
    by (simp_all add: truncate_section_def at up truncate_pool_def cut)
  show "sects ?sp = ss @ [truncate_info s]" "work ?sp = work sp" "pool_size ?sp = pool_size sp"
    by (fact sects work size)+
  have k: "raw s + total_len s \<le> length (pool sp)" using len d by auto
  show "\<forall>t \<in> set ss. sect_bytes (pool ?sp) t = sect_bytes (pool sp) t"
    unfolding pool sect_bytes_def using laid_out_bounds [OF d(1)] k
    by (auto intro!: slice_truncate_before intro: trans_le_add1)
  show "sect_bytes (pool ?sp) (truncate_info s) = slice (pool sp) (raw s) (raw s + total_len s)"
    unfolding pool sect_bytes_def tl using k by (intro slice_truncate_before) auto
  have "length (pool ?sp) = pool_size sp"
    unfolding pool using k d cut by simp
  then show "wf_parser ?sp"
    unfolding wf_parser_def sects ind size nxt
    using d len k tl by (auto simp: laid_out_append)
qed

end
