(* ===== verification/Section_Inv.thy ===== *)
theory Section_Inv
  imports Section_Layout
begin

text \<open>
  What \<open>section_parser\<close> holds, without pool and offsets: a snapshot per section (address,
  header, state, bytes). The operations of \<open>Section_Parser\<close> act on the list of snapshots as
  on a queue: new bytes at the end, eviction at the front. The parser invariant is stated on
  the snapshots, and every operation is shown to keep it.
\<close>

section \<open>Snapshots\<close>

record shot =
  shot_addr :: nat
  shot_hdr :: section_header
  shot_state :: section_state
  shot_bytes :: "u8 list"

definition shot_of :: "u8 list \<Rightarrow> section_info \<Rightarrow> shot" where
  "shot_of m s = \<lparr>shot_addr = addr s, shot_hdr = sect_hdr s, shot_state = sstate s,
     shot_bytes = sect_bytes m s\<rparr>"

definition shots :: "section_parser \<Rightarrow> shot list" where
  "shots sp = map (shot_of (pool sp)) (sects sp)"

definition shot_total :: "shot \<Rightarrow> nat" where
  "shot_total x = unat (section_length (shot_hdr x)) + 3"

lemma shot_of_sel [simp]:
  "shot_addr (shot_of m s) = addr s" "shot_hdr (shot_of m s) = sect_hdr s"
  "shot_state (shot_of m s) = sstate s" "shot_bytes (shot_of m s) = sect_bytes m s"
  by (simp_all add: shot_of_def)

lemma shot_total_of [simp]: "shot_total (shot_of m s) = total_len s"
  by (simp add: shot_total_def total_len_def)

lemma shots_eq_append:
  assumes "sects sp = ss @ [s]"
  shows "shots sp = map (shot_of (pool sp)) ss @ [shot_of (pool sp) s]"
  using assms by (simp add: shots_def)

lemma shots_appendE:
  assumes "shots sp = xs @ [x]"
  obtains ss s where "sects sp = ss @ [s]" "xs = map (shot_of (pool sp)) ss"
    "x = shot_of (pool sp) s"
proof -
  have "sects sp \<noteq> []" using assms by (auto simp: shots_def)
  then obtain ss s where ss: "sects sp = ss @ [s]" by (metis rev_exhaust)
  with assms have "xs = map (shot_of (pool sp)) ss" "x = shot_of (pool sp) s"
    by (simp_all add: shots_def)
  with ss show ?thesis by (rule that)
qed

lemma map_shot_of_cong:
  "\<forall>t \<in> set ss. sect_bytes m t = sect_bytes m' t \<Longrightarrow> map (shot_of m) ss = map (shot_of m') ss"
  by (simp add: shot_of_def)

lemma length_sect_bytes:
  "\<lbrakk>wf_parser sp; s \<in> set (sects sp)\<rbrakk> \<Longrightarrow> length (sect_bytes (pool sp) s) = tail s - raw s"
  using laid_out_bounds [of 0 "sects sp" "pool_ind sp" s]
  by (simp add: wf_parser_def sect_bytes_def length_slice)

lemma is_receive_all_shot:
  "\<lbrakk>wf_parser sp; s \<in> set (sects sp)\<rbrakk> \<Longrightarrow>
   is_receive_all s \<longleftrightarrow> shot_total (shot_of (pool sp) s) \<le> length (shot_bytes (shot_of (pool sp) s))"
  by (auto simp: is_receive_all_def length_sect_bytes)

section \<open>Operations on snapshots\<close>

lemma shots_drop_top:
  assumes wf: "wf_parser sp"
  shows "shots (drop_top sp) = tl (shots sp)"
proof (cases "sects sp")
  case Nil
  then show ?thesis by (simp add: drop_top_def shots_def)
next
  case (Cons d ss)
  note dt = drop_top_Cons [OF wf Cons]
  have "shot_of (pool (drop_top sp)) (shift_section (tail d) t) = shot_of (pool sp) t"
    if "t \<in> set ss" for t
    using dt(3) that by (simp add: shot_of_def) (simp add: shift_section_def)
  then show ?thesis
    using dt(1) Cons by (simp add: shots_def)
qed

lemma wf_drop_top [keeps]: "wf_parser sp \<Longrightarrow> wf_parser (drop_top sp)"
  using drop_top_Cons(2) [of sp] by (cases "sects sp") (auto simp: drop_top_def)

lemma work_drop_top:
  assumes "wf_parser sp"
  shows "work (drop_top sp) =
    (if shots sp \<noteq> [] \<and> work sp = Some (shot_addr (hd (shots sp))) then None else work sp)"
  using drop_top_Cons(4) [OF assms] by (cases "sects sp") (auto simp: drop_top_def shots_def)

lemma drop_top_frames [frames, simp]:
  "pool_size (drop_top sp) = pool_size sp" "next_addr (drop_top sp) = next_addr sp"
  "ptype (drop_top sp) = ptype sp" "is_ignore (drop_top sp) = is_ignore sp"
  "parser_pid (drop_top sp) = parser_pid sp"
  by (auto simp: drop_top_def Let_def close_gap_def shift_all_section_list_def split: list.splits)

lemma shots_detach:
  assumes wf: "wf_parser sp" and x: "shots sp = xs @ [x]" and a: "a = shot_addr x"
  shows "shots (detach_section_list a sp) = xs" "wf_parser (detach_section_list a sp)"
    "work (detach_section_list a sp) = (if work sp = Some a then None else work sp)"
proof -
  obtain ss s where ss: "sects sp = ss @ [s]" and xs: "xs = map (shot_of (pool sp)) ss"
    and xe: "x = shot_of (pool sp) s" using x by (rule shots_appendE)
  then have a': "a = addr s" using a by simp
  note d = detach_last [OF wf ss a']
  show "shots (detach_section_list a sp) = xs"
    unfolding shots_def d(1) xs using d(3) by (rule map_shot_of_cong)
  show "wf_parser (detach_section_list a sp)"
    "work (detach_section_list a sp) = (if work sp = Some a then None else work sp)"
    by (fact d)+
qed

lemma shots_upd_last:
  assumes wf: "wf_parser sp" and x: "shots sp = xs @ [x]" and a: "a = shot_addr x"
  shows "shots (upd_sect a (set_sstate st) sp) = xs @ [x\<lparr>shot_state := st\<rparr>]"
    "wf_parser (upd_sect a (set_sstate st) sp)"
    "work (upd_sect a (set_sstate st) sp) = work sp"
proof -
  obtain ss s where ss: "sects sp = ss @ [s]" and xs: "xs = map (shot_of (pool sp)) ss"
    and xe: "x = shot_of (pool sp) s" using x by (rule shots_appendE)
  note d = wf_lastD [OF wf ss]
  have up: "upd_sect a (set_sstate st) sp = sp\<lparr>sects := ss @ [set_sstate st s]\<rparr>"
    by (rule upd_sect_last [OF ss]) (use d xe a in auto)
  show "shots (upd_sect a (set_sstate st) sp) = xs @ [x\<lparr>shot_state := st\<rparr>]"
    by (simp add: up shots_def xs xe shot_of_def set_sstate_def sect_bytes_def)
  show "wf_parser (upd_sect a (set_sstate st) sp)"
    using wf ss by (simp add: up wf_parser_def set_sstate_def laid_out_append)
  show "work (upd_sect a (set_sstate st) sp) = work sp" by (simp add: up)
qed

lemma sect_at_shot:
  assumes wf: "wf_parser sp" and x: "shots sp = xs @ [x]" and a: "a = shot_addr x"
  shows "shot_of (pool sp) (sect_at sp a) = x" "sect_at sp a \<in> set (sects sp)"
    "sects sp = butlast (sects sp) @ [sect_at sp a]"
proof -
  obtain ss s where ss: "sects sp = ss @ [s]" and xe: "x = shot_of (pool sp) s"
    using x by (rule shots_appendE)
  note d = wf_lastD [OF wf ss]
  have "sect_at sp a = s" by (rule sect_at_last [OF ss]) (use d xe a in auto)
  then show "shot_of (pool sp) (sect_at sp a) = x" "sect_at sp a \<in> set (sects sp)"
    "sects sp = butlast (sects sp) @ [sect_at sp a]"
    using ss xe by auto
qed

lemma shots_truncate:
  assumes wf: "wf_parser sp" and x: "shots sp = xs @ [x]" and a: "a = shot_addr x"
    and all: "shot_total x \<le> length (shot_bytes x)"
  shows "shots (truncate_section a sp) = xs @ [x\<lparr>shot_bytes := take (shot_total x) (shot_bytes x)\<rparr>]"
    "wf_parser (truncate_section a sp)" "work (truncate_section a sp) = work sp"
proof -
  obtain ss s where ss: "sects sp = ss @ [s]" and xs: "xs = map (shot_of (pool sp)) ss"
    and xe: "x = shot_of (pool sp) s" using x by (rule shots_appendE)
  have a': "a = addr s" using a xe by simp
  have ra: "is_receive_all s"
    using is_receive_all_shot [OF wf, of s] ss all xe by simp
  note t = truncate_section_last [OF wf ss a' ra]
  have len: "total_len s \<le> tail s - raw s" using ra by (simp add: is_receive_all_def)
  have cut: "slice (pool sp) (raw s) (raw s + total_len s) = take (total_len s) (sect_bytes (pool sp) s)"
    using len by (simp add: sect_bytes_def slice_def min_def)
  have info: "addr (truncate_info s) = addr s" "sect_hdr (truncate_info s) = sect_hdr s"
    "sstate (truncate_info s) = sstate s" by (simp_all add: truncate_info_def)
  have "map (shot_of (pool (truncate_section a sp))) ss = xs"
    unfolding xs using t(3) by (rule map_shot_of_cong)
  moreover have "shot_of (pool (truncate_section a sp)) (truncate_info s)
      = (shot_of (pool sp) s)\<lparr>shot_bytes := take (total_len s) (sect_bytes (pool sp) s)\<rparr>"
    by (simp add: shot_of_def info t(4) cut)
  then have "shot_of (pool (truncate_section a sp)) (truncate_info s)
      = x\<lparr>shot_bytes := take (shot_total x) (shot_bytes x)\<rparr>"
    by (simp add: xe)
  ultimately show "shots (truncate_section a sp)
      = xs @ [x\<lparr>shot_bytes := take (shot_total x) (shot_bytes x)\<rparr>]"
    by (simp add: shots_def t(1))
  show "wf_parser (truncate_section a sp)" "work (truncate_section a sp) = work sp" by (fact t)+
qed

lemma check_crc32_shot:
  assumes wf: "wf_parser sp" and x: "shots sp = xs @ [x]" and a: "a = shot_addr x"
    and all: "shot_total x \<le> length (shot_bytes x)"
  shows "check_crc32 (pool sp) (sect_at sp a)
    \<longleftrightarrow> crc32 (take (shot_total x) (shot_bytes x)) = 0"
proof -
  note s = sect_at_shot [OF wf x a]
  have "total_len (sect_at sp a) \<le> tail (sect_at sp a) - raw (sect_at sp a)"
    using all s(1) length_sect_bytes [OF wf s(2)] by auto
  then have "slice (pool sp) (raw (sect_at sp a)) (raw (sect_at sp a) + total_len (sect_at sp a))
      = take (shot_total x) (shot_bytes x)"
    unfolding s(1) [symmetric] by (simp add: sect_bytes_def slice_def min_def)
  then show ?thesis by (simp add: check_crc32_def)
qed

section \<open>Making room and attaching\<close>

lemma evict_shots:
  assumes wf: "wf_parser sp" and ev: "evict_oldest_section sp = (sp', b)"
  shows "b \<Longrightarrow> sp' = drop_top sp \<and> shots sp \<noteq> [] \<and> shot_state (hd (shots sp)) = S_COMPLETE"
    and "\<not> b \<Longrightarrow> sp' = sp \<and> (shots sp = [] \<or> shot_state (hd (shots sp)) \<noteq> S_COMPLETE)"
  using ev by (auto simp: evict_oldest_section_def shots_def split: list.splits if_splits)

text \<open>\<open>make_room\<close> has evicted the first \<open>k\<close> sections, all of them complete.\<close>

definition room_made :: "nat \<Rightarrow> section_parser \<Rightarrow> section_parser \<Rightarrow> bool \<Rightarrow> nat \<Rightarrow> bool" where
  "room_made n sp sp' b k \<longleftrightarrow>
     wf_parser sp' \<and> shots sp' = drop k (shots sp) \<and> k \<le> length (shots sp) \<and>
     list_all (\<lambda>x. shot_state x = S_COMPLETE) (take k (shots sp)) \<and>
     work sp' = (if work sp \<in> Some ` shot_addr ` set (take k (shots sp)) then None else work sp) \<and>
     pool_size sp' = pool_size sp \<and> next_addr sp' = next_addr sp \<and> ptype sp' = ptype sp \<and>
     is_ignore sp' = is_ignore sp \<and>
     (if b then n \<le> pool_size sp' - pool_ind sp'
      else pool_size sp' - pool_ind sp' < n \<and>
        (shots sp' = [] \<or> shot_state (hd (shots sp')) \<noteq> S_COMPLETE))"

lemma room_madeD: "room_made n sp sp' True k \<Longrightarrow> n \<le> pool_size sp' - pool_ind sp'"
  unfolding room_made_def if_True by (elim conjE)

lemma room_not_madeD:
  assumes "room_made n sp sp' False k"
  shows "pool_size sp' - pool_ind sp' < n" "shots sp' = [] \<or> shot_state (hd (shots sp')) \<noteq> S_COMPLETE"
  using assms unfolding room_made_def if_False by auto

lemma evict_frames:
  "evict_oldest_section sp = (sp', b) \<Longrightarrow> list_is_fifo sp' = list_is_fifo sp \<and> pool_size sp' = pool_size sp"
  by (auto simp: evict_oldest_section_def split: list.splits if_splits)

lemma make_room_frames:
  "make_room n sp = (sp', b) \<Longrightarrow> list_is_fifo sp' = list_is_fifo sp \<and> pool_size sp' = pool_size sp"
proof (induction n sp arbitrary: sp' b rule: make_room.induct)
  case (1 n sp)
  note step = 1(2) [unfolded make_room.simps [of n sp]]
  show ?case
  proof (cases "pool_size sp - pool_ind sp < n")
    case True
    obtain sp1 b1 where ev: "evict_oldest_section sp = (sp1, b1)" by fastforce
    show ?thesis
    proof (cases b1)
      case t: True
      then have "make_room n sp1 = (sp', b)" using step True ev by simp
      then show ?thesis using 1(1) [OF True ev [symmetric]] t evict_frames [OF ev] by simp
    qed (use step True ev evict_frames [OF ev] in simp)
  qed (use step in simp)
qed

lemma attach_frames:
  "attach_section_list bs sp = (sp', r) \<Longrightarrow> list_is_fifo sp' = list_is_fifo sp \<and> pool_size sp' = pool_size sp"
  by (auto simp: attach_section_list_def Let_def add_section_list_def
      split: if_splits prod.splits bool.splits option.splits dest!: make_room_frames)

lemma laid_out_sum: "laid_out off ss e \<Longrightarrow> e = off + sum_list (map (\<lambda>s. tail s - raw s) ss)"
proof (induction ss arbitrary: off)
  case (Cons s ss)
  then show ?case using laid_out_bounds [of off "s # ss" e s] by fastforce
qed simp

text \<open>The fill level of the pool is the number of bytes of all sections.\<close>

lemma pool_ind_shots:
  assumes "wf_parser sp"
  shows "pool_ind sp = sum_list (map (\<lambda>x. length (shot_bytes x)) (shots sp))"
proof -
  have "map (\<lambda>s. tail s - raw s) (sects sp) = map (\<lambda>x. length (shot_bytes x)) (shots sp)"
    using length_sect_bytes [OF assms] by (simp add: shots_def)
  moreover have "laid_out 0 (sects sp) (pool_ind sp)" using assms by (simp add: wf_parser_def)
  ultimately show ?thesis using laid_out_sum by fastforce
qed

lemma room_made_drop_top:
  assumes wf: "wf_parser sp" and xs: "shots sp = x # xs" and x: "shot_state x = S_COMPLETE"
    and r: "room_made n (drop_top sp) sp' b k"
  shows "room_made n sp sp' b (Suc k)"
proof -
  have "shots (drop_top sp) = xs" using shots_drop_top [OF wf] xs by simp
  moreover have "work (drop_top sp) = (if work sp = Some (shot_addr x) then None else work sp)"
    using work_drop_top [OF wf] xs by simp
  ultimately show ?thesis
    using r xs x by (simp add: room_made_def) auto
qed

lemma make_room_shots:
  "\<lbrakk>wf_parser sp; make_room n sp = (sp', b)\<rbrakk> \<Longrightarrow> \<exists>k. room_made n sp sp' b k"
proof (induction n sp rule: make_room.induct)
  case (1 n sp)
  have stay: "room_made n sp sp b 0" if "if b then n \<le> pool_size sp - pool_ind sp
      else pool_size sp - pool_ind sp < n \<and> (shots sp = [] \<or> shot_state (hd (shots sp)) \<noteq> S_COMPLETE)" for b
    using that "1.prems"(1) by (simp add: room_made_def split: if_splits)
  show ?case
  proof (cases "pool_size sp - pool_ind sp < n")
    case False
    then have "make_room n sp = (sp, True)" by (simp add: make_room.simps [of n sp])
    with False "1.prems"(2) stay [of True] show ?thesis by auto
  next
    case True
    obtain sp1 b1 where ev: "evict_oldest_section sp = (sp1, b1)" by fastforce
    note e = evict_shots [OF "1.prems"(1) ev]
    show ?thesis
    proof (cases b1)
      case False
      then have "make_room n sp = (sp1, False)"
        using True ev by (simp add: make_room.simps [of n sp])
      with False True e(2) "1.prems"(2) stay [of False] show ?thesis by auto
    next
      case t: True
      then have sp1: "sp1 = drop_top sp" and ne: "shots sp \<noteq> []"
        and hd: "shot_state (hd (shots sp)) = S_COMPLETE" using e(1) by auto
      have wf1: "wf_parser sp1" using "1.prems"(1) sp1 by (simp add: wf_drop_top)
      have mr: "make_room n sp1 = (sp', b)"
        using "1.prems"(2) True ev t by (simp add: make_room.simps [of n sp])
      obtain k where "room_made n sp1 sp' b k"
        using "1.IH" [OF True ev [symmetric] _ wf1 mr] t by auto
      moreover obtain x xs where "shots sp = x # xs" using ne by (cases "shots sp") auto
      ultimately show ?thesis
        using room_made_drop_top [OF "1.prems"(1), of x xs n sp' b k] hd sp1 by auto
    qed
  qed
qed

definition new_shot :: "nat \<Rightarrow> u8 list \<Rightarrow> shot" where
  "new_shot a bs = \<lparr>shot_addr = a, shot_hdr = fst (parse_header zero_header bs T_PSISI),
     shot_state = S_INIT, shot_bytes = bs\<rparr>"

lemma attach_new_step:
  fixes sp :: section_parser and bs :: "u8 list" and ty :: section_type
  assumes wf: "wf_parser sp" and room: "length bs \<le> pool_size sp - pool_ind sp" and bs: "bs \<noteq> []"
  defines "sp' \<equiv> add_section_list (new_section_info (next_addr sp) (pool_ind sp) bs ty) (write_pool bs sp)"
  shows "shots sp' = shots sp @ [new_shot (next_addr sp) bs]" "wf_parser sp'" "work sp' = work sp"
proof -
  have ind: "pool_ind sp \<le> pool_size sp" using wf by (simp add: wf_parser_def)
  obtain h d where ph: "parse_header zero_header bs T_PSISI = (h, d)" by fastforce
  let ?s = "new_section_info (next_addr sp) (pool_ind sp) bs ty"
  have s: "addr ?s = next_addr sp" "sect_hdr ?s = h" "raw ?s = pool_ind sp"
    "tail ?s = pool_ind sp + length bs" "sstate ?s = S_INIT"
    by (simp_all add: new_section_info_def ph Let_def)
  have old: "map (shot_of (pool sp')) (sects sp) = shots sp"
    unfolding shots_def sp'_def add_section_list_def
    using sect_bytes_write [OF wf] by (auto simp: shot_of_def)
  have "shot_of (pool sp') ?s = new_shot (next_addr sp) bs"
    using slice_write_new [OF wf, of bs]
    by (simp add: shot_of_def new_shot_def s ph sp'_def add_section_list_def sect_bytes_def)
  then show "shots sp' = shots sp @ [new_shot (next_addr sp) bs]"
    using old by (simp add: shots_def sp'_def add_section_list_def)
  show "wf_parser sp'"
    using wf length_write_pool [OF wf room] room bs ind
    by (auto simp: wf_parser_def sp'_def add_section_list_def laid_out_append s)
  show "work sp' = work sp" by (simp add: sp'_def add_section_list_def)
qed

lemma attach_follow_step:
  assumes wf: "wf_parser sp" and room: "length bs \<le> pool_size sp - pool_ind sp"
    and x: "shots sp = xs @ [x]" and a: "a = shot_addr x"
  defines "sp' \<equiv> upd_sect a (\<lambda>s. s\<lparr>tail := pool_ind sp + length bs\<rparr>) (write_pool bs sp)"
  shows "shots sp' = xs @ [x\<lparr>shot_bytes := shot_bytes x @ bs\<rparr>]" "wf_parser sp'" "work sp' = work sp"
proof -
  have ind: "pool_ind sp \<le> pool_size sp" using wf by (simp add: wf_parser_def)
  obtain ss s where ss: "sects sp = ss @ [s]" and xs: "xs = map (shot_of (pool sp)) ss"
    and xe: "x = shot_of (pool sp) s" using x by (rule shots_appendE)
  note d = wf_lastD [OF wf ss]
  let ?s = "s\<lparr>tail := pool_ind sp + length bs\<rparr>"
  have ss': "sects (write_pool bs sp) = ss @ [s]" using ss by simp
  have up: "sp' = (write_pool bs sp)\<lparr>sects := ss @ [?s]\<rparr>"
    unfolding sp'_def by (rule upd_sect_last [OF ss']) (use d xe a in auto)
  have old: "map (shot_of (pool sp')) ss = xs"
    unfolding xs up using sect_bytes_write [OF wf] ss by (auto simp: shot_of_def)
  have "sect_bytes (pool sp') ?s = slice (pool sp') (raw s) (tail s + length bs)"
    by (simp add: sect_bytes_def d(3))
  also have "\<dots> = slice (pool sp') (raw s) (tail s) @ slice (pool sp') (tail s) (tail s + length bs)"
    using d(2) by (intro slice_split) auto
  also have "slice (pool sp') (raw s) (tail s) = sect_bytes (pool sp) s"
    using sect_bytes_write [OF wf, of s bs] ss by (simp add: up sect_bytes_def)
  also have "slice (pool sp') (tail s) (tail s + length bs) = bs"
    using slice_write_new [OF wf, of bs] d by (simp add: up)
  finally have "shot_of (pool sp') ?s = x\<lparr>shot_bytes := shot_bytes x @ bs\<rparr>"
    by (simp add: shot_of_def xe)
  then show "shots sp' = xs @ [x\<lparr>shot_bytes := shot_bytes x @ bs\<rparr>]"
    using old by (simp add: shots_def up)
  show "wf_parser sp'"
    using wf length_write_pool [OF wf room] room ind ss d
    by (auto simp: wf_parser_def up laid_out_append)
  show "work sp' = work sp" by (simp add: up)
qed

end
