(* ===== verification/Section_Assembly.thy ===== *)
theory Section_Assembly
  imports Section_Inv
begin

text \<open>
  The parser invariant and what \<open>check_section\<close> does to it. The table classes enter through
  the locale \<open>section_listener\<close>: whatever such a listener does on completion, the parser keeps
  only sections with a correct checksum, of exactly their announced length, and no section
  twice.
\<close>

section \<open>The invariant\<close>

text \<open>The completed sections: intact, and pairwise different.\<close>

definition intact :: "shot \<Rightarrow> bool" where
  "intact x \<longleftrightarrow> shot_state x = S_COMPLETE \<and> length (shot_bytes x) = shot_total x \<and>
     crc32 (shot_bytes x) = 0"

definition settled :: "shot list \<Rightarrow> bool" where
  "settled xs \<longleftrightarrow> list_all intact xs \<and> distinct (map shot_bytes xs)"

text \<open>Behind them there is at most one section being received, and then it is the working
  section; otherwise the working section is the last completed one or none.\<close>

definition inv_shots :: "shot list \<Rightarrow> nat option \<Rightarrow> bool" where
  "inv_shots xs w \<longleftrightarrow>
     (case dropWhile (\<lambda>x. shot_state x = S_COMPLETE) xs of
        [] \<Rightarrow> settled xs \<and> (w = None \<or> xs \<noteq> [] \<and> w = Some (shot_addr (last xs)))
      | [x] \<Rightarrow> settled (butlast xs) \<and> shot_state x = S_RECEIVING \<and>
               length (shot_bytes x) < shot_total x \<and> w = Some (shot_addr x)
      | _ \<Rightarrow> False)"

definition parser_inv :: "section_parser \<Rightarrow> bool" where
  "parser_inv sp \<longleftrightarrow> wf_parser sp \<and> inv_shots (shots sp) (work sp)"

lemma settled_Nil [simp]: "settled []"
  by (simp add: settled_def)

lemma settled_drop: "settled xs \<Longrightarrow> settled (drop k xs)"
  unfolding settled_def using set_drop_subset [of k xs]
  by (auto simp: list_all_iff drop_map [symmetric] intro: distinct_drop)

lemma settled_append_left: "settled (xs @ ys) \<Longrightarrow> settled xs"
  by (simp add: settled_def)

lemma settled_snoc:
  "settled (xs @ [x]) \<longleftrightarrow> settled xs \<and> intact x \<and> shot_bytes x \<notin> shot_bytes ` set xs"
  by (auto simp: settled_def)

lemma settled_complete: "settled xs \<Longrightarrow> x \<in> set xs \<Longrightarrow> shot_state x = S_COMPLETE"
  by (simp add: settled_def intact_def list_all_iff)

lemma dropWhile_settled [simp]:
  "settled xs \<Longrightarrow> dropWhile (\<lambda>x. shot_state x = S_COMPLETE) (xs @ ys)
     = dropWhile (\<lambda>x. shot_state x = S_COMPLETE) ys"
  by (simp add: dropWhile_append1 dropWhile_append2 settled_complete)

lemma inv_idle:
  "\<lbrakk>settled xs; w = None \<or> xs \<noteq> [] \<and> w = Some (shot_addr (last xs))\<rbrakk> \<Longrightarrow> inv_shots xs w"
proof -
  assume a: "settled xs" "w = None \<or> xs \<noteq> [] \<and> w = Some (shot_addr (last xs))"
  have "dropWhile (\<lambda>x. shot_state x = S_COMPLETE) (xs @ []) = []"
    using dropWhile_settled [OF a(1), of "[]"] by (simp only: dropWhile.simps)
  with a show ?thesis by (simp only: inv_shots_def append_Nil2 list.case)
qed

lemma inv_receiving:
  "\<lbrakk>settled xs; shot_state x = S_RECEIVING; length (shot_bytes x) < shot_total x;
    w = Some (shot_addr x)\<rbrakk> \<Longrightarrow> inv_shots (xs @ [x]) w"
  by (simp add: inv_shots_def)

lemma inv_shotsE:
  assumes "inv_shots xs w"
  obtains (idle) "settled xs" "w = None \<or> xs \<noteq> [] \<and> w = Some (shot_addr (last xs))"
  | (receiving) ys x where "xs = ys @ [x]" "settled ys" "shot_state x = S_RECEIVING"
      "length (shot_bytes x) < shot_total x" "w = Some (shot_addr x)"
proof (cases "dropWhile (\<lambda>x. shot_state x = S_COMPLETE) xs")
  case Nil
  with assms idle show ?thesis by (simp add: inv_shots_def)
next
  case (Cons x ys)
  with assms have ys: "ys = []" and x: "settled (butlast xs)" "shot_state x = S_RECEIVING"
    "length (shot_bytes x) < shot_total x" "w = Some (shot_addr x)"
    by (auto simp: inv_shots_def split: list.splits)
  have "xs = takeWhile (\<lambda>x. shot_state x = S_COMPLETE) xs @ [x]"
    using takeWhile_dropWhile_id [of "\<lambda>x. shot_state x = S_COMPLETE" xs] Cons ys by simp
  then have "xs = butlast xs @ [x]" by (metis butlast_snoc)
  with receiving x show ?thesis by blast
qed

text \<open>The bytes of the completed sections, oldest first.\<close>

definition held :: "section_parser \<Rightarrow> u8 list list" where
  "held sp = map shot_bytes (filter (\<lambda>x. shot_state x = S_COMPLETE) (shots sp))"

lemma filter_settled: "settled xs \<Longrightarrow> filter (\<lambda>x. shot_state x = S_COMPLETE) xs = xs"
  by (simp add: filter_id_conv settled_complete)

lemma held_settled: "\<lbrakk>shots sp = xs; settled xs\<rbrakk> \<Longrightarrow> held sp = map shot_bytes xs"
  by (simp add: held_def filter_settled)

lemma held_intact:
  assumes "parser_inv sp" "b \<in> set (held sp)"
  shows "crc32 b = 0" "distinct (held sp)"
    "\<exists>s \<in> set (sects sp). sstate s = S_COMPLETE \<and> sect_bytes (pool sp) s = b \<and> length b = total_len s"
proof -
  from assms(1) have i: "inv_shots (shots sp) (work sp)" by (simp add: parser_inv_def)
  then obtain xs where xs: "settled xs" "filter (\<lambda>x. shot_state x = S_COMPLETE) (shots sp) = xs"
    by (cases rule: inv_shotsE) (auto simp: filter_settled)
  then have h: "held sp = map shot_bytes xs" by (simp add: held_def)
  show "distinct (held sp)" using xs h by (simp add: settled_def)
  obtain x where x: "x \<in> set xs" "shot_bytes x = b" using assms(2) h by auto
  then have ix: "intact x" using xs by (simp add: settled_def list_all_iff)
  then show "crc32 b = 0" using x by (simp add: intact_def)
  have "x \<in> set (shots sp)" using x xs by auto
  then obtain s where "s \<in> set (sects sp)" "x = shot_of (pool sp) s" by (auto simp: shots_def)
  then show "\<exists>s \<in> set (sects sp). sstate s = S_COMPLETE \<and> sect_bytes (pool sp) s = b \<and> length b = total_len s"
    using ix x by (intro bexI [of _ s]) (auto simp: intact_def)
qed

lemma parser_inv_new: "parser_inv (new_parser n f t)"
  by (simp add: parser_inv_def wf_parser_def new_parser_def shots_def inv_shots_def)

section \<open>Starting over, attaching\<close>

lemma wf_irrelevant [simp]:
  "wf_parser (sp\<lparr>work := w\<rparr>) = wf_parser sp" "wf_parser (sp\<lparr>is_ignore := i\<rparr>) = wf_parser sp"
  "wf_parser (sp\<lparr>parser_pid := p\<rparr>) = wf_parser sp"
  "wf_parser (sp\<lparr>is_async_delete := d\<rparr>) = wf_parser sp"
  by (simp_all add: wf_parser_def)

lemma shots_irrelevant [simp]:
  "shots (sp\<lparr>work := w\<rparr>) = shots sp" "shots (sp\<lparr>is_ignore := i\<rparr>) = shots sp"
  "shots (sp\<lparr>parser_pid := p\<rparr>) = shots sp" "shots (sp\<lparr>is_async_delete := d\<rparr>) = shots sp"
  by (simp_all add: shots_def)

lemma sect_at_irrelevant [simp]:
  "sect_at (sp\<lparr>work := w\<rparr>) a = sect_at sp a" "sect_at (sp\<lparr>is_ignore := i\<rparr>) a = sect_at sp a"
  "sect_at (sp\<lparr>parser_pid := p\<rparr>) a = sect_at sp a"
  by (simp_all add: sect_at_def)

lemma start_over_shots:
  assumes "wf_parser sp" and "inv_shots (shots sp) (work sp)"
  shows "wf_parser (start_over sp)" "settled (shots (start_over sp))"
    "work (start_over sp) = None \<or> shots (start_over sp) \<noteq> [] \<and>
       work (start_over sp) = Some (shot_addr (last (shots (start_over sp))))"
    "settled (shots sp) \<Longrightarrow> start_over sp = sp"
proof -
  have *: "wf_parser (start_over sp) \<and> settled (shots (start_over sp)) \<and>
    (work (start_over sp) = None \<or> shots (start_over sp) \<noteq> [] \<and>
       work (start_over sp) = Some (shot_addr (last (shots (start_over sp))))) \<and>
    (settled (shots sp) \<longrightarrow> start_over sp = sp)"
    using assms(2)
  proof (cases rule: inv_shotsE)
    case idle
    have "start_over sp = sp"
    proof (cases "work sp")
      case (Some w)
      with idle obtain xs x where x: "shots sp = xs @ [x]" and w: "w = shot_addr x"
        by (metis append_butlast_last_id option.distinct(1) option.inject)
      have "sstate (sect_at sp w) = shot_state x"
        using sect_at_shot(1) [OF assms(1) x w] by auto
      then show ?thesis
        using Some settled_complete [OF idle(1), of x] x by (simp add: start_over_def)
    qed (simp add: start_over_def)
    with idle assms(1) show ?thesis by simp
  next
    case (receiving ys x)
    have "sstate (sect_at sp (shot_addr x)) = S_RECEIVING"
      using sect_at_shot(1) [OF assms(1) receiving(1) refl] receiving(3) by (metis shot_of_sel(3))
    then have so: "start_over sp = drop_work (shot_addr x) sp"
      using receiving by (simp add: start_over_def)
    have "\<not> settled (shots sp)"
      using receiving(1,3) settled_complete [of "shots sp" x] by auto
    then show ?thesis
      using shots_detach [OF assms(1) receiving(1) refl] receiving(2) so by (simp add: drop_work_def)
  qed
  show "wf_parser (start_over sp)" "settled (shots (start_over sp))"
    "work (start_over sp) = None \<or> shots (start_over sp) \<noteq> [] \<and>
       work (start_over sp) = Some (shot_addr (last (shots (start_over sp))))"
    "settled (shots sp) \<Longrightarrow> start_over sp = sp"
    using * by blast+
qed

text \<open>A new section: complete sections may have been evicted in front.\<close>

lemma attach_idle:
  assumes wf: "wf_parser sp" and st: "settled (shots sp)"
    and w: "work sp = None \<or> shots sp \<noteq> [] \<and> work sp = Some (shot_addr (last (shots sp)))"
    and at: "attach_section_list bs sp = (sp', r)" and bs: "bs \<noteq> []"
  shows "(r = None \<and> wf_parser sp' \<and> (\<exists>k. shots sp' = drop k (shots sp)) \<and> inv_shots (shots sp') (work sp')
           \<and> is_ignore sp' = is_ignore sp \<and> pool_size sp < length bs)
    \<or> (\<exists>k a. r = Some a \<and> wf_parser sp' \<and> shots sp' = drop k (shots sp) @ [new_shot a bs]
           \<and> is_ignore sp' = is_ignore sp \<and> pool_size sp' = pool_size sp
           \<and> (length bs \<le> pool_size sp - pool_ind sp \<longrightarrow> k = 0))"
proof -
  obtain sp1 b where mr: "make_room (length bs) sp = (sp1, b)" by fastforce
  then obtain k where k: "room_made (length bs) sp sp1 b k" using make_room_shots [OF wf] by blast
  then have wf1: "wf_parser sp1" and sh1: "shots sp1 = drop k (shots sp)" and
    wk1: "work sp1 = (if work sp \<in> Some ` shot_addr ` set (take k (shots sp)) then None else work sp)"
    and kl: "k \<le> length (shots sp)" and ig: "is_ignore sp1 = is_ignore sp"
    and ps: "pool_size sp1 = pool_size sp"
    by (auto simp: room_made_def)
  have st1: "settled (shots sp1)" using sh1 st by (simp add: settled_drop)
  have w1: "work sp1 = None \<or> shots sp1 \<noteq> [] \<and> work sp1 = Some (shot_addr (last (shots sp1)))"
  proof (cases "shots sp1 = []")
    case True
    then have "take k (shots sp) = shots sp" using sh1 by simp
    then show ?thesis using w wk1 by (auto simp: image_iff)
  next
    case False
    then show ?thesis using w wk1 sh1 by (auto simp: last_drop)
  qed
  show ?thesis
  proof (cases b)
    case False
    then have "sp' = sp1 \<and> r = None" using at bs mr by (simp add: attach_section_list_def)
    moreover have nr: "pool_size sp1 - pool_ind sp1 < length bs"
      "shots sp1 = [] \<or> shot_state (hd (shots sp1)) \<noteq> S_COMPLETE"
      using room_not_madeD k False by (simp_all only:)
    then have "shots sp1 = []" using settled_complete [OF st1] hd_in_set by blast
    then have "pool_size sp < length bs" using pool_ind_shots [OF wf1] ps nr(1) by simp
    ultimately show ?thesis using wf1 sh1 ig inv_idle [OF st1 w1] by auto
  next
    case True
    then have room: "length bs \<le> pool_size sp1 - pool_ind sp1" using k True by (simp only: room_madeD)
    have nr: "sstate (sect_at (write_pool bs sp1) w') \<noteq> S_RECEIVING" if "work sp1 = Some w'" for w'
    proof -
      have "shots sp1 = butlast (shots sp1) @ [last (shots sp1)]" "w' = shot_addr (last (shots sp1))"
        using w1 that by auto
      then obtain xs x where x: "shots sp1 = xs @ [x]" and "w' = shot_addr x" by blast
      then have "shot_of (pool sp1) (sect_at sp1 w') = x" using sect_at_shot(1) [OF wf1] by blast
      moreover have "sect_at (write_pool bs sp1) w' = sect_at sp1 w'" by (simp add: sect_at_def)
      ultimately show ?thesis using settled_complete [OF st1, of x] x by auto
    qed
    let ?s = "new_section_info (next_addr sp1) (pool_ind sp1) bs (ptype sp1)"
    have "sp' = add_section_list ?s (write_pool bs sp1) \<and> r = Some (next_addr sp1)"
      using at bs mr True nr by (auto simp: attach_section_list_def Let_def split: option.splits)
    moreover have "k = 0" if "length bs \<le> pool_size sp - pool_ind sp"
    proof -
      have "sp1 = sp" using mr that by (simp add: make_room.simps [of "length bs" sp])
      then show ?thesis using sh1 kl by (metis cancel_comm_monoid_add_class.diff_cancel diff_is_0_eq' length_drop le_zero_eq diff_diff_cancel)
    qed
    ultimately show ?thesis
      using attach_new_step [OF wf1 room bs, of "ptype sp1"] sh1 ig ps
      by (intro disjI2 exI [of _ k] exI [of _ "next_addr sp1"]) (auto simp: add_section_list_def)
  qed
qed

text \<open>The next bytes of the section being received: sections before it may have been evicted, it
  stays the working section.\<close>

lemma shot_addrs_distinct: "wf_parser sp \<Longrightarrow> distinct (map shot_addr (shots sp))"
  by (simp add: wf_parser_def shots_def comp_def)

lemma attach_receiving:
  assumes wf: "wf_parser sp" and sh: "shots sp = ys @ [x]" and rcv: "shot_state x = S_RECEIVING"
    and w: "work sp = Some (shot_addr x)" and at: "attach_section_list bs sp = (sp', r)" and bs: "bs \<noteq> []"
  shows "\<exists>k. wf_parser sp' \<and> work sp' = work sp \<and> is_ignore sp' = is_ignore sp \<and>
     pool_size sp' = pool_size sp \<and>
     (r = None \<and> shots sp' = drop k ys @ [x] \<and>
        (settled ys \<longrightarrow> pool_size sp < length (shot_bytes x) + length bs) \<or>
      r = Some (shot_addr x) \<and> shots sp' = drop k ys @ [x\<lparr>shot_bytes := shot_bytes x @ bs\<rparr>]) \<and>
     (length bs \<le> pool_size sp - pool_ind sp \<longrightarrow> k = 0 \<and> r \<noteq> None)"
proof -
  obtain sp1 b where mr: "make_room (length bs) sp = (sp1, b)" by fastforce
  then obtain k where k: "room_made (length bs) sp sp1 b k" using make_room_shots [OF wf] by blast
  then have wf1: "wf_parser sp1" and sh1: "shots sp1 = drop k (shots sp)" and
    ev: "list_all (\<lambda>x. shot_state x = S_COMPLETE) (take k (shots sp))" and
    wk1: "work sp1 = (if work sp \<in> Some ` shot_addr ` set (take k (shots sp)) then None else work sp)"
    and ig: "is_ignore sp1 = is_ignore sp" and ps: "pool_size sp1 = pool_size sp"
    by (auto simp: room_made_def)
  have kl: "k \<le> length ys"
  proof (rule ccontr)
    assume "\<not> k \<le> length ys"
    then have "x \<in> set (take k (shots sp))" using sh by simp
    with ev rcv show False by (auto simp: list_all_iff)
  qed
  have "shot_addr x \<notin> shot_addr ` set ys"
    using shot_addrs_distinct [OF wf] sh by simp
  then have w1: "work sp1 = Some (shot_addr x)"
    using wk1 w sh kl set_take_subset [of k ys] by (auto simp: image_iff)
  have sh1': "shots sp1 = drop k ys @ [x]" using sh1 sh kl by simp
  have stay: "sp1 = sp \<and> b \<and> k = 0" if "length bs \<le> pool_size sp - pool_ind sp"
  proof -
    have "sp1 = sp \<and> b" using mr that by (simp add: make_room.simps [of "length bs" sp])
    moreover from this have "drop k ys @ [x] = ys @ [x]" using sh1' sh by simp
    then have "length (drop k ys) = length ys" by simp
    then have "k = 0" using kl by (cases ys) auto
    ultimately show ?thesis by simp
  qed
  show ?thesis
  proof (cases b)
    case False
    then have r: "sp' = sp1 \<and> r = None" using at bs mr by (simp add: attach_section_list_def)
    have "pool_size sp < length (shot_bytes x) + length bs" if st: "settled ys"
    proof -
      have "pool_size sp1 - pool_ind sp1 < length bs" and
        hd: "shots sp1 = [] \<or> shot_state (hd (shots sp1)) \<noteq> S_COMPLETE"
        using room_not_madeD k False by (simp_all only:)
      moreover have "drop k ys = []"
        using hd sh1' settled_complete [OF settled_drop [OF st, of k]] by (cases "drop k ys") auto
      ultimately show ?thesis using pool_ind_shots [OF wf1] sh1' ps by simp
    qed
    then show ?thesis using wf1 sh1' w1 w ig ps False stay r by auto
  next
    case True
    then have room: "length bs \<le> pool_size sp1 - pool_ind sp1"
      using k True by (simp only: room_madeD)
    have "sect_at (write_pool bs sp1) (shot_addr x) = sect_at sp1 (shot_addr x)"
      by (simp add: sect_at_def)
    then have "sstate (sect_at (write_pool bs sp1) (shot_addr x)) = S_RECEIVING"
      using sect_at_shot(1) [OF wf1 sh1' refl] rcv by (metis shot_of_sel(3))
    then have "sp' = upd_sect (shot_addr x) (\<lambda>s. s\<lparr>tail := pool_ind sp1 + length bs\<rparr>) (write_pool bs sp1)
        \<and> r = Some (shot_addr x)"
      using at bs mr True w1 by (simp add: attach_section_list_def Let_def)
    then show ?thesis
      using attach_follow_step [OF wf1 room sh1' refl] w1 w ig ps stay
      by (intro exI [of _ k]) (auto simp: upd_sect_def)
  qed
qed

section \<open>A section with all its bytes\<close>

text \<open>\<open>search_section_list\<close> on the section just received finds a completed one exactly when the
  same bytes are already held; otherwise it finds the section itself.\<close>

lemma find_same_bytes:
  assumes sh: "shots sp = xs @ [x]" and st: "settled xs" and nc: "shot_state x \<noteq> S_COMPLETE"
    and wf: "wf_parser sp" and a: "a = shot_addr x"
  shows "\<exists>f. search_section_list (sect_at sp a) sp = Some f \<and>
    (sstate f = S_COMPLETE \<longleftrightarrow> shot_bytes x \<in> shot_bytes ` set xs)"
proof -
  note s = sect_at_shot [OF wf sh a]
  obtain ss t where ss: "sects sp = ss @ [t]" "xs = map (shot_of (pool sp)) ss"
    and xt: "x = shot_of (pool sp) t" using sh by (rule shots_appendE)
  have b: "sect_bytes (pool sp) (sect_at sp a) = shot_bytes x" using s(1) by auto
  show ?thesis
  proof (cases "List.find (\<lambda>u. same_section (pool sp) u (sect_at sp a)) ss")
    case (Some f)
    then have f: "f \<in> set ss" "sect_bytes (pool sp) f = shot_bytes x"
      by (auto simp: find_Some_iff same_section_def b)
    then have "sstate f = S_COMPLETE"
      using settled_complete [OF st, of "shot_of (pool sp) f"] ss(2) by simp
    moreover from f have "shot_bytes x \<in> shot_bytes ` set xs"
      unfolding ss(2) by (metis (no_types, lifting) image_eqI image_set shot_of_sel(4))
    ultimately show ?thesis
      using Some ss by (simp add: search_section_list_def find_append)
  next
    case None
    then have "shot_bytes x \<notin> shot_bytes ` set xs"
      unfolding find_None_iff using ss(2) b by (auto simp: same_section_def)
    then show ?thesis
      using None ss xt nc b by (auto simp: search_section_list_def find_append same_section_def)
  qed
qed

lemma wf_upd_set_sstate_simps:
  assumes wf: "wf_parser sp" and sh: "shots sp = xs @ [x]" and a: "a = shot_addr x"
    and all: "shot_total x \<le> length (shot_bytes x)"
  defines "sp2 \<equiv> truncate_section a (upd_sect a (set_sstate S_RECEIVED) sp)"
  shows "wf_parser sp2" "work sp2 = work sp"
    "shots sp2 = xs @ [x\<lparr>shot_state := S_RECEIVED, shot_bytes := take (shot_total x) (shot_bytes x)\<rparr>]"
proof -
  note u = shots_upd_last [OF wf sh a, of S_RECEIVED]
  have all': "shot_total (x\<lparr>shot_state := S_RECEIVED\<rparr>) \<le> length (shot_bytes (x\<lparr>shot_state := S_RECEIVED\<rparr>))"
    and a': "a = shot_addr (x\<lparr>shot_state := S_RECEIVED\<rparr>)"
    using all a by (simp_all add: shot_total_def)
  note t = shots_truncate [OF u(2) u(1) a' all']
  show "wf_parser sp2" "work sp2 = work sp"
    using t(2,3) u(3) by (simp_all add: sp2_def)
  show "shots sp2 = xs @ [x\<lparr>shot_state := S_RECEIVED, shot_bytes := take (shot_total x) (shot_bytes x)\<rparr>]"
    using t(1) by (simp add: sp2_def shot_total_def)
qed

lemma fifo_shots:
  assumes wf: "wf_parser sp" and w: "work sp = Some (shot_addr (last (shots sp)))" and ne: "shots sp \<noteq> []"
  defines "sp' \<equiv> check_detach_fifo_section_list sp"
  shows "wf_parser sp'" "\<exists>k. shots sp' = drop k (shots sp)"
    "shots sp' \<noteq> []" "work sp' = work sp" "last (shots sp') = last (shots sp)"
proof -
  obtain y ys where y: "shots sp = y # ys" using ne by (cases "shots sp") auto
  have sh: "shots (drop_top sp) = ys" using shots_drop_top [OF wf] y by simp
  have "work (drop_top sp) = (if ys = [] then None else Some (shot_addr (last ys)))"
  proof (cases "ys = []")
    case False
    then have "shot_addr (last ys) \<noteq> shot_addr y"
      using shot_addrs_distinct [OF wf] y by (metis distinct.simps(2) image_eqI last_in_set list.simps(9) list.set_map)
    then show ?thesis using work_drop_top [OF wf] y w False by simp
  qed (use work_drop_top [OF wf] y w in simp)
  moreover have c: "sp' = sp \<or> sp' = drop_top sp \<and> ys \<noteq> []"
    using wf y by (auto simp: sp'_def check_detach_fifo_section_list_def wf_parser_def shots_def)
  ultimately show "shots sp' \<noteq> []" "work sp' = work sp" "last (shots sp') = last (shots sp)"
    using sh w ne y by (auto split: if_splits)
  show "wf_parser sp'" using c wf by (auto simp: wf_drop_top)
  have "ys = drop 1 (shots sp)" "shots sp = drop 0 (shots sp)" using y by simp_all
  with c sh show "\<exists>k. shots sp' = drop k (shots sp)" by metis
qed

section \<open>The listener contract\<close>

text \<open>What a table class may do with the section it is given: keep it or detach it, and nothing
  else to the parser's sections.\<close>

locale section_listener =
  fixes L :: "'c listener"
  assumes completed:
    "\<lbrakk>wf_parser sp; shots sp = xs @ [x]; settled (xs @ [x]); work sp = Some (shot_addr x);
      on_completed L (shot_addr x) (sp, c) = (sp', c')\<rbrakk> \<Longrightarrow>
     wf_parser sp' \<and> (shots sp' = xs @ [x] \<and> work sp' = work sp \<or> shots sp' = xs \<and> work sp' = None)"
begin

lemma completed_settled:
  assumes wf: "wf_parser sp" and st: "settled (shots sp)"
    and w: "work sp = None \<or> shots sp \<noteq> [] \<and> work sp = Some (shot_addr (last (shots sp)))"
    and c: "call_completed L (sp, c) = (sp', c')"
  shows "wf_parser sp'" "settled (shots sp')" "set (shots sp') \<subseteq> set (shots sp)"
    "work sp' = None \<or> shots sp' \<noteq> [] \<and> work sp' = Some (shot_addr (last (shots sp')))"
proof -
  have "wf_parser sp' \<and> settled (shots sp') \<and> set (shots sp') \<subseteq> set (shots sp) \<and>
    (work sp' = None \<or> shots sp' \<noteq> [] \<and> work sp' = Some (shot_addr (last (shots sp'))))"
  proof (cases "work sp")
    case None
    then show ?thesis using assms by (simp add: call_completed_def)
  next
    case (Some a)
    with w obtain xs x where x: "shots sp = xs @ [x]" and a: "a = shot_addr x"
      by (metis append_butlast_last_id option.distinct(1) option.inject)
    have "on_completed L (shot_addr x) (sp, c) = (sp', c')"
      using c Some a by (simp add: call_completed_def)
    from completed [OF wf x _ _ this] st x Some a show ?thesis
      by (auto simp: settled_append_left)
  qed
  then show "wf_parser sp'" "settled (shots sp')" "set (shots sp') \<subseteq> set (shots sp)"
    "work sp' = None \<or> shots sp' \<noteq> [] \<and> work sp' = Some (shot_addr (last (shots sp')))"
    by blast+
qed

text \<open>The three outcomes for a section whose bytes are all there.\<close>

lemma finish_shots:
  assumes wf: "wf_parser sp" and sh: "shots sp = xs @ [x]" and st: "settled xs"
    and all: "shot_total x \<le> length (shot_bytes x)" and w: "work sp = Some (shot_addr x)"
    and fin: "finish_section L (shot_addr x) (sp, c) = ((sp', c'), r)"
  defines "b \<equiv> take (shot_total x) (shot_bytes x)"
  shows "r = (if crc32 b \<noteq> 0 then CRC32_ERR else if b \<in> shot_bytes ` set xs then COMPLETED_ALREADY else COMPLETED)"
    "r \<noteq> COMPLETED \<Longrightarrow> shots sp' = xs \<and> work sp' = None \<and> c' = c"
    "wf_parser sp'" "settled (shots sp')"
    "work sp' = None \<or> shots sp' \<noteq> [] \<and> work sp' = Some (shot_addr (last (shots sp')))"
    "r = COMPLETED \<Longrightarrow> \<exists>sp3. on_completed L (shot_addr x) (sp3, c) = (sp', c') \<and> wf_parser sp3 \<and>
       settled (shots sp3) \<and> shots sp3 \<noteq> [] \<and> last (shots sp3) = x\<lparr>shot_state := S_COMPLETE, shot_bytes := b\<rparr> \<and>
       work sp3 = Some (shot_addr x) \<and> (\<not> list_is_fifo sp \<longrightarrow> butlast (shots sp3) = xs)"
proof -
  let ?a = "shot_addr x"
  let ?x1 = "x\<lparr>shot_state := S_RECEIVED\<rparr>"
  define sp1 where "sp1 = upd_sect ?a (set_sstate S_RECEIVED) sp"
  define sp2 where "sp2 = truncate_section ?a sp1"
  let ?x2 = "x\<lparr>shot_state := S_RECEIVED, shot_bytes := b\<rparr>"
  note u = shots_upd_last [OF wf sh refl, of S_RECEIVED, folded sp1_def]
  note t = wf_upd_set_sstate_simps [OF wf sh refl all, folded sp1_def, folded sp2_def]
  have sh2: "shots sp2 = xs @ [?x2]" using t(3) by (simp add: b_def)
  have crc: "check_crc32 (pool sp1) (sect_at sp1 ?a) \<longleftrightarrow> crc32 b = 0"
    using check_crc32_shot [OF u(2) u(1)] all by (simp add: b_def shot_total_def)
  have tot: "shot_total ?x2 = shot_total x" by (simp add: shot_total_def)
  have lb: "length b = shot_total x" using all by (simp add: b_def)
  obtain f where f: "search_section_list (sect_at sp2 ?a) sp2 = Some f"
    "sstate f = S_COMPLETE \<longleftrightarrow> b \<in> shot_bytes ` set xs"
    using find_same_bytes [OF sh2 st _ t(1)] by auto
  have fs: "finish_section L ?a (sp, c) =
    (if crc32 b \<noteq> 0 then ((drop_work ?a sp1, c), CRC32_ERR)
     else if b \<in> shot_bytes ` set xs then ((drop_work ?a sp2, c), COMPLETED_ALREADY)
     else (call_completed L (check_detach_fifo_section_list (upd_sect ?a (set_sstate S_COMPLETE) sp2), c),
       COMPLETED))"
    using f crc by (simp add: finish_section_def Let_def sp1_def [symmetric] sp2_def [symmetric])
  then show r: "r = (if crc32 b \<noteq> 0 then CRC32_ERR else if b \<in> shot_bytes ` set xs then COMPLETED_ALREADY else COMPLETED)"
    using fin by (auto split: if_splits)
  have d1: "shots (drop_work ?a sp1) = xs" "wf_parser (drop_work ?a sp1)" "work (drop_work ?a sp1) = None"
    using shots_detach [OF u(2) u(1)] by (simp_all add: drop_work_def)
  have d2: "shots (drop_work ?a sp2) = xs" "wf_parser (drop_work ?a sp2)" "work (drop_work ?a sp2) = None"
    using shots_detach [OF t(1) sh2] by (simp_all add: drop_work_def)
  show "r \<noteq> COMPLETED \<Longrightarrow> shots sp' = xs \<and> work sp' = None \<and> c' = c"
    using fs fin d1 d2 by (auto split: if_splits)
  have *: "wf_parser sp' \<and> settled (shots sp') \<and>
    (work sp' = None \<or> shots sp' \<noteq> [] \<and> work sp' = Some (shot_addr (last (shots sp')))) \<and>
    (r = COMPLETED \<longrightarrow> (\<exists>sp3. on_completed L ?a (sp3, c) = (sp', c') \<and> wf_parser sp3 \<and>
       settled (shots sp3) \<and> shots sp3 \<noteq> [] \<and> last (shots sp3) = x\<lparr>shot_state := S_COMPLETE, shot_bytes := b\<rparr> \<and>
       work sp3 = Some ?a \<and> (\<not> list_is_fifo sp \<longrightarrow> butlast (shots sp3) = xs)))"
  proof (cases "crc32 b \<noteq> 0 \<or> b \<in> shot_bytes ` set xs")
    case True
    then show ?thesis using fs fin d1 d2 st r by (auto split: if_splits)
  next
    case False
    define sp3 where "sp3 = upd_sect ?a (set_sstate S_COMPLETE) sp2"
    let ?x3 = "x\<lparr>shot_state := S_COMPLETE, shot_bytes := b\<rparr>"
    have "?a = shot_addr ?x2" by simp
    note v = shots_upd_last [OF t(1) sh2 this, of S_COMPLETE, folded sp3_def]
    have sh3: "shots sp3 = xs @ [?x3]" using v(1) by simp
    have "shot_total ?x3 = shot_total x" by (simp add: shot_total_def)
    then have st3: "settled (shots sp3)"
      using st False lb by (simp add: sh3 settled_snoc intact_def)
    have w3: "work sp3 = Some (shot_addr (last (shots sp3)))" using v(3) t(2) u(3) w sh3 sp1_def by simp
    have "shots sp3 \<noteq> []" using sh3 by simp
    note ff = fifo_shots [OF v(2) w3 this]
    let ?s = "check_detach_fifo_section_list sp3"
    obtain k where k: "shots ?s = drop k (shots sp3)" using ff(2) by auto
    have nf: "\<not> list_is_fifo sp \<longrightarrow> butlast (shots ?s) = xs"
      using sh3 by (simp add: check_detach_fifo_section_list_def sp3_def sp2_def sp1_def)
    have "call_completed L (?s, c) = (sp', c')"
      using fs fin False by (simp add: sp3_def)
    moreover from this have "on_completed L ?a (?s, c) = (sp', c')"
      using ff(4) w3 sh3 by (simp add: call_completed_def)
    moreover have sts: "settled (shots ?s)" unfolding k using st3 by (rule settled_drop)
    moreover have "last (shots ?s) = ?x3" using ff(5) sh3 by simp
    moreover have "work ?s = Some ?a" using ff(4) w3 sh3 by simp
    ultimately show ?thesis
      using completed_settled [OF ff(1) sts, of c sp' c'] ff(1,3) nf by auto
  qed
  then show "wf_parser sp'" "settled (shots sp')"
    "work sp' = None \<or> shots sp' \<noteq> [] \<and> work sp' = Some (shot_addr (last (shots sp')))"
    by blast+
  show "r = COMPLETED \<Longrightarrow> \<exists>sp3. on_completed L ?a (sp3, c) = (sp', c') \<and> wf_parser sp3 \<and>
       settled (shots sp3) \<and> shots sp3 \<noteq> [] \<and> last (shots sp3) = x\<lparr>shot_state := S_COMPLETE, shot_bytes := b\<rparr> \<and>
       work sp3 = Some ?a \<and> (\<not> list_is_fifo sp \<longrightarrow> butlast (shots sp3) = xs)" using * by blast
qed

lemma finish_inv:
  assumes wf: "wf_parser sp" and sh: "shots sp = xs @ [x]" and st: "settled xs"
    and all: "shot_total x \<le> length (shot_bytes x)" and w: "work sp = Some (shot_addr x)"
    and fin: "finish_section L (shot_addr x) (sp, c) = (st', r)"
  shows "parser_inv (fst st')" "parser_inv ((fst st')\<lparr>work := None\<rparr>)"
proof -
  obtain sp' c' where st': "st' = (sp', c')" by fastforce
  note f = finish_shots [OF wf sh st all w fin [unfolded st']]
  show "parser_inv (fst st')" "parser_inv ((fst st')\<lparr>work := None\<rparr>)"
    using f(3,4,5) by (simp_all add: st' parser_inv_def inv_idle)
qed

text \<open>One round of the loop over a payload. The working section is either refused by the table
  class, left waiting for more bytes, or finished.\<close>

lemma first_loop_inv:
  "\<lbrakk>parser_inv sp; first_loop L bs r once (sp, c) = (st', r')\<rbrakk> \<Longrightarrow> parser_inv (fst st')"
proof (induction "length bs" arbitrary: bs r once sp c rule: less_induct)
  case less
  have inv: "wf_parser sp" "inv_shots (shots sp) (work sp)" using less.prems(1) by (simp_all add: parser_inv_def)
  note so = start_over_shots [OF inv]
  show ?case
  proof (cases "bs = [] \<or> hd bs = 0xff")
    case True
    then show ?thesis using less.prems by (auto simp: first_loop.simps [of L bs])
  next
    case False
    then have ne: "bs \<noteq> []" by simp
    obtain sp1 q where at: "attach_section_list bs (start_over sp) = (sp1, q)" by fastforce
    show ?thesis
    proof (cases q)
      case None
      then have "fst st' = sp1" using less.prems(2) False at by (auto simp: first_loop.simps [of L bs])
      with attach_idle [OF so(1,2,3) at ne] None show ?thesis by (simp add: parser_inv_def)
    next
      case (Some a)
      with attach_idle [OF so(1,2,3) at ne] obtain k where wf1: "wf_parser sp1"
        and sh1: "shots sp1 = drop k (shots (start_over sp)) @ [new_shot a bs]" by auto
      let ?ys = "drop k (shots (start_over sp))"
      let ?x = "new_shot a bs"
      have ys: "settled ?ys" using so(2) by (rule settled_drop)
      have a: "a = shot_addr ?x" by (simp add: new_shot_def)
      let ?sp2 = "sp1\<lparr>work := Some a\<rparr>"
      let ?s = "sect_at ?sp2 a"
      have wf2: "wf_parser ?sp2" and sh2: "shots ?sp2 = ?ys @ [?x]" using wf1 sh1 by simp_all
      have s: "shot_of (pool sp1) (sect_at sp1 a) = ?x" using sect_at_shot [OF wf1 sh1 a] by simp
      have tot: "total_len ?s = shot_total ?x" unfolding s [symmetric] by simp
      have ra: "is_receive_all ?s \<longleftrightarrow> shot_total ?x \<le> length (shot_bytes ?x)"
        using is_receive_all_shot [OF wf1 sect_at_shot(2) [OF wf1 sh1 a]] s by simp
      let ?rest = "drop (total_len ?s) bs"
      have shorter: "length ?rest < length bs" using ne by (simp add: total_len_def)
      note step = less.prems(2) [unfolded first_loop.simps [of L bs]]
      consider (refused) "\<not> on_started L ?s" | (waiting) "on_started L ?s" "\<not> is_receive_all ?s"
        | (full) "on_started L ?s" "is_receive_all ?s" by blast
      then show ?thesis
      proof cases
        case refused
        have "parser_inv ((drop_work a ?sp2)\<lparr>is_ignore := True\<rparr>)"
          using shots_detach [OF wf2 sh2 a] ys by (simp add: drop_work_def parser_inv_def inv_idle)
        moreover have "first_loop L ?rest IGNORE once ((drop_work a ?sp2)\<lparr>is_ignore := True\<rparr>, c) = (st', r')"
          using step False at Some refused by (simp add: Let_def)
        ultimately show ?thesis using less.hyps [OF shorter] by blast
      next
        case waiting
        let ?sp3 = "?sp2\<lparr>is_ignore := False\<rparr>"
        have sh3: "wf_parser ?sp3" "shots ?sp3 = ?ys @ [?x]" using wf2 sh2 by simp_all
        note u = shots_upd_last [OF sh3 a, of S_RECEIVING]
        have "parser_inv (upd_sect a (set_sstate S_RECEIVING) ?sp3)"
          unfolding parser_inv_def u(1,3) using u(2) ys waiting(2) ra
          by (auto intro!: inv_receiving simp: a [symmetric] shot_total_def)
        moreover have "fst st' = upd_sect a (set_sstate S_RECEIVING) ?sp3"
          using step False at Some waiting by (auto simp: Let_def)
        ultimately show ?thesis by simp
      next
        case full
        let ?sp3 = "?sp2\<lparr>is_ignore := False\<rparr>"
        obtain st4 r4 where fin: "finish_section L a (?sp3, c) = (st4, r4)" by fastforce
        have "parser_inv ((fst st4)\<lparr>work := None\<rparr>)"
          by (rule finish_inv(2) [of ?sp3 ?ys ?x c st4 r4]) (use wf2 sh2 ys full ra a fin in simp_all)
        moreover have "first_loop L ?rest r4 (once \<or> r4 = COMPLETED) ((fst st4)\<lparr>work := None\<rparr>, snd st4) = (st', r')"
          using step False at Some full fin by (simp add: Let_def)
        ultimately show ?thesis using less.hyps [OF shorter] by blast
      qed
    qed
  qed
qed

lemma follow_inv:
  assumes inv: "parser_inv sp" and ch: "check_section_follow L bs (sp, c) = (st', r)"
  shows "parser_inv (fst st')"
proof -
  have i: "wf_parser sp" "inv_shots (shots sp) (work sp)" using inv by (simp_all add: parser_inv_def)
  consider (stay) "fst st' = sp" | (step) w where "bs \<noteq> []" "work sp = Some w"
      "sstate (sect_at sp w) = S_RECEIVING" "\<not> is_ignore sp"
    using ch by (auto simp: check_section_follow_def split: if_splits option.splits)
  then show ?thesis
  proof cases
    case stay
    then show ?thesis using inv by simp
  next
    case step
    from i(2) obtain ys x where sh: "shots sp = ys @ [x]" and x: "settled ys" "shot_state x = S_RECEIVING"
      "work sp = Some (shot_addr x)"
    proof (cases rule: inv_shotsE)
      case idle
      with step(2) have "shots sp = butlast (shots sp) @ [last (shots sp)]" "w = shot_addr (last (shots sp))"
        by auto
      then have "shot_of (pool sp) (sect_at sp w) = last (shots sp)" using sect_at_shot(1) [OF i(1)] by blast
      then have "shot_state (last (shots sp)) = S_RECEIVING" using step(3) by (metis shot_of_sel(3))
      moreover have "last (shots sp) \<in> set (shots sp)" using idle step(2) by simp
      ultimately show ?thesis using settled_complete [OF idle(1)] by fastforce
    qed blast
    let ?x' = "x\<lparr>shot_bytes := shot_bytes x @ bs\<rparr>"
    obtain sp1 q where at: "attach_section_list bs sp = (sp1, q)" by fastforce
    obtain k where wf1: "wf_parser sp1" and w1: "work sp1 = Some (shot_addr x)" and
      q: "q = None \<and> shots sp1 = drop k ys @ [x] \<or> q = Some (shot_addr x) \<and> shots sp1 = drop k ys @ [?x']"
      using attach_receiving [OF i(1) sh x(2,3) at step(1)] x(3) by auto
    have ys: "settled (drop k ys)" using x(1) by (rule settled_drop)
    have w: "w = shot_addr x" using step(2) x(3) by simp
    have short: "length (shot_bytes x) < shot_total x"
      using i(2) sh x by (cases rule: inv_shotsE) (auto dest: settled_complete)
    show ?thesis
    proof (cases q)
      case None
      then have "fst st' = sp1"
        using ch at step by (auto simp: check_section_follow_def split: if_splits)
      then show ?thesis using None q wf1 w1 ys x short by (simp add: parser_inv_def inv_receiving)
    next
      case (Some a)
      with q have a: "a = shot_addr x" and sh1: "shots sp1 = drop k ys @ [?x']" by auto
      have a': "a = shot_addr ?x'" using a by simp
      have ra: "is_receive_all (sect_at sp1 a) \<longleftrightarrow> shot_total ?x' \<le> length (shot_bytes ?x')"
        using is_receive_all_shot [OF wf1 sect_at_shot(2) [OF wf1 sh1 a']] sect_at_shot(1) [OF wf1 sh1 a'] by simp
      have fs: "(st', r) = (if \<not> is_receive_all (sect_at sp1 a)
          then ((upd_sect a (set_sstate S_RECEIVING) sp1, c), RECEIVING) else finish_section L a (sp1, c))"
        using ch at step Some w1 a by (auto simp: check_section_follow_def split: if_splits)
      show ?thesis
      proof (cases "is_receive_all (sect_at sp1 a)")
        case False
        note u = shots_upd_last [OF wf1 sh1 a', of S_RECEIVING]
        have "parser_inv (upd_sect a (set_sstate S_RECEIVING) sp1)"
          unfolding parser_inv_def u(1,3) using u(2) ys False ra w1 x
          by (auto intro!: inv_receiving simp: shot_total_def)
        then show ?thesis using fs False by simp
      next
        case True
        then have fin: "finish_section L (shot_addr ?x') (sp1, c) = (st', r)" using fs a by simp
        show ?thesis
          by (rule finish_inv(1) [OF wf1 sh1 ys _ _ fin]) (use ra True w1 in simp_all)
      qed
    qed
  qed
qed

lemma check_section_inv:
  assumes "parser_inv sp" and "check_section L pid pusi payload (sp, c) = (st', r)"
  shows "parser_inv (fst st')"
proof -
  have inv: "parser_inv (sp\<lparr>parser_pid := pid\<rparr>)" using assms(1) by (simp add: parser_inv_def)
  show ?thesis
  proof (cases "payload = []")
    case True
    then show ?thesis using assms by (auto simp: check_section_def)
  next
    case ne: False
    show ?thesis
    proof (cases "pusi = 0")
      case True
      then show ?thesis using assms(2) ne follow_inv [OF inv] by (simp add: check_section_def)
    next
      case False
      obtain st1 chk where f: "check_section_follow L (take (unat (hd payload)) (tl payload))
          (sp\<lparr>parser_pid := pid\<rparr>, c) = (st1, chk)" by fastforce
      have "parser_inv (fst st1)" by (rule follow_inv [OF inv f])
      then show ?thesis
        using assms(2) ne False f inv first_loop_inv [of "fst st1" _ _ _ "snd st1"] first_loop_inv [OF inv]
        by (auto simp: check_section_def check_section_first_def Let_def split: if_splits)
    qed
  qed
qed

end

end
