(* ===== verification/Section_Props.thy ===== *)
theory Section_Props
  imports Section_Assembly
begin

text \<open>
  The section parser over whole packet sequences: the run of a packet list, a section under
  reception, and the lemmas on first, following and last packets inside the listener locale;
  its interpretation on the base class.
\<close>

section \<open>Packet sequences\<close>

type_synonym packet = "u16 \<times> u8 \<times> u8 list"

fun feed ::
  "'c listener \<Rightarrow> packet list \<Rightarrow> section_parser \<times> 'c \<Rightarrow> (section_parser \<times> 'c) \<times> check_result list" where
  "feed L [] st = (st, [])"
| "feed L ((pid, pusi, payload) # ps) st =
     (let (st1, r) = check_section L pid pusi payload st; (st2, rs) = feed L ps st1 in (st2, r # rs))"

lemma feed_append:
  "feed L (ps @ qs) st = (let (st1, rs) = feed L ps st; (st2, ss) = feed L qs st1 in (st2, rs @ ss))"
  by (induction L ps st rule: feed.induct) (auto simp: Let_def split: prod.splits)

lemma feed_snoc:
  "\<lbrakk>feed L ps st = (st1, rs); check_section L pid pusi x st1 = (st2, r)\<rbrakk> \<Longrightarrow>
   feed L (ps @ [(pid, pusi, x)]) st = (st2, rs @ [r])"
  by (simp add: feed_append)

text \<open>A section under reception: its bytes so far, its announced length, the sections before it.\<close>

definition awaiting :: "u8 list \<Rightarrow> nat \<Rightarrow> u8 list list \<Rightarrow> section_parser \<Rightarrow> bool" where
  "awaiting bs n old sp \<longleftrightarrow> wf_parser sp \<and> \<not> is_ignore sp \<and>
     (\<exists>ys x. shots sp = ys @ [x] \<and> settled ys \<and> set (map shot_bytes ys) \<subseteq> set old \<and>
        shot_state x = S_RECEIVING \<and> shot_bytes x = bs \<and> shot_total x = n \<and>
        length bs < n \<and> work sp = Some (shot_addr x))"

text \<open>The length that the first bytes of a section announce.\<close>

definition announced :: "u8 list \<Rightarrow> nat" where
  "announced bs = unat (section_length (fst (parse_header zero_header bs T_PSISI))) + 3"

lemma shot_total_new: "shot_total (new_shot a bs) = announced bs"
  by (simp add: new_shot_def shot_total_def announced_def)

lemma start_over_frames [frames, simp]:
  "pool_size (start_over sp) = pool_size sp" "is_ignore (start_over sp) = is_ignore sp"
  by (auto simp: start_over_def drop_work_def detach_section_list_def close_gap_def Let_def split: option.splits)

lemma start_over_held:
  assumes "parser_inv sp"
  shows "map shot_bytes (shots (start_over sp)) = held sp"
proof -
  have i: "wf_parser sp" "inv_shots (shots sp) (work sp)" using assms by (simp_all add: parser_inv_def)
  from i(2) show ?thesis
  proof (cases rule: inv_shotsE)
    case idle
    then show ?thesis using start_over_shots(4) [OF i] by (simp add: held_settled)
  next
    case (receiving ys x)
    have "sstate (sect_at sp (shot_addr x)) = S_RECEIVING"
      using sect_at_shot(1) [OF i(1) receiving(1) refl] receiving(3) by (metis shot_of_sel(3))
    then have "shots (start_over sp) = ys"
      using receiving shots_detach(1) [OF i(1) receiving(1) refl] by (simp add: start_over_def drop_work_def)
    then show ?thesis using receiving by (simp add: held_def filter_settled)
  qed
qed

context section_listener
begin

lemma feed_inv:
  "\<lbrakk>parser_inv sp; feed L ps (sp, c) = (st', rs)\<rbrakk> \<Longrightarrow> parser_inv (fst st')"
proof (induction ps arbitrary: sp c rs)
  case (Cons p ps)
  obtain pid pusi payload where p: "p = (pid, pusi, payload)" by (cases p)
  obtain st1 r where c: "check_section L pid pusi payload (sp, c) = (st1, r)" by fastforce
  have "parser_inv (fst st1)" using Cons.prems(1) c by (rule check_section_inv)
  then show ?case using Cons.IH [of "fst st1" "snd st1"] Cons.prems(2) p c by (auto split: prod.splits)
qed auto

lemma first_packet:
  assumes inv: "parser_inv sp" and bs: "bs \<noteq> []" "hd bs \<noteq> 0xff" and room: "length bs \<le> pool_size sp"
    and more: "length bs < announced bs"
    and ok: "\<And>s. sect_hdr s = fst (parse_header zero_header bs T_PSISI) \<Longrightarrow> on_started L s"
  shows "\<exists>sp'. first_loop L bs r once (sp, c) = ((sp', c), if once then COMPLETED else RECEIVING) \<and>
    awaiting bs (announced bs) (held sp) sp' \<and> pool_size sp' = pool_size sp"
proof -
  have i: "wf_parser sp" "inv_shots (shots sp) (work sp)" using inv by (simp_all add: parser_inv_def)
  note so = start_over_shots [OF i]
  obtain sp1 q where at: "attach_section_list bs (start_over sp) = (sp1, q)" by fastforce
  with attach_idle [OF so(1,2,3) at bs(1)] room obtain k a where q: "q = Some a" and wf1: "wf_parser sp1"
    and sh1: "shots sp1 = drop k (shots (start_over sp)) @ [new_shot a bs]"
    and ps: "pool_size sp1 = pool_size sp" by auto
  let ?ys = "drop k (shots (start_over sp))"
  let ?x = "new_shot a bs"
  have a: "a = shot_addr ?x" by (simp add: new_shot_def)
  let ?sp3 = "sp1\<lparr>work := Some a, is_ignore := False\<rparr>"
  have s: "shot_of (pool sp1) (sect_at sp1 a) = ?x" using sect_at_shot [OF wf1 sh1 a] by simp
  have hdr: "sect_hdr (sect_at sp1 a) = fst (parse_header zero_header bs T_PSISI)"
    using arg_cong [OF s, of shot_hdr] by (simp add: new_shot_def)
  have ra: "\<not> is_receive_all (sect_at sp1 a)"
    using is_receive_all_shot [OF wf1 sect_at_shot(2) [OF wf1 sh1 a]] s more
    by (simp only: shot_total_new) (simp add: new_shot_def)
  have wf3: "wf_parser ?sp3" and sh3: "shots ?sp3 = ?ys @ [?x]" using wf1 sh1 by simp_all
  note u = shots_upd_last [OF wf3 sh3 a, of S_RECEIVING]
  let ?sp' = "upd_sect a (set_sstate S_RECEIVING) ?sp3"
  have "first_loop L bs r once (sp, c) = ((?sp', c), if once then COMPLETED else RECEIVING)"
    using bs at q ok [OF hdr] ra ok by (simp add: first_loop.simps [of L bs] Let_def hdr)
  moreover have "set (map shot_bytes ?ys) \<subseteq> set (held sp)"
    unfolding start_over_held [OF inv, symmetric] using set_drop_subset [of k] by fastforce
  then have "awaiting bs (announced bs) (held sp) ?sp'"
    unfolding awaiting_def u(1,3) using u(2) settled_drop [OF so(2), of k] more a shot_total_new [of a bs]
    by (intro conjI exI [of _ ?ys] exI [of _ "?x\<lparr>shot_state := S_RECEIVING\<rparr>"])
      (simp_all add: new_shot_def shot_total_def)
  ultimately show ?thesis using ps by (intro exI [of _ ?sp']) simp
qed

lemma follow_packet:
  assumes aw: "awaiting bs n old sp" and f: "f \<noteq> []" and room: "length bs + length f \<le> pool_size sp"
    and more: "length bs + length f < n"
  shows "\<exists>sp'. check_section_follow L f (sp, c) = ((sp', c), RECEIVING) \<and> awaiting (bs @ f) n old sp' \<and>
    pool_size sp' = pool_size sp"
proof -
  from aw obtain ys x where wf: "wf_parser sp" and ig: "\<not> is_ignore sp" and sh: "shots sp = ys @ [x]" and
    x: "settled ys" "set (map shot_bytes ys) \<subseteq> set old" "shot_state x = S_RECEIVING" "shot_bytes x = bs"
      "shot_total x = n" "length bs < n" and w: "work sp = Some (shot_addr x)"
    by (auto simp: awaiting_def)
  obtain sp1 q where at: "attach_section_list f sp = (sp1, q)" by fastforce
  let ?x' = "x\<lparr>shot_bytes := bs @ f\<rparr>"
  from attach_receiving [OF wf sh x(3) w at f] x room obtain k where wf1: "wf_parser sp1"
    and w1: "work sp1 = work sp" and ig1: "is_ignore sp1 = is_ignore sp" and ps: "pool_size sp1 = pool_size sp"
    and q: "q = Some (shot_addr x)" and sh1: "shots sp1 = drop k ys @ [?x']" by auto
  have a: "shot_addr x = shot_addr ?x'" by simp
  have st: "sstate (sect_at sp (shot_addr x)) = S_RECEIVING"
    using sect_at_shot(1) [OF wf sh refl] x(3) by (metis shot_of_sel(3))
  have ra: "\<not> is_receive_all (sect_at sp1 (shot_addr x))"
    using is_receive_all_shot [OF wf1 sect_at_shot(2) [OF wf1 sh1 a]] sect_at_shot(1) [OF wf1 sh1 a] more x(5)
    by (simp add: shot_total_def)
  note u = shots_upd_last [OF wf1 sh1 a, of S_RECEIVING]
  let ?sp' = "upd_sect (shot_addr x) (set_sstate S_RECEIVING) sp1"
  have "check_section_follow L f (sp, c) = ((?sp', c), RECEIVING)"
    using ig f w st at q w1 ra by (simp add: check_section_follow_def)
  moreover have "set (map shot_bytes (drop k ys)) \<subseteq> set old"
    using x(2) set_drop_subset [of k ys] by auto
  then have "awaiting (bs @ f) n old ?sp'"
    unfolding awaiting_def u(1,3) using u(2) settled_drop [OF x(1), of k] more w1 w ig ig1 x(5)
    by (intro conjI exI [of _ "drop k ys"] exI [of _ "?x'\<lparr>shot_state := S_RECEIVING\<rparr>"])
      (simp_all add: shot_total_def)
  ultimately show ?thesis using ps by (intro exI [of _ ?sp']) simp
qed

text \<open>The last bytes: the checksum and the sections already held decide.\<close>

lemma last_packet:
  assumes aw: "awaiting bs n old sp" and f: "f \<noteq> []" and room: "length bs + length f \<le> pool_size sp"
    and all: "n \<le> length bs + length f"
    and ch: "check_section_follow L f (sp, c) = ((sp', c'), r)"
  defines "b \<equiv> take n (bs @ f)"
  shows "crc32 b \<noteq> 0 \<Longrightarrow> r = CRC32_ERR \<and> c' = c \<and> set (held sp') \<subseteq> set old"
    "\<lbrakk>crc32 b = 0; b \<notin> set old\<rbrakk> \<Longrightarrow> r = COMPLETED \<and>
       (\<exists>sp3 a. on_completed L a (sp3, c) = (sp', c') \<and> parser_inv sp3 \<and> work sp3 = Some a \<and>
          sect_bytes (pool sp3) (sect_at sp3 a) = b \<and> held sp3 \<noteq> [] \<and> last (held sp3) = b \<and>
          total_len (sect_at sp3 a) = n)"
proof -
  from aw obtain ys x where wf: "wf_parser sp" and ig: "\<not> is_ignore sp" and sh: "shots sp = ys @ [x]" and
    x: "settled ys" "set (map shot_bytes ys) \<subseteq> set old" "shot_state x = S_RECEIVING" "shot_bytes x = bs"
      "shot_total x = n" "length bs < n" and w: "work sp = Some (shot_addr x)"
    by (auto simp: awaiting_def)
  obtain sp1 q where at: "attach_section_list f sp = (sp1, q)" by fastforce
  let ?x' = "x\<lparr>shot_bytes := bs @ f\<rparr>"
  from attach_receiving [OF wf sh x(3) w at f] x room obtain k where wf1: "wf_parser sp1"
    and w1: "work sp1 = work sp" and ig1: "is_ignore sp1 = is_ignore sp" and ps: "pool_size sp1 = pool_size sp"
    and q: "q = Some (shot_addr x)" and sh1: "shots sp1 = drop k ys @ [?x']" by auto
  have a: "shot_addr x = shot_addr ?x'" by simp
  have st: "sstate (sect_at sp (shot_addr x)) = S_RECEIVING"
    using sect_at_shot(1) [OF wf sh refl] x(3) by (metis shot_of_sel(3))
  have tot: "shot_total ?x' = n" using x(5) by (simp add: shot_total_def)
  have ra: "is_receive_all (sect_at sp1 (shot_addr x))"
    using is_receive_all_shot [OF wf1 sect_at_shot(2) [OF wf1 sh1 a]] sect_at_shot(1) [OF wf1 sh1 a] all tot
    by simp
  have fin: "finish_section L (shot_addr ?x') (sp1, c) = ((sp', c'), r)"
    using ch ig f w st at q w1 ra by (simp add: check_section_follow_def)
  have b: "take (shot_total ?x') (shot_bytes ?x') = b" using tot by (simp add: b_def)
  have old: "shot_bytes ` set (drop k ys) \<subseteq> set old" using x(2) set_drop_subset [of k ys] by auto
  have full: "shot_total ?x' \<le> length (shot_bytes ?x')" using tot all by simp
  have w1': "work sp1 = Some (shot_addr ?x')" using w1 w by simp
  note fs = finish_shots [OF wf1 sh1 settled_drop [OF x(1)] full w1' fin, unfolded b]
  show "r = CRC32_ERR \<and> c' = c \<and> set (held sp') \<subseteq> set old" if "crc32 b \<noteq> 0"
  proof -
    have r: "r = CRC32_ERR" using fs(1) that by simp
    then have "shots sp' = drop k ys" "c' = c" using fs(2) by simp_all
    then show ?thesis using r old held_settled [of sp', OF _ settled_drop [OF x(1)]] by simp
  qed
  show "r = COMPLETED \<and>
       (\<exists>sp3 a. on_completed L a (sp3, c) = (sp', c') \<and> parser_inv sp3 \<and> work sp3 = Some a \<and>
          sect_bytes (pool sp3) (sect_at sp3 a) = b \<and> held sp3 \<noteq> [] \<and> last (held sp3) = b \<and>
          total_len (sect_at sp3 a) = n)"
    if "crc32 b = 0" "b \<notin> set old"
  proof -
    have r: "r = COMPLETED" using fs(1) that old by auto
    then obtain sp3 where c3: "on_completed L (shot_addr ?x') (sp3, c) = (sp', c')" and wf3: "wf_parser sp3"
      and st3: "settled (shots sp3)" and ne: "shots sp3 \<noteq> []"
      and l: "last (shots sp3) = ?x'\<lparr>shot_state := S_COMPLETE, shot_bytes := b\<rparr>"
      and w3: "work sp3 = Some (shot_addr ?x')" using fs(6) by blast
    have inv3: "parser_inv sp3" using wf3 st3 ne l w3 by (simp add: parser_inv_def inv_idle)
    have sh3: "shots sp3 = butlast (shots sp3) @ [last (shots sp3)]" using ne by simp
    have so3: "shot_of (pool sp3) (sect_at sp3 (shot_addr x)) = last (shots sp3)"
      by (rule sect_at_shot(1) [OF wf3 sh3]) (simp add: l)
    have "total_len (sect_at sp3 (shot_addr x)) = n"
      using arg_cong [OF so3, of shot_total] l tot by (simp add: shot_total_def total_len_def)
    moreover have "sect_bytes (pool sp3) (sect_at sp3 (shot_addr x)) = b" using so3 l by (metis shot.select_convs(4) shot_of_sel(4) shot.surjective shot.update_convs(4))
    moreover have "held sp3 \<noteq> []" "last (held sp3) = b"
      using held_settled [OF refl st3] ne l by (simp_all add: last_map)
    ultimately show ?thesis using r c3 inv3 w3 by (intro conjI exI [of _ sp3] exI [of _ "shot_addr x"]) simp_all
  qed
qed

lemma awaiting_pid: "awaiting bs n old (sp\<lparr>parser_pid := p\<rparr>) = awaiting bs n old sp"
  by (simp add: awaiting_def)

lemma follow_packets:
  "\<lbrakk>awaiting bs n old sp; [] \<notin> set fs; length bs + length (concat fs) \<le> pool_size sp;
    length bs + length (concat fs) < n\<rbrakk> \<Longrightarrow>
   \<exists>sp'. feed L (map (\<lambda>f. (pid, 0, f)) fs) (sp, c) = ((sp', c), replicate (length fs) RECEIVING) \<and>
     awaiting (bs @ concat fs) n old sp' \<and> pool_size sp' = pool_size sp"
proof (induction fs arbitrary: bs sp)
  case (Cons f fs)
  have aw: "awaiting bs n old (sp\<lparr>parser_pid := pid\<rparr>)" using Cons.prems(1) by (simp add: awaiting_pid)
  obtain sp1 where s: "check_section_follow L f (sp\<lparr>parser_pid := pid\<rparr>, c) = ((sp1, c), RECEIVING)"
    "awaiting (bs @ f) n old sp1" "pool_size sp1 = pool_size sp"
    using follow_packet [OF aw, of f c] Cons.prems by auto
  obtain sp' where "feed L (map (\<lambda>f. (pid, 0, f)) fs) (sp1, c) = ((sp', c), replicate (length fs) RECEIVING)"
    "awaiting ((bs @ f) @ concat fs) n old sp'" "pool_size sp' = pool_size sp1"
    using Cons.IH [OF s(2)] Cons.prems s(3) by auto
  then show ?case using s Cons.prems(2) by (auto simp: check_section_def)
qed auto

text \<open>The packets of a section up to its last one.\<close>

lemma lead_packets:
  assumes inv: "parser_inv sp" and f0: "f0 \<noteq> []" "hd f0 \<noteq> 0xff" and fs: "[] \<notin> set fs"
    and room: "length f0 + length (concat fs) \<le> pool_size sp"
    and more: "length f0 + length (concat fs) < announced f0" and ok: "\<And>s. on_started L s"
  shows "\<exists>sp'. feed L ((pid, 1, 0 # f0) # map (\<lambda>f. (pid, 0, f)) fs) (sp, c)
      = ((sp', c), replicate (Suc (length fs)) RECEIVING) \<and>
    awaiting (f0 @ concat fs) (announced f0) (held sp) sp' \<and> pool_size sp' = pool_size sp"
proof -
  have inv': "parser_inv (sp\<lparr>parser_pid := pid\<rparr>)" using inv by (simp add: parser_inv_def)
  have h: "held (sp\<lparr>parser_pid := pid\<rparr>) = held sp" by (simp add: held_def)
  obtain sp1 where s: "first_loop L f0 COMPLETED False (sp\<lparr>parser_pid := pid\<rparr>, c) = ((sp1, c), RECEIVING)"
    "awaiting f0 (announced f0) (held sp) sp1" "pool_size sp1 = pool_size sp"
    using first_packet [OF inv' f0 _ _ ok, of COMPLETED False c] room more h by auto
  obtain sp' where "feed L (map (\<lambda>f. (pid, 0, f)) fs) (sp1, c) = ((sp', c), replicate (length fs) RECEIVING)"
    "awaiting (f0 @ concat fs) (announced f0) (held sp) sp'" "pool_size sp' = pool_size sp1"
    using follow_packets [OF s(2) fs] room more s(3) by auto
  then show ?thesis
    using s f0(1) by (auto simp: check_section_def check_section_first_def)
qed

end

lemma announced_bytes:
  "3 \<le> length bs \<Longrightarrow> announced bs = unat (be16 (bs ! 1) (bs ! 2) AND 0x0fff) + 3"
  by (simp add: announced_def parse_header_def Let_def)

lemma announced_short: "length bs < 3 \<Longrightarrow> announced bs = 3"
  by (simp add: announced_def parse_header_def zero_header_def)

interpretation bl: section_listener base_listener
  by unfold_locales (auto simp: base_listener_def)

text \<open>A section in fragments: every packet but the last one reports RECEIVING, the last one
  COMPLETED, and the table class is called with the section.\<close>

lemma fragments_complete:
  assumes L: "section_listener L" "\<And>s. on_started L s" and inv: "parser_inv sp"
    and f0: "3 \<le> length f0" "hd f0 \<noteq> 0xff" and fs: "[] \<notin> set fs" and l: "l \<noteq> []"
    and b: "b = f0 @ concat fs @ l" "length b = unat (be16 (b ! 1) (b ! 2) AND 0x0fff) + 3" "crc32 b = 0"
    and fits: "length b + length pad \<le> pool_size sp" and new: "b \<notin> set (held sp)"
  shows "\<exists>sp3 a st. feed L ((pid, 1, 0 # f0) # map (\<lambda>f. (pid, 0, f)) fs @ [(pid, 0, l @ pad)]) (sp, c)
      = (st, replicate (Suc (length fs)) RECEIVING @ [COMPLETED]) \<and>
    st = on_completed L a (sp3, c) \<and> work sp3 = Some a \<and> parser_inv sp3 \<and>
    sect_bytes (pool sp3) (sect_at sp3 a) = b \<and> last (held sp3) = b \<and>
    total_len (sect_at sp3 a) = length b"
proof -
  have an: "announced f0 = length b"
    using announced_bytes [OF f0(1)] b f0(1) by (simp add: nth_append)
  have ne: "f0 \<noteq> []" using f0 by auto
  obtain sp1 where s: "feed L ((pid, 1, 0 # f0) # map (\<lambda>f. (pid, 0, f)) fs) (sp, c)
      = ((sp1, c), replicate (Suc (length fs)) RECEIVING)"
    "awaiting (f0 @ concat fs) (length b) (held sp) sp1" "pool_size sp1 = pool_size sp"
    using section_listener.lead_packets [OF L(1) inv ne f0(2) fs, of pid c] L(2) b(1) l fits an
    by (cases l) auto
  let ?sp1 = "sp1\<lparr>parser_pid := pid\<rparr>"
  obtain sp' c' r where ch: "check_section_follow L (l @ pad) (?sp1, c) = ((sp', c'), r)"
    by (metis surj_pair)
  have aw: "awaiting (f0 @ concat fs) (length b) (held sp) ?sp1"
    using s(2) section_listener.awaiting_pid [OF L(1)] by blast
  have tk: "take (length b) ((f0 @ concat fs) @ l @ pad) = b" using b(1) by simp
  have "r = COMPLETED \<and> (\<exists>sp3 a. on_completed L a (sp3, c) = (sp', c') \<and> parser_inv sp3 \<and>
      work sp3 = Some a \<and> sect_bytes (pool sp3) (sect_at sp3 a) = b \<and> held sp3 \<noteq> [] \<and> last (held sp3) = b \<and>
      total_len (sect_at sp3 a) = length b)"
    using section_listener.last_packet(2) [OF L(1) aw _ _ _ ch, unfolded tk] l b fits s(3) new by simp
  then obtain sp3 a where r: "r = COMPLETED" and c3: "on_completed L a (sp3, c) = (sp', c')" "parser_inv sp3"
      "work sp3 = Some a" "sect_bytes (pool sp3) (sect_at sp3 a) = b" "last (held sp3) = b"
      "total_len (sect_at sp3 a) = length b" by blast
  have "check_section L pid 0 (l @ pad) (sp1, c) = ((sp', c'), r)"
    using ch l by (simp add: check_section_def)
  from feed_snoc [OF s(1) this] c3 show ?thesis
    by (intro exI [of _ sp3] exI [of _ a] exI [of _ "(sp', c')"]) (simp add: r)
qed

section \<open>Several sections in one payload\<close>

definition whole_section :: "u8 list \<Rightarrow> bool" where
  "whole_section b \<longleftrightarrow> 3 \<le> length b \<and> hd b \<noteq> 0xff \<and>
     length b = unat (be16 (b ! 1) (b ! 2) AND 0x0fff) + 3 \<and> crc32 b = 0"

definition add_new :: "u8 list \<Rightarrow> u8 list list \<Rightarrow> u8 list list" where
  "add_new b h = (if b \<in> set h then h else h @ [b])"

lemma set_add_new [simp]: "set (add_new b h) = insert b (set h)"
  by (auto simp: add_new_def)

lemma announced_append: "whole_section b \<Longrightarrow> announced (b @ rest) = length b"
  using announced_bytes [of "b @ rest"] by (simp add: whole_section_def nth_append)

lemma base_started [simp]: "on_started base_listener s"
  by (simp add: base_listener_def)

lemma finish_base_frames:
  "finish_section base_listener a (sp, c) = ((sp', c'), r) \<Longrightarrow>
   list_is_fifo sp' = list_is_fifo sp \<and> pool_size sp' = pool_size sp \<and> c' = c"
  by (auto simp: finish_section_def drop_work_def base_listener_def call_completed_def Let_def
      check_detach_fifo_section_list_def split: if_splits option.splits)

text \<open>One complete section in front of a payload, with room for the payload.\<close>

lemma first_loop_section:
  fixes c :: 'c
  assumes inv: "parser_inv sp" and nf: "\<not> list_is_fifo sp" and b: "whole_section b"
    and room: "length (concat (held sp)) + length (b @ rest) \<le> pool_size sp"
  shows "\<exists>sp'. first_loop base_listener (b @ rest) r once (sp, c)
      = first_loop base_listener rest (if b \<in> set (held sp) then COMPLETED_ALREADY else COMPLETED)
          (once \<or> b \<notin> set (held sp)) (sp', c) \<and>
    parser_inv sp' \<and> \<not> list_is_fifo sp' \<and> pool_size sp' = pool_size sp \<and> held sp' = add_new b (held sp)"
proof -
  have i: "wf_parser sp" "inv_shots (shots sp) (work sp)" using inv by (simp_all add: parser_inv_def)
  note so = start_over_shots [OF i]
  let ?sp0 = "start_over sp"
  let ?xs = "shots ?sp0"
  have h: "map shot_bytes ?xs = held sp" by (rule start_over_held [OF inv])
  have ne: "b @ rest \<noteq> []" and hd: "hd (b @ rest) \<noteq> 0xff"
    using b by (cases b; simp add: whole_section_def)+
  have "pool_ind ?sp0 = length (concat (held sp))"
    unfolding pool_ind_shots [OF so(1)] h [symmetric] by (simp add: length_concat comp_def)
  then have fits: "length (b @ rest) \<le> pool_size ?sp0 - pool_ind ?sp0" using room by simp
  obtain sp1 q where at: "attach_section_list (b @ rest) ?sp0 = (sp1, q)" by fastforce
  with attach_idle [OF so(1,2,3) at ne] fits obtain a where q: "q = Some a" and wf1: "wf_parser sp1"
    and sh1: "shots sp1 = ?xs @ [new_shot a (b @ rest)]" by auto
  let ?x = "new_shot a (b @ rest)"
  have a: "a = shot_addr ?x" by (simp add: new_shot_def)
  have tot: "shot_total ?x = length b" using announced_append [OF b] by (simp add: shot_total_new)
  let ?sp3 = "sp1\<lparr>work := Some a, is_ignore := False\<rparr>"
  have s: "shot_of (pool sp1) (sect_at sp1 a) = ?x" using sect_at_shot [OF wf1 sh1 a] by simp
  have tl: "total_len (sect_at sp1 a) = length b" using tot unfolding s [symmetric] by simp
  have ra: "is_receive_all (sect_at sp1 a)"
    using is_receive_all_shot [OF wf1 sect_at_shot(2) [OF wf1 sh1 a]] s tot by (simp add: new_shot_def)
  obtain sp4 c4 r4 where fin: "finish_section base_listener a (?sp3, c) = ((sp4, c4), r4)"
    by (metis surj_pair)
  have bytes: "take (shot_total ?x) (shot_bytes ?x) = b" unfolding tot by (simp add: new_shot_def)
  have wf3: "wf_parser ?sp3" and sh3: "shots ?sp3 = ?xs @ [?x]" using wf1 sh1 by simp_all
  have full: "shot_total ?x \<le> length (shot_bytes ?x)" unfolding tot by (simp add: new_shot_def)
  have w3: "work ?sp3 = Some (shot_addr ?x)" using a by simp
  have fin': "finish_section base_listener (shot_addr ?x) (?sp3, c) = ((sp4, c4), r4)"
    using fin by (simp add: new_shot_def)
  note fs = bl.finish_shots [OF wf3 sh3 so(2) full w3 fin', unfolded bytes]
  have fr: "list_is_fifo sp4 = list_is_fifo sp \<and> pool_size sp4 = pool_size sp \<and> c4 = c"
    using finish_base_frames [OF fin] attach_frames [OF at]
    by (auto simp: start_over_def drop_work_def split: option.splits)
  have r4: "r4 = (if b \<in> set (held sp) then COMPLETED_ALREADY else COMPLETED)"
    using fs(1) b h by (simp add: whole_section_def image_set [symmetric] del: image_set) (metis image_set)
  have "map shot_bytes (shots sp4) = add_new b (held sp)"
  proof (cases "b \<in> set (held sp)")
    case True
    then show ?thesis using fs(2) r4 h by (simp add: add_new_def)
  next
    case False
    then have "r4 = COMPLETED" using r4 by simp
    from fs(6) [OF this] nf attach_frames [OF at] obtain sp5 where "sp4 = sp5" "shots sp5 \<noteq> []"
      "last (shots sp5) = ?x\<lparr>shot_state := S_COMPLETE, shot_bytes := b\<rparr>" "butlast (shots sp5) = ?xs"
      by (auto simp: base_listener_def start_over_def drop_work_def split: option.splits)
    then have "shots sp4 = ?xs @ [?x\<lparr>shot_state := S_COMPLETE, shot_bytes := b\<rparr>]"
      by (metis append_butlast_last_id)
    then show ?thesis using False h by (simp add: add_new_def)
  qed
  then have h4: "held (sp4\<lparr>work := None\<rparr>) = add_new b (held sp)"
    using held_settled [of "sp4\<lparr>work := None\<rparr>" "shots sp4"] fs(4) by simp
  have "first_loop base_listener (b @ rest) r once (sp, c)
      = first_loop base_listener rest r4 (once \<or> r4 = COMPLETED) (sp4\<lparr>work := None\<rparr>, c)"
    using ne hd at q ra fin tl fr
    by (simp add: first_loop.simps [of base_listener "b @ rest"] Let_def del: append_is_Nil_conv)
  moreover have "parser_inv (sp4\<lparr>work := None\<rparr>)"
    using fs(3,4) by (simp add: parser_inv_def inv_idle)
  ultimately show ?thesis
    using h4 fr nf r4 by (intro exI [of _ "sp4\<lparr>work := None\<rparr>"]) auto
qed

lemma first_loop_sections:
  "\<lbrakk>parser_inv sp; \<not> list_is_fifo sp; list_all whole_section bss; pad = [] \<or> hd pad = 0xff;
    length (concat (held sp)) + length (concat bss @ pad) \<le> pool_size sp\<rbrakk> \<Longrightarrow>
   \<exists>sp'. first_loop base_listener (concat bss @ pad) r once (sp, c)
      = ((sp', c), if once \<or> \<not> set bss \<subseteq> set (held sp) then COMPLETED
                    else if bss = [] then r else COMPLETED_ALREADY) \<and>
     parser_inv sp' \<and> held sp' = fold add_new bss (held sp)"
proof (induction bss arbitrary: sp r once)
  case Nil
  then have "pad = [] \<or> hd pad = 0xff" by simp
  then show ?case using Nil.prems(1) by (intro exI [of _ sp]) (auto simp: first_loop.simps [of base_listener pad])
next
  case (Cons b bss)
  let ?new = "b \<notin> set (held sp)"
  from Cons.prems obtain sp1 where s: "first_loop base_listener (b @ concat bss @ pad) r once (sp, c)
      = first_loop base_listener (concat bss @ pad) (if b \<in> set (held sp) then COMPLETED_ALREADY else COMPLETED)
          (once \<or> ?new) (sp1, c)"
    "parser_inv sp1" "\<not> list_is_fifo sp1" "pool_size sp1 = pool_size sp" "held sp1 = add_new b (held sp)"
    using first_loop_section [of sp b "concat bss @ pad" r once c] by auto
  have "length (concat (held sp1)) \<le> length (concat (held sp)) + length b"
    by (simp add: s(5) add_new_def)
  then have "length (concat (held sp1)) + length (concat bss @ pad) \<le> pool_size sp1"
    using Cons.prems(5) s(4) by simp
  then obtain sp' where "first_loop base_listener (concat bss @ pad)
        (if b \<in> set (held sp) then COMPLETED_ALREADY else COMPLETED) (once \<or> ?new) (sp1, c)
      = ((sp', c), if (once \<or> ?new) \<or> \<not> set bss \<subseteq> set (held sp1) then COMPLETED
           else if bss = [] then if b \<in> set (held sp) then COMPLETED_ALREADY else COMPLETED else COMPLETED_ALREADY)"
    "parser_inv sp'" "held sp' = fold add_new bss (held sp1)"
    using Cons.IH [OF s(2,3), of "if b \<in> set (held sp) then COMPLETED_ALREADY else COMPLETED" "once \<or> ?new"]
      Cons.prems(3,4) by auto
  then show ?case using s(1,5) by (intro exI [of _ sp'], cases "b \<in> set (held sp)") (auto simp: insert_absorb)
qed

end
