(* ===== verification/Section_Claims.thy ===== *)
theory Section_Claims
  imports Section_Props
begin

text \<open>
  The theorems about \<open>section_parser\<close>: what the store holds after any packets, when a section
  is put together again, and the cases in which one is lost or handed on with a bad pointer.
\<close>

section \<open>Theorems\<close>

definition stored_intact :: "section_parser \<Rightarrow> section_info \<Rightarrow> bool" where
  "stored_intact sp s \<longleftrightarrow> (sstate s = S_COMPLETE \<longrightarrow>
     crc32 (sect_bytes (pool sp) s) = 0 \<and> length (sect_bytes (pool sp) s) = total_len s)"

text \<open>C1: whatever packets arrive, the pool layout stays well formed (sections back to back from
  offset 0, nothing past the fill level, the fill level within the pool), every section the
  parser keeps as complete has checksum 0 and exactly its announced length, and no two complete
  sections have the same bytes.\<close>

theorem stored_sections_are_intact:
  "let sp = fst (fst (feed base_listener pkts (new_parser n f ty, ()))) in
     wf_parser sp \<and> distinct (held sp) \<and>
     list_all (stored_intact sp) (sects sp)"
proof -
  let ?sp = "fst (fst (feed base_listener pkts (new_parser n f ty, ())))"
  have inv: "parser_inv ?sp"
    using bl.feed_inv [OF parser_inv_new [of n f ty], of pkts "()"] by (cases "feed base_listener pkts (new_parser n f ty, ())") auto
  then have "inv_shots (shots ?sp) (work ?sp)" by (simp add: parser_inv_def)
  then have i: "\<forall>x \<in> set (shots ?sp). shot_state x = S_COMPLETE \<longrightarrow> intact x"
    by (cases rule: inv_shotsE) (auto simp: settled_def list_all_iff)
  have "distinct (held ?sp)"
    using held_intact(2) [OF inv] by (cases "held ?sp") auto
  with inv i show ?thesis
    by (auto simp: Let_def parser_inv_def list_all_iff shots_def intact_def stored_intact_def)
qed

text \<open>C2: a section that is cut into fragments of any sizes, the first one of at least the three
  bytes with the length, is put together again: every packet but the last one reports RECEIVING,
  the last one COMPLETED, and the table class is called once, with a working section of exactly
  these bytes, provided it is not yet held and fits the pool together with the padding. Complete
  sections that fill the pool are evicted for it.\<close>

theorem fragmented_section_is_completed:
  assumes L: "section_listener L" "\<And>s. on_started L s" and inv: "parser_inv sp"
    and f0: "3 \<le> length f0" "hd f0 \<noteq> 0xff" and fs: "[] \<notin> set fs" and l: "l \<noteq> []"
    and b: "b = f0 @ concat fs @ l" "length b = unat (be16 (b ! 1) (b ! 2) AND 0x0fff) + 3" "crc32 b = 0"
    and fits: "length b + length pad \<le> pool_size sp" and new: "b \<notin> set (held sp)"
  shows "\<exists>sp3 a st. feed L ((pid, 1, 0 # f0) # map (\<lambda>f. (pid, 0, f)) fs @ [(pid, 0, l @ pad)]) (sp, c)
      = (st, replicate (Suc (length fs)) RECEIVING @ [COMPLETED]) \<and>
    st = on_completed L a (sp3, c) \<and> work sp3 = Some a \<and> parser_inv sp3 \<and>
    sect_bytes (pool sp3) (sect_at sp3 a) = b \<and> last (held sp3) = b"
  using fragments_complete [OF assms, of pid c] by (elim exE conjE) (intro exI conjI; assumption)

text \<open>A section with table id 0x70 and no body, its checksum included.\<close>

definition sample :: "u8 list" where
  "sample = [0x70, 0x00, 0x04, 0xf4, 0xd4, 0x72, 0x8c]"

lemma sample_crc: "crc32 sample = 0" "crc32 [0x70, 0x00, 0x04, 0xf4, 0xd4, 0x72, 0x8d] \<noteq> 0"
  by code_simp+

lemma held_new [simp]: "held (new_parser n f ty) = []"
  by (simp add: held_def new_parser_def shots_def)

theorem fragmented_section_is_completed_witness:
  "\<exists>sp3 a st. feed base_listener ((20, 1, 0 # [0x70, 0x00, 0x04]) # map (\<lambda>f. (20, 0, f)) [[0xf4]] @
      [(20, 0, [0xd4, 0x72, 0x8c] @ [0xff, 0xff])]) (new_parser 4096 0 T_PSISI, ())
      = (st, replicate (Suc (length [[0xf4 :: u8]])) RECEIVING @ [COMPLETED]) \<and>
    st = on_completed base_listener a (sp3, ()) \<and> work sp3 = Some a \<and> parser_inv sp3 \<and>
    sect_bytes (pool sp3) (sect_at sp3 a) = sample \<and> last (held sp3) = sample"
  by (rule fragmented_section_is_completed [OF bl.section_listener_axioms _ parser_inv_new])
    (simp_all add: sample_crc, simp_all add: sample_def be16_def new_parser_def)

text \<open>The same packets with a wrong checksum: the last one reports the error, the table class
  is not called, and the store gains nothing.\<close>

theorem damaged_section_is_dropped:
  assumes L: "section_listener L" "\<And>s. on_started L s" and inv: "parser_inv sp"
    and f0: "3 \<le> length f0" "hd f0 \<noteq> 0xff" and fs: "[] \<notin> set fs" and l: "l \<noteq> []"
    and b: "b = f0 @ concat fs @ l" "length b = unat (be16 (b ! 1) (b ! 2) AND 0x0fff) + 3" "crc32 b \<noteq> 0"
    and fits: "length b + length pad \<le> pool_size sp"
  shows "\<exists>sp'. feed L ((pid, 1, 0 # f0) # map (\<lambda>f. (pid, 0, f)) fs @ [(pid, 0, l @ pad)]) (sp, c)
      = ((sp', c), replicate (Suc (length fs)) RECEIVING @ [CRC32_ERR]) \<and>
    set (held sp') \<subseteq> set (held sp)"
proof -
  have an: "announced f0 = length b"
    using announced_bytes [OF f0(1)] b f0(1) by (simp add: nth_append)
  have ne: "f0 \<noteq> []" using f0 by auto
  obtain sp1 where s: "feed L ((pid, 1, 0 # f0) # map (\<lambda>f. (pid, 0, f)) fs) (sp, c)
      = ((sp1, c), replicate (Suc (length fs)) RECEIVING)"
    "awaiting (f0 @ concat fs) (length b) (held sp) sp1" "pool_size sp1 = pool_size sp"
    using section_listener.lead_packets [OF L(1) inv ne f0(2) fs, of pid c] L(2) b(1) l fits an
    by (cases l) auto
  let ?sp1 = "sp1\<lparr>parser_pid := pid\<rparr>"
  obtain sp' c' r where ch: "check_section_follow L (l @ pad) (?sp1, c) = ((sp', c'), r)"
    by (metis surj_pair)
  have aw: "awaiting (f0 @ concat fs) (length b) (held sp) ?sp1"
    using s(2) section_listener.awaiting_pid [OF L(1)] by blast
  have tk: "take (length b) ((f0 @ concat fs) @ l @ pad) = b" using b(1) by simp
  have r: "r = CRC32_ERR \<and> c' = c \<and> set (held sp') \<subseteq> set (held sp)"
    using section_listener.last_packet(1) [OF L(1) aw _ _ _ ch, unfolded tk] l b fits s(3) by simp
  have "check_section L pid 0 (l @ pad) (sp1, c) = ((sp', c'), r)"
    using ch l by (simp add: check_section_def)
  from feed_snoc [OF s(1) this] r show ?thesis by (intro exI [of _ sp']) simp
qed

theorem damaged_section_is_dropped_witness:
  "\<exists>sp'. feed base_listener ((20, 1, 0 # [0x70, 0x00, 0x04]) # map (\<lambda>f. (20, 0, f)) [[0xf4]] @
      [(20, 0, [0xd4, 0x72, 0x8d] @ [0xff])]) (new_parser 4096 0 T_PSISI, ())
      = ((sp', ()), replicate (Suc (length [[0xf4 :: u8]])) RECEIVING @ [CRC32_ERR]) \<and>
    set (held sp') \<subseteq> set (held (new_parser 4096 0 T_PSISI))"
  by (rule damaged_section_is_dropped [OF bl.section_listener_axioms _ parser_inv_new,
        where b = "[0x70, 0x00, 0x04, 0xf4, 0xd4, 0x72, 0x8d]"])
    (simp_all add: sample_crc, simp_all add: be16_def new_parser_def)

text \<open>A section whose first fragment holds only one or two bytes is never completed: its
  header is not read again, so it ends after three bytes, and no three bytes have checksum 0. The
  next packets report a checksum error although every byte of the section arrives.\<close>

lemma crc32_three_bytes: "crc32 [x, y, z] \<noteq> 0"
proof
  assume "crc32 [x, y, z] = 0"
  then have "crc32_from 0xffffffff ([x, y, z] @ [0]) = 0"
    by (simp add: crc32_def crc32_from_append crc32_from_Cons crc32_from_Nil crc32_step_bitwise
        crc_byte_def crc_bits_0_iff)
  then have "crc32_from 0xffffffff ([] @ [x, y, z, 0]) = 0" by simp
  then have "[x, y, z, 0] = be32_bytes 0xffffffff"
    using crc32_residue_exact [of "[x, y, z, 0]" "0xffffffff"] by simp
  then show False by (simp add: be32_bytes_def)
qed

theorem short_head_is_lost:
  assumes L: "section_listener L" "\<And>s. on_started L s" and inv: "parser_inv sp"
    and f0: "f0 \<noteq> []" "length f0 < 3" "hd f0 \<noteq> 0xff" and l: "3 \<le> length f0 + length l"
    and fits: "length f0 + length l \<le> pool_size sp"
  shows "\<exists>sp'. feed L [(pid, 1, 0 # f0), (pid, 0, l)] (sp, c) = ((sp', c), [RECEIVING, CRC32_ERR]) \<and>
    set (held sp') \<subseteq> set (held sp)"
proof -
  obtain sp1 where s: "feed L [(pid, 1, 0 # f0)] (sp, c) = ((sp1, c), [RECEIVING])"
    "awaiting f0 3 (held sp) sp1" "pool_size sp1 = pool_size sp"
    using section_listener.lead_packets [OF L(1) inv f0(1,3), of "[]" pid c] L(2) f0 fits
    by (auto simp: announced_short)
  let ?sp1 = "sp1\<lparr>parser_pid := pid\<rparr>"
  obtain sp' c' r where ch: "check_section_follow L l (?sp1, c) = ((sp', c'), r)"
    by (metis surj_pair)
  have ne: "l \<noteq> []" using l f0 by auto
  have aw: "awaiting f0 3 (held sp) ?sp1"
    using s(2) section_listener.awaiting_pid [OF L(1)] by blast
  have "\<exists>x y z. t = [x, y, z]" if "length t = 3" for t :: "u8 list"
    using that by (auto simp: numeral_eq_Suc length_Suc_conv)
  moreover have "length (take 3 (f0 @ l)) = 3" using l by simp
  ultimately obtain x y z where "take 3 (f0 @ l) = [x, y, z]" by blast
  then have "crc32 (take 3 (f0 @ l)) \<noteq> 0" using crc32_three_bytes by simp
  then have r: "r = CRC32_ERR \<and> c' = c \<and> set (held sp') \<subseteq> set (held sp)"
    using section_listener.last_packet(1) [OF L(1) aw _ _ _ ch] l ne fits s(3) by simp
  have "check_section L pid 0 l (sp1, c) = ((sp', c'), r)"
    using ch ne by (simp add: check_section_def)
  from feed_snoc [OF s(1) this] r show ?thesis by (intro exI [of _ sp']) simp
qed

theorem short_head_is_lost_witness:
  "\<exists>sp'. feed base_listener [(20, 1, 0 # [0x70]), (20, 0, [0x00, 0x04, 0xf4, 0xd4, 0x72, 0x8c])]
      (new_parser 4096 0 T_PSISI, ()) = ((sp', ()), [RECEIVING, CRC32_ERR]) \<and>
    set (held sp') \<subseteq> set (held (new_parser 4096 0 T_PSISI))"
  by (rule short_head_is_lost [OF bl.section_listener_axioms _ parser_inv_new])
    (simp_all add: new_parser_def)

text \<open>A first fragment of three to seven bytes of a section with the long header: the section
  is completed and handed on with the right bytes, but its data pointer is still NULL.\<close>

theorem completed_with_null_data:
  "let (st, rs) = feed base_listener
       [(0, 1, [0, 0x00, 0x80, 0x09, 0, 1]), (0, 0, [0xc1, 0, 0, 0xc1, 0x74, 0x67, 0xf4])]
       (new_parser 64 0 T_PSISI, ())
   in rs = [RECEIVING, COMPLETED] \<and> map data (sects (fst st)) = [NullPtr] \<and>
      held (fst st) = [[0x00, 0x80, 0x09, 0, 1, 0xc1, 0, 0, 0xc1, 0x74, 0x67, 0xf4]]"
  by code_simp

text \<open>The length of the data part is the announced length without the header fields and the
  checksum when the announced length covers them; otherwise it wraps to almost 65536.\<close>

theorem data_part_len_wraps:
  "unat (get_data_part_len s) =
     (let n = unat (section_length (sect_hdr s));
          m = (if stype s = T_PSISI \<and> section_syntax_indicator (sect_hdr s) = 0 then 4 else 9)
      in if m \<le> n then n - m else n + 65536 - m)"
proof -
  have sub: "unat (w - v) = (if unat v \<le> unat w then unat w - unat v else unat w + 65536 - unat v)"
    for w v :: u16
    using unat_sub_if_size [of w v] by (simp add: word_size word_le_nat_alt)
  have "get_data_part_len s = section_length (sect_hdr s)
      - (if stype s = T_PSISI \<and> section_syntax_indicator (sect_hdr s) = 0 then 4 else 9)"
    by (cases "stype s") (simp_all add: get_data_part_len_def)
  then show ?thesis by (simp add: sub Let_def)
qed

text \<open>A packet that carries the end of a section and the start of the next one is dropped
  as a whole when no section is being received: the section that starts in it is lost.\<close>

theorem pointer_field_needs_a_section:
  assumes "0 < ptr" "ptr < 256" "length lead = ptr" "new \<noteq> []" "work sp = None" "\<not> is_ignore sp"
  shows "check_section L pid 1 (of_nat ptr # lead @ new) (sp, c) = ((sp\<lparr>parser_pid := pid\<rparr>, c), INVALID)"
proof -
  have "unat (of_nat ptr :: u8) = ptr" using assms(2) by (simp add: unat_of_nat)
  moreover have "lead \<noteq> []" using assms(1,3) by auto
  ultimately show ?thesis
    using assms by (simp add: check_section_def check_section_first_def check_section_follow_def Let_def)
qed

theorem pointer_field_needs_a_section_witness:
  "check_section base_listener 20 1 (of_nat 1 # [0x55] @ sample) (new_parser 4096 0 T_PSISI, ())
    = (((new_parser 4096 0 T_PSISI)\<lparr>parser_pid := 20\<rparr>, ()), INVALID)"
  by (rule pointer_field_needs_a_section) (simp_all add: sample_def new_parser_def)

text \<open>A payload that consists of complete sections and stuffing adds exactly the sections
  that are not held yet, in order and once each; it reports COMPLETED when there was one, and
  COMPLETED_ALREADY when all of them were held.\<close>

theorem payload_of_sections:
  assumes "parser_inv sp" "\<not> list_is_fifo sp" "list_all whole_section bss" "bss \<noteq> []"
    and "pad = [] \<or> hd pad = 0xff"
    and "length (concat (held sp)) + length (concat bss @ pad) \<le> pool_size sp"
  shows "\<exists>sp'. check_section base_listener pid 1 (0 # concat bss @ pad) (sp, c)
      = ((sp', c), if set bss \<subseteq> set (held sp) then COMPLETED_ALREADY else COMPLETED) \<and>
    parser_inv sp' \<and> held sp' = fold add_new bss (held sp)"
proof -
  have "parser_inv (sp\<lparr>parser_pid := pid\<rparr>)" "held (sp\<lparr>parser_pid := pid\<rparr>) = held sp"
    using assms(1) by (simp_all add: parser_inv_def held_def)
  then obtain sp' where "first_loop base_listener (concat bss @ pad) COMPLETED False (sp\<lparr>parser_pid := pid\<rparr>, c)
      = ((sp', c), if set bss \<subseteq> set (held sp) then COMPLETED_ALREADY else COMPLETED)"
    "parser_inv sp'" "held sp' = fold add_new bss (held sp)"
    using first_loop_sections [of "sp\<lparr>parser_pid := pid\<rparr>" bss pad COMPLETED False c] assms by auto
  moreover have "concat bss \<noteq> []"
    using assms(3,4) by (cases bss) (auto simp: whole_section_def)
  then have "check_section base_listener pid 1 (0 # concat bss @ pad) (sp, c)
      = first_loop base_listener (concat bss @ pad) COMPLETED False (sp\<lparr>parser_pid := pid\<rparr>, c)"
    by (simp add: check_section_def check_section_first_def Let_def del: concat_eq_Nil_conv)
  ultimately show ?thesis by auto
qed

theorem payload_of_sections_witness:
  "\<exists>sp'. check_section base_listener 20 1 (0 # concat [sample, sample] @ [0xff, 0x12]) (new_parser 4096 0 T_PSISI, ())
      = ((sp', ()), if set [sample, sample] \<subseteq> set (held (new_parser 4096 0 T_PSISI))
          then COMPLETED_ALREADY else COMPLETED) \<and>
    parser_inv sp' \<and> held sp' = fold add_new [sample, sample] (held (new_parser 4096 0 T_PSISI))"
proof (rule payload_of_sections [OF parser_inv_new])
  show "list_all whole_section [sample, sample]"
    by (simp add: whole_section_def sample_crc) (simp add: sample_def be16_def)
qed (simp_all, simp_all add: new_parser_def sample_def)

end
