(* ===== verification/Byte_Reader.thy ===== *)
theory Byte_Reader
  imports Prelude
begin

text \<open>
  The table and descriptor parsers walk a byte buffer with a pointer that they never compare
  with the end of the buffer. Here a parser says whether it has accepted its input, rejected it
  (\<open>return false\<close>), or read outside the buffer, which C++ leaves undefined.
\<close>

datatype 'a parse = Parsed 'a | Rejected | Overrun

definition bindp :: "'a parse \<Rightarrow> ('a \<Rightarrow> 'b parse) \<Rightarrow> 'b parse" where
  "bindp r f = (case r of Parsed x \<Rightarrow> f x | Rejected \<Rightarrow> Rejected | Overrun \<Rightarrow> Overrun)"

definition checkp :: "bool \<Rightarrow> 'a \<Rightarrow> 'a parse" where
  "checkp b x = (if b then Parsed x else Rejected)"

text \<open>\<open>memcpy\<close> from offset \<open>p\<close>, and the reads \<open>*p\<close>, \<open>*p << 8 | *(p+1)\<close>.\<close>

definition get_bytes :: "u8 list \<Rightarrow> nat \<Rightarrow> nat \<Rightarrow> u8 list parse" where
  "get_bytes m p k = (if p + k \<le> length m then Parsed (slice m p (p + k)) else Overrun)"

definition get8 :: "u8 list \<Rightarrow> nat \<Rightarrow> u8 parse" where
  "get8 m p = (if p < length m then Parsed (m ! p) else Overrun)"

definition get16 :: "u8 list \<Rightarrow> nat \<Rightarrow> u16 parse" where
  "get16 m p = (if p + 1 < length m then Parsed (be16 (m ! p) (m ! (p + 1))) else Overrun)"

text \<open>\<open>memcpy\<close> with a signed length: a negative one becomes a huge unsigned size.\<close>

definition get_signed :: "u8 list \<Rightarrow> nat \<Rightarrow> int \<Rightarrow> u8 list parse" where
  "get_signed m p k = (if k < 0 then Overrun else get_bytes m p (nat k))"

text \<open>\<open>memset (a, 0x00, n); memcpy (a, bs, ...)\<close>: a zero-padded array.\<close>

definition fill :: "nat \<Rightarrow> u8 list \<Rightarrow> u8 list" where
  "fill n bs = bs @ replicate (n - length bs) 0"

text \<open>The loop all tables share: \<open>while (len > 0)\<close>, one entry of \<open>fix\<close> bytes and an announced
  extra part is read at \<open>p\<close>; \<open>len\<close> is reduced by both, and the table is refused when it gets
  negative. The reader returns the entry, the extra length and where it stopped. \<open>fix\<close> is one
  of the positive \<open>..._FIX_LEN\<close> constants.\<close>

function entries :: "nat \<Rightarrow> (nat \<Rightarrow> ('a \<times> nat \<times> nat) parse) \<Rightarrow> int \<Rightarrow> nat \<Rightarrow> 'a list parse" where
  "entries fix_len rd_entry len p =
     (if len \<le> 0 \<or> fix_len = 0 then Parsed []
      else bindp (rd_entry p) (\<lambda>(x, extra, q).
        let len' = len - int (fix_len + extra) in
        if len' < 0 then Rejected
        else bindp (entries fix_len rd_entry len' q) (\<lambda>xs. Parsed (x # xs))))"
  by pat_completeness auto
termination
  by (relation "measure (\<lambda>(k, r, len, p). nat len)") auto

declare entries.simps [simp del]

text \<open>The equation to evaluate with: the recursive call stands in a branch of a \<open>case\<close>.\<close>

lemma entries_code [code]:
  "entries fix_len rd_entry len p =
     (if len \<le> 0 \<or> fix_len = 0 then Parsed []
      else case rd_entry p of
        Rejected \<Rightarrow> Rejected
      | Overrun \<Rightarrow> Overrun
      | Parsed (x, extra, q) \<Rightarrow>
          if len - int (fix_len + extra) < 0 then Rejected
          else bindp (entries fix_len rd_entry (len - int (fix_len + extra)) q) (\<lambda>xs. Parsed (x # xs)))"
  by (subst entries.simps) (simp add: bindp_def Let_def split: parse.splits)

text \<open>Loops over parsed entries that act on a state; \<open>None\<close> is undefined behaviour. A refused
  entry is skipped with \<open>continue\<close>.\<close>

fun run_all :: "('a \<Rightarrow> 's \<Rightarrow> 's option) \<Rightarrow> 'a list \<Rightarrow> 's \<Rightarrow> 's option" where
  "run_all f [] s = Some s"
| "run_all f (x # xs) s = (case f x s of None \<Rightarrow> None | Some s' \<Rightarrow> run_all f xs s')"

definition when_valid :: "'a parse \<Rightarrow> ('a \<Rightarrow> 's) \<Rightarrow> 's \<Rightarrow> 's option" where
  "when_valid r f s = (case r of Parsed x \<Rightarrow> Some (f x) | Rejected \<Rightarrow> Some s | Overrun \<Rightarrow> None)"

section \<open>Lemmas\<close>

lemma when_valid_simps [simp]:
  "when_valid (Parsed x) f s = Some (f x)" "when_valid Rejected f s = Some s"
  "when_valid Overrun f s = None"
  by (simp_all add: when_valid_def)

lemma when_valid_SomeD:
  "when_valid r f s = Some t \<Longrightarrow> t = s \<or> (\<exists>x. t = f x)"
  by (cases r) auto

text \<open>What every turn keeps, the loop keeps.\<close>

lemma run_all_keeps:
  "\<lbrakk>run_all f xs s = Some t; P s; \<And>x s t. \<lbrakk>x \<in> set xs; f x s = Some t; P s\<rbrakk> \<Longrightarrow> P t\<rbrakk> \<Longrightarrow> P t"
proof (induction xs arbitrary: s)
  case (Cons x xs)
  then obtain u where u: "f x s = Some u" "run_all f xs u = Some t" by (auto split: option.splits)
  have "P u" by (rule Cons.prems(3) [OF _ u(1) Cons.prems(2)]) simp
  then show ?case
    by (rule Cons.IH [OF u(2)]) (rule Cons.prems(3), simp_all)
qed simp

lemma run_all_append:
  "run_all f (xs @ ys) s = (case run_all f xs s of None \<Rightarrow> None | Some t \<Rightarrow> run_all f ys t)"
  by (induction xs arbitrary: s) (auto split: option.split)

lemma bindp_simps [simp]:
  "bindp (Parsed x) f = f x" "bindp Rejected f = Rejected" "bindp Overrun f = Overrun"
  by (simp_all add: bindp_def)

lemma bindp_Parsed_iff: "bindp r f = Parsed y \<longleftrightarrow> (\<exists>x. r = Parsed x \<and> f x = Parsed y)"
  by (cases r) auto

lemma checkp_simps [simp]: "checkp True x = Parsed x" "checkp False x = Rejected"
  by (simp_all add: checkp_def)

text \<open>Reading inside a known part of the buffer.\<close>

definition at :: "u8 list \<Rightarrow> nat \<Rightarrow> u8 list \<Rightarrow> bool" where
  "at m p bs \<longleftrightarrow> p + length bs \<le> length m \<and> slice m p (p + length bs) = bs"

lemma at_append: "at m p (xs @ ys) \<longleftrightarrow> at m p xs \<and> at m (p + length xs) ys"
proof
  assume a: "at m p (xs @ ys)"
  then have len: "p + length xs + length ys \<le> length m"
    and s: "slice m p (p + (length xs + length ys)) = xs @ ys"
    by (auto simp: at_def)
  have "slice m p (p + (length xs + length ys))
      = slice m p (p + length xs) @ slice m (p + length xs) (p + (length xs + length ys))"
    by (rule slice_split) auto
  with s len show "at m p xs \<and> at m (p + length xs) ys"
    by (simp add: at_def length_slice add.assoc append_eq_append_conv)
next
  assume a: "at m p xs \<and> at m (p + length xs) ys"
  have "slice m p (p + (length xs + length ys))
      = slice m p (p + length xs) @ slice m (p + length xs) (p + (length xs + length ys))"
    by (rule slice_split) auto
  with a show "at m p (xs @ ys)" by (simp add: at_def add.assoc)
qed

lemma at_skip: "at m p (xs @ ys) \<Longrightarrow> length xs = k \<Longrightarrow> at m (p + k) ys"
  by (auto simp: at_append)

lemma at_whole: "at bs 0 bs"
  by (simp add: at_def slice_def)

lemma at_Cons: "at m p (x # xs) \<longleftrightarrow> p < length m \<and> m ! p = x \<and> at m (Suc p) xs"
proof -
  have "at m p [x] \<longleftrightarrow> p < length m \<and> m ! p = x"
    by (auto simp: at_def slice_def take_Suc_conv_app_nth hd_drop_conv_nth take_Suc nth_via_drop
        dest: arg_cong [of _ _ hd])
  then show ?thesis using at_append [of m p "[x]" xs] by simp
qed

lemma at_Nil [simp]: "at m p [] \<longleftrightarrow> p \<le> length m"
  by (simp add: at_def)

lemma get8_at: "at m p (x # xs) \<Longrightarrow> get8 m p = Parsed x"
  by (simp add: at_Cons get8_def)

lemma get_bytes_at: "at m p (bs @ rest) \<Longrightarrow> k = length bs \<Longrightarrow> get_bytes m p k = Parsed bs"
  unfolding at_append by (simp add: at_def get_bytes_def)

lemma entries_Nil [simp]: "len \<le> 0 \<Longrightarrow> entries k r len p = Parsed []"
  by (simp add: entries.simps [of k r len p])

text \<open>Reading back what an encoder wrote: when every encoded entry is read as itself, the loop
  returns the list of entries.\<close>

lemma entries_roundtrip:
  assumes pos: "0 < k"
    and rd: "\<And>x p rest. \<lbrakk>x \<in> set xs; at m p (enc x @ rest)\<rbrakk> \<Longrightarrow>
        r p = Parsed (x, length (enc x) - k, p + length (enc x))"
    and len: "\<And>x. x \<in> set xs \<Longrightarrow> k \<le> length (enc x)"
    and m: "at m p (concat (map enc xs) @ rest)"
  shows "entries k r (int (length (concat (map enc xs)))) p = Parsed xs"
  using m len rd
proof (induction xs arbitrary: p)
  case (Cons x xs)
  let ?n = "length (concat (map enc xs))"
  have r: "r p = Parsed (x, length (enc x) - k, p + length (enc x))"
    by (rule Cons.prems(3)) (use Cons.prems(1) in simp_all)
  have kx: "k \<le> length (enc x)" using Cons.prems(2) by simp
  have "at m (p + length (enc x)) (concat (map enc xs) @ rest)"
    using Cons.prems(1) by (simp add: at_append add.assoc)
  then have IH: "entries k r (int ?n) (p + length (enc x)) = Parsed xs"
    using Cons.IH [of "p + length (enc x)"] Cons.prems(2,3) by simp
  have pos': "0 < length (enc x)" using kx pos by linarith
  have le: "int (length (enc x)) + int ?n - (int k + (int (length (enc x)) - int k)) = int ?n"
    by simp
  show ?case
    using pos r IH kx pos' le
    by (simp add: entries.simps [of k r "int (length (enc x)) + int ?n" p] Let_def of_nat_diff)
qed simp

end
