(* ===== verification/Descriptors.thy ===== *)
theory Descriptors
  imports Byte_Reader
begin

text \<open>
  The descriptors of PSI/SI tables (src/src/parser/psisi/descriptor): the generic
  \<open>descriptor\<close> with its 255-byte buffer, and the descriptor classes that parse this buffer. A
  class constructor that ends with \<open>is_valid == false\<close> is \<open>Rejected\<close>; a \<open>memcpy\<close> or read past
  the 255 bytes is \<open>Overrun\<close>. \<open>memcpy\<close> into an integer is read little-endian, as on the
  program's Linux targets.
\<close>

section \<open>The generic descriptor\<close>

record descriptor =
  tag :: u8
  dlen :: u8
  ddata :: "u8 list"

definition parse_descriptor :: "u8 list \<Rightarrow> nat \<Rightarrow> descriptor parse" where
  "parse_descriptor m p =
     bindp (get8 m (p + 1)) (\<lambda>len.
       if len = 0 then Rejected
       else bindp (get8 m p) (\<lambda>t.
         bindp (get_bytes m (p + 2) (unat len)) (\<lambda>bs.
           Parsed \<lparr>tag = t, dlen = len, ddata = fill 255 bs\<rparr>)))"

text \<open>\<open>while (n > 0)\<close> of every table parser; \<open>p\<close> may end behind the announced length.\<close>

function parse_descriptors :: "u8 list \<Rightarrow> int \<Rightarrow> nat \<Rightarrow> (descriptor list \<times> nat) parse" where
  "parse_descriptors m n p =
     (if n \<le> 0 then Parsed ([], p)
      else bindp (parse_descriptor m p) (\<lambda>d.
        bindp (parse_descriptors m (n - (2 + uint (dlen d))) (p + 2 + unat (dlen d))) (\<lambda>(ds, q).
          Parsed (d # ds, q))))"
  by pat_completeness auto
termination
proof (relation "measure (\<lambda>(m, n, p). nat n)")
  fix m :: "u8 list" and n :: int and p and d :: descriptor
  assume n: "\<not> n \<le> 0"
  have "n - (2 + uint (dlen d)) < n" using uint_ge_0 [of "dlen d"] by linarith
  with n show "((m, n - (2 + uint (dlen d)), p + 2 + unat (dlen d)), (m, n, p))
      \<in> measure (\<lambda>(m, n, p). nat n)"
    by simp
qed simp

declare parse_descriptors.simps [simp del]

lemma parse_descriptors_code [code]:
  "parse_descriptors m n p =
     (if n \<le> 0 then Parsed ([], p)
      else case parse_descriptor m p of
        Rejected \<Rightarrow> Rejected
      | Overrun \<Rightarrow> Overrun
      | Parsed d \<Rightarrow>
          bindp (parse_descriptors m (n - (2 + uint (dlen d))) (p + 2 + unat (dlen d))) (\<lambda>(ds, q).
            Parsed (d # ds, q)))"
  by (subst parse_descriptors.simps) (simp add: bindp_def split: parse.splits)

definition desc_payload :: "descriptor \<Rightarrow> u8 list" where
  "desc_payload d = take (unat (dlen d)) (ddata d)"

section \<open>Event descriptors\<close>

record short_event =
  se_lang :: "u8 list"
  event_name_length :: u8
  event_name_char :: "u8 list"
  se_text_length :: u8
  se_text_char :: "u8 list"

definition short_event_descriptor :: "descriptor \<Rightarrow> short_event parse" where
  "short_event_descriptor d =
     bindp (get_bytes (ddata d) 0 3) (\<lambda>lang.
     bindp (get8 (ddata d) 3) (\<lambda>nl.
     bindp (get_bytes (ddata d) 4 (unat nl)) (\<lambda>name.
     bindp (get8 (ddata d) (4 + unat nl)) (\<lambda>tl.
     bindp (get_bytes (ddata d) (5 + unat nl) (unat tl)) (\<lambda>txt.
       checkp (unat (dlen d) = 5 + unat nl + unat tl)
         \<lparr>se_lang = fill 4 lang, event_name_length = nl, event_name_char = fill 255 name,
          se_text_length = tl, se_text_char = fill 255 txt\<rparr>)))))"

record ext_item =
  item_description_length :: u8
  item_description_char :: "u8 list"
  item_length :: u8
  item_char :: "u8 list"

record extended_event =
  descriptor_number :: u8
  last_descriptor_number :: u8
  ee_lang :: "u8 list"
  length_of_items :: u8
  ee_items :: "ext_item list"
  ee_text_length :: u8
  ee_text_char :: "u8 list"

function parse_items :: "u8 list \<Rightarrow> int \<Rightarrow> nat \<Rightarrow> (ext_item list \<times> nat) parse" where
  "parse_items m item_len p =
     (if item_len \<le> 0 then Parsed ([], p)
      else bindp (get8 m p) (\<lambda>dl.
        bindp (get_bytes m (p + 1) (unat dl)) (\<lambda>desc.
        bindp (get8 m (p + 1 + unat dl)) (\<lambda>il.
        bindp (get_bytes m (p + 2 + unat dl) (unat il)) (\<lambda>itm.
          let item_len' = item_len - (1 + uint dl + 1 + uint il) in
          if item_len' < 0 then Rejected
          else bindp (parse_items m item_len' (p + 2 + unat dl + unat il)) (\<lambda>(is, q).
            Parsed (\<lparr>item_description_length = dl, item_description_char = fill 255 desc,
                     item_length = il, item_char = fill 255 itm\<rparr> # is, q)))))))"
  by pat_completeness auto
termination
proof (relation "measure (\<lambda>(m, n, p). nat n)")
  fix m :: "u8 list" and n n' :: int and p and dl il :: u8
  assume n: "\<not> n \<le> 0" "n' = n - (1 + uint dl + 1 + uint il)"
  have "n' < n" using n(2) uint_ge_0 [of dl] uint_ge_0 [of il] by linarith
  with n(1) show "((m, n', p + 2 + unat dl + unat il), (m, n, p)) \<in> measure (\<lambda>(m, n, p). nat n)"
    by simp
qed simp

declare parse_items.simps [simp del]

definition extended_event_descriptor :: "descriptor \<Rightarrow> extended_event parse" where
  "extended_event_descriptor d =
     bindp (get8 (ddata d) 0) (\<lambda>b0.
     bindp (get_bytes (ddata d) 1 3) (\<lambda>lang.
     bindp (get8 (ddata d) 4) (\<lambda>li.
     bindp (parse_items (ddata d) (uint li) 5) (\<lambda>(is, q).
     bindp (get8 (ddata d) q) (\<lambda>tl.
     bindp (get_bytes (ddata d) (q + 1) (unat tl)) (\<lambda>txt.
       checkp (unat (dlen d) = q + 1 + unat tl)
         \<lparr>descriptor_number = drop_bit 4 b0 AND 0x0f, last_descriptor_number = b0 AND 0x0f,
          ee_lang = fill 4 lang, length_of_items = li, ee_items = is,
          ee_text_length = tl, ee_text_char = fill 255 txt\<rparr>))))))"

record component =
  co_reserved :: u8
  co_stream_content :: u8
  co_component_type :: u8
  co_component_tag :: u8
  co_lang :: "u8 list"
  component_text :: "u8 list"

definition component_descriptor :: "descriptor \<Rightarrow> component parse" where
  "component_descriptor d =
     bindp (get_bytes (ddata d) 0 3) (\<lambda>b.
     bindp (get_bytes (ddata d) 3 3) (\<lambda>lang.
     bindp (get_signed (ddata d) 6 (uint (dlen d) - 6)) (\<lambda>txt.
       checkp (uint (dlen d) = 6 + (uint (dlen d) - 6))
         \<lparr>co_reserved = drop_bit 4 (b ! 0) AND 0x0f, co_stream_content = b ! 0 AND 0x0f,
          co_component_type = b ! 1, co_component_tag = b ! 2, co_lang = fill 4 lang,
          component_text = fill 255 txt\<rparr>)))"

record audio_component =
  ac_reserved :: u8
  ac_stream_content :: u8
  ac_component_type :: u8
  ac_component_tag :: u8
  ac_stream_type :: u8
  simulcast_group_tag :: u8
  ES_multi_lingual_flag :: u8
  main_component_flag :: u8
  quality_indicator :: u8
  sampling_rate :: u8
  reserved_future_use2 :: u8
  ac_lang :: "u8 list"
  ac_lang_2 :: "u8 list"
  ac_text_char_len :: int
  ac_text_char :: "u8 list"

definition audio_component_descriptor :: "descriptor \<Rightarrow> audio_component parse" where
  "audio_component_descriptor d =
     bindp (get_bytes (ddata d) 0 6) (\<lambda>b.
     bindp (get_bytes (ddata d) 6 3) (\<lambda>lang.
       let multi = drop_bit 7 (b ! 5) AND 0x01 in
       bindp (if multi \<noteq> 0 then get_bytes (ddata d) 9 3 else Parsed []) (\<lambda>lang2.
         let q = (if multi \<noteq> 0 then 12 else 9); tlen = uint (dlen d) - int q in
         bindp (get_signed (ddata d) q tlen) (\<lambda>txt.
           checkp (uint (dlen d) = int q + tlen)
             \<lparr>ac_reserved = drop_bit 4 (b ! 0) AND 0x0f, ac_stream_content = b ! 0 AND 0x0f,
              ac_component_type = b ! 1, ac_component_tag = b ! 2, ac_stream_type = b ! 3,
              simulcast_group_tag = b ! 4, ES_multi_lingual_flag = multi,
              main_component_flag = drop_bit 6 (b ! 5) AND 0x01,
              quality_indicator = drop_bit 5 (b ! 5) AND 0x03,
              sampling_rate = b ! 5 AND 0x07, reserved_future_use2 = b ! 5 AND 0x01,
              ac_lang = fill 4 lang, ac_lang_2 = fill 4 lang2,
              ac_text_char_len = tlen, ac_text_char = fill 255 txt\<rparr>))))"

record series =
  series_id :: u16
  repeat_label :: u8
  program_pattern :: u8
  expire_date_valid_flag :: u8
  expire_date :: u16
  episode_number :: u16
  last_episode_number :: u16
  series_name_char_len :: int
  series_name_char :: "u8 list"

definition series_descriptor :: "descriptor \<Rightarrow> series parse" where
  "series_descriptor d =
     bindp (get_bytes (ddata d) 0 8) (\<lambda>b.
       let nlen = uint (dlen d) - 8 in
       bindp (get_signed (ddata d) 8 nlen) (\<lambda>name.
         checkp (uint (dlen d) = 8 + nlen)
           \<lparr>series_id = be16 (b ! 0) (b ! 1), repeat_label = drop_bit 4 (b ! 2) AND 0x0f,
            program_pattern = drop_bit 1 (b ! 2) AND 0x07,
            expire_date_valid_flag = b ! 2 AND 0x01, expire_date = be16 (b ! 3) (b ! 4),
            episode_number = push_bit 4 (ucast (b ! 5)) OR (ucast (drop_bit 4 (b ! 6)) AND 0x0f),
            last_episode_number = be16 (b ! 6 AND 0x0f) (b ! 7),
            series_name_char_len = nlen, series_name_char = fill 255 name\<rparr>))"

record content =
  content_nibble_level_1 :: u8
  content_nibble_level_2 :: u8
  user_nibble_1 :: u8
  user_nibble_2 :: u8

text \<open>The loops over entries of a fixed size, with the check of the total length behind them;
  the entries are read at \<open>p\<close> and the pointer ends \<open>k\<close> bytes further per entry.\<close>

definition fixed_entries :: "nat \<Rightarrow> (u8 list \<Rightarrow> 'a) \<Rightarrow> descriptor \<Rightarrow> nat \<Rightarrow> 'a list parse" where
  "fixed_entries k mk d p =
     bindp (entries k (\<lambda>q. bindp (get_bytes (ddata d) q k) (\<lambda>b. Parsed (mk b, 0, q + k)))
              (uint (dlen d) - int p) p) (\<lambda>xs.
       checkp (unat (dlen d) = p + k * length xs) xs)"

definition mk_content :: "u8 list \<Rightarrow> content" where
  "mk_content b = \<lparr>content_nibble_level_1 = drop_bit 4 (b ! 0) AND 0x0f,
     content_nibble_level_2 = b ! 0 AND 0x0f, user_nibble_1 = drop_bit 4 (b ! 1) AND 0x0f,
     user_nibble_2 = b ! 1 AND 0x0f\<rparr>"

definition content_descriptor :: "descriptor \<Rightarrow> content list parse" where
  "content_descriptor d = fixed_entries 2 mk_content d 0"

section \<open>Service and network descriptors\<close>

record service_desc =
  service_type :: u8
  service_provider_name_length :: u8
  service_provider_name_char :: "u8 list"
  service_name_length :: u8
  service_name_char :: "u8 list"

definition service_descriptor :: "descriptor \<Rightarrow> service_desc parse" where
  "service_descriptor d =
     bindp (get8 (ddata d) 0) (\<lambda>st.
     bindp (get8 (ddata d) 1) (\<lambda>pl.
     bindp (get_bytes (ddata d) 2 (unat pl)) (\<lambda>prov.
     bindp (get8 (ddata d) (2 + unat pl)) (\<lambda>nl.
     bindp (get_bytes (ddata d) (3 + unat pl) (unat nl)) (\<lambda>name.
       checkp (unat (dlen d) = 3 + unat pl + unat nl)
         \<lparr>service_type = st, service_provider_name_length = pl,
          service_provider_name_char = fill 255 prov, service_name_length = nl,
          service_name_char = fill 255 name\<rparr>)))))"

record service_list_entry =
  sl_service_id :: u16
  sl_service_type :: u8

definition mk_service :: "u8 list \<Rightarrow> service_list_entry" where
  "mk_service b = \<lparr>sl_service_id = be16 (b ! 0) (b ! 1), sl_service_type = b ! 2\<rparr>"

definition service_list_descriptor :: "descriptor \<Rightarrow> service_list_entry list parse" where
  "service_list_descriptor d = fixed_entries 3 mk_service d 0"

definition mk_id :: "u8 list \<Rightarrow> u16" where
  "mk_id b = be16 (b ! 0) (b ! 1)"

definition partial_reception_descriptor :: "descriptor \<Rightarrow> u16 list parse" where
  "partial_reception_descriptor d = fixed_entries 2 mk_id d 0"

definition ca_identifier_descriptor :: "descriptor \<Rightarrow> u16 list parse" where
  "ca_identifier_descriptor d = fixed_entries 2 mk_id d 0"

definition network_name_descriptor :: "descriptor \<Rightarrow> u8 list parse" where
  "network_name_descriptor d =
     bindp (get_bytes (ddata d) 0 (unat (dlen d))) (\<lambda>name. Parsed (fill 255 name))"

definition stream_identifier_descriptor :: "descriptor \<Rightarrow> u8 parse" where
  "stream_identifier_descriptor d =
     bindp (get8 (ddata d) 0) (\<lambda>b. checkp (dlen d = 1) b)"

record ca_desc =
  CA_system_ID :: u16
  ca_reserve :: u8
  CA_PID :: u16

definition conditional_access_descriptor :: "descriptor \<Rightarrow> ca_desc parse" where
  "conditional_access_descriptor d =
     bindp (get_bytes (ddata d) 0 4) (\<lambda>b.
       checkp (dlen d = 4)
         \<lparr>CA_system_ID = be16 (b ! 0) (b ! 1), ca_reserve = drop_bit 5 (b ! 2) AND 0x07,
          CA_PID = be16 (b ! 2 AND 0x1f) (b ! 3)\<rparr>)"

definition le16 :: "u8 \<Rightarrow> u8 \<Rightarrow> u16" where
  "le16 a b = be16 b a"

definition le32 :: "u8 list \<Rightarrow> u32" where
  "le32 b = ucast (b ! 0) OR push_bit 8 (ucast (b ! 1)) OR push_bit 16 (ucast (b ! 2))
     OR push_bit 24 (ucast (b ! 3))"

record terrestrial =
  area_code :: u16
  guard_interval :: u8
  transmission_mode :: u8
  freqs :: "u16 list"

text \<open>\<open>guard_interval = ((*p+1) >> 2) & 0x03\<close>: one is added to the byte at \<open>p\<close>.\<close>

definition terrestrial_delivery_system_descriptor :: "descriptor \<Rightarrow> terrestrial parse" where
  "terrestrial_delivery_system_descriptor d =
     bindp (get_bytes (ddata d) 0 2) (\<lambda>b.
     bindp (fixed_entries 2 mk_id d 2) (\<lambda>fs.
       Parsed \<lparr>area_code = drop_bit 4 (le16 (b ! 0) (b ! 1)) AND 0x0fff,
               guard_interval = ucast (drop_bit 2 (ucast (b ! 0) + 1 :: u32) AND 0x03),
               transmission_mode = b ! 1 AND 0x03, freqs = fs\<rparr>))"

record satellite =
  frequency :: u32
  orbital_position :: u16
  west_east_flag :: u8
  polarisation :: u8
  modulation :: u8
  symbol_rate :: u32
  FEC_inner :: u8

definition satellite_delivery_system_descriptor :: "descriptor \<Rightarrow> satellite parse" where
  "satellite_delivery_system_descriptor d =
     bindp (get_bytes (ddata d) 0 11) (\<lambda>b.
       checkp (dlen d = 11)
         \<lparr>frequency = le32 (take 4 b), orbital_position = be16 (b ! 4) (b ! 5),
          west_east_flag = drop_bit 7 (b ! 6) AND 0x01, polarisation = drop_bit 5 (b ! 6) AND 0x03,
          modulation = b ! 6 OR 0x1f,
          symbol_rate = drop_bit 4 (le32 (take 4 (drop 7 b))) AND 0x0fffffff,
          FEC_inner = b ! 10 AND 0x0f\<rparr>)"

section \<open>Logo, transport stream and parameter descriptors\<close>

text \<open>The constructor does not initialise the numeric fields; \<open>None\<close> is a field that was not
  written.\<close>

record logo_transmission =
  logo_transmission_type :: u8
  logo_id :: "u16 option"
  logo_version :: "u16 option"
  download_data_id :: "u16 option"
  logo_char :: "u8 list"

definition logo_transmission_descriptor :: "descriptor \<Rightarrow> logo_transmission parse" where
  "logo_transmission_descriptor d =
     bindp (get8 (ddata d) 0) (\<lambda>ty.
       if ty = 0x01 then
         bindp (get_bytes (ddata d) 1 6) (\<lambda>b.
           checkp (dlen d = 7)
             \<lparr>logo_transmission_type = ty, logo_id = Some (be16 (b ! 0 AND 0x01) (b ! 1)),
              logo_version = Some (be16 (b ! 2 AND 0x0f) (b ! 3)),
              download_data_id = Some (be16 (b ! 4) (b ! 5)), logo_char = replicate 255 0\<rparr>)
       else if ty = 0x02 then
         bindp (get_bytes (ddata d) 1 2) (\<lambda>b.
           checkp (dlen d = 3)
             \<lparr>logo_transmission_type = ty, logo_id = Some (be16 (b ! 0 AND 0x01) (b ! 1)),
              logo_version = None, download_data_id = None, logo_char = replicate 255 0\<rparr>)
       else if ty = 0x03 then
         let n = dlen d - 1 in
         bindp (get_bytes (ddata d) 1 (unat n)) (\<lambda>cs.
           checkp (unat (dlen d) = 1 + unat n)
             \<lparr>logo_transmission_type = ty, logo_id = None, logo_version = None,
              download_data_id = None, logo_char = fill 255 cs\<rparr>)
       else Rejected)"

record transmission =
  transmission_type_info :: u8
  num_of_service :: u8
  ts_services :: "u16 list"

record ts_information =
  remote_control_key_id :: u8
  length_of_ts_name :: u8
  transmission_type_count :: u8
  ts_name_char :: "u8 list"
  transmissions :: "transmission list"

fun parse_ids :: "u8 list \<Rightarrow> nat \<Rightarrow> nat \<Rightarrow> (u16 list \<times> nat) parse" where
  "parse_ids m 0 p = Parsed ([], p)"
| "parse_ids m (Suc n) p =
     bindp (get16 m p) (\<lambda>i. bindp (parse_ids m n (p + 2)) (\<lambda>(is, q). Parsed (i # is, q)))"

fun parse_transmissions :: "u8 list \<Rightarrow> nat \<Rightarrow> nat \<Rightarrow> (transmission list \<times> nat) parse" where
  "parse_transmissions m 0 p = Parsed ([], p)"
| "parse_transmissions m (Suc n) p =
     bindp (get8 m p) (\<lambda>ty. bindp (get8 m (p + 1)) (\<lambda>num.
       bindp (parse_ids m (unat num) (p + 2)) (\<lambda>(is, q).
         bindp (parse_transmissions m n q) (\<lambda>(ts, r).
           Parsed (\<lparr>transmission_type_info = ty, num_of_service = num, ts_services = is\<rparr> # ts, r)))))"

text \<open>Reserved bytes may follow: only \<open>length < p - data\<close> is refused.\<close>

definition ts_information_descriptor :: "descriptor \<Rightarrow> ts_information parse" where
  "ts_information_descriptor d =
     bindp (get8 (ddata d) 0) (\<lambda>key. bindp (get8 (ddata d) 1) (\<lambda>b.
       let nl = drop_bit 2 b AND 0x3f; cnt = b AND 0x03 in
       bindp (get_bytes (ddata d) 2 (unat nl)) (\<lambda>name.
         bindp (parse_transmissions (ddata d) (unat cnt) (2 + unat nl)) (\<lambda>(ts, q).
           checkp (\<not> unat (dlen d) < q)
             \<lparr>remote_control_key_id = key, length_of_ts_name = nl, transmission_type_count = cnt,
              ts_name_char = fill 255 name, transmissions = ts\<rparr>))))"

record si_table =
  si_table_id :: u8
  table_description_length :: u8
  table_description_byte :: "u8 list"

record si_parameter =
  parameter_version :: u8
  update_time :: u16
  si_tables :: "si_table list"

function parse_si_tables :: "u8 list \<Rightarrow> int \<Rightarrow> nat \<Rightarrow> (si_table list \<times> nat) parse" where
  "parse_si_tables m table_len p =
     (if table_len \<le> 0 then Parsed ([], p)
      else bindp (get8 m p) (\<lambda>ty. bindp (get8 m (p + 1)) (\<lambda>dl.
        bindp (get_bytes m (p + 2) (unat dl)) (\<lambda>desc.
          let table_len' = table_len - (2 + uint dl) in
          if table_len' < 0 then Rejected
          else bindp (parse_si_tables m table_len' (p + 2 + unat dl)) (\<lambda>(ts, q).
            Parsed (\<lparr>si_table_id = ty, table_description_length = dl,
                     table_description_byte = fill 255 desc\<rparr> # ts, q))))))"
  by pat_completeness auto
termination
proof (relation "measure (\<lambda>(m, n, p). nat n)")
  fix m :: "u8 list" and n n' :: int and p and dl :: u8
  assume n: "\<not> n \<le> 0" "n' = n - (2 + uint dl)"
  have "n' < n" using n(2) uint_ge_0 [of dl] by linarith
  with n(1) show "((m, n', p + 2 + unat dl), (m, n, p)) \<in> measure (\<lambda>(m, n, p). nat n)"
    by simp
qed simp

declare parse_si_tables.simps [simp del]

definition si_parameter_descriptor :: "descriptor \<Rightarrow> si_parameter parse" where
  "si_parameter_descriptor d =
     bindp (get8 (ddata d) 0) (\<lambda>v. bindp (get16 (ddata d) 1) (\<lambda>u.
       bindp (parse_si_tables (ddata d) (uint (dlen d) - 3) 3) (\<lambda>(ts, q).
         checkp (unat (dlen d) = q) \<lparr>parameter_version = v, update_time = u, si_tables = ts\<rparr>)))"

section \<open>Encoders\<close>

text \<open>What a well-formed stream contains: a descriptor has 1 to 255 payload bytes.\<close>

definition wf_descriptor :: "descriptor \<Rightarrow> bool" where
  "wf_descriptor d \<longleftrightarrow> dlen d \<noteq> 0 \<and> length (ddata d) = 255 \<and>
     ddata d = fill 255 (desc_payload d)"

definition encode_descriptor :: "descriptor \<Rightarrow> u8 list" where
  "encode_descriptor d = tag d # dlen d # desc_payload d"

definition encode_descriptors :: "descriptor list \<Rightarrow> u8 list" where
  "encode_descriptors ds = concat (map encode_descriptor ds)"

lemma unat_u8_le [simp]: "unat (x :: u8) \<le> 255"
proof -
  have "unat x < 2 ^ LENGTH(8)" by (rule unsigned_less)
  then show ?thesis by simp
qed

lemma length_desc_payload: "length (ddata d) = 255 \<Longrightarrow> length (desc_payload d) = unat (dlen d)"
  using unat_u8_le [of "dlen d"] by (simp add: desc_payload_def)

lemma length_encode_descriptor:
  "wf_descriptor d \<Longrightarrow> length (encode_descriptor d) = 2 + unat (dlen d)"
  unfolding wf_descriptor_def using length_desc_payload [of d] by (elim conjE) (simp only: encode_descriptor_def list.size)

lemma encode_descriptors_simps [simp]:
  "encode_descriptors [] = []"
  "encode_descriptors (d # ds) = encode_descriptor d @ encode_descriptors ds"
  by (simp_all add: encode_descriptors_def)

lemma parse_descriptor_at:
  assumes d: "wf_descriptor d" and m: "at m p (encode_descriptor d @ rest)"
  shows "parse_descriptor m p = Parsed d"
proof -
  have "get8 m (p + 1) = Parsed (dlen d)" "get8 m p = Parsed (tag d)"
    using m by (simp_all add: encode_descriptor_def at_Cons get8_def)
  moreover have "at m (p + 2) (desc_payload d @ rest)"
    using m by (simp add: encode_descriptor_def at_Cons)
  then have "get_bytes m (p + 2) (unat (dlen d)) = Parsed (desc_payload d)"
    using d by (intro get_bytes_at) (auto simp: wf_descriptor_def length_desc_payload)
  ultimately show ?thesis
    using d by (simp add: parse_descriptor_def wf_descriptor_def)
qed

lemma parse_descriptors_at:
  "\<lbrakk>list_all wf_descriptor ds; at m p (encode_descriptors ds @ rest);
    n = int (length (encode_descriptors ds))\<rbrakk> \<Longrightarrow>
   parse_descriptors m n p = Parsed (ds, p + length (encode_descriptors ds))"
proof (induction ds arbitrary: p n)
  case Nil
  then show ?case by (simp add: parse_descriptors.simps [of m 0 p])
next
  case (Cons d ds)
  have d: "wf_descriptor d" using Cons.prems(1) by simp
  have pd: "parse_descriptor m p = Parsed d"
    by (rule parse_descriptor_at [OF d, of m p "encode_descriptors ds @ rest"]) (use Cons.prems(2) in simp)
  have len: "length (encode_descriptor d) = 2 + unat (dlen d)"
    by (rule length_encode_descriptor [OF d])
  have "at m (p + 2 + unat (dlen d)) (encode_descriptors ds @ rest)"
    using Cons.prems(2) at_append [of m p "encode_descriptor d" "encode_descriptors ds @ rest"] len
    by (simp add: add.assoc)
  moreover have n: "n - (2 + uint (dlen d)) = int (length (encode_descriptors ds))"
    using Cons.prems(3) len by simp
  ultimately have "parse_descriptors m (n - (2 + uint (dlen d))) (p + 2 + unat (dlen d))
      = Parsed (ds, p + 2 + unat (dlen d) + length (encode_descriptors ds))"
    using Cons.IH Cons.prems(1) by simp
  moreover have "\<not> n \<le> 0" using n uint_ge_0 [of "dlen d"] by linarith
  ultimately show ?case
    using pd len by (simp add: parse_descriptors.simps [of m n p])
qed

section \<open>Theorems\<close>

definition mk_descriptor :: "u8 \<Rightarrow> u8 list \<Rightarrow> descriptor" where
  "mk_descriptor t bs = \<lparr>tag = t, dlen = of_nat (length bs), ddata = fill 255 bs\<rparr>"

lemma unat_of_length: "n \<le> 255 \<Longrightarrow> unat (of_nat n :: u8) = n"
  by (simp add: unat_of_nat)

lemma mk_descriptor_at: "length bs \<le> 255 \<Longrightarrow> at (ddata (mk_descriptor t bs)) 0 (bs @ replicate (255 - length bs) 0)"
  using at_whole [of "fill 255 bs"] by (simp add: mk_descriptor_def fill_def)

lemma wf_mk_descriptor:
  "\<lbrakk>bs \<noteq> []; length bs \<le> 255\<rbrakk> \<Longrightarrow> wf_descriptor (mk_descriptor t bs)"
  using unat_of_length [of "length bs"]
  by (auto simp: wf_descriptor_def mk_descriptor_def desc_payload_def fill_def unat_eq_0 [symmetric])

text \<open>A descriptor loop reads back the descriptors it was built from, and stops right behind
  them, wherever the loop stands in the buffer.\<close>

theorem descriptor_loop_roundtrip:
  assumes "list_all (\<lambda>(t, bs). bs \<noteq> [] \<and> length bs \<le> 255) tbs"
  shows "parse_descriptors (pre @ concat (map (\<lambda>(t, bs). t # of_nat (length bs) # bs) tbs) @ post)
      (int (length (concat (map (\<lambda>(t, bs). t # of_nat (length bs) # bs) tbs)))) (length pre)
    = Parsed (map (\<lambda>(t, bs). mk_descriptor t bs) tbs,
        length pre + length (concat (map (\<lambda>(t, bs). t # of_nat (length bs) # bs) tbs)))"
proof -
  let ?ds = "map (\<lambda>(t, bs). mk_descriptor t bs) tbs"
  have enc: "encode_descriptors ?ds = concat (map (\<lambda>(t, bs). t # of_nat (length bs) # bs) tbs)"
    using assms unfolding encode_descriptors_def
    by (induction tbs) (auto simp: encode_descriptor_def mk_descriptor_def desc_payload_def fill_def unat_of_length)
  have wf: "list_all wf_descriptor ?ds"
    using assms by (auto simp: list_all_iff wf_mk_descriptor)
  have "at (pre @ encode_descriptors ?ds @ post) (length pre) (encode_descriptors ?ds @ post)"
    using at_whole [of "pre @ encode_descriptors ?ds @ post"] at_append [of _ 0 pre] by simp
  from parse_descriptors_at [OF wf this refl] show ?thesis by (simp add: enc)
qed

theorem descriptor_loop_roundtrip_witness:
  "parse_descriptors ([9] @ concat (map (\<lambda>(t, bs). t # of_nat (length bs) # bs) [(0x52, [1]), (0x4d, [2, 3])]) @ [7])
      (int (length (concat (map (\<lambda>(t, bs). t # of_nat (length bs) # bs) [(0x52, [1]), (0x4d, [2, 3 :: u8])]))))
      (length [9 :: u8])
    = Parsed (map (\<lambda>(t, bs). mk_descriptor t bs) [(0x52, [1]), (0x4d, [2, 3])],
        length [9 :: u8] + length (concat (map (\<lambda>(t, bs). t # of_nat (length bs) # bs) [(0x52, [1]), (0x4d, [2, 3 :: u8])])))"
  by (rule descriptor_loop_roundtrip) simp

text \<open>A short event descriptor built from a language code, a name and a text is read back
  as exactly these three.\<close>

theorem short_event_roundtrip:
  assumes "length lang = 3" "length name + length txt \<le> 250"
  shows "short_event_descriptor (mk_descriptor 0x4d
      (lang @ of_nat (length name) # name @ of_nat (length txt) # txt))
    = Parsed \<lparr>se_lang = lang @ [0], event_name_length = of_nat (length name),
        event_name_char = fill 255 name, se_text_length = of_nat (length txt),
        se_text_char = fill 255 txt\<rparr>"
proof -
  let ?bs = "lang @ of_nat (length name) # name @ of_nat (length txt) # txt"
  let ?d = "mk_descriptor 0x4d ?bs"
  let ?pad = "replicate (255 - length ?bs) (0 :: u8)"
  have len: "length ?bs \<le> 255" using assms by simp
  have n: "unat (of_nat (length name) :: u8) = length name" "unat (of_nat (length txt) :: u8) = length txt"
    using assms by (simp_all add: unat_of_length)
  have m: "at (ddata ?d) 0 (lang @ of_nat (length name) # name @ of_nat (length txt) # txt @ ?pad)"
    using mk_descriptor_at [OF len] by simp
  have m1: "at (ddata ?d) 3 (of_nat (length name) # name @ of_nat (length txt) # txt @ ?pad)"
    using m at_append [of "ddata ?d" 0 lang] assms(1) by simp
  have m2: "at (ddata ?d) 4 (name @ of_nat (length txt) # txt @ ?pad)"
    using m1 by (simp add: at_Cons)
  have m3: "at (ddata ?d) (4 + length name) (of_nat (length txt) # txt @ ?pad)"
    using m2 by (simp add: at_append)
  have m4: "at (ddata ?d) (5 + length name) (txt @ ?pad)"
    using m3 by (simp add: at_Cons)
  have "get_bytes (ddata ?d) 0 3 = Parsed lang" using get_bytes_at [OF m] assms(1) by simp
  moreover note get8_at [OF m1]
  moreover have "get_bytes (ddata ?d) 4 (length name) = Parsed name" using get_bytes_at [OF m2] by simp
  moreover note get8_at [OF m3]
  moreover have "get_bytes (ddata ?d) (5 + length name) (length txt) = Parsed txt" using get_bytes_at [OF m4] by simp
  moreover have "unat (dlen ?d) = 5 + length name + length txt"
    using assms unat_of_length [OF len] by (simp add: mk_descriptor_def)
  ultimately show ?thesis using assms(1) by (simp add: short_event_descriptor_def n) (simp add: fill_def)
qed

theorem short_event_roundtrip_witness:
  "short_event_descriptor (mk_descriptor 0x4d
      ([0x6a, 0x70, 0x6e] @ of_nat (length [0x41 :: u8]) # [0x41] @ of_nat (length [0x42, 0x43 :: u8]) # [0x42, 0x43]))
    = Parsed \<lparr>se_lang = [0x6a, 0x70, 0x6e] @ [0], event_name_length = of_nat (length [0x41 :: u8]),
        event_name_char = fill 255 [0x41], se_text_length = of_nat (length [0x42, 0x43 :: u8]),
        se_text_char = fill 255 [0x42, 0x43]\<rparr>"
  by (rule short_event_roundtrip) simp_all

text \<open>Descriptors that are too short for their fixed part are not refused: the remaining
  length is negative, and \<open>memcpy\<close> gets it as its size. This holds for component (less than 6
  bytes), audio component (less than 9) and series descriptors (less than 8).\<close>

theorem short_descriptors_overrun:
  assumes "length (ddata c) = 255" "dlen c < 6" "length (ddata a) = 255" "dlen a < 9"
    and "length (ddata s) = 255" "dlen s < 8"
  shows "component_descriptor c = Overrun \<and> audio_component_descriptor a = Overrun \<and>
    series_descriptor s = Overrun"
  using assms
  by (auto simp: component_descriptor_def audio_component_descriptor_def series_descriptor_def
      get_bytes_def get_signed_def Let_def word_less_def)

theorem short_descriptors_overrun_witness:
  "component_descriptor (mk_descriptor 0x50 [1, 2, 3, 4, 5]) = Overrun \<and>
    audio_component_descriptor (mk_descriptor 0xc4 [1, 2, 3, 4, 5, 6, 7, 8]) = Overrun \<and>
    series_descriptor (mk_descriptor 0xd5 [1, 2, 3]) = Overrun"
  by (rule short_descriptors_overrun) (simp_all add: mk_descriptor_def fill_def)

end
