(* ===== verification/Psi_Tables.thy ===== *)
theory Psi_Tables
  imports Section_Props Descriptors
begin

text \<open>
  The PSI/SI table classes (src/src/parser/psisi): \<open>parse\<close> of a completed section into a
  table, the list \<open>tables_\<close> with its replacement by version number, and
  \<open>on_section_completed\<close> as listeners of the section parser. Pointers into the section are
  offsets into the parser's pool.
\<close>

section \<open>Common parts\<close>

definition data_off :: "section_info \<Rightarrow> nat parse" where
  "data_off s = (case data s of NullPtr \<Rightarrow> Overrun | Off d \<Rightarrow> Parsed d | WildPtr \<Rightarrow> Overrun)"

definition sect_len :: "section_info \<Rightarrow> int" where
  "sect_len s = uint (section_length (sect_hdr s))"

definition SECTION_HEADER_FIX_LEN :: int where "SECTION_HEADER_FIX_LEN = 5"
definition SECTION_CRC32_LEN :: int where "SECTION_CRC32_LEN = 4"

text \<open>The list of parsed tables, and whether a parse has read outside the pool.\<close>

record 't table_store =
  tables :: "'t list"
  wild_read :: bool

definition empty_store :: "'t table_store" where
  "empty_store = \<lparr>tables = [], wild_read = False\<rparr>"

text \<open>\<open>on_section_completed\<close>: parse; a refused section is detached; otherwise the table is added.\<close>

definition completed_with ::
  "(u8 list \<Rightarrow> section_info \<Rightarrow> 't parse) \<Rightarrow> ('t \<Rightarrow> 't list \<Rightarrow> 't list) \<Rightarrow> nat
    \<Rightarrow> section_parser \<times> 't table_store \<Rightarrow> section_parser \<times> 't table_store" where
  "completed_with parse_fn add a st =
     (let (sp, c) = st in
      case parse_fn (pool sp) (sect_at sp a) of
        Parsed t \<Rightarrow> (sp, c\<lparr>tables := add t (tables c)\<rparr>)
      | Rejected \<Rightarrow> (detach_section_list a sp, c)
      | Overrun \<Rightarrow> (sp, c\<lparr>wild_read := True\<rparr>))"

definition append_table :: "'t \<Rightarrow> 't list \<Rightarrow> 't list" where
  "append_table t ts = ts @ [t]"

text \<open>\<open>refresh_sub_tables_by_version_number\<close>: the first table of the same sub-table with another
  version is taken out. \<open>same\<close> compares the sub-table identification.\<close>

fun refresh_by_version :: "('t \<Rightarrow> 't \<Rightarrow> bool) \<Rightarrow> ('t \<Rightarrow> u8) \<Rightarrow> 't \<Rightarrow> 't list \<Rightarrow> 't list \<times> bool" where
  "refresh_by_version same ver new [] = ([], False)"
| "refresh_by_version same ver new (t # ts) =
     (if same new t \<and> ver new \<noteq> ver t then (ts, True)
      else let (ts', b) = refresh_by_version same ver new ts in (t # ts', b))"

lemma refresh_by_version_shorter:
  "snd (refresh_by_version same ver new ts) \<Longrightarrow> length (fst (refresh_by_version same ver new ts)) < length ts"
  by (induction ts) (auto split: if_splits prod.splits)

function refresh_loop :: "('t \<Rightarrow> 't \<Rightarrow> bool) \<Rightarrow> ('t \<Rightarrow> u8) \<Rightarrow> 't \<Rightarrow> 't list \<Rightarrow> 't list" where
  "refresh_loop same ver new ts =
     (let r = refresh_by_version same ver new ts in
      if snd r then refresh_loop same ver new (fst r) else fst r)"
  by pat_completeness auto
termination
  by (relation "measure (\<lambda>(s, v, n, ts). length ts)")
    (auto dest: refresh_by_version_shorter)

declare refresh_loop.simps [simp del]

section \<open>Program association table\<close>

record pat_program =
  program_number :: u16
  program_map_PID :: u16

record pat_table =
  pat_header :: section_header
  programs :: "pat_program list"

definition pat_entry :: "u8 list \<Rightarrow> nat \<Rightarrow> (pat_program \<times> nat \<times> nat) parse" where
  "pat_entry m p =
     bindp (get_bytes m p 4) (\<lambda>b.
       Parsed (\<lparr>program_number = be16 (b ! 0) (b ! 1),
                program_map_PID = be16 (b ! 2 AND 0x1f) (b ! 3)\<rparr>, 0, p + 4))"

definition parse_pat :: "u8 list \<Rightarrow> section_info \<Rightarrow> pat_table parse" where
  "parse_pat m s =
     (let data_part_len = uint (get_data_part_len s) in
      if data_part_len < 4 then Rejected
      else if data_part_len mod 4 \<noteq> 0 then Rejected
      else bindp (data_off s) (\<lambda>p. bindp (entries 4 (pat_entry m) data_part_len p) (\<lambda>ps.
        Parsed \<lparr>pat_header = sect_hdr s, programs = ps\<rparr>)))"

definition pat_same :: "pat_table \<Rightarrow> pat_table \<Rightarrow> bool" where
  "pat_same new t \<longleftrightarrow>
     table_id (pat_header new) = table_id (pat_header t) \<and>
     table_id_extension (pat_header new) = table_id_extension (pat_header t) \<and>
     section_number (pat_header new) = section_number (pat_header t)"

definition pat_version :: "pat_table \<Rightarrow> u8" where
  "pat_version t = version_number (pat_header t)"

definition pat_refresh :: "pat_table \<Rightarrow> pat_table list \<Rightarrow> pat_table list" where
  "pat_refresh new ts = refresh_loop pat_same pat_version new ts"

definition pat_add :: "pat_table \<Rightarrow> pat_table list \<Rightarrow> pat_table list" where
  "pat_add t ts = append_table t (pat_refresh t ts)"

definition pat_listener :: "pat_table table_store listener" where
  "pat_listener = \<lparr>on_started = (\<lambda>s. True),
     on_completed = completed_with parse_pat pat_add\<rparr>"

section \<open>Program map table\<close>

record pmt_stream =
  stream_type :: u8
  ps_reserved_1 :: u8
  elementary_PID :: u16
  ps_reserved_2 :: u8
  ES_info_length :: u16
  ps_descriptors :: "descriptor list"

record pmt_table =
  pmt_header :: section_header
  pmt_reserved_3 :: u8
  PCR_PID :: u16
  pmt_reserved_4 :: u8
  program_info_length :: u16
  pmt_descriptors :: "descriptor list"
  pmt_streams :: "pmt_stream list"

definition pmt_entry :: "u8 list \<Rightarrow> nat \<Rightarrow> (pmt_stream \<times> nat \<times> nat) parse" where
  "pmt_entry m p =
     bindp (get_bytes m p 5) (\<lambda>b.
       let len = be16 (b ! 3 AND 0x0f) (b ! 4) in
       bindp (parse_descriptors m (uint len) (p + 5)) (\<lambda>(ds, q).
         Parsed (\<lparr>stream_type = b ! 0, ps_reserved_1 = drop_bit 5 (b ! 1) AND 0x07,
                  elementary_PID = be16 (b ! 1 AND 0x1f) (b ! 2),
                  ps_reserved_2 = drop_bit 4 (b ! 3) AND 0x0f, ES_info_length = len,
                  ps_descriptors = ds\<rparr>, unat len, q)))"

definition parse_pmt :: "u8 list \<Rightarrow> section_info \<Rightarrow> pmt_table parse" where
  "parse_pmt m s =
     bindp (data_off s) (\<lambda>p. bindp (get_bytes m p 4) (\<lambda>b.
       let plen = be16 (b ! 2 AND 0x0f) (b ! 3) in
       bindp (parse_descriptors m (uint plen) (p + 4)) (\<lambda>(ds, q).
         let stream_len = sect_len s - uint plen - SECTION_HEADER_FIX_LEN - SECTION_CRC32_LEN - 4 in
         if stream_len \<le> 5 then Rejected
         else bindp (entries 5 (pmt_entry m) stream_len q) (\<lambda>ss.
           Parsed \<lparr>pmt_header = sect_hdr s, pmt_reserved_3 = drop_bit 5 (b ! 0) AND 0x07,
                   PCR_PID = be16 (b ! 0 AND 0x1f) (b ! 1),
                   pmt_reserved_4 = drop_bit 4 (b ! 2) AND 0x0f, program_info_length = plen,
                   pmt_descriptors = ds, pmt_streams = ss\<rparr>))))"

definition pmt_listener :: "pmt_table table_store listener" where
  "pmt_listener = \<lparr>on_started = (\<lambda>s. True), on_completed = completed_with parse_pmt append_table\<rparr>"

section \<open>Event information table\<close>

record eit_event =
  event_id :: u16
  ev_start_time :: "u8 list"
  ev_duration :: "u8 list"
  ev_running_status :: u8
  ev_free_CA_mode :: u8
  ev_descriptors_loop_length :: u16
  ev_descriptors :: "descriptor list"

record eit_table =
  eit_header :: section_header
  eit_transport_stream_id :: u16
  eit_original_network_id :: u16
  segment_last_section_number :: u8
  last_table_id :: u8
  events :: "eit_event list"

definition eit_entry :: "u8 list \<Rightarrow> nat \<Rightarrow> (eit_event \<times> nat \<times> nat) parse" where
  "eit_entry m p =
     bindp (get_bytes m p 12) (\<lambda>b.
       let len = be16 (b ! 10 AND 0x0f) (b ! 11) in
       bindp (parse_descriptors m (uint len) (p + 12)) (\<lambda>(ds, q).
         Parsed (\<lparr>event_id = be16 (b ! 0) (b ! 1), ev_start_time = fill 8 (take 5 (drop 2 b)),
                  ev_duration = take 3 (drop 7 b), ev_running_status = drop_bit 5 (b ! 10) AND 0x07,
                  ev_free_CA_mode = drop_bit 4 (b ! 10) AND 0x01, ev_descriptors_loop_length = len,
                  ev_descriptors = ds\<rparr>, unat len, q)))"

definition parse_eit :: "u8 list \<Rightarrow> section_info \<Rightarrow> eit_table parse" where
  "parse_eit m s =
     bindp (data_off s) (\<lambda>p. bindp (get_bytes m p 6) (\<lambda>b.
       let event_len = sect_len s - SECTION_HEADER_FIX_LEN - SECTION_CRC32_LEN - 6 in
       if \<not> (event_len = 0 \<or> event_len = 12) \<and> event_len < 12 then Rejected
       else bindp (entries 12 (eit_entry m) event_len (p + 6)) (\<lambda>es.
         Parsed \<lparr>eit_header = sect_hdr s, eit_transport_stream_id = be16 (b ! 0) (b ! 1),
                 eit_original_network_id = be16 (b ! 2) (b ! 3), segment_last_section_number = b ! 4,
                 last_table_id = b ! 5, events = es\<rparr>)))"

definition eit_same :: "eit_table \<Rightarrow> eit_table \<Rightarrow> bool" where
  "eit_same new t \<longleftrightarrow>
     table_id (eit_header new) = table_id (eit_header t) \<and>
     table_id_extension (eit_header new) = table_id_extension (eit_header t) \<and>
     eit_transport_stream_id new = eit_transport_stream_id t \<and>
     eit_original_network_id new = eit_original_network_id t \<and>
     section_number (eit_header new) = section_number (eit_header t)"

definition eit_version :: "eit_table \<Rightarrow> u8" where
  "eit_version t = version_number (eit_header t)"

definition eit_refresh :: "eit_table \<Rightarrow> eit_table list \<Rightarrow> eit_table list" where
  "eit_refresh new ts = refresh_loop eit_same eit_version new ts"

definition is_eit_pf :: "u8 \<Rightarrow> bool" where
  "is_eit_pf tid \<longleftrightarrow> tid = 0x4e \<or> tid = 0x4f"

definition is_eit_sched :: "u8 \<Rightarrow> bool" where
  "is_eit_sched tid \<longleftrightarrow> (0x50 \<le> tid \<and> tid \<le> 0x50 + 0xf) \<or> (0x60 \<le> tid \<and> tid \<le> 0x60 + 0xf)"

definition eit_add :: "eit_table \<Rightarrow> eit_table list \<Rightarrow> eit_table list" where
  "eit_add t ts = append_table t (eit_refresh t ts)"

text \<open>Present/following: schedule tables and unknown ones are refused at the header.\<close>

definition eit_on_started :: "section_info \<Rightarrow> bool" where
  "eit_on_started s =
     (let tid = table_id (sect_hdr s) in
      if is_eit_pf tid then True else if is_eit_sched tid then False else False)"

definition eit_listener :: "eit_table table_store listener" where
  "eit_listener = \<lparr>on_started = eit_on_started,
     on_completed = completed_with parse_eit eit_add\<rparr>"

text \<open>The schedule class repeats parser and replacement; its header filter is the other way round, duplicates are looked for in \<open>tables_\<close>, the section is
  always detached, and the handler is told of every new table.\<close>

record sched_store =
  sched_tables :: "eit_table list"
  sched_wild_read :: bool
  on_schedule_update :: nat

definition sched_on_started :: "section_info \<Rightarrow> bool" where
  "sched_on_started s =
     (let tid = table_id (sect_hdr s) in
      if is_eit_pf tid then False else if is_eit_sched tid then True else False)"

definition parse_sched :: "u8 list \<Rightarrow> section_info \<Rightarrow> eit_table parse" where
  "parse_sched m s = parse_eit m s"

definition sched_refresh :: "eit_table \<Rightarrow> eit_table list \<Rightarrow> eit_table list" where
  "sched_refresh new ts = refresh_loop eit_same eit_version new ts"

definition sched_add :: "eit_table \<Rightarrow> eit_table list \<Rightarrow> eit_table list" where
  "sched_add t ts = append_table t (sched_refresh t ts)"

definition is_duplicate_sub_tables :: "eit_table \<Rightarrow> eit_table list \<Rightarrow> bool" where
  "is_duplicate_sub_tables new ts = list_ex (\<lambda>t. eit_same new t \<and> eit_version new = eit_version t) ts"

definition sched_completed ::
  "nat \<Rightarrow> section_parser \<times> sched_store \<Rightarrow> section_parser \<times> sched_store" where
  "sched_completed a st =
     (let (sp, c) = st in
      case parse_sched (pool sp) (sect_at sp a) of
        Parsed t \<Rightarrow>
          if is_duplicate_sub_tables t (sched_tables c) then (detach_section_list a sp, c)
          else (detach_section_list a sp,
                c\<lparr>sched_tables := sched_add t (sched_tables c),
                  on_schedule_update := on_schedule_update c + 1\<rparr>)
      | Rejected \<Rightarrow> (detach_section_list a sp, c)
      | Overrun \<Rightarrow> (sp, c\<lparr>sched_wild_read := True\<rparr>))"

definition sched_listener :: "sched_store listener" where
  "sched_listener = \<lparr>on_started = sched_on_started, on_completed = sched_completed\<rparr>"

end
