(* ===== verification/Si_Tables.thy ===== *)
theory Si_Tables
  imports Psi_Tables
begin

text \<open>
  The remaining table classes of src/src/parser/psisi, which keep every table they parse:
  service description, network information, broadcaster information, conditional access,
  running status and common data tables.
\<close>

section \<open>Service description table\<close>

record sdt_service =
  service_id :: u16
  sv_reserved_future_use :: u8
  EIT_user_defined_flags :: u8
  EIT_schedule_flag :: u8
  EIT_present_following_flag :: u8
  sv_running_status :: u8
  sv_free_CA_mode :: u8
  sv_descriptors_loop_length :: u16
  sv_descriptors :: "descriptor list"

record sdt_table =
  sdt_header :: section_header
  sdt_original_network_id :: u16
  sdt_reserved_future_use_2 :: u8
  services :: "sdt_service list"

definition sdt_entry :: "u8 list \<Rightarrow> nat \<Rightarrow> (sdt_service \<times> nat \<times> nat) parse" where
  "sdt_entry m p =
     bindp (get_bytes m p 5) (\<lambda>b.
       let len = be16 (b ! 3 AND 0x0f) (b ! 4) in
       bindp (parse_descriptors m (uint len) (p + 5)) (\<lambda>(ds, q).
         Parsed (\<lparr>service_id = be16 (b ! 0) (b ! 1), sv_reserved_future_use = b ! 2 AND 0x07,
                  EIT_user_defined_flags = drop_bit 2 (b ! 2) AND 0x07,
                  EIT_schedule_flag = drop_bit 1 (b ! 2) AND 0x01,
                  EIT_present_following_flag = b ! 2 AND 0x01,
                  sv_running_status = drop_bit 5 (b ! 3) AND 0x07,
                  sv_free_CA_mode = drop_bit 4 (b ! 3) AND 0x01,
                  sv_descriptors_loop_length = len, sv_descriptors = ds\<rparr>, unat len, q)))"

definition parse_sdt :: "u8 list \<Rightarrow> section_info \<Rightarrow> sdt_table parse" where
  "parse_sdt m s =
     bindp (data_off s) (\<lambda>p. bindp (get_bytes m p 3) (\<lambda>b.
       let service_len = sect_len s - SECTION_HEADER_FIX_LEN - SECTION_CRC32_LEN - 3 in
       if service_len \<le> 5 then Rejected
       else bindp (entries 5 (sdt_entry m) service_len (p + 3)) (\<lambda>ss.
         Parsed \<lparr>sdt_header = sect_hdr s, sdt_original_network_id = be16 (b ! 0) (b ! 1),
                 sdt_reserved_future_use_2 = b ! 2, services = ss\<rparr>)))"

definition sdt_listener :: "sdt_table table_store listener" where
  "sdt_listener = \<lparr>on_started = (\<lambda>s. True), on_completed = completed_with parse_sdt append_table\<rparr>"

section \<open>Network information table\<close>

record nit_stream =
  ns_transport_stream_id :: u16
  ns_original_network_id :: u16
  ns_reserved_future_use :: u8
  transport_descriptors_length :: u16
  ns_descriptors :: "descriptor list"

record nit_table =
  nit_header :: section_header
  nit_reserved_future_use_2 :: u8
  network_descriptors_length :: u16
  nit_descriptors :: "descriptor list"
  nit_reserved_future_use_3 :: u8
  transport_stream_loop_length :: u16
  nit_streams :: "nit_stream list"

definition nit_entry :: "u8 list \<Rightarrow> nat \<Rightarrow> (nit_stream \<times> nat \<times> nat) parse" where
  "nit_entry m p =
     bindp (get_bytes m p 6) (\<lambda>b.
       let len = be16 (b ! 4 AND 0x0f) (b ! 5) in
       bindp (parse_descriptors m (uint len) (p + 6)) (\<lambda>(ds, q).
         Parsed (\<lparr>ns_transport_stream_id = be16 (b ! 0) (b ! 1),
                  ns_original_network_id = be16 (b ! 2) (b ! 3),
                  ns_reserved_future_use = drop_bit 4 (b ! 4) AND 0x0f,
                  transport_descriptors_length = len, ns_descriptors = ds\<rparr>, unat len, q)))"

definition parse_nit :: "u8 list \<Rightarrow> section_info \<Rightarrow> nit_table parse" where
  "parse_nit m s =
     bindp (data_off s) (\<lambda>p. bindp (get_bytes m p 2) (\<lambda>b.
       let nlen = be16 (b ! 0 AND 0x0f) (b ! 1) in
       bindp (parse_descriptors m (uint nlen) (p + 2)) (\<lambda>(ds, q). bindp (get_bytes m q 2) (\<lambda>b2.
         let loop_len = be16 (b2 ! 0 AND 0x0f) (b2 ! 1);
             stream_len = sect_len s - SECTION_HEADER_FIX_LEN - SECTION_CRC32_LEN - 2 - uint nlen - 2
         in if stream_len \<le> 6 then Rejected
            else if stream_len \<noteq> uint loop_len then Rejected
            else bindp (entries 6 (nit_entry m) stream_len (q + 2)) (\<lambda>ss.
              Parsed \<lparr>nit_header = sect_hdr s, nit_reserved_future_use_2 = drop_bit 4 (b ! 0) AND 0x0f,
                      network_descriptors_length = nlen, nit_descriptors = ds,
                      nit_reserved_future_use_3 = drop_bit 4 (b2 ! 0) AND 0x0f,
                      transport_stream_loop_length = loop_len, nit_streams = ss\<rparr>)))))"

definition nit_listener :: "nit_table table_store listener" where
  "nit_listener = \<lparr>on_started = (\<lambda>s. True), on_completed = completed_with parse_nit append_table\<rparr>"

section \<open>Broadcaster information table\<close>

record bit_broadcaster =
  broadcaster_id :: u8
  br_reserved_future_use :: u8
  broadcaster_descriptors_length :: u16
  br_descriptors :: "descriptor list"

record bit_table =
  bit_header :: section_header
  bit_reserved_future_use_2 :: u8
  broadcast_view_propriety :: u8
  first_descriptors_length :: u16
  bit_descriptors :: "descriptor list"
  broadcasters :: "bit_broadcaster list"

definition bit_entry :: "u8 list \<Rightarrow> nat \<Rightarrow> (bit_broadcaster \<times> nat \<times> nat) parse" where
  "bit_entry m p =
     bindp (get_bytes m p 3) (\<lambda>b.
       let len = be16 (b ! 1 AND 0x0f) (b ! 2) in
       bindp (parse_descriptors m (uint len) (p + 3)) (\<lambda>(ds, q).
         Parsed (\<lparr>broadcaster_id = b ! 0, br_reserved_future_use = drop_bit 4 (b ! 1) AND 0x0f,
                  broadcaster_descriptors_length = len, br_descriptors = ds\<rparr>, unat len, q)))"

definition parse_bit :: "u8 list \<Rightarrow> section_info \<Rightarrow> bit_table parse" where
  "parse_bit m s =
     bindp (data_off s) (\<lambda>p. bindp (get_bytes m p 2) (\<lambda>b.
       let flen = be16 (b ! 0 AND 0x0f) (b ! 1) in
       bindp (parse_descriptors m (uint flen) (p + 2)) (\<lambda>(ds, q).
         let len = sect_len s - SECTION_HEADER_FIX_LEN - SECTION_CRC32_LEN - 2 - uint flen in
         if len \<le> 3 then Rejected
         else bindp (entries 3 (bit_entry m) len q) (\<lambda>bs.
           Parsed \<lparr>bit_header = sect_hdr s, bit_reserved_future_use_2 = drop_bit 5 (b ! 0) AND 0x07,
                   broadcast_view_propriety = drop_bit 4 (b ! 0) AND 0x01,
                   first_descriptors_length = flen, bit_descriptors = ds, broadcasters = bs\<rparr>))))"

definition bit_listener :: "bit_table table_store listener" where
  "bit_listener = \<lparr>on_started = (\<lambda>s. True), on_completed = completed_with parse_bit append_table\<rparr>"

section \<open>Conditional access table\<close>

record cat_table =
  cat_header :: section_header
  cat_descriptors :: "descriptor list"

text \<open>Without descriptors the data pointer is not read.\<close>

definition parse_cat :: "u8 list \<Rightarrow> section_info \<Rightarrow> cat_table parse" where
  "parse_cat m s =
     (let n = sect_len s - SECTION_HEADER_FIX_LEN - SECTION_CRC32_LEN in
      if n \<le> 0 then Parsed \<lparr>cat_header = sect_hdr s, cat_descriptors = []\<rparr>
      else bindp (data_off s) (\<lambda>p. bindp (parse_descriptors m n p) (\<lambda>(ds, q).
        Parsed \<lparr>cat_header = sect_hdr s, cat_descriptors = ds\<rparr>)))"

definition cat_listener :: "cat_table table_store listener" where
  "cat_listener = \<lparr>on_started = (\<lambda>s. True), on_completed = completed_with parse_cat append_table\<rparr>"

section \<open>Running status table\<close>

record rst_status =
  rs_transport_stream_id :: u16
  rs_original_network_id :: u16
  rs_service_id :: u16
  rs_event_id :: u16
  rs_running_status :: u8

record rst_table =
  rst_header :: section_header
  statuses :: "rst_status list"

definition rst_entry :: "u8 list \<Rightarrow> nat \<Rightarrow> (rst_status \<times> nat \<times> nat) parse" where
  "rst_entry m p =
     bindp (get_bytes m p 9) (\<lambda>b.
       Parsed (\<lparr>rs_transport_stream_id = be16 (b ! 0) (b ! 1), rs_original_network_id = be16 (b ! 2) (b ! 3),
                rs_service_id = be16 (b ! 4) (b ! 5), rs_event_id = be16 (b ! 6) (b ! 7),
                rs_running_status = b ! 8 AND 0x07\<rparr>, 0, p + 9))"

text \<open>The announced length is not reduced by the checksum here.\<close>

definition parse_rst :: "u8 list \<Rightarrow> section_info \<Rightarrow> rst_table parse" where
  "parse_rst m s =
     (if sect_len s \<le> 9 then Rejected
      else bindp (data_off s) (\<lambda>p. bindp (entries 9 (rst_entry m) (sect_len s) p) (\<lambda>ss.
        Parsed \<lparr>rst_header = sect_hdr s, statuses = ss\<rparr>)))"

definition rst_listener :: "rst_table table_store listener" where
  "rst_listener = \<lparr>on_started = (\<lambda>s. True), on_completed = completed_with parse_rst append_table\<rparr>"

section \<open>Common data table\<close>

record cdt_data =
  cd_logo_type :: u8
  cd_reserved_future_use_1 :: u8
  cd_logo_id :: u16
  cd_reserved_future_use_2 :: u8
  cd_logo_version :: u16
  data_size :: u16
  data_byte :: "u8 list"

definition empty_cdt_data :: cdt_data where
  "empty_cdt_data = \<lparr>cd_logo_type = 0, cd_reserved_future_use_1 = 0, cd_logo_id = 0,
     cd_reserved_future_use_2 = 0, cd_logo_version = 0, data_size = 0, data_byte = []\<rparr>"

record cdt_table =
  cdt_header :: section_header
  cdt_original_network_id :: u16
  data_type :: u8
  cdt_reserved_future_use :: u8
  cdt_descriptors_loop_length :: u16
  cdt_descriptors :: "descriptor list"
  cdt_data :: cdt_data

definition parse_cdt :: "u8 list \<Rightarrow> section_info \<Rightarrow> cdt_table parse" where
  "parse_cdt m s =
     bindp (data_off s) (\<lambda>p. bindp (get_bytes m p 5) (\<lambda>b.
       let dl = be16 (b ! 3 AND 0x0f) (b ! 4) in
       bindp (parse_descriptors m (uint dl) (p + 5)) (\<lambda>(ds, q).
         let t = \<lparr>cdt_header = sect_hdr s, cdt_original_network_id = be16 (b ! 0) (b ! 1),
                  data_type = b ! 2, cdt_reserved_future_use = drop_bit 4 (b ! 3 AND 0xf0),
                  cdt_descriptors_loop_length = dl, cdt_descriptors = ds,
                  cdt_data = empty_cdt_data\<rparr>;
             data_len = sect_len s - SECTION_HEADER_FIX_LEN - SECTION_CRC32_LEN - 5 - uint dl
         in if b ! 2 \<noteq> 0x01 then Parsed t
            else if data_len \<le> 7 then Rejected
            else bindp (get_bytes m q 7) (\<lambda>c.
              let size = be16 (c ! 5) (c ! 6) in
              if data_len \<noteq> 7 + uint size then Rejected
              else bindp (get_bytes m (q + 7) (unat size)) (\<lambda>bytes.
                Parsed (t\<lparr>cdt_data :=
                  \<lparr>cd_logo_type = c ! 0, cd_reserved_future_use_1 = drop_bit 1 (c ! 1 AND 0xfe),
                   cd_logo_id = be16 (c ! 1 AND 0x01) (c ! 2),
                   cd_reserved_future_use_2 = drop_bit 4 (c ! 3 AND 0xf0),
                   cd_logo_version = be16 (c ! 3 AND 0x0f) (c ! 4), data_size = size,
                   data_byte = bytes\<rparr>\<rparr>))))))"

definition cdt_listener :: "cdt_table table_store listener" where
  "cdt_listener = \<lparr>on_started = (\<lambda>s. True), on_completed = completed_with parse_cdt append_table\<rparr>"

end
