(* ===== verification/Table_Props.thy ===== *)
theory Table_Props
  imports Si_Tables
begin

text \<open>
  Lemmas about the table classes: the version replacement is a filter, the listeners keep the
  contract of the section parser, and encoders that the parsers invert.
\<close>

section \<open>Replacement by version number\<close>

definition superseded :: "('t \<Rightarrow> 't \<Rightarrow> bool) \<Rightarrow> ('t \<Rightarrow> u8) \<Rightarrow> 't \<Rightarrow> 't \<Rightarrow> bool" where
  "superseded same ver new t \<longleftrightarrow> same new t \<and> ver new \<noteq> ver t"

lemma refresh_by_version_filter:
  "refresh_by_version same ver new ts = (ts', b) \<Longrightarrow>
   filter (\<lambda>t. \<not> superseded same ver new t) ts' = filter (\<lambda>t. \<not> superseded same ver new t) ts \<and>
   (\<not> b \<longrightarrow> ts' = ts \<and> list_all (\<lambda>t. \<not> superseded same ver new t) ts)"
  by (induction ts arbitrary: ts')
    (auto simp: superseded_def split: if_splits prod.splits)

lemma refresh_loop_filter:
  "refresh_loop same ver new ts = filter (\<lambda>t. \<not> superseded same ver new t) ts"
proof (induction same ver new ts rule: refresh_loop.induct)
  case (1 same ver new ts)
  obtain ts' b where r: "refresh_by_version same ver new ts = (ts', b)" by fastforce
  note f = refresh_by_version_filter [OF r]
  show ?case
  proof (cases b)
    case True
    have "refresh_loop same ver new ts = refresh_loop same ver new ts'"
      using r True by (subst refresh_loop.simps) simp
    moreover have "refresh_loop same ver new ts' = filter (\<lambda>t. \<not> superseded same ver new t) ts'"
      using 1 r True by simp
    ultimately show ?thesis using f by simp
  next
    case False
    then have "filter (\<lambda>t. \<not> superseded same ver new t) ts = ts" using f by (simp add: filter_id_conv list_all_iff)
    moreover have "refresh_loop same ver new ts = ts'"
      using r False by (subst refresh_loop.simps) simp
    ultimately show ?thesis using False f by simp
  qed
qed

section \<open>The listeners keep the contract\<close>

lemma listener_contract:
  assumes "wf_parser sp" "shots sp = xs @ [x]" "work sp = Some (shot_addr x)"
    and "sp' = sp \<or> sp' = detach_section_list (shot_addr x) sp"
  shows "wf_parser sp' \<and> (shots sp' = xs @ [x] \<and> work sp' = work sp \<or> shots sp' = xs \<and> work sp' = None)"
  using assms shots_detach [OF assms(1,2) refl] by auto

lemma completed_with_cases:
  "completed_with f add a (sp, c) = (sp', c') \<Longrightarrow> sp' = sp \<or> sp' = detach_section_list a sp"
  by (auto simp: completed_with_def split: parse.splits)

lemma completed_with_listener:
  "section_listener \<lparr>on_started = g, on_completed = completed_with f add\<rparr>"
  by unfold_locales (rule listener_contract, assumption+, simp add: completed_with_cases)

interpretation pat: section_listener pat_listener
  unfolding pat_listener_def by (rule completed_with_listener)

interpretation pmt: section_listener pmt_listener
  unfolding pmt_listener_def by (rule completed_with_listener)

interpretation eit: section_listener eit_listener
  unfolding eit_listener_def by (rule completed_with_listener)

interpretation sdt: section_listener sdt_listener
  unfolding sdt_listener_def by (rule completed_with_listener)

interpretation nit: section_listener nit_listener
  unfolding nit_listener_def by (rule completed_with_listener)

interpretation cdt: section_listener cdt_listener
  unfolding cdt_listener_def by (rule completed_with_listener)

lemma sched_completed_cases:
  "sched_completed a (sp, c) = (sp', c') \<Longrightarrow> sp' = sp \<or> sp' = detach_section_list a sp"
  by (auto simp: sched_completed_def split: parse.splits if_splits)

interpretation sched: section_listener sched_listener
  by unfold_locales (rule listener_contract, assumption+, simp add: sched_listener_def sched_completed_cases)

section \<open>Invariants of the listener state\<close>

lemma call_completed_state:
  assumes "\<And>a sp c. P c \<Longrightarrow> P (snd (on_completed L a (sp, c)))" and "P c"
  shows "P (snd (call_completed L (sp, c)))"
  using assms by (auto simp: call_completed_def split: option.splits)

lemma finish_state:
  assumes "\<And>a sp c. P c \<Longrightarrow> P (snd (on_completed L a (sp, c)))" and "P c"
  shows "P (snd (fst (finish_section L a (sp, c))))"
  using assms(2) call_completed_state [of P L, OF assms(1)]
  by (auto simp: finish_section_def Let_def split: option.splits)

lemma first_loop_state:
  assumes step: "\<And>a sp c. P c \<Longrightarrow> P (snd (on_completed L a (sp, c)))"
  shows "P c \<Longrightarrow> P (snd (fst (first_loop L bs r once (sp, c))))"
proof (induction "length bs" arbitrary: bs r once sp c rule: less_induct)
  case less
  show ?case
  proof (cases "bs = [] \<or> hd bs = 0xff")
    case True
    then show ?thesis using less.prems by (auto simp: first_loop.simps [of L bs])
  next
    case False
    obtain sp1 q where at: "attach_section_list bs (start_over sp) = (sp1, q)" by fastforce
    show ?thesis
    proof (cases q)
      case None
      then show ?thesis using less.prems False at by (auto simp: first_loop.simps [of L bs])
    next
      case (Some a)
      let ?s = "sect_at (sp1\<lparr>work := Some a\<rparr>) a"
      have shorter: "length (drop (total_len ?s) bs) < length bs"
        using False by (cases bs) (auto simp: total_len_def)
      obtain sp4 c4 r4 where fin: "finish_section L a (sp1\<lparr>work := Some a, is_ignore := False\<rparr>, c)
          = ((sp4, c4), r4)" by (metis surj_pair)
      have "P c4" using finish_state [of P L, OF step less.prems, of a] fin by (metis fst_conv snd_conv)
      then show ?thesis
        using less.prems False at Some fin less.hyps [OF shorter]
        by (auto simp: first_loop.simps [of L bs] Let_def)
    qed
  qed
qed

lemma check_section_state:
  assumes step: "\<And>a sp c. P c \<Longrightarrow> P (snd (on_completed L a (sp, c)))" and "P c"
  shows "P (snd (fst (check_section L pid pusi payload (sp, c))))"
proof -
  have follow: "P (snd (fst (check_section_follow L bs (sp, c))))" if "P c" for bs sp c
    using that finish_state [of P L, OF step]
    by (auto simp: check_section_follow_def split: option.splits prod.splits)
  show ?thesis
    using assms(2) follow first_loop_state [of P L, OF step]
    by (auto simp: check_section_def check_section_first_def Let_def split: prod.splits)
      (metis fst_conv snd_conv)+
qed

lemma feed_state:
  assumes step: "\<And>a sp c. P c \<Longrightarrow> P (snd (on_completed L a (sp, c)))"
  shows "P c \<Longrightarrow> P (snd (fst (feed L ps (sp, c))))"
proof (induction ps arbitrary: sp c)
  case (Cons p ps)
  obtain pid pusi payload where p: "p = (pid, pusi, payload)" by (cases p)
  obtain sp1 c1 r where c: "check_section L pid pusi payload (sp, c) = ((sp1, c1), r)" by (metis surj_pair)
  have "P c1" using check_section_state [of P L, OF step Cons.prems, of pid pusi payload sp] c by simp
  then show ?case using Cons.IH [of c1 sp1] p c by (auto split: prod.splits)
qed simp

lemma completed_with_state:
  assumes "\<And>t ts. P ts \<Longrightarrow> P (add t ts)" "P (tables c)"
  shows "P (tables (snd (completed_with f add a (sp, c))))"
  using assms by (auto simp: completed_with_def split: parse.splits)

section \<open>Bit fields that span two bytes\<close>

text \<open>\<open>8 - k\<close> bits of a flag field above the upper \<open>k\<close> bits of a value of \<open>k + 8\<close> bits.\<close>

definition pack_hi :: "nat \<Rightarrow> u8 \<Rightarrow> u16 \<Rightarrow> u8" where
  "pack_hi k r v = push_bit k r OR ucast (drop_bit 8 v)"

lemma bit_take_bit_eq: "take_bit n (w :: 'a::len word) = w \<Longrightarrow> bit w i \<Longrightarrow> i < n"
  by (metis bit_take_bit_iff)

lemma pack_hi_flags:
  assumes k: "k \<le> 8" and r: "take_bit (8 - k) r = r" and v: "take_bit (k + 8) v = v"
  shows "drop_bit k (pack_hi k r v) AND mask (8 - k) = r"
proof (rule bit_word_eqI)
  fix n assume "n < LENGTH(8)"
  then show "bit (drop_bit k (pack_hi k r v) AND mask (8 - k)) n = bit r n"
    using k bit_take_bit_eq [OF r, of n] bit_take_bit_eq [OF v, of "8 + (k + n)"]
    by (auto simp: pack_hi_def bit_simps)
qed

lemma pack_hi_value:
  assumes k: "k \<le> 8" and v: "take_bit (k + 8) v = v"
  shows "be16 (pack_hi k r v AND mask k) (ucast v) = v"
proof (rule bit_word_eqI)
  fix n assume "n < LENGTH(16)"
  then show "bit (be16 (pack_hi k r v AND mask k) (ucast v)) n = bit v n"
    using k bit_take_bit_eq [OF v, of n]
    by (auto simp: be16_def pack_hi_def bit_simps)
qed

lemma be16_split: "be16 (ucast (drop_bit 8 v)) (ucast v) = v"
  by (rule bit_word_eqI) (auto simp: be16_def bit_simps)

lemma masks: "(0x07 :: u8) = mask 3" "(0x0f :: u8) = mask 4" "(0x1f :: u8) = mask 5" "(0x01 :: u8) = mask 1"
  "(1 :: u8) = mask 1"
  by (simp_all add: mask_eq_exp_minus_1)

end
