(* ===== verification/Table_Claims.thy ===== *)
theory Table_Claims
  imports Table_Props
begin

text \<open>
  The theorems about the table classes: round trips of the program association, program map and
  event information tables, the version invariant of the stored tables over all packet
  sequences, and the inputs on which the parsers misbehave.
\<close>

section \<open>Encoders\<close>

text \<open>A completed section whose data part holds \<open>body\<close>, of the long form.\<close>

definition section_body :: "u8 list \<Rightarrow> section_info \<Rightarrow> u8 list \<Rightarrow> bool" where
  "section_body m s body \<longleftrightarrow> (\<exists>d. data s = Off d \<and> at m d body) \<and>
     stype s = T_PSISI \<and> section_syntax_indicator (sect_hdr s) \<noteq> 0 \<and>
     sect_len s = int (length body) + 9"

definition enc_program :: "pat_program \<Rightarrow> u8 list" where
  "enc_program p = [ucast (drop_bit 8 (program_number p)), ucast (program_number p),
     pack_hi 5 0x07 (program_map_PID p), ucast (program_map_PID p)]"

definition wf_program :: "pat_program \<Rightarrow> bool" where
  "wf_program p \<longleftrightarrow> take_bit 13 (program_map_PID p) = program_map_PID p"

definition wf_loop :: "descriptor list \<Rightarrow> u16 \<Rightarrow> bool" where
  "wf_loop ds n \<longleftrightarrow> list_all wf_descriptor ds \<and> unat n = length (encode_descriptors ds) \<and>
     take_bit 12 n = n"

definition enc_stream :: "pmt_stream \<Rightarrow> u8 list" where
  "enc_stream s = [stream_type s, pack_hi 5 (ps_reserved_1 s) (elementary_PID s), ucast (elementary_PID s),
     pack_hi 4 (ps_reserved_2 s) (ES_info_length s), ucast (ES_info_length s)]
     @ encode_descriptors (ps_descriptors s)"

definition wf_stream :: "pmt_stream \<Rightarrow> bool" where
  "wf_stream s \<longleftrightarrow> take_bit 3 (ps_reserved_1 s) = ps_reserved_1 s \<and>
     take_bit 13 (elementary_PID s) = elementary_PID s \<and>
     take_bit 4 (ps_reserved_2 s) = ps_reserved_2 s \<and> wf_loop (ps_descriptors s) (ES_info_length s)"

definition enc_pmt :: "pmt_table \<Rightarrow> u8 list" where
  "enc_pmt t = [pack_hi 5 (pmt_reserved_3 t) (PCR_PID t), ucast (PCR_PID t),
     pack_hi 4 (pmt_reserved_4 t) (program_info_length t), ucast (program_info_length t)]
     @ encode_descriptors (pmt_descriptors t) @ concat (map enc_stream (pmt_streams t))"

definition wf_pmt :: "pmt_table \<Rightarrow> bool" where
  "wf_pmt t \<longleftrightarrow> take_bit 3 (pmt_reserved_3 t) = pmt_reserved_3 t \<and>
     take_bit 13 (PCR_PID t) = PCR_PID t \<and> take_bit 4 (pmt_reserved_4 t) = pmt_reserved_4 t \<and>
     wf_loop (pmt_descriptors t) (program_info_length t) \<and> list_all wf_stream (pmt_streams t) \<and>
     5 < length (concat (map enc_stream (pmt_streams t)))"

definition eit_flags :: "eit_event \<Rightarrow> u8" where
  "eit_flags e = push_bit 1 (ev_running_status e) OR ev_free_CA_mode e"

definition enc_event :: "eit_event \<Rightarrow> u8 list" where
  "enc_event e = [ucast (drop_bit 8 (event_id e)), ucast (event_id e)] @ take 5 (ev_start_time e)
     @ ev_duration e @ [pack_hi 4 (eit_flags e) (ev_descriptors_loop_length e),
     ucast (ev_descriptors_loop_length e)] @ encode_descriptors (ev_descriptors e)"

definition wf_event :: "eit_event \<Rightarrow> bool" where
  "wf_event e \<longleftrightarrow> length (ev_start_time e) = 8 \<and> drop 5 (ev_start_time e) = [0, 0, 0] \<and>
     length (ev_duration e) = 3 \<and> take_bit 3 (ev_running_status e) = ev_running_status e \<and>
     take_bit 1 (ev_free_CA_mode e) = ev_free_CA_mode e \<and>
     wf_loop (ev_descriptors e) (ev_descriptors_loop_length e)"

definition enc_eit :: "eit_table \<Rightarrow> u8 list" where
  "enc_eit t = [ucast (drop_bit 8 (eit_transport_stream_id t)), ucast (eit_transport_stream_id t),
     ucast (drop_bit 8 (eit_original_network_id t)), ucast (eit_original_network_id t),
     segment_last_section_number t, last_table_id t] @ concat (map enc_event (events t))"

lemma wf_loop_len: "wf_loop ds n \<Longrightarrow> uint n = int (length (encode_descriptors ds))"
  by (metis uint_nat wf_loop_def)

text \<open>A fixed part followed by a descriptor loop.\<close>

lemma loop_at:
  assumes "at m p (fixed @ encode_descriptors ds @ rest)" "wf_loop ds n" "length fixed = k"
  shows "get_bytes m p k = Parsed fixed"
    "parse_descriptors m (uint n) (p + k) = Parsed (ds, p + k + length (encode_descriptors ds))"
proof -
  show "get_bytes m p k = Parsed fixed" by (rule get_bytes_at [OF assms(1)]) (simp add: assms(3))
  have "at m (p + k) (encode_descriptors ds @ rest)" using assms(1,3) by (simp add: at_append)
  then show "parse_descriptors m (uint n) (p + k) = Parsed (ds, p + k + length (encode_descriptors ds))"
    using assms(2) wf_loop_len [OF assms(2)] by (intro parse_descriptors_at) (auto simp: wf_loop_def)
qed

lemma pat_entry_at:
  assumes "wf_program x" "at m p (enc_program x @ rest)"
  shows "pat_entry m p = Parsed (x, length (enc_program x) - 4, p + length (enc_program x))"
proof -
  have "get_bytes m p 4 = Parsed (enc_program x)"
    by (rule get_bytes_at [OF assms(2)]) (simp add: enc_program_def)
  moreover have "be16 (pack_hi 5 0x07 (program_map_PID x) AND 0x1f) (ucast (program_map_PID x)) = program_map_PID x"
    unfolding masks(3) using assms(1) by (intro pack_hi_value) (simp_all add: wf_program_def)
  ultimately show ?thesis
    by (simp add: pat_entry_def enc_program_def be16_split)
qed

lemma pmt_entry_at:
  assumes wf: "wf_stream x" and m: "at m p (enc_stream x @ rest)"
  shows "pmt_entry m p = Parsed (x, length (enc_stream x) - 5, p + length (enc_stream x))"
proof -
  let ?f = "[stream_type x, pack_hi 5 (ps_reserved_1 x) (elementary_PID x), ucast (elementary_PID x),
     pack_hi 4 (ps_reserved_2 x) (ES_info_length x), ucast (ES_info_length x)]"
  have loop: "wf_loop (ps_descriptors x) (ES_info_length x)" using wf by (simp add: wf_stream_def)
  have m': "at m p (?f @ encode_descriptors (ps_descriptors x) @ rest)"
    using m by (simp add: enc_stream_def)
  note r = loop_at [OF m' loop]
  have v: "be16 (pack_hi 4 (ps_reserved_2 x) (ES_info_length x) AND 0x0f) (ucast (ES_info_length x)) = ES_info_length x"
    unfolding masks(2) using loop by (intro pack_hi_value) (simp_all add: wf_loop_def)
  have pid: "be16 (pack_hi 5 (ps_reserved_1 x) (elementary_PID x) AND 0x1f) (ucast (elementary_PID x)) = elementary_PID x"
    unfolding masks(3) using wf by (intro pack_hi_value) (simp_all add: wf_stream_def)
  have r1: "drop_bit 5 (pack_hi 5 (ps_reserved_1 x) (elementary_PID x)) AND 0x07 = ps_reserved_1 x"
    unfolding masks(1) using wf pack_hi_flags [of 5 "ps_reserved_1 x" "elementary_PID x"] by (simp add: wf_stream_def)
  have r2: "drop_bit 4 (pack_hi 4 (ps_reserved_2 x) (ES_info_length x)) AND 0x0f = ps_reserved_2 x"
    unfolding masks(2) using wf loop pack_hi_flags [of 4 "ps_reserved_2 x" "ES_info_length x"]
    by (simp add: wf_stream_def wf_loop_def)
  have len: "unat (ES_info_length x) = length (encode_descriptors (ps_descriptors x))"
    using loop by (simp add: wf_loop_def)
  have "length ?f = 5" by simp
  note g = r(1) [OF this] and d = r(2) [OF this]
  show ?thesis
    unfolding pmt_entry_def g bindp_simps by (simp add: Let_def v pid r1 r2 len d enc_stream_def)
qed

lemma eit_flags:
  assumes "wf_event e"
  shows "take_bit 4 (eit_flags e) = eit_flags e"
    "drop_bit 1 (eit_flags e) = ev_running_status e" "eit_flags e AND mask 1 = ev_free_CA_mode e"
proof -
  have rs: "bit (ev_running_status e) i \<Longrightarrow> i < 3" for i
    using assms bit_take_bit_eq [of 3 "ev_running_status e"] by (simp add: wf_event_def)
  have ca: "bit (ev_free_CA_mode e) i \<Longrightarrow> i = 0" for i
    using assms bit_take_bit_eq [of 1 "ev_free_CA_mode e" i] by (simp add: wf_event_def del: take_bit_Suc)
  have bits: "bit (eit_flags e) n \<longleftrightarrow> 1 \<le> n \<and> n < 8 \<and> bit (ev_running_status e) (n - 1) \<or> bit (ev_free_CA_mode e) n" for n
    by (simp only: eit_flags_def bit_or_iff bit_push_bit_iff possible_bit_def) auto
  show "take_bit 4 (eit_flags e) = eit_flags e"
  proof (rule bit_word_eqI)
    fix n assume "n < LENGTH(8)"
    show "bit (take_bit 4 (eit_flags e)) n = bit (eit_flags e) n"
      using rs [of "n - 1"] ca [of n] by (auto simp: bits bit_take_bit_iff bit_drop_bit_eq bit_and_iff bit_mask_iff bit_1_iff)
  qed
  show "drop_bit 1 (eit_flags e) = ev_running_status e"
  proof (rule bit_word_eqI)
    fix n assume "n < LENGTH(8)"
    show "bit (drop_bit 1 (eit_flags e)) n = bit (ev_running_status e) n"
      using rs [of n] ca [of "Suc n"] by (auto simp: bits bit_take_bit_iff bit_drop_bit_eq bit_and_iff bit_mask_iff bit_1_iff)
  qed
  show "eit_flags e AND mask 1 = ev_free_CA_mode e"
  proof (rule bit_word_eqI)
    fix n assume "n < LENGTH(8)"
    show "bit (eit_flags e AND mask 1) n = bit (ev_free_CA_mode e) n"
      using ca [of n] by (auto simp: bits bit_take_bit_iff bit_drop_bit_eq bit_and_iff bit_mask_iff bit_1_iff)
  qed
qed

lemma eit_entry_at:
  assumes wf: "wf_event x" and m: "at m p (enc_event x @ rest)"
  shows "eit_entry m p = Parsed (x, length (enc_event x) - 12, p + length (enc_event x))"
proof -
  have lst: "length (ev_start_time x) = 8" "drop 5 (ev_start_time x) = [0, 0, 0]" "length (ev_duration x) = 3"
    using wf by (simp_all add: wf_event_def)
  obtain a1 a2 a3 a4 a5 where st: "ev_start_time x = [a1, a2, a3, a4, a5, 0, 0, 0]"
    using lst(1,2) by (auto simp: numeral_eq_Suc length_Suc_conv)
  obtain d1 d2 d3 where du: "ev_duration x = [d1, d2, d3]"
    using lst(3) by (auto simp: numeral_eq_Suc length_Suc_conv)
  let ?h = "pack_hi 4 (eit_flags x) (ev_descriptors_loop_length x)"
  let ?f = "[ucast (drop_bit 8 (event_id x)), ucast (event_id x), a1, a2, a3, a4, a5, d1, d2, d3, ?h,
     ucast (ev_descriptors_loop_length x)] :: u8 list"
  have loop: "wf_loop (ev_descriptors x) (ev_descriptors_loop_length x)" using wf by (simp add: wf_event_def)
  have enc: "enc_event x = ?f @ encode_descriptors (ev_descriptors x)"
    by (simp add: enc_event_def st du)
  have m': "at m p (?f @ encode_descriptors (ev_descriptors x) @ rest)" using m by (simp add: enc)
  note r = loop_at [OF m' loop]
  have "length ?f = 12" by simp
  note g = r(1) [OF this] and d = r(2) [OF this]
  have v: "be16 (?h AND 0x0f) (ucast (ev_descriptors_loop_length x)) = ev_descriptors_loop_length x"
    unfolding masks(2) using loop by (intro pack_hi_value) (simp_all add: wf_loop_def)
  have fl: "drop_bit 4 ?h AND mask 4 = eit_flags x"
    using pack_hi_flags [of 4 "eit_flags x" "ev_descriptors_loop_length x"] eit_flags(1) [OF wf] loop
    by (simp add: wf_loop_def)
  have rs: "drop_bit 5 ?h AND 0x07 = ev_running_status x"
  proof -
    have "drop_bit 5 ?h AND mask 3 = drop_bit 1 (drop_bit 4 ?h AND mask 4)"
      by (rule bit_word_eqI) (auto simp: bit_simps)
    then show ?thesis unfolding masks(1) fl eit_flags(2) [OF wf] .
  qed
  have ca: "drop_bit 4 ?h AND 0x01 = ev_free_CA_mode x"
  proof -
    have "drop_bit 4 ?h AND mask 1 = (drop_bit 4 ?h AND mask 4) AND mask 1"
      by (rule bit_word_eqI) (auto simp: bit_and_iff bit_mask_iff bit_1_iff)
    then show ?thesis unfolding masks(4) fl eit_flags(3) [OF wf] .
  qed
  have len: "unat (ev_descriptors_loop_length x) = length (encode_descriptors (ev_descriptors x))"
    using loop by (simp add: wf_loop_def)
  show ?thesis
    unfolding eit_entry_def g bindp_simps
    by (simp add: Let_def v d rs ca len enc be16_split fill_def st du)
      (cases x; use st du in \<open>simp add: numeral_eq_Suc\<close>)
qed

section \<open>Round trips\<close>

text \<open>A program association section built from a list of programs is read back as this
  list.\<close>

theorem pat_roundtrip:
  assumes "ps \<noteq> []" "list_all wf_program ps" "section_body m s (concat (map enc_program ps))"
  shows "parse_pat m s = Parsed \<lparr>pat_header = sect_hdr s, programs = ps\<rparr>"
proof -
  let ?body = "concat (map enc_program ps)"
  obtain d where d: "data s = Off d" "at m d ?body" and s: "stype s = T_PSISI"
    "section_syntax_indicator (sect_hdr s) \<noteq> 0" "sect_len s = int (length ?body) + 9"
    using assms(3) by (auto simp: section_body_def)
  have len: "length ?body = 4 * length ps"
    by (induction ps) (simp_all add: enc_program_def)
  have "get_data_part_len s = section_length (sect_hdr s) - 9"
    using s by (simp add: get_data_part_len_def)
  moreover have "uint (section_length (sect_hdr s) - 9) = sect_len s - 9"
    using s(3) uint_sub_lem [of 9 "section_length (sect_hdr s)"] by (simp add: sect_len_def)
  ultimately have dl: "uint (get_data_part_len s) = int (length ?body)" using s(3) by simp
  have "entries 4 (pat_entry m) (int (length ?body)) d = Parsed ps"
    using assms(2) d(2)
    by (intro entries_roundtrip [where rest = "[]"] pat_entry_at) (auto simp: list_all_iff enc_program_def)
  moreover have "4 \<le> length ?body" "int (length ?body) mod 4 = 0"
    using len assms(1) by (cases ps; simp)+
  ultimately show ?thesis
    using dl d(1) by (simp add: parse_pat_def data_off_def Let_def)
qed

definition sample_section :: "nat \<Rightarrow> section_info" where
  "sample_section n = \<lparr>addr = 0,
     sect_hdr = zero_header\<lparr>section_syntax_indicator := 1, section_length := of_nat (n + 9)\<rparr>,
     raw = 0, data = Off 0, tail = 0, sstate = S_COMPLETE, stype = T_PSISI\<rparr>"

lemma sample_section_body:
  "length body < 1000 \<Longrightarrow> section_body body (sample_section (length body)) body"
proof -
  assume "length body < 1000"
  then have "unat (of_nat (length body + 9) :: u16) = length body + 9"
    by (simp add: take_bit_nat_eq_self unsigned_of_nat del: of_nat_add)
  then have "uint (of_nat (length body + 9) :: u16) = int (length body + 9)"
    by (simp only: uint_nat)
  then show ?thesis
    by (simp add: section_body_def sample_section_def at_whole sect_len_def)
qed

definition sample_programs :: "pat_program list" where
  "sample_programs = [\<lparr>program_number = 1, program_map_PID = 0x100\<rparr>, \<lparr>program_number = 2, program_map_PID = 0x1fc8\<rparr>]"

lemma sample_programs_wf: "list_all wf_program sample_programs"
  by code_simp

theorem pat_roundtrip_witness:
  "parse_pat (concat (map enc_program sample_programs))
      (sample_section (length (concat (map enc_program sample_programs))))
    = Parsed \<lparr>pat_header = sect_hdr (sample_section (length (concat (map enc_program sample_programs)))),
        programs = sample_programs\<rparr>"
  by (rule pat_roundtrip [OF _ sample_programs_wf sample_section_body])
    (simp_all add: sample_programs_def enc_program_def)

text \<open>A program map section built from a well-formed table is read back as this table.\<close>

theorem pmt_roundtrip:
  assumes wf: "wf_pmt t" "pmt_header t = sect_hdr s" and b: "section_body m s (enc_pmt t)"
  shows "parse_pmt m s = Parsed t"
proof -
  let ?ss = "concat (map enc_stream (pmt_streams t))"
  let ?f = "[pack_hi 5 (pmt_reserved_3 t) (PCR_PID t), ucast (PCR_PID t),
     pack_hi 4 (pmt_reserved_4 t) (program_info_length t), ucast (program_info_length t)]"
  obtain d where d: "data s = Off d" and at0: "at m d (?f @ encode_descriptors (pmt_descriptors t) @ ?ss)"
    and s: "sect_len s = int (length (enc_pmt t)) + 9"
    using b by (auto simp: section_body_def enc_pmt_def)
  have loop: "wf_loop (pmt_descriptors t) (program_info_length t)" using wf(1) by (simp add: wf_pmt_def)
  have "length ?f = 4" by simp
  note g = loop_at(1) [OF at0 loop this] and r = loop_at(2) [OF at0 loop this]
  have pl: "uint (program_info_length t) = int (length (encode_descriptors (pmt_descriptors t)))"
    by (rule wf_loop_len [OF loop])
  have v: "be16 (pack_hi 4 (pmt_reserved_4 t) (program_info_length t) AND 0x0f) (ucast (program_info_length t)) = program_info_length t"
    unfolding masks(2) using loop by (intro pack_hi_value) (simp_all add: wf_loop_def)
  have pcr: "be16 (pack_hi 5 (pmt_reserved_3 t) (PCR_PID t) AND 0x1f) (ucast (PCR_PID t)) = PCR_PID t"
    unfolding masks(3) using wf by (intro pack_hi_value) (simp_all add: wf_pmt_def)
  have r3: "drop_bit 5 (pack_hi 5 (pmt_reserved_3 t) (PCR_PID t)) AND 0x07 = pmt_reserved_3 t"
    unfolding masks(1) using wf pack_hi_flags [of 5 "pmt_reserved_3 t" "PCR_PID t"] by (simp add: wf_pmt_def)
  have r4: "drop_bit 4 (pack_hi 4 (pmt_reserved_4 t) (program_info_length t)) AND 0x0f = pmt_reserved_4 t"
    unfolding masks(2) using wf loop pack_hi_flags [of 4 "pmt_reserved_4 t" "program_info_length t"]
    by (simp add: wf_pmt_def wf_loop_def)
  let ?q = "d + 4 + length (encode_descriptors (pmt_descriptors t))"
  have "length ?f = 4" by simp
  note at4 = at_skip [OF at0 this]
  have at1: "at m ?q (?ss @ [])" using at_skip [OF at4 refl] by simp
  have "entries 5 (pmt_entry m) (int (length ?ss)) ?q = Parsed (pmt_streams t)"
    using wf(1) at1 by (intro entries_roundtrip [where rest = "[]"] pmt_entry_at)
      (auto simp: list_all_iff wf_pmt_def enc_stream_def)
  moreover have "sect_len s - uint (program_info_length t) - SECTION_HEADER_FIX_LEN - SECTION_CRC32_LEN - 4
      = int (length ?ss)"
    using s pl by (simp add: SECTION_HEADER_FIX_LEN_def SECTION_CRC32_LEN_def enc_pmt_def)
  moreover have "5 < length ?ss" using wf(1) by (simp add: wf_pmt_def)
  ultimately show ?thesis
    unfolding parse_pmt_def data_off_def d data_ptr.case bindp_simps g
    by (simp add: Let_def v r pcr r3 r4 wf(2) [symmetric])
qed

definition sample_pmt :: pmt_table where
  "sample_pmt = \<lparr>pmt_header = sect_hdr (sample_section 26), pmt_reserved_3 = 7, PCR_PID = 0x1ff,
     pmt_reserved_4 = 15, program_info_length = 6, pmt_descriptors = [mk_descriptor 9 [0, 5, 0xe9, 1]],
     pmt_streams = [\<lparr>stream_type = 2, ps_reserved_1 = 7, elementary_PID = 0x100, ps_reserved_2 = 15,
        ES_info_length = 3, ps_descriptors = [mk_descriptor 0x52 [0]]\<rparr>,
       \<lparr>stream_type = 15, ps_reserved_1 = 7, elementary_PID = 0x110, ps_reserved_2 = 15,
        ES_info_length = 3, ps_descriptors = [mk_descriptor 0x52 [0x10]]\<rparr>]\<rparr>"

lemma sample_pmt_wf: "wf_pmt sample_pmt" "length (enc_pmt sample_pmt) = 26"
  by code_simp+

theorem pmt_roundtrip_witness:
  "parse_pmt (enc_pmt sample_pmt) (sample_section (length (enc_pmt sample_pmt))) = Parsed sample_pmt"
  by (rule pmt_roundtrip [OF sample_pmt_wf(1) _ sample_section_body])
    (simp_all add: sample_pmt_wf(2), simp add: sample_pmt_def)

text \<open>C33: an event information section built from a well-formed list of events is read back as
  the same table: identifiers, start times, durations, flags and descriptors.\<close>

theorem eit_roundtrip:
  assumes wf: "list_all wf_event (events t)" "eit_header t = sect_hdr s"
    and b: "section_body m s (enc_eit t)"
  shows "parse_eit m s = Parsed t"
proof -
  let ?es = "concat (map enc_event (events t))"
  let ?f = "[ucast (drop_bit 8 (eit_transport_stream_id t)), ucast (eit_transport_stream_id t),
     ucast (drop_bit 8 (eit_original_network_id t)), ucast (eit_original_network_id t),
     segment_last_section_number t, last_table_id t] :: u8 list"
  obtain d where d: "data s = Off d" and at0: "at m d (?f @ ?es)"
    and s: "sect_len s = int (length (enc_eit t)) + 9"
    using b by (auto simp: section_body_def enc_eit_def)
  have g: "get_bytes m d 6 = Parsed ?f" by (rule get_bytes_at [OF at0]) simp
  have "length ?f = 6" by simp
  from at_skip [OF at0 this] have at1: "at m (d + 6) (?es @ [])" by (simp only: append_Nil2)
  have elen: "12 \<le> length (enc_event e)" if "e \<in> set (events t)" for e
    using that wf(1) by (auto simp: list_all_iff wf_event_def enc_event_def)
  have len: "sect_len s - SECTION_HEADER_FIX_LEN - SECTION_CRC32_LEN - 6 = int (length ?es)"
    using s by (simp add: SECTION_HEADER_FIX_LEN_def SECTION_CRC32_LEN_def enc_eit_def)
  have ok: "length ?es = 0 \<or> 12 \<le> length ?es"
  proof (cases "events t")
    case (Cons e es)
    then show ?thesis using elen [of e] by simp
  qed simp
  have "entries 12 (eit_entry m) (int (length ?es)) (d + 6) = Parsed (events t)"
    using wf(1) at1 elen by (intro entries_roundtrip [where rest = "[]"] eit_entry_at) (auto simp: list_all_iff)
  then show ?thesis
    unfolding parse_eit_def data_off_def d data_ptr.case bindp_simps g
    using ok by (auto simp: Let_def len be16_split wf(2) [symmetric])
qed

definition sample_eit :: eit_table where
  "sample_eit = \<lparr>eit_header = sect_hdr (sample_section 22), eit_transport_stream_id = 0x7fe1,
     eit_original_network_id = 0x7fe1, segment_last_section_number = 0, last_table_id = 0x4e,
     events = [\<lparr>event_id = 0x1234, ev_start_time = [0xc0, 0x79, 0x12, 0x45, 0x00, 0, 0, 0],
       ev_duration = [0x01, 0x30, 0x00], ev_running_status = 4, ev_free_CA_mode = 1,
       ev_descriptors_loop_length = 4, ev_descriptors = [mk_descriptor 0x54 [0x10, 0xff]]\<rparr>]\<rparr>"

lemma sample_eit_wf: "list_all wf_event (events sample_eit)" "length (enc_eit sample_eit) = 22"
  by code_simp+

theorem eit_roundtrip_witness:
  "parse_eit (enc_eit sample_eit) (sample_section (length (enc_eit sample_eit))) = Parsed sample_eit"
  by (rule eit_roundtrip [OF sample_eit_wf(1) _ sample_section_body])
    (simp_all add: sample_eit_wf(2), simp add: sample_eit_def)

section \<open>Versions\<close>

text \<open>The \<open>while (1)\<close> loops that replace old versions end, and remove exactly the tables of
  the same sub-table with another version number, for program association and event information
  tables alike.\<close>

theorem refresh_is_filter:
  "pat_refresh pn ps = filter (\<lambda>t. \<not> (pat_same pn t \<and> pat_version pn \<noteq> pat_version t)) ps \<and>
   eit_refresh en es = filter (\<lambda>t. \<not> (eit_same en t \<and> eit_version en \<noteq> eit_version t)) es"
  by (simp add: pat_refresh_def eit_refresh_def refresh_loop_filter superseded_def)

definition one_version :: "('t \<Rightarrow> 't \<Rightarrow> bool) \<Rightarrow> ('t \<Rightarrow> u8) \<Rightarrow> 't list \<Rightarrow> bool" where
  "one_version same ver ts \<longleftrightarrow> (\<forall>t \<in> set ts. \<forall>u \<in> set ts. same t u \<longrightarrow> ver t = ver u)"

lemma one_version_add:
  assumes "\<And>t u. same t u = same u t" and "one_version same ver ts"
  shows "one_version same ver (append_table t (refresh_loop same ver t ts))"
  using assms by (fastforce simp: one_version_def append_table_def refresh_loop_filter superseded_def)

lemma pat_same_sym: "pat_same t u = pat_same u t"
  by (auto simp: pat_same_def)

lemma eit_same_sym: "eit_same t u = eit_same u t"
  by (auto simp: eit_same_def)

lemma one_version_run:
  fixes same :: "'a \<Rightarrow> 'a \<Rightarrow> bool"
  assumes "\<And>t u. same t u = same u t" and add: "\<And>t ts. add t ts = append_table t (refresh_loop same ver t ts)"
  shows "one_version same ver (tables (snd (fst (feed
    \<lparr>on_started = g, on_completed = completed_with f add\<rparr> pkts (sp, empty_store)))))"
proof (rule feed_state [where P = "\<lambda>c. one_version same ver (tables c)"])
  fix a :: nat and sp :: section_parser and c :: "'a table_store"
  assume "one_version same ver (tables c)"
  then have "one_version same ver (tables (snd (completed_with f add a (sp, c))))"
    unfolding add [abs_def]
    by (intro completed_with_state [where P = "one_version same ver"] one_version_add [OF assms(1)])
  then show "one_version same ver (tables (snd (on_completed
      \<lparr>on_started = g, on_completed = completed_with f add\<rparr> a (sp, c))))" by simp
qed (simp add: empty_store_def one_version_def)

text \<open>Whatever packets arrive, the stored program association tables hold at most one
  version of a sub-table, and so do the stored present/following event tables.\<close>

theorem one_version_per_sub_table:
  "one_version pat_same pat_version (tables (snd (fst (feed pat_listener pkts (sp, empty_store))))) \<and>
   one_version eit_same eit_version (tables (snd (fst (feed eit_listener pkts (sp, empty_store)))))"
  using one_version_run [of pat_same pat_add pat_version, OF pat_same_sym]
    one_version_run [of eit_same eit_add eit_version, OF eit_same_sym]
  by (simp add: pat_listener_def eit_listener_def pat_add_def eit_add_def pat_refresh_def eit_refresh_def)

text \<open>The schedule keeps one table per sub-table: no two stored tables agree in table id,
  service, transport stream, network and section number.\<close>

theorem schedule_tables_distinct:
  "sorted_wrt (\<lambda>t u. \<not> eit_same t u) (sched_tables (snd (fst
     (feed sched_listener pkts (sp, \<lparr>sched_tables = [], sched_wild_read = False, on_schedule_update = 0\<rparr>)))))"
proof (rule feed_state [where P = "\<lambda>c. sorted_wrt (\<lambda>t u. \<not> eit_same t u) (sched_tables c)"])
  fix a :: nat and sp :: section_parser and c :: sched_store
  assume c: "sorted_wrt (\<lambda>t u. \<not> eit_same t u) (sched_tables c)"
  have "sorted_wrt (\<lambda>t u. \<not> eit_same t u) (sched_add t (sched_tables c))"
    if "\<not> is_duplicate_sub_tables t (sched_tables c)" for t
    using that c sorted_wrt_filter [OF c]
    by (auto simp: sched_add_def append_table_def sched_refresh_def refresh_loop_filter superseded_def sorted_wrt_append
        is_duplicate_sub_tables_def list_ex_iff eit_same_sym)
  then show "sorted_wrt (\<lambda>t u. \<not> eit_same t u) (sched_tables (snd (on_completed sched_listener a (sp, c))))"
    using c by (auto simp: sched_listener_def sched_completed_def split: parse.splits)
qed simp

section \<open>Inputs the parsers mishandle\<close>

text \<open>The comments ask for the latest version also when the version number goes back. It does
  not for the program association table: the section parser still holds the first section, so its
  second arrival is COMPLETED_ALREADY, and the table with the version in between stays.\<close>

definition pat_ver1 :: "u8 list" where
  "pat_ver1 = [0x00, 0xb0, 0x0d, 0x7f, 0xe1, 0xc3, 0, 0, 0, 1, 0xe1, 0x00, 0xfe, 0xdf, 0x01, 0x75]"

definition pat_ver2 :: "u8 list" where
  "pat_ver2 = [0x00, 0xb0, 0x0d, 0x7f, 0xe1, 0xc5, 0, 0, 0, 1, 0xe2, 0x00, 0x2b, 0x06, 0x33, 0x77]"

theorem version_going_back_is_missed:
  "let (st, rs) = feed pat_listener [(0, 1, 0 # pat_ver1), (0, 1, 0 # pat_ver2), (0, 1, 0 # pat_ver1)]
       (new_parser 64 16 T_PSISI, empty_store)
   in rs = [COMPLETED, COMPLETED, COMPLETED_ALREADY] \<and> map pat_version (tables (snd st)) = [2] \<and>
      map program_map_PID (concat (map programs (tables (snd st)))) = [0x200]"
  by code_simp

text \<open>A program association section of the long form that announces a length of 1 or 5 (so
  that the data part would have a negative length) makes the parser read behind the pool, unless
  more than 64 KiB follow.\<close>

lemma pat_entries_overrun:
  "\<lbrakk>0 < len; len mod 4 = 0; int (length m) < int p + len\<rbrakk> \<Longrightarrow> entries 4 (pat_entry m) len p = Overrun"
proof (induction "nat len" arbitrary: len p rule: less_induct)
  case less
  show ?case
  proof (cases "p + 4 \<le> length m")
    case False
    then show ?thesis using less.prems(1)
      by (simp add: entries.simps [of 4 "pat_entry m" len p] pat_entry_def get_bytes_def)
  next
    case True
    then have "4 < len" "(len - 4) mod 4 = 0" using less.prems by presburger+
    then have "entries 4 (pat_entry m) (len - 4) (p + 4) = Overrun"
      using less.hyps [of "len - 4" "p + 4"] less.prems(3) by simp
    then show ?thesis using less.prems(1) True \<open>4 < len\<close>
      by (simp add: entries.simps [of 4 "pat_entry m" len p] pat_entry_def get_bytes_def Let_def)
  qed
qed

theorem short_pat_reads_outside:
  assumes "stype s = T_PSISI" "section_syntax_indicator (sect_hdr s) \<noteq> 0"
    and "section_length (sect_hdr s) = 1 \<or> section_length (sect_hdr s) = 5"
    and "data s = Off d" "length m < d + 65528"
  shows "parse_pat m s = Overrun"
proof -
  have "uint (get_data_part_len s) = 65528 \<or> uint (get_data_part_len s) = 65532"
    using assms(1-3) by (auto simp: get_data_part_len_def)
  then have l: "4 \<le> uint (get_data_part_len s)" "uint (get_data_part_len s) mod 4 = 0"
    "int (length m) < int d + uint (get_data_part_len s)"
    using assms(5) by auto
  then have "entries 4 (pat_entry m) (uint (get_data_part_len s)) d = Overrun"
    by (intro pat_entries_overrun) auto
  with l assms(4) show ?thesis by (simp add: parse_pat_def data_off_def)
qed

theorem short_pat_reads_outside_witness:
  "parse_pat (replicate 4096 0) \<lparr>addr = 0,
     sect_hdr = zero_header\<lparr>section_syntax_indicator := 1, section_length := 5\<rparr>,
     raw = 0, data = Off 8, tail = 8, sstate = S_COMPLETE, stype = T_PSISI\<rparr> = Overrun"
  by (rule short_pat_reads_outside [where d = 8]) simp_all

text \<open>A program map table with exactly one stream that has no descriptors is refused,
  although the announced lengths are right and the loop would read it.\<close>

theorem single_stream_is_refused:
  assumes wf: "pmt_streams t = [x]" "wf_stream x" "ps_descriptors x = []"
    and t: "wf_loop (pmt_descriptors t) (program_info_length t)"
    and b: "section_body m s (enc_pmt t)"
  shows "parse_pmt m s = Rejected"
proof -
  let ?f = "[pack_hi 5 (pmt_reserved_3 t) (PCR_PID t), ucast (PCR_PID t),
     pack_hi 4 (pmt_reserved_4 t) (program_info_length t), ucast (program_info_length t)]"
  let ?ss = "concat (map enc_stream (pmt_streams t))"
  obtain d where d: "data s = Off d" and at0: "at m d (?f @ encode_descriptors (pmt_descriptors t) @ ?ss)"
    and s: "sect_len s = int (length (enc_pmt t)) + 9"
    using b by (auto simp: section_body_def enc_pmt_def)
  have "length ?f = 4" by simp
  note g = loop_at(1) [OF at0 t this] and r = loop_at(2) [OF at0 t this]
  have v: "be16 (pack_hi 4 (pmt_reserved_4 t) (program_info_length t) AND 0x0f) (ucast (program_info_length t)) = program_info_length t"
    unfolding masks(2) using t by (intro pack_hi_value) (simp_all add: wf_loop_def)
  have "length ?ss = 5" using wf by (simp add: enc_stream_def)
  then have "sect_len s - uint (program_info_length t) - SECTION_HEADER_FIX_LEN - SECTION_CRC32_LEN - 4 = 5"
    using s wf_loop_len [OF t] by (simp add: SECTION_HEADER_FIX_LEN_def SECTION_CRC32_LEN_def enc_pmt_def)
  then show ?thesis
    unfolding parse_pmt_def data_off_def d data_ptr.case bindp_simps g
    by (simp add: Let_def v r)
qed

definition single_pmt :: pmt_table where
  "single_pmt = \<lparr>pmt_header = zero_header, pmt_reserved_3 = 7, PCR_PID = 0x1ff,
     pmt_reserved_4 = 15, program_info_length = 0, pmt_descriptors = [],
     pmt_streams = [\<lparr>stream_type = 2, ps_reserved_1 = 7, elementary_PID = 0x100, ps_reserved_2 = 15,
        ES_info_length = 0, ps_descriptors = []\<rparr>]\<rparr>"

lemma single_pmt_wf: "wf_stream (hd (pmt_streams single_pmt))" "wf_loop [] 0" "length (enc_pmt single_pmt) = 9"
  by code_simp+

theorem single_stream_is_refused_witness:
  "parse_pmt (enc_pmt single_pmt) (sample_section (length (enc_pmt single_pmt))) = Rejected"
  by (rule single_stream_is_refused [where x = "hd (pmt_streams single_pmt)", OF _ single_pmt_wf(1) _ _ sample_section_body])
    (simp_all add: single_pmt_wf(3), simp_all add: single_pmt_def single_pmt_wf(2))

end
