(* ===== verification/Etime.thy ===== *)
theory Etime
  imports Prelude
begin

text \<open>
  \<open>common/etime.cpp\<close>: points in time as a \<open>struct timespec\<close>, the six comparison operators as
  the class writes them, the difference and the functions that move a time. The six operators
  are shown to be one linear order, so that the library's order applies to times. \<open>time_t\<close> and
  \<open>long\<close> are 64-bit; times are kept as integers, the broadcast times are far from their bounds.
\<close>

datatype timespec = Timespec (tv_sec: int) (tv_nsec: int)

definition etime_clear :: timespec where
  "etime_clear = Timespec 0 0"

text \<open>\<open>operator ==\<close> to \<open>operator <=\<close>.\<close>

definition etime_eq :: "timespec \<Rightarrow> timespec \<Rightarrow> bool" where
  "etime_eq a b = (if tv_sec a = tv_sec b \<and> tv_nsec a = tv_nsec b then True else False)"

definition etime_ne :: "timespec \<Rightarrow> timespec \<Rightarrow> bool" where
  "etime_ne a b = (if tv_sec a \<noteq> tv_sec b \<or> tv_nsec a \<noteq> tv_nsec b then True else False)"

definition etime_gt :: "timespec \<Rightarrow> timespec \<Rightarrow> bool" where
  "etime_gt a b =
    (if tv_sec a > tv_sec b then True
     else if tv_sec a = tv_sec b \<and> tv_nsec a > tv_nsec b then True
     else False)"

definition etime_lt :: "timespec \<Rightarrow> timespec \<Rightarrow> bool" where
  "etime_lt a b =
    (if tv_sec a < tv_sec b then True
     else if tv_sec a = tv_sec b \<and> tv_nsec a < tv_nsec b then True
     else False)"

definition etime_ge :: "timespec \<Rightarrow> timespec \<Rightarrow> bool" where
  "etime_ge a b =
    (if tv_sec a > tv_sec b then True
     else if tv_sec a = tv_sec b \<and> tv_nsec a > tv_nsec b then True
     else if tv_sec a = tv_sec b \<and> tv_nsec a = tv_nsec b then True
     else False)"

definition etime_le :: "timespec \<Rightarrow> timespec \<Rightarrow> bool" where
  "etime_le a b =
    (if tv_sec a < tv_sec b then True
     else if tv_sec a = tv_sec b \<and> tv_nsec a < tv_nsec b then True
     else if tv_sec a = tv_sec b \<and> tv_nsec a = tv_nsec b then True
     else False)"

instantiation timespec :: linorder
begin

definition "less_eq_timespec = etime_le"
definition "less_timespec = etime_lt"

instance
  by standard
    (auto simp: less_eq_timespec_def less_timespec_def etime_le_def etime_lt_def
      timespec.expand split: if_splits)

end

lemma timespec_less_iff:
  "a < b \<longleftrightarrow> tv_sec a < tv_sec b \<or> tv_sec a = tv_sec b \<and> tv_nsec a < tv_nsec b"
  by (auto simp: less_timespec_def etime_lt_def)

text \<open>The six operators are the order and the equality of the type.\<close>

lemma etime_ops [simp]:
  "etime_eq a b \<longleftrightarrow> a = b" "etime_ne a b \<longleftrightarrow> a \<noteq> b"
  "etime_lt a b \<longleftrightarrow> a < b" "etime_le a b \<longleftrightarrow> a \<le> b"
  "etime_gt a b \<longleftrightarrow> b < a" "etime_ge a b \<longleftrightarrow> b \<le> a"
  by (auto simp: less_eq_timespec_def less_timespec_def etime_eq_def etime_ne_def etime_lt_def
      etime_le_def etime_gt_def etime_ge_def timespec.expand split: if_splits)

text \<open>\<open>operator -\<close>: the time that has passed, zero when the left side is not later.\<close>

definition etime_diff :: "timespec \<Rightarrow> timespec \<Rightarrow> timespec" where
  "etime_diff a b =
    (if etime_le a b then Timespec 0 0
     else if tv_nsec a \<ge> tv_nsec b
     then Timespec (tv_sec a - tv_sec b) (tv_nsec a - tv_nsec b)
     else Timespec ((tv_sec a - 1) - tv_sec b) ((tv_nsec a + 1000000000) - tv_nsec b))"

definition add_sec :: "int \<Rightarrow> timespec \<Rightarrow> timespec" where
  "add_sec n t = Timespec (tv_sec t + n) (tv_nsec t)"

definition add_min :: "int \<Rightarrow> timespec \<Rightarrow> timespec" where
  "add_min n t = Timespec (tv_sec t + n * 60) (tv_nsec t)"

definition add_hour :: "int \<Rightarrow> timespec \<Rightarrow> timespec" where
  "add_hour n t = Timespec (tv_sec t + n * 60 * 60) (tv_nsec t)"

definition add_day :: "int \<Rightarrow> timespec \<Rightarrow> timespec" where
  "add_day n t = Timespec (tv_sec t + n * 24 * 60 * 60) (tv_nsec t)"

definition add_week :: "int \<Rightarrow> timespec \<Rightarrow> timespec" where
  "add_week n t = Timespec (tv_sec t + n * 7 * 24 * 60 * 60) (tv_nsec t)"

text \<open>The nanoseconds of a whole time, the value the operators compare.\<close>

definition nanos :: "timespec \<Rightarrow> int" where
  "nanos t = tv_sec t * 1000000000 + tv_nsec t"

definition normal_time :: "timespec \<Rightarrow> bool" where
  "normal_time t = (0 \<le> tv_nsec t \<and> tv_nsec t < 1000000000)"

lemma nanos_less: "\<lbrakk>normal_time a; normal_time b\<rbrakk> \<Longrightarrow> a < b \<longleftrightarrow> nanos a < nanos b"
  by (auto simp: timespec_less_iff normal_time_def nanos_def)

lemma add_sec_mono: "0 < n \<Longrightarrow> t < add_sec n t"
  by (simp add: timespec_less_iff add_sec_def)

lemma add_day_less: "s < e \<Longrightarrow> add_day n s < add_day n e"
  by (auto simp: timespec_less_iff add_day_def split: if_splits)

lemma add_week_less: "s < e \<Longrightarrow> add_week n s < add_week n e"
  by (auto simp: timespec_less_iff add_week_def split: if_splits)

text \<open>The difference of two normalised times is normalised and is the number of nanoseconds
  between them, or zero when the left time is not the later one.\<close>

lemma etime_diff_is_elapsed:
  assumes "normal_time a" "normal_time b"
  shows "normal_time (etime_diff a b) \<and> nanos (etime_diff a b) = max 0 (nanos a - nanos b)"
proof (cases "b < a")
  case True
  then have "nanos b < nanos a" using assms nanos_less by blast
  moreover have "\<not> a \<le> b" using True by simp
  ultimately show ?thesis using True assms
    by (auto simp: etime_diff_def normal_time_def nanos_def timespec_less_iff)
next
  case False
  then have "\<not> nanos b < nanos a" using assms nanos_less by blast
  moreover have "a \<le> b" using False by simp
  ultimately show ?thesis
    by (simp add: etime_diff_def normal_time_def nanos_def)
qed

end
