(* ===== verification/Reserves.thy ===== *)
theory Reserves
  imports Etime
begin

text \<open>
  The reservations of \<open>rec_manager\<close>: the class \<open>reserve\<close>, its state flags, and the two arrays
  \<open>reserves_\<close> and \<open>results_\<close> as fixed arrays whose cells carry \<open>is_used\<close>. The locale
  \<open>slot_array\<close> states what holds of every such array: the loops that search, insert, remove and
  append are list operations on the sequence of the cells in use.
\<close>

section \<open>The class reserve\<close>

abbreviation "RESERVE_NUM_MAX \<equiv> 50 :: nat"
abbreviation "RESULT_NUM_MAX \<equiv> 20 :: nat"
abbreviation "GROUP_MAX \<equiv> 4 :: nat"

abbreviation "STATE_INIT \<equiv> 0x00000000 :: u32"
abbreviation "STATE_REMOVED \<equiv> 0x00000001 :: u32"
abbreviation "STATE_RESCHEDULED \<equiv> 0x00000002 :: u32"
abbreviation "STATE_START_TIME_PASSED \<equiv> 0x00000004 :: u32"
abbreviation "STATE_REQ_START_RECORDING \<equiv> 0x00000100 :: u32"
abbreviation "STATE_NOW_RECORDING \<equiv> 0x00000200 :: u32"
abbreviation "STATE_FORCE_STOPPED \<equiv> 0x00000400 :: u32"
abbreviation "STATE_ALREADY_PASSED \<equiv> 0x00010000 :: u32"
abbreviation "STATE_HDD_FREE_SPACE_LOW \<equiv> 0x00020000 :: u32"
abbreviation "STATE_TUNE_ERR \<equiv> 0x00040000 :: u32"
abbreviation "STATE_EVENT_NOT_FOUND \<equiv> 0x00080000 :: u32"
abbreviation "STATE_INTERNAL_ERR \<equiv> 0x00100000 :: u32"
abbreviation "STATE_END_SUCCESS \<equiv> 0x80000000 :: u32"

datatype repeatability = Rep_none | Rep_daily | Rep_weekly | Rep_auto

record reserve =
  rsv_tsid :: u16
  rsv_nid :: u16
  rsv_svcid :: u16
  rsv_evtid :: u16
  start_time :: timespec
  end_time :: timespec
  title_name :: string
  service_name :: string
  is_event_type :: bool
  rsv_repeat :: repeatability
  rsv_state :: u32
  recording_start_time :: timespec
  recording_end_time :: timespec
  rsv_group :: u8
  is_used :: bool

text \<open>\<open>reserve::clear\<close>, which the constructor calls.\<close>

definition cleared_reserve :: reserve where
  "cleared_reserve =
    \<lparr>rsv_tsid = 0, rsv_nid = 0, rsv_svcid = 0, rsv_evtid = 0,
     start_time = etime_clear, end_time = etime_clear, title_name = [], service_name = [],
     is_event_type = False, rsv_repeat = Rep_none, rsv_state = STATE_INIT,
     recording_start_time = etime_clear, recording_end_time = etime_clear,
     rsv_group = 0xff, is_used = False\<rparr>"

text \<open>\<open>operator ==\<close> compares the four identifiers only.\<close>

definition reserve_eq :: "reserve \<Rightarrow> reserve \<Rightarrow> bool" where
  "reserve_eq a b =
    (rsv_tsid a = rsv_tsid b \<and> rsv_nid a = rsv_nid b \<and>
     rsv_svcid a = rsv_svcid b \<and> rsv_evtid a = rsv_evtid b)"

type_synonym event_key = "u16 \<times> u16 \<times> u16 \<times> u16"

text \<open>\<open>reserve::set\<close>; a NULL pointer leaves its field.\<close>

definition reserve_set ::
  "event_key \<Rightarrow> timespec option \<Rightarrow> timespec option \<Rightarrow> string option \<Rightarrow> string option \<Rightarrow>
   bool \<Rightarrow> repeatability \<Rightarrow> reserve \<Rightarrow> reserve" where
  "reserve_set key s e title svc evt rpt r =
    (case key of (ts, nw, sv, ev) \<Rightarrow>
      r\<lparr>rsv_tsid := ts, rsv_nid := nw, rsv_svcid := sv, rsv_evtid := ev,
        start_time := (case s of None \<Rightarrow> start_time r | Some t \<Rightarrow> t),
        end_time := (case e of None \<Rightarrow> end_time r | Some t \<Rightarrow> t),
        title_name := (case title of None \<Rightarrow> title_name r | Some n \<Rightarrow> n),
        service_name := (case svc of None \<Rightarrow> service_name r | Some n \<Rightarrow> n),
        is_event_type := evt, rsv_repeat := rpt, rsv_state := STATE_INIT, is_used := True\<rparr>)"

definition has_state :: "u32 \<Rightarrow> reserve \<Rightarrow> bool" where
  "has_state f r = (rsv_state r AND f \<noteq> 0)"

definition raise_state :: "u32 \<Rightarrow> reserve \<Rightarrow> reserve" where
  "raise_state f r = r\<lparr>rsv_state := rsv_state r OR f\<rparr>"

definition drop_state :: "u32 \<Rightarrow> reserve \<Rightarrow> reserve" where
  "drop_state f r = r\<lparr>rsv_state := rsv_state r AND NOT f\<rparr>"

definition key_of :: "reserve \<Rightarrow> event_key" where
  "key_of r = (rsv_tsid r, rsv_nid r, rsv_svcid r, rsv_evtid r)"

lemma reserve_eq_key: "reserve_eq a b \<longleftrightarrow> key_of a = key_of b"
  by (simp add: reserve_eq_def key_of_def)

lemma cleared_unused [simp]: "\<not> is_used cleared_reserve"
  by (simp add: cleared_reserve_def)

lemma reserve_set_sel [simp]:
  "is_used (reserve_set k s e t v b p r)"
  "key_of (reserve_set k s e t v b p r) = k"
  "rsv_state (reserve_set k s e t v b p r) = STATE_INIT"
  "start_time (reserve_set k (Some ts) e t v b p r) = ts"
  "end_time (reserve_set k s (Some te) t v b p r) = te"
  "rsv_repeat (reserve_set k s e t v b p r) = p"
  by (simp_all add: reserve_set_def key_of_def split: prod.split)

lemma state_frames [frames, simp]:
  "is_used (raise_state f r) = is_used r" "is_used (drop_state f r) = is_used r"
  "key_of (raise_state f r) = key_of r" "key_of (drop_state f r) = key_of r"
  "start_time (raise_state f r) = start_time r" "start_time (drop_state f r) = start_time r"
  "end_time (raise_state f r) = end_time r" "end_time (drop_state f r) = end_time r"
  "rsv_repeat (raise_state f r) = rsv_repeat r" "rsv_repeat (drop_state f r) = rsv_repeat r"
  by (simp_all add: raise_state_def drop_state_def key_of_def)

lemma has_raise_state [simp]:
  "has_state f (raise_state g r) \<longleftrightarrow> has_state f r \<or> g AND f \<noteq> 0"
proof -
  have "(rsv_state r OR g) AND f = 0 \<longleftrightarrow> rsv_state r AND f = 0 \<and> g AND f = 0"
    by (auto simp: bit_eq_iff bit_simps)
  then show ?thesis by (simp add: has_state_def raise_state_def)
qed

lemma has_drop_state [simp]: "\<not> has_state f (drop_state f r)"
  by (simp add: has_state_def drop_state_def bit_eq_iff bit_simps)

section \<open>Arrays of cells with a used flag\<close>

text \<open>\<open>for (i = 0; i < N; ++ i) if (!a[i].is_used) break;\<close> and the search for the first cell
  that satisfies a condition: the index, or \<open>N\<close>.\<close>

fun first_index :: "('a \<Rightarrow> bool) \<Rightarrow> 'a list \<Rightarrow> nat" where
  "first_index P [] = 0"
| "first_index P (x # xs) = (if P x then 0 else Suc (first_index P xs))"

lemma first_index_append:
  "first_index P (xs @ ys) = (if \<exists>x\<in>set xs. P x then first_index P xs else length xs + first_index P ys)"
  by (induction xs) auto

lemma first_index_le: "first_index P xs \<le> length xs"
  by (induction xs) auto

lemma first_index_less_iff: "first_index P xs < length xs \<longleftrightarrow> (\<exists>x\<in>set xs. P x)"
  by (induction xs) auto

lemma first_index_none: "\<not> (\<exists>x\<in>set xs. P x) \<Longrightarrow> first_index P xs = length xs"
  by (induction xs) auto

lemma first_index_nth: "\<exists>x\<in>set xs. P x \<Longrightarrow> P (xs ! first_index P xs)"
  by (induction xs) auto

lemma take_first_index: "take (first_index P xs) xs = takeWhile (\<lambda>x. \<not> P x) xs"
  by (induction xs) auto

lemma drop_first_index: "drop (first_index P xs) xs = dropWhile (\<lambda>x. \<not> P x) xs"
  by (induction xs) auto

text \<open>\<open>used\<close> marks a cell in use, \<open>blank\<close> is the cleared cell. \<open>cells us n\<close> is the array of
  \<open>n\<close> cells that holds \<open>us\<close> in front.\<close>

locale slot_array =
  fixes used :: "'a \<Rightarrow> bool" and blank :: 'a
  assumes blank_unused: "\<not> used blank"
begin

definition cells :: "'a list \<Rightarrow> nat \<Rightarrow> 'a list" where
  "cells us n = us @ replicate (n - length us) blank"

definition well_formed :: "nat \<Rightarrow> 'a list \<Rightarrow> bool" where
  "well_formed n xs = (xs = cells (filter used xs) n \<and> length xs = n)"

lemma length_cells: "length us \<le> n \<Longrightarrow> length (cells us n) = n"
  by (simp add: cells_def)

lemma filter_cells: "list_all used us \<Longrightarrow> filter used (cells us n) = us"
  using blank_unused by (simp add: cells_def list_all_iff filter_id_conv)

lemma cells_well_formed:
  assumes "list_all used us" "length us \<le> n"
  shows "well_formed n (cells us n)"
  unfolding well_formed_def using assms by (simp add: filter_cells length_cells)

lemma well_formed_cells:
  assumes "well_formed n xs"
  obtains us where "xs = cells us n" "us = filter used xs" "list_all used us" "length us \<le> n"
proof -
  have "length (filter used xs) \<le> n"
    using assms length_filter_le [of used xs] by (simp add: well_formed_def)
  with assms that [of "filter used xs"] show ?thesis
    by (simp add: well_formed_def list_all_iff)
qed

lemma nth_cells: "i < length us \<Longrightarrow> cells us n ! i = us ! i"
  by (simp add: cells_def nth_append)

lemma nth_cells_blank: "\<lbrakk>length us \<le> i; i < n\<rbrakk> \<Longrightarrow> cells us n ! i = blank"
  by (simp add: cells_def nth_append)

lemma used_nth_cells:
  "\<lbrakk>list_all used us; i < n; length us \<le> n\<rbrakk> \<Longrightarrow> used (cells us n ! i) \<longleftrightarrow> i < length us"
  using blank_unused by (auto simp: cells_def nth_append list_all_iff)

text \<open>The search for an empty cell, the test that one exists.\<close>

lemma first_unused:
  assumes "list_all used us" "length us \<le> n"
  shows "first_index (\<lambda>x. \<not> used x) (cells us n) = length us"
proof -
  have "\<not> (\<exists>x\<in>set us. \<not> used x)" using assms by (auto simp: list_all_iff)
  then show ?thesis
    using blank_unused assms(2) by (cases "n - length us") (simp_all add: cells_def first_index_append first_index_none)
qed

text \<open>Writing a cell in use, appending behind the last one.\<close>

lemma cells_update: "i < length us \<Longrightarrow> (cells us n)[i := x] = cells (us[i := x]) n"
  by (simp add: cells_def list_update_append)

lemma cells_append:
  assumes "length us < n"
  shows "(cells us n)[length us := x] = cells (us @ [x]) n"
proof -
  obtain k where "n - length us = Suc k" using assms by (cases "n - length us") auto
  moreover from this have "n - Suc (length us) = k" by simp
  ultimately show ?thesis by (simp add: cells_def)
qed

text \<open>Closing the gap at \<open>i\<close> and clearing the last cell removes element \<open>i\<close>.\<close>

lemma cells_remove:
  assumes "i < length us" "length us \<le> n"
  shows "(shift_left i (cells us n))[n - 1 := blank] = cells (take i us @ drop (Suc i) us) n"
proof -
  have len: "length (cells us n) = n" using assms by (simp add: length_cells)
  have "(shift_left i (cells us n))[n - 1 := blank]
      = take i (cells us n) @ drop (Suc i) (cells us n) @ [blank]"
    using shift_left_clear [of i "cells us n" blank] len assms by simp
  also have "\<dots> = take i us @ drop (Suc i) us @ (replicate (n - length us) blank @ [blank])"
    using assms by (simp add: cells_def)
  also have "replicate (n - length us) blank @ [blank] = replicate (Suc (n - length us)) blank"
    by (simp add: replicate_append_same)
  also have "Suc (n - length us) = n - length (take i us @ drop (Suc i) us)"
    using assms by simp
  finally show ?thesis by (simp add: cells_def)
qed

text \<open>Opening a gap at \<open>i\<close> and writing there inserts, as long as the last cell is free.\<close>

lemma cells_insert:
  assumes "i \<le> length us" "length us < n"
  shows "(shift_right i (cells us n))[i := x] = cells (take i us @ x # drop i us) n"
proof -
  have len: "length (cells us n) = n" using assms by (simp add: length_cells)
  obtain k where k: "n - length us = Suc k" using assms by (cases "n - length us") auto
  have "(shift_right i (cells us n))[i := x]
      = take i (cells us n) @ x # butlast (drop i (cells us n))"
    using shift_right_write [of i "cells us n" x] len assms by simp
  also have "drop i (cells us n) = drop i us @ replicate k blank @ [blank]"
    using assms k by (simp add: cells_def replicate_append_same)
  also have "butlast \<dots> = drop i us @ replicate k blank"
    by (simp add: butlast_append)
  also have "take i (cells us n) = take i us"
    using assms by (simp add: cells_def)
  finally show ?thesis using k assms by (simp add: cells_def)
qed

text \<open>The removal loop from the last index to the first keeps the cells that do not match.\<close>

lemma cells_sweep:
  assumes "list_all used us" "length us \<le> n" "k \<le> n"
  shows "fold (\<lambda>i xs. if used (xs ! i) \<and> P (xs ! i)
                then (shift_left i xs)[n - 1 := blank] else xs) (rev [0..<k]) (cells us n)
       = cells (filter (\<lambda>x. \<not> P x) (take k us) @ drop k us) n"
  using assms
proof (induction k arbitrary: us)
  case 0
  then show ?case by simp
next
  case (Suc k)
  show ?case
  proof (cases "k < length us")
    case False
    with Suc show ?thesis using blank_unused by (simp add: nth_cells_blank)
  next
    case True
    then have split: "take (Suc k) us = take k us @ [us ! k]"
      by (simp add: take_Suc_conv_app_nth)
    have used_k: "used (us ! k)" using Suc.prems True by (simp add: list_all_iff)
    show ?thesis
    proof (cases "P (us ! k)")
      case False
      have "drop k us = us ! k # drop (Suc k) us" using True by (simp add: Cons_nth_drop_Suc)
      with False True Suc split show ?thesis by (simp add: nth_cells)
    next
      case P: True
      have all: "list_all used (take k us @ drop (Suc k) us)"
        using Suc.prems by (auto simp: list_all_iff dest: in_set_takeD in_set_dropD)
      have len: "length (take k us @ drop (Suc k) us) \<le> n" using Suc.prems True by simp
      have "take k (take k us @ drop (Suc k) us) = take k us"
        "drop k (take k us @ drop (Suc k) us) = drop (Suc k) us"
        using True by simp_all
      then show ?thesis
        using Suc.IH [OF all len] Suc.prems P True used_k split
        by (simp add: nth_cells cells_remove [unfolded One_nat_def])
    qed
  qed
qed

lemma first_index_cells:
  assumes "\<exists>x\<in>set us. P x" "length us \<le> n"
  shows "first_index P (cells us n) = first_index P us"
  using assms by (simp add: cells_def first_index_append)

end

interpretation rs: slot_array is_used cleared_reserve
  by unfold_locales simp

end
