(* ===== verification/Rec_Manager.thy ===== *)
theory Rec_Manager
  imports Reserves
begin

text \<open>
  \<open>rec_manager/rec_manager.cpp\<close>, the private functions on the arrays \<open>reserves_\<close>, \<open>results_\<close> and
  \<open>recordings_\<close>, and \<open>rec_manager/rec_instance.h\<close>, the recorder a group owns. Every function is
  translated on the fixed arrays; the lemmas describe it on the sequence of reservations in use,
  \<open>plan\<close> and \<open>history\<close>. The two JSON files are the array written last.
\<close>

section \<open>The recorder of a group\<close>

datatype progress = P_INIT | P_PRE_PROCESS | P_NOW_RECORDING | P_END_SUCCESS | P_END_ERROR
  | P_POST_PROCESS

text \<open>\<open>rec_b25\<close> is \<open>b25_\<close>: \<open>None\<close> the null pointer, else the data written to it.\<close>

record rec_instance =
  rec_progress :: progress
  rec_b25 :: "u8 list list option"

definition new_instance :: rec_instance where
  "new_instance = \<lparr>rec_progress = P_INIT, rec_b25 = None\<rparr>"

text \<open>\<open>instance::on_ts_received\<close>: the notices sent and the new state, \<open>None\<close> when \<open>b25_\<close> is
  dereferenced while null.\<close>

definition on_ts_received :: "u8 list \<Rightarrow> rec_instance \<Rightarrow> (progress list \<times> rec_instance) option" where
  "on_ts_received buf r =
    (case rec_progress r of
       P_PRE_PROCESS \<Rightarrow>
         Some ([P_PRE_PROCESS], r\<lparr>rec_b25 := Some [], rec_progress := P_NOW_RECORDING\<rparr>)
     | P_NOW_RECORDING \<Rightarrow>
         (case rec_b25 r of None \<Rightarrow> None | Some w \<Rightarrow> Some ([], r\<lparr>rec_b25 := Some (w @ [buf])\<rparr>))
     | P_END_SUCCESS \<Rightarrow> Some ([P_END_SUCCESS], r\<lparr>rec_progress := P_POST_PROCESS\<rparr>)
     | P_END_ERROR \<Rightarrow> Some ([P_END_ERROR], r\<lparr>rec_progress := P_POST_PROCESS\<rparr>)
     | P_POST_PROCESS \<Rightarrow>
         (case rec_b25 r of None \<Rightarrow> None
          | Some w \<Rightarrow> Some ([P_POST_PROCESS], r\<lparr>rec_b25 := None, rec_progress := P_INIT\<rparr>))
     | P_INIT \<Rightarrow> Some ([], r))"

definition set_next_progress :: "progress \<Rightarrow> rec_instance \<Rightarrow> rec_instance" where
  "set_next_progress p r = r\<lparr>rec_progress := p\<rparr>"

section \<open>The state of the manager\<close>

text \<open>What the handlers send without waiting for a reply.\<close>

datatype message = Tune_stop u8 | Tuner_close u8 | Stop_recording u8 | Recording_notice progress u8

record rec_manager =
  reserves :: "reserve list"
  results :: "reserve list"
  recordings :: "reserve list"
  rec_instances :: "rec_instance list"
  tuner_resource_max :: nat
  reserves_json :: "reserve list option"
  results_json :: "reserve list option"
  sent :: "message list"

definition new_rec_manager :: rec_manager where
  "new_rec_manager =
    \<lparr>reserves = replicate RESERVE_NUM_MAX cleared_reserve,
     results = replicate RESULT_NUM_MAX cleared_reserve,
     recordings = replicate GROUP_MAX cleared_reserve,
     rec_instances = replicate GROUP_MAX new_instance,
     tuner_resource_max = 0, reserves_json = None, results_json = None, sent = []\<rparr>"

definition save_reserves :: "rec_manager \<Rightarrow> rec_manager" where
  "save_reserves m = m\<lparr>reserves_json := Some (reserves m)\<rparr>"

definition save_results :: "rec_manager \<Rightarrow> rec_manager" where
  "save_results m = m\<lparr>results_json := Some (results m)\<rparr>"

definition load_reserves :: "rec_manager \<Rightarrow> rec_manager" where
  "load_reserves m = (case reserves_json m of None \<Rightarrow> m | Some rs \<Rightarrow> m\<lparr>reserves := rs\<rparr>)"

definition load_results :: "rec_manager \<Rightarrow> rec_manager" where
  "load_results m = (case results_json m of None \<Rightarrow> m | Some rs \<Rightarrow> m\<lparr>results := rs\<rparr>)"

section \<open>Searching and inserting\<close>

definition is_exist_empty_reserve :: "rec_manager \<Rightarrow> bool" where
  "is_exist_empty_reserve m =
    (first_index (\<lambda>r. \<not> is_used r) (reserves m) \<noteq> RESERVE_NUM_MAX)"

definition find_empty_reserve :: "reserve list \<Rightarrow> nat option" where
  "find_empty_reserve rs =
    (let i = first_index (\<lambda>r. \<not> is_used r) rs in if i = RESERVE_NUM_MAX then None else Some i)"

definition is_duplicate_reserve :: "reserve \<Rightarrow> rec_manager \<Rightarrow> bool" where
  "is_duplicate_reserve p m = list_ex (\<lambda>r. is_used r \<and> reserve_eq r p) (reserves m)"

text \<open>\<open>is_overrap_time_reserve\<close> only decides whether a warning is logged.\<close>

definition is_overrap_time_reserve :: "reserve \<Rightarrow> rec_manager \<Rightarrow> bool" where
  "is_overrap_time_reserve p m =
    list_ex (\<lambda>r. is_used r \<and>
      \<not> (etime_ge (start_time r) (start_time p) \<and> etime_ge (start_time r) (end_time p)) \<and>
      \<not> (etime_le (end_time r) (start_time p) \<and> etime_le (end_time r) (end_time p)))
     (reserves m)"

text \<open>The slot for a new start time: the index and the array with the slot cleared.\<close>

definition search_ascending_order_reserve ::
  "timespec option \<Rightarrow> reserve list \<Rightarrow> (nat \<times> reserve list) option" where
  "search_ascending_order_reserve start rs =
    (case start of None \<Rightarrow> None
     | Some t \<Rightarrow>
       (let i = first_index (\<lambda>r. etime_gt (start_time r) t) rs
        in if i = RESERVE_NUM_MAX then map_option (\<lambda>j. (j, rs)) (find_empty_reserve rs)
           else Some (i, (shift_right i rs)[i := cleared_reserve])))"

definition now_recording_same :: "reserve \<Rightarrow> rec_manager \<Rightarrow> bool" where
  "now_recording_same p m = list_ex (\<lambda>r. is_used r \<and> reserve_eq r p) (recordings m)"

definition add_reserve ::
  "event_key \<Rightarrow> timespec option \<Rightarrow> timespec option \<Rightarrow> string option \<Rightarrow> string option \<Rightarrow> bool \<Rightarrow>
   repeatability \<Rightarrow> bool \<Rightarrow> rec_manager \<Rightarrow> bool \<times> rec_manager" where
  "add_reserve key start endt title svc evt rpt resched m =
    (case (start, endt) of
       (Some s, Some e) \<Rightarrow>
         if etime_ge s e then (False, m)
         else if \<not> is_exist_empty_reserve m then (False, m)
         else
           let tmp = reserve_set key start endt title svc evt rpt cleared_reserve
           in if is_duplicate_reserve tmp m then (False, m)
              else if \<not> resched \<and> now_recording_same tmp m then (False, m)
              else
                (case search_ascending_order_reserve start (reserves m) of
                   None \<Rightarrow> (False, m)
                 | Some (i, rs) \<Rightarrow>
                     let r = reserve_set key start endt title svc evt rpt (rs ! i);
                         r' = (if resched then raise_state STATE_RESCHEDULED r else r)
                     in (True, save_reserves (m\<lparr>reserves := rs[i := r']\<rparr>)))
     | _ \<Rightarrow> (False, m))"

text \<open>\<open>-1\<close> when no reservation has the identifiers.\<close>

definition get_reserve_index :: "event_key \<Rightarrow> rec_manager \<Rightarrow> int" where
  "get_reserve_index key m =
    (let tmp = reserve_set key None None None None False Rep_none cleared_reserve;
         i = first_index (\<lambda>r. is_used r \<and> reserve_eq r tmp) (reserves m)
     in if i = RESERVE_NUM_MAX then -1 else int i)"

section \<open>Results, repetition, removal\<close>

definition set_result :: "reserve \<Rightarrow> rec_manager \<Rightarrow> rec_manager" where
  "set_result p m =
    (let i = first_index (\<lambda>r. \<not> is_used r) (results m)
     in if i \<noteq> RESULT_NUM_MAX then save_results (m\<lparr>results := (results m)[i := p]\<rparr>)
        else
          let rs = shift_left 0 (results m);
              rs = rs[RESULT_NUM_MAX - 1 := cleared_reserve];
              rs = rs[RESULT_NUM_MAX - 1 := p]
          in save_results (m\<lparr>results := rs\<rparr>))"

definition repeat_reserve :: "reserve \<Rightarrow> (timespec \<Rightarrow> timespec) \<Rightarrow> rec_manager \<Rightarrow> rec_manager" where
  "repeat_reserve p move m =
    snd (add_reserve (rsv_tsid p, rsv_nid p, rsv_svcid p, rsv_evtid p)
      (Some (move (start_time p))) (Some (move (end_time p)))
      (Some (title_name p)) (Some (service_name p)) (is_event_type p) (rsv_repeat p) False m)"

definition check_repeatability :: "reserve \<Rightarrow> rec_manager \<Rightarrow> rec_manager" where
  "check_repeatability p m =
    (case rsv_repeat p of
       Rep_none \<Rightarrow> m
     | Rep_daily \<Rightarrow> repeat_reserve p (add_day 1) m
     | Rep_weekly \<Rightarrow> repeat_reserve p (add_week 1) m
     | Rep_auto \<Rightarrow> m)"

definition update_reserve :: "nat \<Rightarrow> (reserve \<Rightarrow> reserve) \<Rightarrow> rec_manager \<Rightarrow> rec_manager" where
  "update_reserve i f m = m\<lparr>reserves := (reserves m)[i := f (reserves m ! i)]\<rparr>"

text \<open>\<open>for (j = i; j < N - 1; ++ j) reserves_[j] = reserves_[j+1]; reserves_[N - 1].clear ();\<close>\<close>

definition close_slot :: "nat \<Rightarrow> reserve list \<Rightarrow> reserve list" where
  "close_slot i rs = (shift_left i rs)[RESERVE_NUM_MAX - 1 := cleared_reserve]"

text \<open>\<open>None\<close>: a negative index writes in front of the array.\<close>

definition remove_reserve :: "int \<Rightarrow> bool \<Rightarrow> bool \<Rightarrow> rec_manager \<Rightarrow> (bool \<times> rec_manager) option" where
  "remove_reserve index cons_rep apply_result m =
    (if index \<ge> int RESERVE_NUM_MAX then Some (False, m)
     else if index < 0 then None
     else
       let i = nat index;
           m = update_reserve i (raise_state STATE_REMOVED) m;
           m = (if apply_result then set_result (reserves m ! i) m else m);
           m = (if cons_rep then check_repeatability (reserves m ! i) m else m)
       in Some (True, save_reserves (m\<lparr>reserves := close_slot i (reserves m)\<rparr>)))"

section \<open>The periodic checks\<close>

definition has_passed :: "timespec \<Rightarrow> reserve \<Rightarrow> bool" where
  "has_passed now r = (etime_lt (start_time r) now \<and> etime_le (end_time r) now)"

definition is_current :: "timespec \<Rightarrow> reserve \<Rightarrow> bool" where
  "is_current now r = (etime_le (start_time r) now \<and> etime_gt (end_time r) now)"

definition mark_current :: "timespec \<Rightarrow> reserve \<Rightarrow> reserve" where
  "mark_current now r =
    (let r = (if etime_le (add_sec 10 (start_time r)) now
              then raise_state STATE_START_TIME_PASSED r else r)
     in raise_state STATE_REQ_START_RECORDING r)"

fun check_reserves_loop :: "timespec \<Rightarrow> nat list \<Rightarrow> rec_manager \<Rightarrow> rec_manager" where
  "check_reserves_loop now [] m = m"
| "check_reserves_loop now (i # is) m =
    (if \<not> is_used (reserves m ! i) then check_reserves_loop now is m
     else if has_passed now (reserves m ! i) then
       let m = update_reserve i (raise_state STATE_ALREADY_PASSED) m;
           m = set_result (reserves m ! i) m;
           m = check_repeatability (reserves m ! i) m
       in check_reserves_loop now is m
     else if is_current now (reserves m ! i) then update_reserve i (mark_current now) m
     else check_reserves_loop now is m)"

definition refresh_reserves :: "u32 \<Rightarrow> rec_manager \<Rightarrow> rec_manager" where
  "refresh_reserves st m =
    fold (\<lambda>i m. if is_used (reserves m ! i) \<and> has_state st (reserves m ! i)
                then save_reserves (m\<lparr>reserves := close_slot i (reserves m)\<rparr>) else m)
      (rev [0..<RESERVE_NUM_MAX]) m"

definition check_reserves :: "timespec \<Rightarrow> rec_manager \<Rightarrow> rec_manager" where
  "check_reserves now m =
    refresh_reserves STATE_ALREADY_PASSED (check_reserves_loop now [0..<RESERVE_NUM_MAX] m)"

definition is_exist_req_start_recording_reserve :: "rec_manager \<Rightarrow> bool" where
  "is_exist_req_start_recording_reserve m =
    list_ex (\<lambda>r. is_used r \<and> has_state STATE_REQ_START_RECORDING r) (reserves m)"

definition pick_req_start_recording_reserve :: "u8 \<Rightarrow> rec_manager \<Rightarrow> bool \<times> rec_manager" where
  "pick_req_start_recording_reserve gr m =
    (let i = first_index (\<lambda>r. is_used r \<and> has_state STATE_REQ_START_RECORDING r) (reserves m)
     in if i = RESERVE_NUM_MAX then (False, m)
        else
          let r = drop_state STATE_REQ_START_RECORDING (reserves m ! i);
              r = r\<lparr>rsv_group := gr\<rparr>;
              m = m\<lparr>recordings := (recordings m)[unat gr := r]\<rparr>;
              m = m\<lparr>reserves := close_slot i (reserves m)\<rparr>;
              m = check_repeatability (recordings m ! unat gr) m
          in (True, save_reserves m))"

definition update_recording :: "nat \<Rightarrow> (reserve \<Rightarrow> reserve) \<Rightarrow> rec_manager \<Rightarrow> rec_manager" where
  "update_recording g f m = m\<lparr>recordings := (recordings m)[g := f (recordings m ! g)]\<rparr>"

definition set_instance_progress :: "nat \<Rightarrow> progress \<Rightarrow> rec_manager \<Rightarrow> rec_manager" where
  "set_instance_progress g p m =
    m\<lparr>rec_instances := (rec_instances m)[g := set_next_progress p (rec_instances m ! g)]\<rparr>"

definition check_recording_end :: "timespec \<Rightarrow> rec_manager \<Rightarrow> rec_manager" where
  "check_recording_end now m =
    fold (\<lambda>g m.
        if is_used (recordings m ! g) \<and> has_state STATE_NOW_RECORDING (recordings m ! g) \<and>
           etime_le (end_time (recordings m ! g)) now \<and>
           rec_progress (rec_instances m ! g) = P_NOW_RECORDING
        then set_instance_progress g P_END_SUCCESS m else m)
      [0..<GROUP_MAX] m"

definition check_disk_free :: "int \<Rightarrow> int \<Rightarrow> rec_manager \<Rightarrow> rec_manager" where
  "check_disk_free df limit m =
    fold (\<lambda>g m.
        if is_used (recordings m ! g) \<and> has_state STATE_NOW_RECORDING (recordings m ! g) \<and> df < limit
        then let m = update_recording g (raise_state STATE_HDD_FREE_SPACE_LOW) m
             in m\<lparr>sent := sent m @ [Stop_recording (of_nat g)]\<rparr>
        else m)
      [0..<GROUP_MAX] m"

text \<open>\<open>get_reserves\<close>: at most \<open>n\<close> reservations in array order, or \<open>-1\<close> for a bad buffer.\<close>

definition get_reserves :: "bool \<Rightarrow> int \<Rightarrow> rec_manager \<Rightarrow> (int \<times> reserve list)" where
  "get_reserves has_buffer n m =
    (if \<not> has_buffer \<or> n \<le> 0 then (-1, [])
     else let out = take (nat n) (filter is_used (reserves m)) in (int (length out), out))"

end
