(* ===== verification/Rec_Plan.thy ===== *)
theory Rec_Plan
  imports Rec_Manager
begin

text \<open>
  The private functions of \<open>rec_manager\<close> on the sequence of reservations in use (\<open>plan\<close>) and the
  recorded results (\<open>history\<close>), under the invariant \<open>slots_ok\<close> of the two arrays, which every
  function keeps.
\<close>

definition plan :: "rec_manager \<Rightarrow> reserve list" where
  "plan m = filter is_used (reserves m)"

definition history :: "rec_manager \<Rightarrow> reserve list" where
  "history m = filter is_used (results m)"

definition slots_ok :: "rec_manager \<Rightarrow> bool" where
  "slots_ok m =
    (rs.well_formed RESERVE_NUM_MAX (reserves m) \<and> distinct (map key_of (plan m)) \<and>
     length (results m) = RESULT_NUM_MAX \<and> used_prefix is_used (results m) \<and>
     length (recordings m) = GROUP_MAX \<and> length (rec_instances m) = GROUP_MAX)"

definition in_order :: "rec_manager \<Rightarrow> bool" where
  "in_order m = sorted (map start_time (plan m))"

section \<open>The array and the plan\<close>

lemma slots_reserves: "slots_ok m \<Longrightarrow> reserves m = rs.cells (plan m) RESERVE_NUM_MAX"
  by (simp add: slots_ok_def rs.well_formed_def plan_def)

lemma plan_used: "list_all is_used (plan m)"
  by (simp add: plan_def list_all_iff)

lemma plan_length: "slots_ok m \<Longrightarrow> length (plan m) \<le> RESERVE_NUM_MAX"
  using length_filter_le [of is_used "reserves m"] by (simp add: slots_ok_def rs.well_formed_def plan_def)

lemma length_reserves: "slots_ok m \<Longrightarrow> length (reserves m) = RESERVE_NUM_MAX"
  by (simp add: slots_ok_def rs.well_formed_def)

lemma plan_cells [simp]: "list_all is_used us \<Longrightarrow> filter is_used (rs.cells us n) = us"
  by (rule rs.filter_cells)

text \<open>Replacing the array by the cells of another plan.\<close>

lemma slots_new_plan:
  assumes "slots_ok m" "list_all is_used us" "length us \<le> RESERVE_NUM_MAX" "distinct (map key_of us)"
  shows "slots_ok (m\<lparr>reserves := rs.cells us RESERVE_NUM_MAX\<rparr>)"
    "plan (m\<lparr>reserves := rs.cells us RESERVE_NUM_MAX\<rparr>) = us"
  using assms rs.cells_well_formed [of us RESERVE_NUM_MAX] by (simp_all add: slots_ok_def plan_def)

lemma save_frames [frames, simp]:
  "reserves (save_reserves m) = reserves m" "results (save_reserves m) = results m"
  "recordings (save_reserves m) = recordings m" "rec_instances (save_reserves m) = rec_instances m"
  "reserves (save_results m) = reserves m" "results (save_results m) = results m"
  "recordings (save_results m) = recordings m" "rec_instances (save_results m) = rec_instances m"
  "sent (save_reserves m) = sent m" "sent (save_results m) = sent m"
  "tuner_resource_max (save_reserves m) = tuner_resource_max m"
  "tuner_resource_max (save_results m) = tuner_resource_max m"
  "reserves_json (save_results m) = reserves_json m"
  by (simp_all add: save_reserves_def save_results_def)

lemma save_plan [simp]:
  "plan (save_reserves m) = plan m" "plan (save_results m) = plan m"
  "history (save_reserves m) = history m" "history (save_results m) = history m"
  "slots_ok (save_reserves m) = slots_ok m" "slots_ok (save_results m) = slots_ok m"
  by (simp_all add: plan_def history_def slots_ok_def)

lemma new_manager_ok [keeps]: "slots_ok new_rec_manager \<and> plan new_rec_manager = []"
  by (simp add: slots_ok_def new_rec_manager_def plan_def rs.well_formed_def rs.cells_def
      used_prefix_def) (rule exI [of _ "[]"], simp add: list_all_iff)

section \<open>Searching\<close>

lemma empty_exists: "slots_ok m \<Longrightarrow> is_exist_empty_reserve m \<longleftrightarrow> length (plan m) < RESERVE_NUM_MAX"
  using rs.first_unused [OF plan_used plan_length] plan_length [of m]
  by (auto simp: is_exist_empty_reserve_def slots_reserves)

lemma duplicate_iff: "is_duplicate_reserve p m \<longleftrightarrow> key_of p \<in> key_of ` set (plan m)"
proof -
  have "is_duplicate_reserve p m \<longleftrightarrow> (\<exists>r\<in>set (plan m). key_of p = key_of r)"
    unfolding is_duplicate_reserve_def list_ex_iff reserve_eq_key plan_def by auto
  then show ?thesis by (simp add: image_iff)
qed

lemma recording_same_iff:
  "now_recording_same p m \<longleftrightarrow> (\<exists>r\<in>set (recordings m). is_used r \<and> key_of r = key_of p)"
  by (simp add: now_recording_same_def list_ex_iff reserve_eq_key)

text \<open>Where the plan gets a reservation that starts at \<open>t\<close>: behind everything that does not
  start later.\<close>

definition insert_by_start :: "reserve \<Rightarrow> reserve list \<Rightarrow> reserve list" where
  "insert_by_start r us =
    takeWhile (\<lambda>u. start_time u \<le> start_time r) us @ r #
    dropWhile (\<lambda>u. start_time u \<le> start_time r) us"

lemma mset_insert_by_start: "mset (insert_by_start r us) = add_mset r (mset us)"
proof -
  have "mset (takeWhile (\<lambda>u. start_time u \<le> start_time r) us) +
      mset (dropWhile (\<lambda>u. start_time u \<le> start_time r) us) = mset us"
    by (simp only: mset_append [symmetric] takeWhile_dropWhile_id)
  then show ?thesis by (simp add: insert_by_start_def)
qed

lemma set_insert_by_start [simp]: "set (insert_by_start r us) = insert r (set us)"
  by (simp only: set_mset_mset [symmetric] mset_insert_by_start set_mset_add_mset_insert)

lemma length_insert_by_start [simp]: "length (insert_by_start r us) = Suc (length us)"
  by (metis mset_insert_by_start size_add_mset size_mset)

lemma distinct_insert_by_start:
  "distinct (map key_of us) \<Longrightarrow> key_of r \<notin> key_of ` set us \<Longrightarrow>
   distinct (map key_of (insert_by_start r us))"
proof -
  assume d: "distinct (map key_of us)" "key_of r \<notin> key_of ` set us"
  have "mset (map key_of (insert_by_start r us)) = mset (key_of r # map key_of us)"
    by (simp add: mset_insert_by_start)
  moreover have "distinct (key_of r # map key_of us)" using d by simp
  ultimately show ?thesis using mset_eq_imp_distinct_iff by blast
qed

lemma sorted_insert_by_start:
  assumes "sorted (map start_time us)"
  shows "sorted (map start_time (insert_by_start r us))"
  using assms
proof (induction us)
  case Nil
  then show ?case by (simp add: insert_by_start_def)
next
  case (Cons u us)
  then show ?case
    by (cases "start_time u \<le> start_time r") (auto simp: insert_by_start_def dest: set_takeWhileD set_dropWhileD)
qed

text \<open>The search for the slot followed by writing into it is the insertion.\<close>

lemma search_and_write:
  assumes ok: "slots_ok m" and free: "length (plan m) < RESERVE_NUM_MAX"
    and start: "start_time x = t"
  shows "\<exists>i rs. search_ascending_order_reserve (Some t) (reserves m) = Some (i, rs) \<and>
    rs ! i = cleared_reserve \<and>
    rs[i := x] = rs.cells (insert_by_start x (plan m)) RESERVE_NUM_MAX"
proof -
  let ?P = "\<lambda>r. t < start_time r" and ?us = "plan m"
  let ?i = "first_index ?P ?us"
  have cells: "reserves m = rs.cells ?us RESERVE_NUM_MAX" using ok by (rule slots_reserves)
  have len: "length (reserves m) = RESERVE_NUM_MAX" using ok by (rule length_reserves)
  have ins: "take ?i ?us @ x # drop ?i ?us = insert_by_start x ?us"
    by (simp add: insert_by_start_def take_first_index drop_first_index start not_less)
  have le: "?i \<le> length ?us" by (rule first_index_le)
  have blank: "(rs.cells ?us RESERVE_NUM_MAX) ! length ?us = cleared_reserve"
    using free by (simp add: rs.nth_cells_blank)
  show ?thesis
  proof (cases "first_index ?P (reserves m) = RESERVE_NUM_MAX")
    case True
    have none: "\<not> (\<exists>r\<in>set ?us. ?P r)"
      using True first_index_less_iff [of ?P "reserves m"] len by (auto simp: plan_def)
    then have "?i = length ?us" by (rule first_index_none)
    moreover have "find_empty_reserve (reserves m) = Some (length ?us)"
      using rs.first_unused [OF plan_used plan_length [OF ok]] free
      by (simp add: find_empty_reserve_def cells)
    ultimately show ?thesis
      using True ins blank rs.cells_append [OF free, of x] cells
      by (auto simp: search_ascending_order_reserve_def)
  next
    case False
    have at: "first_index ?P (reserves m) = ?i"
    proof (cases "\<exists>r\<in>set ?us. ?P r")
      case True
      then show ?thesis using rs.first_index_cells [OF _ plan_length [OF ok]] cells by simp
    next
      case none: False
      let ?k = "RESERVE_NUM_MAX - length ?us"
      have sum: "first_index ?P (reserves m)
          = length ?us + first_index ?P (replicate ?k cleared_reserve)"
        using none cells by (simp add: rs.cells_def first_index_append)
      have "first_index ?P (replicate k cleared_reserve) = (if ?P cleared_reserve then 0 else k)" for k
        by (cases k) (auto simp: first_index_none)
      then have "first_index ?P (replicate ?k cleared_reserve) = 0"
        using False sum plan_length [OF ok] by (metis le_add_diff_inverse)
      then show ?thesis using sum first_index_none [OF none] by simp
    qed
    have in_range: "?i < length (shift_right ?i (reserves m))" using le free len by simp
    have "(shift_right ?i (reserves m))[?i := x] = rs.cells (insert_by_start x ?us) RESERVE_NUM_MAX"
      using rs.cells_insert [OF le free] ins cells by simp
    with False at in_range show ?thesis
      by (simp add: search_ascending_order_reserve_def Let_def)
  qed
qed

section \<open>add_reserve\<close>

text \<open>The reservation that \<open>add_reserve\<close> stores.\<close>

definition new_reserve ::
  "event_key \<Rightarrow> timespec \<Rightarrow> timespec \<Rightarrow> string option \<Rightarrow> string option \<Rightarrow> bool \<Rightarrow>
   repeatability \<Rightarrow> bool \<Rightarrow> reserve" where
  "new_reserve key s e title svc evt rpt resched =
    (let r = reserve_set key (Some s) (Some e) title svc evt rpt cleared_reserve
     in if resched then raise_state STATE_RESCHEDULED r else r)"

lemma new_reserve_sel [simp]:
  "is_used (new_reserve k s e t v b p rs)" "key_of (new_reserve k s e t v b p rs) = k"
  "start_time (new_reserve k s e t v b p rs) = s" "end_time (new_reserve k s e t v b p rs) = e"
  "rsv_repeat (new_reserve k s e t v b p rs) = p"
  by (simp_all add: new_reserve_def Let_def)

lemma new_reserve_no_state:
  "STATE_RESCHEDULED AND f = 0 \<Longrightarrow> \<not> has_state f (new_reserve k s e t v b p rs)"
  by (simp add: new_reserve_def Let_def) (simp add: has_state_def)

text \<open>What \<open>add_reserve\<close> accepts.\<close>

definition acceptable :: "event_key \<Rightarrow> timespec \<Rightarrow> timespec \<Rightarrow> bool \<Rightarrow> rec_manager \<Rightarrow> bool" where
  "acceptable key s e resched m =
    (s < e \<and> length (plan m) < RESERVE_NUM_MAX \<and> key \<notin> key_of ` set (plan m) \<and>
     (resched \<or> \<not> (\<exists>r\<in>set (recordings m). is_used r \<and> key_of r = key)))"

lemma add_reserve_accepts:
  assumes "slots_ok m" "acceptable key s e resched m"
  shows "add_reserve key (Some s) (Some e) title svc evt rpt resched m =
    (True, save_reserves (m\<lparr>reserves := rs.cells
       (insert_by_start (new_reserve key s e title svc evt rpt resched) (plan m)) RESERVE_NUM_MAX\<rparr>))"
proof -
  let ?r = "new_reserve key s e title svc evt rpt resched"
  have free: "length (plan m) < RESERVE_NUM_MAX" using assms(2) by (simp add: acceptable_def)
  obtain i rs where
    found: "search_ascending_order_reserve (Some s) (reserves m) = Some (i, rs)" and
    cell: "rs ! i = cleared_reserve" and
    stored: "rs[i := ?r] = rs.cells (insert_by_start ?r (plan m)) RESERVE_NUM_MAX"
    using search_and_write [OF assms(1) free, of ?r s] by auto
  from assms(2) show ?thesis
    unfolding add_reserve_def
    using empty_exists [OF assms(1)] found cell stored
    by (auto simp: acceptable_def duplicate_iff recording_same_iff new_reserve_def Let_def not_le)
qed

lemma add_reserve_refuses:
  assumes "slots_ok m" "\<not> acceptable key s e resched m"
  shows "add_reserve key (Some s) (Some e) title svc evt rpt resched m = (False, m)"
  using assms empty_exists [OF assms(1)]
  by (auto simp: add_reserve_def acceptable_def duplicate_iff recording_same_iff Let_def not_le)

lemma add_reserve_null [simp]:
  "add_reserve key None e title svc evt rpt resched m = (False, m)"
  "add_reserve key s None title svc evt rpt resched m = (False, m)"
  by (auto simp: add_reserve_def split: option.split)

lemma add_reserve_plan:
  assumes "slots_ok m" "acceptable key s e resched m"
    and m': "m' = snd (add_reserve key (Some s) (Some e) title svc evt rpt resched m)"
  shows "slots_ok m'"
    "plan m' = insert_by_start (new_reserve key s e title svc evt rpt resched) (plan m)"
proof -
  let ?us = "insert_by_start (new_reserve key s e title svc evt rpt resched) (plan m)"
  have "list_all is_used ?us" using plan_used [of m] by (simp add: list_all_iff)
  moreover have "length ?us \<le> RESERVE_NUM_MAX" using assms(2) by (simp add: acceptable_def)
  moreover have "distinct (map key_of ?us)"
    using assms by (auto intro!: distinct_insert_by_start simp: slots_ok_def acceptable_def)
  ultimately show "slots_ok m'" "plan m' = ?us"
    using slots_new_plan [OF assms(1)] add_reserve_accepts [OF assms(1,2)]
    by (simp_all add: m')
qed

lemma add_reserve_keeps [keeps]:
  assumes "slots_ok m"
  shows "slots_ok (snd (add_reserve key s e title svc evt rpt resched m))"
proof (cases s)
  case (Some s')
  then show ?thesis
  proof (cases e)
    case (Some e')
    with \<open>s = Some s'\<close> assms show ?thesis
      using add_reserve_plan(1) [OF assms] add_reserve_refuses [OF assms]
      by (cases "acceptable key s' e' resched m") auto
  qed (simp add: assms)
qed (simp add: assms)

lemma add_reserve_order:
  assumes "slots_ok m" "in_order m"
  shows "in_order (snd (add_reserve key s e title svc evt rpt resched m))"
proof (cases s)
  case (Some s')
  then show ?thesis
  proof (cases e)
    case (Some e')
    with \<open>s = Some s'\<close> assms show ?thesis
      using add_reserve_plan(2) [OF assms(1)] add_reserve_refuses [OF assms(1)]
      by (cases "acceptable key s' e' resched m") (auto simp: in_order_def sorted_insert_by_start)
  qed (simp add: assms)
qed (simp add: assms)

end
