(* ===== verification/Rec_Steps.thy ===== *)
theory Rec_Steps
  imports Rec_Plan
begin

text \<open>
  Results, repetition, removal and the periodic checks of \<open>rec_manager\<close> as operations on \<open>plan\<close>
  and \<open>history\<close>.
\<close>

section \<open>set_result\<close>

lemma set_result_frames [frames, simp]:
  "reserves (set_result p m) = reserves m" "recordings (set_result p m) = recordings m"
  "rec_instances (set_result p m) = rec_instances m" "sent (set_result p m) = sent m"
  "tuner_resource_max (set_result p m) = tuner_resource_max m"
  "reserves_json (set_result p m) = reserves_json m"
  by (simp_all add: set_result_def Let_def)

lemma set_result_plan [simp]: "plan (set_result p m) = plan m"
  by (simp add: plan_def)

text \<open>The last \<open>RESULT_NUM_MAX\<close> elements.\<close>

definition keep_last :: "nat \<Rightarrow> 'a list \<Rightarrow> 'a list" where
  "keep_last n xs = drop (length xs - n) xs"

lemma length_keep_last [simp]: "length (keep_last n xs) = min n (length xs)"
  by (simp add: keep_last_def)

lemma set_keep_last: "set (keep_last n xs) \<subseteq> set xs"
  by (simp add: keep_last_def set_drop_subset)

lemma used_prefix_front:
  assumes "used_prefix used xs"
  shows "xs = filter used xs @ drop (length (filter used xs)) xs"
    "list_all (\<lambda>x. \<not> used x) (drop (length (filter used xs)) xs)"
proof -
  obtain us fs where xs: "xs = us @ fs" "list_all used us" "list_all (\<lambda>x. \<not> used x) fs"
    using assms by (auto simp: used_prefix_def)
  have f: "filter used xs = us"
    using xs by (auto simp: filter_id_conv filter_empty_conv list_all_iff)
  show "xs = filter used xs @ drop (length (filter used xs)) xs"
    "list_all (\<lambda>x. \<not> used x) (drop (length (filter used xs)) xs)"
    unfolding f using xs by simp_all
qed

lemma set_result_cells:
  assumes ok: "slots_ok m"
  defines "us \<equiv> history m" and "fs \<equiv> drop (length (history m)) (results m)"
  shows "results (set_result p m) =
    (if length us < RESULT_NUM_MAX then us @ p # tl fs else tl us @ [p])"
    "results m = us @ fs" "list_all is_used us" "list_all (\<lambda>r. \<not> is_used r) fs"
proof -
  have len: "length (results m) = RESULT_NUM_MAX" and pre: "used_prefix is_used (results m)"
    using ok by (simp_all add: slots_ok_def)
  show res: "results m = us @ fs" and fs: "list_all (\<lambda>r. \<not> is_used r) fs"
    using used_prefix_front [OF pre] by (simp_all add: us_def fs_def history_def)
  show us: "list_all is_used us" by (simp add: us_def history_def list_all_iff)
  have first: "first_index (\<lambda>r. \<not> is_used r) (results m) = length us"
    using us fs unfolding res
    by (cases fs) (auto simp: first_index_append first_index_none list_all_iff)
  show "results (set_result p m) = (if length us < RESULT_NUM_MAX then us @ p # tl fs else tl us @ [p])"
  proof (cases "length us < RESULT_NUM_MAX")
    case True
    then obtain f fs' where "fs = f # fs'" using len res by (cases fs) auto
    with True first res show ?thesis by (simp add: set_result_def Let_def)
  next
    case False
    moreover have "length us + length fs = RESULT_NUM_MAX" using len res by simp
    ultimately have "length fs = 0" "length us = RESULT_NUM_MAX" by linarith+
    then have "fs = []" "length us = RESULT_NUM_MAX" by simp_all
    moreover from this have "(shift_left 0 us)[RESULT_NUM_MAX - 1 := p] = tl us @ [p]"
      using shift_left_clear [of 0 us p] by (simp add: drop_Suc)
    ultimately show ?thesis using first res by (simp add: set_result_def Let_def)
  qed
qed

lemma set_result_history:
  assumes "slots_ok m" "is_used p"
  shows "history (set_result p m) = keep_last RESULT_NUM_MAX (history m @ [p])"
proof -
  let ?fs = "drop (length (history m)) (results m)"
  note cells = set_result_cells(1) [OF assms(1), of p] set_result_cells(2-4) [OF assms(1)]
  have fs: "filter is_used (tl ?fs) = []"
    using cells(4) by (cases ?fs) (simp_all add: list_all_iff filter_empty_conv)
  have le: "length (history m) \<le> RESULT_NUM_MAX"
    using assms(1) length_filter_le [of is_used "results m"] by (simp add: slots_ok_def history_def)
  have tl: "filter is_used (tl (history m)) = tl (history m)"
    using cells(3) by (cases "history m") (simp_all add: list_all_iff filter_id_conv)
  have us: "filter is_used (history m) = history m"
    using cells(3) by (simp add: list_all_iff filter_id_conv)
  show ?thesis
  proof (cases "length (history m) < RESULT_NUM_MAX")
    case True
    then show ?thesis
      using cells(1) fs us assms(2) by (simp add: history_def [of "set_result p m"] keep_last_def)
  next
    case False
    then show ?thesis
      using cells(1) tl assms(2) le
      by (simp add: history_def [of "set_result p m"] keep_last_def drop_Suc)
  qed
qed

lemma set_result_keeps [keeps, simp]:
  assumes "slots_ok m"
  shows "slots_ok (set_result p m)"
proof -
  let ?us = "history m" and ?fs = "drop (length (history m)) (results m)"
  note cells = set_result_cells(1) [OF assms, of p] set_result_cells(2-4) [OF assms]
  have tail: "list_all (\<lambda>r. \<not> is_used r) (tl ?fs)" "list_all is_used (tl ?us)"
    using cells(3,4) by (cases ?fs; cases ?us; simp)+
  have pre: "used_prefix is_used (results (set_result p m))"
  proof (cases "is_used p")
    case True
    with tail cells(1,3) used_prefixI [of is_used "?us @ [p]" "tl ?fs"]
      used_prefixI [of is_used "tl ?us @ [p]" "[]"] show ?thesis by simp
  next
    case False
    with tail cells(1,3) used_prefixI [of is_used "?us" "p # tl ?fs"]
      used_prefixI [of is_used "tl ?us" "[p]"] show ?thesis by simp
  qed
  have "length (results (set_result p m)) = length (results m)"
    by (simp add: set_result_def Let_def)
  with pre assms show ?thesis by (simp add: slots_ok_def)
qed

section \<open>check_repeatability\<close>

text \<open>A reservation that is still in the array, or in the recording of a group, is never
  added again: \<open>add_reserve\<close> finds the original.\<close>

lemma repeat_refused:
  assumes "slots_ok m"
    and "key_of p \<in> key_of ` set (plan m) \<or>
      (\<exists>r\<in>set (recordings m). is_used r \<and> key_of r = key_of p)"
  shows "check_repeatability p m = m"
proof -
  have key: "key_of p = (rsv_tsid p, rsv_nid p, rsv_svcid p, rsv_evtid p)" by (simp add: key_of_def)
  have "\<not> acceptable (key_of p) s e False m" for s e
    using assms(2) by (auto simp: acceptable_def)
  then show ?thesis
    using add_reserve_refuses [OF assms(1)] key
    by (simp add: check_repeatability_def repeat_reserve_def split: repeatability.split)
qed

lemma repeat_keeps [keeps]: "slots_ok m \<Longrightarrow> slots_ok (check_repeatability p m)"
  by (simp add: check_repeatability_def repeat_reserve_def add_reserve_keeps split: repeatability.split)

lemma repeat_blank [simp]: "rsv_repeat p = Rep_none \<Longrightarrow> check_repeatability p m = m"
  by (simp add: check_repeatability_def)

section \<open>Updating one reservation, closing its slot\<close>

lemma update_reserve_plan:
  assumes "slots_ok m" "i < length (plan m)"
    and "\<And>r. is_used (f r) = is_used r" "\<And>r. key_of (f r) = key_of r"
  shows "slots_ok (update_reserve i f m)" "plan (update_reserve i f m) = (plan m)[i := f (plan m ! i)]"
    "reserves (update_reserve i f m) ! i = f (plan m ! i)"
proof -
  let ?us = "(plan m)[i := f (plan m ! i)]"
  have at: "reserves m ! i = plan m ! i" using assms slots_reserves by (simp add: rs.nth_cells)
  have eq: "update_reserve i f m = m\<lparr>reserves := rs.cells ?us RESERVE_NUM_MAX\<rparr>"
    using assms slots_reserves [OF assms(1)] at by (simp add: update_reserve_def rs.cells_update)
  have used: "list_all is_used ?us"
    using plan_used [of m] assms by (auto simp: list_all_length nth_list_update)
  have keys: "map key_of ?us = map key_of (plan m)"
    using assms by (simp add: map_update) (metis list_update_id map_update nth_map)
  have "distinct (map key_of ?us)" using keys assms(1) by (simp add: slots_ok_def)
  with eq used show "slots_ok (update_reserve i f m)" "plan (update_reserve i f m) = ?us"
    using slots_new_plan [OF assms(1) used] plan_length [OF assms(1)] by simp_all
  show "reserves (update_reserve i f m) ! i = f (plan m ! i)"
    using assms length_reserves [OF assms(1)] plan_length [OF assms(1)] at
    by (simp add: update_reserve_def)
qed

lemma update_reserve_frames [frames, simp]:
  "results (update_reserve i f m) = results m" "recordings (update_reserve i f m) = recordings m"
  "rec_instances (update_reserve i f m) = rec_instances m" "sent (update_reserve i f m) = sent m"
  "history (update_reserve i f m) = history m"
  "tuner_resource_max (update_reserve i f m) = tuner_resource_max m"
  by (simp_all add: update_reserve_def history_def)

lemma close_slot_cells:
  "\<lbrakk>i < length us; length us \<le> RESERVE_NUM_MAX\<rbrakk> \<Longrightarrow>
   close_slot i (rs.cells us RESERVE_NUM_MAX) = rs.cells (take i us @ drop (Suc i) us) RESERVE_NUM_MAX"
  unfolding close_slot_def by (rule rs.cells_remove)

lemma close_slot_plan:
  assumes "slots_ok m" "i < length (plan m)"
  defines "m' \<equiv> m\<lparr>reserves := close_slot i (reserves m)\<rparr>"
  shows "slots_ok m'" "plan m' = take i (plan m) @ drop (Suc i) (plan m)"
proof -
  let ?us = "take i (plan m) @ drop (Suc i) (plan m)"
  have eq: "m' = m\<lparr>reserves := rs.cells ?us RESERVE_NUM_MAX\<rparr>"
    using assms slots_reserves [OF assms(1)] plan_length [OF assms(1)]
    by (simp add: close_slot_cells)
  have used: "list_all is_used ?us"
    using plan_used [of m] by (auto simp: list_all_iff dest: in_set_takeD in_set_dropD)
  have len: "length ?us \<le> RESERVE_NUM_MAX" using assms(2) plan_length [OF assms(1)] by simp
  have "plan m = take i (plan m) @ plan m ! i # drop (Suc i) (plan m)"
    using assms(2) by (rule id_take_nth_drop)
  moreover have "distinct (map key_of (plan m))" using assms(1) by (simp add: slots_ok_def)
  ultimately have "distinct (map key_of (take i (plan m) @ plan m ! i # drop (Suc i) (plan m)))"
    by simp
  then have "distinct (map key_of ?us)" by simp
  then show "slots_ok m'" "plan m' = ?us"
    unfolding eq using slots_new_plan [OF assms(1) used len] by simp_all
qed

text \<open>A slot that is not in use stays a blank cell.\<close>

lemma close_unused_slot:
  assumes "slots_ok m" "length (plan m) \<le> i" "i < RESERVE_NUM_MAX"
  shows "close_slot i ((reserves m)[i := x]) = reserves m"
proof -
  let ?rs = "(reserves m)[i := x]"
  have len: "length (reserves m) = RESERVE_NUM_MAX" using assms(1) by (rule length_reserves)
  have cells: "reserves m = rs.cells (plan m) RESERVE_NUM_MAX" using assms(1) by (rule slots_reserves)
  have "close_slot i ?rs = take i ?rs @ drop (Suc i) ?rs @ [cleared_reserve]"
    using shift_left_clear [of i ?rs cleared_reserve] len assms(3) by (simp add: close_slot_def)
  also have "\<dots> = take i (reserves m) @ drop (Suc i) (reserves m) @ [cleared_reserve]"
    by simp
  also have "\<dots> = reserves m"
  proof (rule nth_equalityI)
    fix k assume "k < length (take i (reserves m) @ drop (Suc i) (reserves m) @ [cleared_reserve])"
    then have k: "k < RESERVE_NUM_MAX" using len assms(3) by simp
    show "(take i (reserves m) @ drop (Suc i) (reserves m) @ [cleared_reserve]) ! k = reserves m ! k"
      using k len assms rs.nth_cells_blank [of "plan m" _ RESERVE_NUM_MAX] unfolding cells
      by (auto simp: nth_append nth_Cons' not_less rs.length_cells)
  qed (use len assms(3) in simp)
  finally show ?thesis .
qed

end
