(* ===== verification/Rec_Checks.thy ===== *)
theory Rec_Checks
  imports Rec_Steps
begin

text \<open>
  \<open>remove_reserve\<close>, \<open>refresh_reserves\<close>, \<open>check_reserves\<close> and \<open>pick_req_start_recording_reserve\<close>:
  what they do to the plan, the history and the recordings.
\<close>

section \<open>remove_reserve\<close>

lemma sorted_remove_nth:
  assumes "sorted (map f us)" "i < length us"
  shows "sorted (map f (take i us @ drop (Suc i) us))"
proof -
  have "us = take i us @ us ! i # drop (Suc i) us" using assms(2) by (rule id_take_nth_drop)
  with assms(1) have "sorted (map f (take i us @ us ! i # drop (Suc i) us))" by simp
  then show ?thesis by (auto simp: sorted_append)
qed

lemma remove_reserve_used:
  assumes "slots_ok m" "i < length (plan m)"
  shows "remove_reserve (int i) cons_rep apply_result m =
    (let r = raise_state STATE_REMOVED (plan m ! i);
         m1 = update_reserve i (raise_state STATE_REMOVED) m;
         m2 = (if apply_result then set_result r m1 else m1)
     in Some (True, save_reserves (m2\<lparr>reserves := close_slot i (reserves m2)\<rparr>)))"
proof -
  let ?m1 = "update_reserve i (raise_state STATE_REMOVED) m"
  let ?r = "raise_state STATE_REMOVED (plan m ! i)"
  have up: "slots_ok ?m1" "plan ?m1 = (plan m)[i := ?r]" "reserves ?m1 ! i = ?r"
    using update_reserve_plan [OF assms] by simp_all
  have le: "i < RESERVE_NUM_MAX" using assms plan_length by fastforce
  have "?r \<in> set (plan ?m1)" using up(2) assms(2) by (metis set_update_memI)
  then have mem: "key_of ?r \<in> key_of ` set (plan ?m1)" by (rule imageI)
  have "check_repeatability ?r ?m1 = ?m1" using repeat_refused [OF up(1)] mem by blast
  moreover have "check_repeatability ?r (set_result ?r ?m1) = set_result ?r ?m1"
    using repeat_refused [OF set_result_keeps [OF up(1)]] mem by simp
  ultimately show ?thesis
    using le up(3) by (simp add: remove_reserve_def Let_def)
qed

lemma remove_reserve_plan:
  assumes "slots_ok m" "i < length (plan m)"
    and rm: "remove_reserve (int i) cons_rep apply_result m = Some (ok, m')"
  shows "ok" "slots_ok m'" "plan m' = take i (plan m) @ drop (Suc i) (plan m)"
    "recordings m' = recordings m"
    "history m' = (if apply_result
       then keep_last RESULT_NUM_MAX (history m @ [raise_state STATE_REMOVED (plan m ! i)])
       else history m)"
proof -
  let ?r = "raise_state STATE_REMOVED (plan m ! i)"
  let ?m1 = "update_reserve i (raise_state STATE_REMOVED) m"
  let ?m2 = "if apply_result then set_result ?r ?m1 else ?m1"
  have up: "slots_ok ?m1" "plan ?m1 = (plan m)[i := ?r]"
    using update_reserve_plan [OF assms(1,2)] by simp_all
  have m2: "slots_ok ?m2" "plan ?m2 = (plan m)[i := ?r]" using up by simp_all
  have used: "is_used ?r" using plan_used [of m] assms(2) by (simp add: list_all_length)
  have m': "m' = save_reserves (?m2\<lparr>reserves := close_slot i (reserves ?m2)\<rparr>)" and "ok"
    using rm remove_reserve_used [OF assms(1,2)] by (simp_all add: Let_def split: if_splits)
  have i: "i < length (plan ?m2)" using m2(2) assms(2) by simp
  show "ok" by fact
  show "slots_ok m'" "plan m' = take i (plan m) @ drop (Suc i) (plan m)"
    unfolding m' using close_slot_plan [OF m2(1) i] m2(2) by simp_all
  show "recordings m' = recordings m" unfolding m' by simp
  have "history m' = history ?m2" unfolding m' by (simp add: history_def)
  then show "history m' = (if apply_result
      then keep_last RESULT_NUM_MAX (history m @ [?r]) else history m)"
    using set_result_history [OF up(1) used] by simp
qed

text \<open>An index in the array behind the reservations in use is accepted as well: nothing leaves
  the plan, but with \<open>is_apply_result\<close> an unused cell is written to the results.\<close>

lemma remove_reserve_unused:
  assumes ok: "slots_ok m" and i: "length (plan m) \<le> i" "i < RESERVE_NUM_MAX"
    and rm: "remove_reserve (int i) cons_rep apply_result m = Some (b, m')"
  shows "b" "slots_ok m'" "reserves m' = reserves m" "recordings m' = recordings m"
    "results m' = (if apply_result then results (set_result (raise_state STATE_REMOVED cleared_reserve) m)
       else results m)"
proof -
  let ?r = "raise_state STATE_REMOVED cleared_reserve"
  let ?m1 = "update_reserve i (raise_state STATE_REMOVED) m"
  let ?m2 = "if apply_result then set_result ?r ?m1 else ?m1"
  have blank: "reserves m ! i = cleared_reserve"
    using slots_reserves [OF ok] i by (simp add: rs.nth_cells_blank)
  have at: "reserves ?m1 ! i = ?r"
    using blank i length_reserves [OF ok] by (simp add: update_reserve_def)
  have none: "rsv_repeat ?r = Rep_none" by (simp add: raise_state_def cleared_reserve_def)
  have res: "b" "m' = save_reserves (?m2\<lparr>reserves := close_slot i (reserves ?m2)\<rparr>)"
    using rm i at none by (simp_all add: remove_reserve_def Let_def split: if_splits)
  have "close_slot i (reserves ?m2) = reserves m"
    using close_unused_slot [OF ok i] by (simp add: update_reserve_def)
  with res show "b" "reserves m' = reserves m" "recordings m' = recordings m" by simp_all
  have sr: "results (set_result ?r ?m1) = results (set_result ?r m)"
    by (simp add: set_result_def Let_def)
  with res show "results m' = (if apply_result then results (set_result ?r m) else results m)"
    by simp
  have "slots_ok m \<Longrightarrow> slots_ok m'"
    using set_result_keeps [OF ok, of ?r] res sr \<open>reserves m' = reserves m\<close>
    by (simp add: slots_ok_def plan_def)
  then show "slots_ok m'" using ok by blast
qed

lemma remove_reserve_keeps [keeps]:
  assumes "slots_ok m" "remove_reserve idx cons_rep apply_result m = Some (b, m')"
  shows "slots_ok m'"
proof (cases "idx \<ge> int RESERVE_NUM_MAX")
  case True
  with assms show ?thesis by (simp add: remove_reserve_def)
next
  case False
  then have "0 \<le> idx" using assms(2) by (auto simp: remove_reserve_def split: if_splits)
  then obtain i where i: "idx = int i" by (metis nonneg_int_cases)
  with False have "i < RESERVE_NUM_MAX" by simp
  with i assms show ?thesis
    using remove_reserve_plan(2) [of m i cons_rep apply_result b m']
      remove_reserve_unused(2) [of m i cons_rep apply_result b m']
    by (cases "i < length (plan m)") auto
qed

section \<open>refresh_reserves\<close>

definition refresh_step :: "u32 \<Rightarrow> nat \<Rightarrow> rec_manager \<Rightarrow> rec_manager" where
  "refresh_step st i m =
    (if is_used (reserves m ! i) \<and> has_state st (reserves m ! i)
     then save_reserves (m\<lparr>reserves := close_slot i (reserves m)\<rparr>) else m)"

lemma refresh_fold: "refresh_reserves st m = fold (refresh_step st) (rev [0..<RESERVE_NUM_MAX]) m"
  by (simp add: refresh_reserves_def refresh_step_def [abs_def])

lemma fold_refresh_frames:
  "results (fold (refresh_step st) is m) = results m"
  "recordings (fold (refresh_step st) is m) = recordings m"
  "rec_instances (fold (refresh_step st) is m) = rec_instances m"
  "sent (fold (refresh_step st) is m) = sent m"
  "tuner_resource_max (fold (refresh_step st) is m) = tuner_resource_max m"
  by (induction "is" arbitrary: m) (simp_all add: refresh_step_def)

lemmas refresh_frames [frames, simp] =
  fold_refresh_frames [of st "rev [0..<RESERVE_NUM_MAX]" for st, folded refresh_fold]

lemma fold_refresh_reserves:
  "reserves (fold (refresh_step st) is m) =
   fold (\<lambda>i xs. if is_used (xs ! i) \<and> has_state st (xs ! i)
          then (shift_left i xs)[RESERVE_NUM_MAX - 1 := cleared_reserve] else xs) is (reserves m)"
  by (induction "is" arbitrary: m) (simp_all add: refresh_step_def close_slot_def)

lemma refresh_reserves_plan:
  assumes "slots_ok m"
  shows "slots_ok (refresh_reserves st m)"
    "plan (refresh_reserves st m) = filter (\<lambda>r. \<not> has_state st r) (plan m)"
    "reserves (refresh_reserves st m) =
       rs.cells (filter (\<lambda>r. \<not> has_state st r) (plan m)) RESERVE_NUM_MAX"
proof -
  let ?us = "filter (\<lambda>r. \<not> has_state st r) (plan m)"
  have le: "length (plan m) \<le> RESERVE_NUM_MAX" using assms by (rule plan_length)
  show cells: "reserves (refresh_reserves st m) = rs.cells ?us RESERVE_NUM_MAX"
    unfolding refresh_fold fold_refresh_reserves slots_reserves [OF assms]
      rs.cells_sweep [OF plan_used le order_refl, where P = "has_state st"]
    using le by simp
  have used: "list_all is_used ?us" using plan_used [of m] by (simp add: list_all_iff)
  have len: "length ?us \<le> RESERVE_NUM_MAX"
    using le length_filter_le [of "\<lambda>r. \<not> has_state st r" "plan m"] by linarith
  have "distinct (map key_of ?us)" using assms by (simp add: slots_ok_def distinct_map_filter)
  then have "slots_ok (m\<lparr>reserves := rs.cells ?us RESERVE_NUM_MAX\<rparr>)"
    by (rule slots_new_plan(1) [OF assms used len])
  then show "slots_ok (refresh_reserves st m)"
    using cells by (simp add: slots_ok_def plan_def)
  show "plan (refresh_reserves st m) = ?us"
    using cells used by (simp add: plan_def [of "refresh_reserves st m"] del: filter_filter)
qed

section \<open>check_reserves\<close>

text \<open>What the loop makes of the plan and which reservations it reports as passed: everything up
  to the first one whose time is now.\<close>

fun mark_plan :: "timespec \<Rightarrow> reserve list \<Rightarrow> reserve list" where
  "mark_plan now [] = []"
| "mark_plan now (r # rs) =
    (if has_passed now r then raise_state STATE_ALREADY_PASSED r # mark_plan now rs
     else if is_current now r then mark_current now r # rs
     else r # mark_plan now rs)"

fun passed_ones :: "timespec \<Rightarrow> reserve list \<Rightarrow> reserve list" where
  "passed_ones now [] = []"
| "passed_ones now (r # rs) =
    (if has_passed now r then raise_state STATE_ALREADY_PASSED r # passed_ones now rs
     else if is_current now r then []
     else passed_ones now rs)"

lemma keep_last_snoc: "keep_last n (keep_last n xs @ ys) = keep_last n (xs @ ys)"
  by (cases "length xs \<le> n") (auto simp: keep_last_def add.commute)

lemma mark_current_frames [frames, simp]:
  "is_used (mark_current now r) = is_used r" "key_of (mark_current now r) = key_of r"
  "start_time (mark_current now r) = start_time r" "end_time (mark_current now r) = end_time r"
  by (simp_all add: mark_current_def Let_def)

lemma check_loop_unused:
  assumes "slots_ok m" "length (plan m) \<le> i"
  shows "check_reserves_loop now [i..<RESERVE_NUM_MAX] m = m"
  using assms(2)
proof (induction "RESERVE_NUM_MAX - i" arbitrary: i)
  case 0
  then show ?case by simp
next
  case (Suc n)
  then have i: "i < RESERVE_NUM_MAX" by simp
  then have "\<not> is_used (reserves m ! i)"
    using Suc.prems slots_reserves [OF assms(1)] by (simp add: rs.nth_cells_blank)
  moreover have "n = RESERVE_NUM_MAX - Suc i" using Suc.hyps(2) by simp
  ultimately show ?case using Suc.hyps(1) [of "Suc i"] Suc.prems i by (simp add: upt_conv_Cons)
qed

lemma check_loop_plan:
  assumes "slots_ok m" "plan m = pre @ todo"
  shows "let m' = check_reserves_loop now [length pre..<RESERVE_NUM_MAX] m in slots_ok m' \<and> plan m' = pre @ mark_plan now todo \<and>
    keep_last RESULT_NUM_MAX (history m') =
      keep_last RESULT_NUM_MAX (history m @ passed_ones now todo) \<and>
    recordings m' = recordings m \<and> rec_instances m' = rec_instances m \<and> sent m' = sent m \<and>
    tuner_resource_max m' = tuner_resource_max m"
  using assms(1,2) 
proof (induction todo arbitrary: m pre)
  case Nil
  then show ?case by (simp add: check_loop_unused)
next
  case (Cons r todo)
  let ?i = "length pre"
  have i: "?i < length (plan m)" using Cons.prems by simp
  have at: "plan m ! ?i = r" "reserves m ! ?i = r"
    using Cons.prems i slots_reserves [OF Cons.prems(1)] by (simp_all add: rs.nth_cells nth_append)
  have used: "is_used r" using plan_used [of m] Cons.prems(2) by simp
  have upt: "[?i..<RESERVE_NUM_MAX] = ?i # [Suc ?i..<RESERVE_NUM_MAX]"
    using i plan_length [OF Cons.prems(1)] by (simp add: upt_conv_Cons)
  show ?case
  proof (cases "has_passed now r")
    case True
    let ?r = "raise_state STATE_ALREADY_PASSED r"
    let ?m1 = "update_reserve ?i (raise_state STATE_ALREADY_PASSED) m"
    let ?m2 = "set_result ?r ?m1"
    have up: "slots_ok ?m1" "plan ?m1 = (pre @ [?r]) @ todo" "reserves ?m1 ! ?i = ?r"
      using update_reserve_plan [OF Cons.prems(1) i] at Cons.prems(2) by simp_all
    have m2: "slots_ok ?m2" "plan ?m2 = (pre @ [?r]) @ todo" using up by simp_all
    have rep: "check_repeatability ?r ?m2 = ?m2"
      by (rule repeat_refused [OF m2(1)]) (simp add: up(2))
    have hist: "history ?m2 = keep_last RESULT_NUM_MAX (history m @ [?r])"
      using set_result_history [OF up(1)] used by simp
    show ?thesis
      using Cons.IH [OF m2] True at used upt up(3) rep hist
      by (simp add: Let_def keep_last_snoc)
  next
    case False
    show ?thesis
    proof (cases "is_current now r")
      case True
      then show ?thesis
        using False at used upt Cons.prems update_reserve_plan [OF Cons.prems(1) i, of "mark_current now"]
        by simp
    next
      case cur: False
      then show ?thesis
        using Cons.IH [of m "pre @ [r]"] False at used upt Cons.prems by simp
    qed
  qed
qed

text \<open>The plan after the check: passed reservations in front of the first current one are gone,
  the current one asks to be recorded, everything behind it is as it was.\<close>

fun due_plan :: "timespec \<Rightarrow> reserve list \<Rightarrow> reserve list" where
  "due_plan now [] = []"
| "due_plan now (r # rs) =
    (if has_passed now r then due_plan now rs
     else if is_current now r then mark_current now r # rs
     else r # due_plan now rs)"

definition none_passed :: "rec_manager \<Rightarrow> bool" where
  "none_passed m = list_all (\<lambda>r. \<not> has_state STATE_ALREADY_PASSED r) (plan m)"

lemma mark_current_passed [simp]:
  "has_state STATE_ALREADY_PASSED (mark_current now r) = has_state STATE_ALREADY_PASSED r"
  by (simp add: mark_current_def Let_def)

lemma filter_mark_plan:
  "list_all (\<lambda>r. \<not> has_state STATE_ALREADY_PASSED r) us \<Longrightarrow>
   filter (\<lambda>r. \<not> has_state STATE_ALREADY_PASSED r) (mark_plan now us) = due_plan now us"
  by (induction now us rule: mark_plan.induct) (auto simp: filter_id_conv list_all_iff)

lemma due_plan_passed:
  "list_all (\<lambda>r. \<not> has_state STATE_ALREADY_PASSED r) us \<Longrightarrow>
   list_all (\<lambda>r. \<not> has_state STATE_ALREADY_PASSED r) (due_plan now us)"
  by (induction now us rule: due_plan.induct) auto

lemma due_plan_starts: "set (map start_time (due_plan now us)) \<subseteq> set (map start_time us)"
  by (induction now us rule: due_plan.induct) auto

lemma due_plan_sorted:
  "sorted (map start_time us) \<Longrightarrow> sorted (map start_time (due_plan now us))"
proof (induction now us rule: due_plan.induct)
  case (2 now r rs)
  then show ?case using due_plan_starts [of now rs] by auto
qed simp

lemma history_length: "slots_ok m \<Longrightarrow> length (history m) \<le> RESULT_NUM_MAX"
  using length_filter_le [of is_used "results m"] by (simp add: slots_ok_def history_def)

lemma keep_last_id: "length xs \<le> n \<Longrightarrow> keep_last n xs = xs"
  by (simp add: keep_last_def)

lemma check_reserves_plan:
  assumes "slots_ok m" "none_passed m"
  shows "slots_ok (check_reserves now m)" "none_passed (check_reserves now m)"
    "plan (check_reserves now m) = due_plan now (plan m)"
    "history (check_reserves now m) =
       keep_last RESULT_NUM_MAX (history m @ passed_ones now (plan m))"
    "recordings (check_reserves now m) = recordings m"
    "rec_instances (check_reserves now m) = rec_instances m"
    "sent (check_reserves now m) = sent m"
    "tuner_resource_max (check_reserves now m) = tuner_resource_max m"
proof -
  let ?m1 = "check_reserves_loop now [0..<RESERVE_NUM_MAX] m"
  have loop: "slots_ok ?m1" "plan ?m1 = mark_plan now (plan m)"
    "keep_last RESULT_NUM_MAX (history ?m1) =
       keep_last RESULT_NUM_MAX (history m @ passed_ones now (plan m))"
    "recordings ?m1 = recordings m" "rec_instances ?m1 = rec_instances m" "sent ?m1 = sent m"
    "tuner_resource_max ?m1 = tuner_resource_max m"
    using check_loop_plan [OF assms(1), of "[]" "plan m" now] by (simp_all add: Let_def)
  note ref = refresh_reserves_plan [OF loop(1), of STATE_ALREADY_PASSED, folded check_reserves_def]
  show "slots_ok (check_reserves now m)" by (rule ref(1))
  show plan: "plan (check_reserves now m) = due_plan now (plan m)"
    using ref(2) loop(2) filter_mark_plan assms(2) by (simp add: none_passed_def)
  then show "none_passed (check_reserves now m)"
    using assms(2) by (simp add: none_passed_def due_plan_passed)
  have "history (check_reserves now m) = history ?m1"
    by (simp add: check_reserves_def history_def)
  then show "history (check_reserves now m) =
      keep_last RESULT_NUM_MAX (history m @ passed_ones now (plan m))"
    using loop(3) keep_last_id [OF history_length [OF loop(1)]] by simp
qed (use check_loop_plan [OF assms(1), of "[]" "plan m" now] in
    \<open>simp_all add: check_reserves_def Let_def\<close>)

section \<open>pick_req_start_recording_reserve\<close>

abbreviation requested :: "reserve \<Rightarrow> bool" where
  "requested \<equiv> has_state STATE_REQ_START_RECORDING"

lemma exist_requested:
  "is_exist_req_start_recording_reserve m \<longleftrightarrow> (\<exists>r\<in>set (plan m). requested r)"
  by (auto simp: is_exist_req_start_recording_reserve_def list_ex_iff plan_def)

text \<open>The reservation as it becomes the recording of its group.\<close>

definition picked :: "u8 \<Rightarrow> reserve \<Rightarrow> reserve" where
  "picked gr r = (drop_state STATE_REQ_START_RECORDING r)\<lparr>rsv_group := gr\<rparr>"

lemma picked_sel [simp]:
  "is_used (picked gr r) = is_used r" "key_of (picked gr r) = key_of r"
  "rsv_group (picked gr r) = gr" "end_time (picked gr r) = end_time r"
  "start_time (picked gr r) = start_time r" "\<not> requested (picked gr r)"
  by (simp_all add: picked_def key_of_def drop_state_def has_state_def bit_eq_iff bit_simps)

lemma pick_none:
  assumes "slots_ok m" "\<not> (\<exists>r\<in>set (plan m). requested r)"
  shows "pick_req_start_recording_reserve gr m = (False, m)"
proof -
  have "\<not> (\<exists>r\<in>set (reserves m). is_used r \<and> requested r)" using assms(2) by (auto simp: plan_def)
  then show ?thesis
    using first_index_none [of "reserves m" "\<lambda>r. is_used r \<and> requested r"] length_reserves [OF assms(1)]
    by (simp add: pick_req_start_recording_reserve_def Let_def)
qed

lemma pick_some:
  assumes ok: "slots_ok m" and ex: "\<exists>r\<in>set (plan m). requested r" and gr: "unat gr < GROUP_MAX"
  defines "i \<equiv> first_index requested (plan m)"
  shows "i < length (plan m)" "requested (plan m ! i)"
    "fst (pick_req_start_recording_reserve gr m)"
    "slots_ok (snd (pick_req_start_recording_reserve gr m))"
    "plan (snd (pick_req_start_recording_reserve gr m)) = take i (plan m) @ drop (Suc i) (plan m)"
    "recordings (snd (pick_req_start_recording_reserve gr m)) =
       (recordings m)[unat gr := picked gr (plan m ! i)]"
    "rec_instances (snd (pick_req_start_recording_reserve gr m)) = rec_instances m"
    "history (snd (pick_req_start_recording_reserve gr m)) = history m"
    "results (snd (pick_req_start_recording_reserve gr m)) = results m"
    "tuner_resource_max (snd (pick_req_start_recording_reserve gr m)) = tuner_resource_max m"
proof -
  let ?P = "\<lambda>r. is_used r \<and> requested r"
  show i: "i < length (plan m)" and req: "requested (plan m ! i)"
    using ex first_index_less_iff [of requested "plan m"] first_index_nth [of "plan m" requested]
    by (auto simp: i_def)
  have same: "first_index ?P us = first_index requested us" if "list_all is_used us" for us
    using that by (induction us) auto
  have "\<exists>r\<in>set (plan m). ?P r" using ex plan_used [of m] by (auto simp: list_all_iff)
  then have first: "first_index ?P (reserves m) = i"
    using rs.first_index_cells [OF _ plan_length [OF ok], of ?P] slots_reserves [OF ok]
      same [OF plan_used] by (simp add: i_def)
  have ne: "i \<noteq> RESERVE_NUM_MAX" using i plan_length [OF ok] by simp
  have at: "reserves m ! i = plan m ! i" using slots_reserves [OF ok] i by (simp add: rs.nth_cells)
  have used: "is_used (plan m ! i)" using plan_used [of m] i by (simp add: list_all_length)
  let ?m1 = "m\<lparr>recordings := (recordings m)[unat gr := picked gr (plan m ! i)]\<rparr>"
  let ?m2 = "?m1\<lparr>reserves := close_slot i (reserves ?m1)\<rparr>"
  have m1: "slots_ok ?m1" "plan ?m1 = plan m" using ok by (simp_all add: slots_ok_def plan_def)
  have m2: "slots_ok ?m2" "plan ?m2 = take i (plan m) @ drop (Suc i) (plan m)"
    using close_slot_plan [OF m1(1)] m1(2) i by simp_all
  have len: "length (recordings m) = GROUP_MAX" using ok by (simp add: slots_ok_def)
  have rec: "recordings ?m2 ! unat gr = picked gr (plan m ! i)" using gr len by simp
  have "picked gr (plan m ! i) \<in> set (recordings ?m2)" using gr len by (simp add: set_update_memI)
  then have "check_repeatability (picked gr (plan m ! i)) ?m2 = ?m2"
    using repeat_refused [OF m2(1)] used by (metis picked_sel(1))
  then have eq: "pick_req_start_recording_reserve gr m = (True, save_reserves ?m2)"
    using first ne at rec
    by (simp add: pick_req_start_recording_reserve_def Let_def picked_def)
  show "fst (pick_req_start_recording_reserve gr m)" unfolding eq by simp
  show "slots_ok (snd (pick_req_start_recording_reserve gr m))"
    "plan (snd (pick_req_start_recording_reserve gr m)) = take i (plan m) @ drop (Suc i) (plan m)"
    unfolding eq using m2 by simp_all
  show "recordings (snd (pick_req_start_recording_reserve gr m)) =
       (recordings m)[unat gr := picked gr (plan m ! i)]"
    "rec_instances (snd (pick_req_start_recording_reserve gr m)) = rec_instances m"
    "history (snd (pick_req_start_recording_reserve gr m)) = history m"
    "results (snd (pick_req_start_recording_reserve gr m)) = results m"
    "tuner_resource_max (snd (pick_req_start_recording_reserve gr m)) = tuner_resource_max m"
    unfolding eq by (simp_all add: history_def)
qed

lemma pick_keeps [keeps]:
  assumes "slots_ok m" "unat gr < GROUP_MAX"
  shows "slots_ok (snd (pick_req_start_recording_reserve gr m))"
  using assms pick_none pick_some(4)
  by (cases "\<exists>r\<in>set (plan m). requested r") auto

end
