(* ===== verification/Rec_Handlers.thy ===== *)
theory Rec_Handlers
  imports Rec_Checks
begin

text \<open>
  The sequences of \<open>rec_manager\<close>: one function per handler and per turn of the monitoring loops.
  The answers of the other modules (tuner service, channel manager, schedule, PSI/SI) and the
  clock are arguments. \<open>rec_event\<close> lists what can happen to the module, \<open>rec_step\<close> runs one event,
  \<open>None\<close> where the code has undefined behaviour. A handler runs to its end before the next one
  starts; the requests that \<open>start_recording\<close> makes to its own module are calls.
\<close>

section \<open>Answers of the other modules\<close>

text \<open>An event of the schedule, or the present event of a service.\<close>

record event_answer =
  ev_key :: event_key
  ev_start :: timespec
  ev_end :: timespec
  ev_name :: string

definition ev_id :: "event_answer \<Rightarrow> u16" where
  "ev_id e = (case ev_key e of (ts, nw, sv, ev) \<Rightarrow> ev)"

text \<open>What a start of a recording depends on: the replies to its requests in the order they are
  made, \<open>None\<close> or \<open>False\<close> an error reply.\<close>

record start_answers =
  sa_disk_free :: int
  sa_disk_limit :: int
  sa_channel :: "u16 option"
  sa_tune :: bool
  sa_present :: "nat \<Rightarrow> event_answer option"
  sa_cache :: bool
  sa_event :: "event_answer option"
  sa_service_name :: "string option"
  sa_now :: timespec

section \<open>Adding and removing\<close>

definition on_add_reserve_event ::
  "repeatability \<Rightarrow> bool \<Rightarrow> event_answer option \<Rightarrow> string option \<Rightarrow> rec_manager \<Rightarrow> bool \<times> rec_manager"
  where
  "on_add_reserve_event rpt from_start event svc m =
    (if \<not> (rpt = Rep_none \<or> rpt = Rep_auto) then (False, m)
     else case event of None \<Rightarrow> (False, m)
     | Some e \<Rightarrow>
       add_reserve (ev_key e) (Some (ev_start e)) (Some (ev_end e)) (Some (ev_name e)) svc True rpt
         from_start m)"

text \<open>\<open>on_add_reserve_event_helper\<close> takes the event by its index in the schedule last dumped.\<close>

definition on_add_reserve_event_helper ::
  "repeatability \<Rightarrow> event_answer option \<Rightarrow> string option \<Rightarrow> rec_manager \<Rightarrow> bool \<times> rec_manager" where
  "on_add_reserve_event_helper rpt event svc m =
    (if \<not> (rpt = Rep_none \<or> rpt = Rep_auto) then (False, m)
     else case event of None \<Rightarrow> (False, m)
     | Some e \<Rightarrow>
       add_reserve (ev_key e) (Some (ev_start e)) (Some (ev_end e)) (Some (ev_name e)) svc True rpt
         False m)"

definition on_add_reserve_manual ::
  "u16 \<Rightarrow> u16 \<Rightarrow> u16 \<Rightarrow> timespec \<Rightarrow> timespec \<Rightarrow> repeatability \<Rightarrow> u16 option \<Rightarrow> string option \<Rightarrow>
   rec_manager \<Rightarrow> bool \<times> rec_manager" where
  "on_add_reserve_manual ts nw sv s e rpt channel svc m =
    (if \<not> (rpt = Rep_none \<or> rpt = Rep_daily \<or> rpt = Rep_weekly) then (False, m)
     else if channel = None then (False, m)
     else add_reserve (ts, nw, sv, 0) (Some s) (Some e) None svc False rpt False m)"

text \<open>The state of the tuner and of the PAT are only looked at when the request succeeds; the
  services are asked for in a table of ten.\<close>

definition on_add_reserve_current_event ::
  "u8 \<Rightarrow> bool option \<Rightarrow> bool option \<Rightarrow> int option \<Rightarrow> event_answer option \<Rightarrow> string option \<Rightarrow>
   rec_manager \<Rightarrow> bool \<times> rec_manager" where
  "on_add_reserve_current_event gr tuned pat services present svc m =
    (if unat gr \<ge> tuner_resource_max m then (False, m)
     else if tuned = Some False then (False, m)
     else if pat = Some False then (False, m)
     else case services of None \<Rightarrow> (False, m)
     | Some n \<Rightarrow>
       if n \<le> 0 then (False, m)
       else case present of None \<Rightarrow> (False, m)
       | Some e \<Rightarrow>
         add_reserve (ev_key e) (Some (ev_start e)) (Some (ev_end e)) (Some (ev_name e)) svc True
           Rep_none False m)"

definition on_remove_reserve ::
  "event_key \<Rightarrow> bool \<Rightarrow> bool \<Rightarrow> rec_manager \<Rightarrow> (bool \<times> rec_manager) option" where
  "on_remove_reserve key cons_rep apply_result m =
    (let idx = get_reserve_index key m
     in if idx < 0 then Some (False, m) else remove_reserve idx cons_rep apply_result m)"

definition on_remove_reserve_by_index ::
  "int \<Rightarrow> bool \<Rightarrow> bool \<Rightarrow> rec_manager \<Rightarrow> (bool \<times> rec_manager) option" where
  "on_remove_reserve_by_index idx cons_rep apply_result m = remove_reserve idx cons_rep apply_result m"

definition on_get_reserves :: "bool \<Rightarrow> int \<Rightarrow> rec_manager \<Rightarrow> (bool \<times> int \<times> reserve list)" where
  "on_get_reserves has_buffer n m =
    (if \<not> has_buffer then (False, 0, []) else if n \<le> 0 then (False, 0, [])
     else (True, get_reserves has_buffer n m))"

section \<open>Recording\<close>

definition tuner_stop_close :: "u8 \<Rightarrow> rec_manager \<Rightarrow> rec_manager" where
  "tuner_stop_close gr m = m\<lparr>sent := sent m @ [Tune_stop gr, Tuner_close gr]\<rparr>"

definition clear_recording :: "nat \<Rightarrow> rec_manager \<Rightarrow> rec_manager" where
  "clear_recording g m = m\<lparr>recordings := (recordings m)[g := cleared_reserve]\<rparr>"

text \<open>The error ends of \<open>on_start_recording\<close>: the state flag, the result, the recording cleared.\<close>

definition give_up :: "u32 \<Rightarrow> u8 \<Rightarrow> rec_manager \<Rightarrow> rec_manager" where
  "give_up st gr m =
    (let g = unat gr;
         m = update_recording g (raise_state st) m;
         m = set_result (recordings m ! g) m
     in clear_recording g m)"

fun ask_present :: "(nat \<Rightarrow> event_answer option) \<Rightarrow> nat list \<Rightarrow> event_answer option" where
  "ask_present answer [] = None"
| "ask_present answer (retry # rest) =
    (case answer retry of Some e \<Rightarrow> Some e | None \<Rightarrow> ask_present answer rest)"

definition go_start :: "timespec \<Rightarrow> u8 \<Rightarrow> rec_manager \<Rightarrow> bool \<times> rec_manager" where
  "go_start now gr m =
    (let g = unat gr in
     if rec_progress (rec_instances m ! g) \<noteq> P_INIT
     then (False, tuner_stop_close gr (give_up STATE_INTERNAL_ERR gr m))
     else
       let m = set_instance_progress g P_PRE_PROCESS m;
           m = update_recording g
             (\<lambda>r. (raise_state STATE_NOW_RECORDING r)\<lparr>recording_start_time := now\<rparr>) m
       in (True, m))"

definition reschedule :: "start_answers \<Rightarrow> u8 \<Rightarrow> rec_manager \<Rightarrow> bool \<times> rec_manager" where
  "reschedule a gr m =
    (if \<not> sa_cache a then (False, tuner_stop_close gr (give_up STATE_INTERNAL_ERR gr m))
     else
       let r = on_add_reserve_event (rsv_repeat (recordings m ! unat gr)) True (sa_event a)
                 (sa_service_name a) m
       in (False, tuner_stop_close gr
             (if fst r then clear_recording (unat gr) (snd r)
              else give_up STATE_EVENT_NOT_FOUND gr (snd r))))"

definition on_start_recording :: "start_answers \<Rightarrow> u8 \<Rightarrow> rec_manager \<Rightarrow> bool \<times> rec_manager" where
  "on_start_recording a gr m =
    (let g = unat gr in
     if g \<ge> tuner_resource_max m then (False, m)
     else if sa_disk_free a < sa_disk_limit a
     then (False, tuner_stop_close gr (give_up STATE_HDD_FREE_SPACE_LOW gr m))
     else if sa_channel a = None then (False, tuner_stop_close gr m)
     else if \<not> sa_tune a then (False, tuner_stop_close gr (give_up STATE_TUNE_ERR gr m))
     else if \<not> is_event_type (recordings m ! g) then go_start (sa_now a) gr m
     else case ask_present (sa_present a) [0..<11] of
         None \<Rightarrow> (False, tuner_stop_close gr (give_up STATE_INTERNAL_ERR gr m))
       | Some e \<Rightarrow>
           if ev_id e = rsv_evtid (recordings m ! g) then go_start (sa_now a) gr m
           else reschedule a gr m)"

definition on_recording_notice :: "progress \<Rightarrow> u8 \<Rightarrow> timespec \<Rightarrow> rec_manager \<Rightarrow> rec_manager" where
  "on_recording_notice p gr now m =
    (let g = unat gr in
     case p of
       P_END_SUCCESS \<Rightarrow> update_recording g (raise_state STATE_END_SUCCESS) m
     | P_POST_PROCESS \<Rightarrow>
         let m = update_recording g
               (\<lambda>r. (drop_state STATE_NOW_RECORDING r)\<lparr>recording_end_time := now\<rparr>) m;
             m = set_result (recordings m ! g) m
         in tuner_stop_close gr (clear_recording g m)
     | _ \<Rightarrow> m)"

definition on_stop_recording :: "u8 \<Rightarrow> rec_manager \<Rightarrow> bool \<times> rec_manager" where
  "on_stop_recording gr m =
    (let g = unat gr in
     if g \<ge> tuner_resource_max m then (False, m)
     else if has_state STATE_NOW_RECORDING (recordings m ! g) then
       let m = set_instance_progress g P_END_ERROR m
       in (True, update_recording g (raise_state STATE_FORCE_STOPPED) m)
     else (False, m))"

text \<open>The tuner hands a packet to the recorder of its group; a notice goes to the module's queue.\<close>

definition ts_packet :: "u8 \<Rightarrow> u8 list \<Rightarrow> rec_manager \<Rightarrow> rec_manager option" where
  "ts_packet gr buf m =
    map_option (\<lambda>(ns, r). m\<lparr>rec_instances := (rec_instances m)[unat gr := r],
        sent := sent m @ map (\<lambda>p. Recording_notice p gr) ns\<rparr>)
      (on_ts_received buf (rec_instances m ! unat gr))"

text \<open>\<open>on_receive_notify\<close> for a PAT that is no longer received.\<close>

definition on_pat_lost :: "u8 \<Rightarrow> rec_manager \<Rightarrow> rec_manager option" where
  "on_pat_lost gr m =
    (let g = unat gr in
     if has_state STATE_NOW_RECORDING (recordings m ! g) then
       let m = set_instance_progress g P_POST_PROCESS m;
           m = update_recording g (raise_state STATE_INTERNAL_ERR) m
       in ts_packet gr [] m
     else Some m)"

section \<open>The monitoring loops\<close>

text \<open>One second of \<open>on_check_loop\<close>: \<open>df\<close> and \<open>limit\<close> the disk space, \<open>opened\<close> the group the tuner
  service opened.\<close>

definition check_loop_turn ::
  "timespec \<Rightarrow> int \<Rightarrow> int \<Rightarrow> u8 option \<Rightarrow> start_answers \<Rightarrow> rec_manager \<Rightarrow> rec_manager" where
  "check_loop_turn now df limit opened a m =
    (let m = check_disk_free df limit (check_recording_end now (check_reserves now m));
         pick = (\<lambda>gr. let r = pick_req_start_recording_reserve gr m
                       in if fst r then snd (on_start_recording a gr (snd r)) else snd r)
     in if is_exist_req_start_recording_reserve m
        then (case opened of None \<Rightarrow> m
              | Some gr \<Rightarrow> if is_used (recordings m ! unat gr) then m else pick gr)
        else pick 0)"

text \<open>Ten minutes of \<open>on_check_reserves_event_loop\<close>.\<close>

definition follow_event :: "event_answer \<Rightarrow> reserve \<Rightarrow> reserve" where
  "follow_event e r =
    (let r = (if etime_ne (start_time r) (ev_start e) then r\<lparr>start_time := ev_start e\<rparr> else r);
         r = (if etime_ne (end_time r) (ev_end e) then r\<lparr>end_time := ev_end e\<rparr> else r)
     in if title_name r \<noteq> ev_name e then r\<lparr>title_name := ev_name e\<rparr> else r)"

definition check_reserves_event_turn ::
  "bool \<Rightarrow> (event_key \<Rightarrow> event_answer option) \<Rightarrow> rec_manager \<Rightarrow> rec_manager" where
  "check_reserves_event_turn ready get_event m =
    (if \<not> ready then m
     else fold (\<lambda>i m.
         if \<not> is_used (reserves m ! i) then m
         else if rsv_state (reserves m ! i) = STATE_INIT then m
         else if \<not> is_event_type (reserves m ! i) then m
         else (case get_event (key_of (reserves m ! i)) of
             None \<Rightarrow> m
           | Some e \<Rightarrow> update_reserve i (follow_event e) m))
       [0..<RESERVE_NUM_MAX] m)"

text \<open>One second of \<open>on_check_recordings_event_loop\<close>; the first component is \<open>group_id\<close>.\<close>

definition check_recordings_event_turn ::
  "nat \<Rightarrow> event_answer option \<Rightarrow> rec_manager \<Rightarrow> nat \<times> rec_manager" where
  "check_recordings_event_turn g0 present m =
    (let g = (if g0 \<ge> GROUP_MAX then 0 else g0) in
     (Suc g,
      if \<not> has_state STATE_NOW_RECORDING (recordings m ! g) then m
      else case present of None \<Rightarrow> m
      | Some e \<Rightarrow>
        if is_event_type (recordings m ! g) then
          if rsv_evtid (recordings m ! g) = ev_id e
          then (if etime_ne (end_time (recordings m ! g)) (ev_end e)
                then update_recording g (\<lambda>r. r\<lparr>end_time := ev_end e\<rparr>) m else m)
          else m
        else update_recording g
          (\<lambda>r. r\<lparr>rsv_evtid := ev_id e, title_name := ev_name e\<rparr>) m))"

section \<open>Events\<close>

datatype rec_event =
    Check_turn timespec int int "u8 option" start_answers
  | Reserves_event_turn bool "event_key \<Rightarrow> event_answer option"
  | Recordings_event_turn nat "event_answer option"
  | Notice progress u8 timespec
  | Start start_answers u8
  | Add_current u8 "bool option" "bool option" "int option" "event_answer option" "string option"
  | Add_event repeatability "event_answer option" "string option"
  | Add_helper repeatability "event_answer option" "string option"
  | Add_manual u16 u16 u16 timespec timespec repeatability "u16 option" "string option"
  | Remove event_key bool bool
  | Remove_index int bool bool
  | Stop u8
  | Packet u8 "u8 list"
  | Pat_lost u8

fun rec_step :: "rec_event \<Rightarrow> rec_manager \<Rightarrow> rec_manager option" where
  "rec_step (Check_turn now df limit opened a) m = Some (check_loop_turn now df limit opened a m)"
| "rec_step (Reserves_event_turn ready f) m = Some (check_reserves_event_turn ready f m)"
| "rec_step (Recordings_event_turn g e) m = Some (snd (check_recordings_event_turn g e m))"
| "rec_step (Notice p gr now) m = Some (on_recording_notice p gr now m)"
| "rec_step (Start a gr) m = Some (snd (on_start_recording a gr m))"
| "rec_step (Add_current gr t p n e svc) m = Some (snd (on_add_reserve_current_event gr t p n e svc m))"
| "rec_step (Add_event rpt e svc) m = Some (snd (on_add_reserve_event rpt False e svc m))"
| "rec_step (Add_helper rpt e svc) m = Some (snd (on_add_reserve_event_helper rpt e svc m))"
| "rec_step (Add_manual ts nw sv s e rpt ch svc) m =
    Some (snd (on_add_reserve_manual ts nw sv s e rpt ch svc m))"
| "rec_step (Remove key c a) m = map_option snd (on_remove_reserve key c a m)"
| "rec_step (Remove_index i c a) m = map_option snd (on_remove_reserve_by_index i c a m)"
| "rec_step (Stop gr) m = Some (snd (on_stop_recording gr m))"
| "rec_step (Packet gr buf) m = ts_packet gr buf m"
| "rec_step (Pat_lost gr) m = on_pat_lost gr m"

fun rec_run :: "rec_event list \<Rightarrow> rec_manager \<Rightarrow> rec_manager option" where
  "rec_run [] m = Some m"
| "rec_run (e # es) m = (case rec_step e m of None \<Rightarrow> None | Some m' \<Rightarrow> rec_run es m')"

end
