(* ===== verification/Rec_Invariant.thy ===== *)
theory Rec_Invariant
  imports Rec_Handlers
begin

text \<open>
  The invariant of \<open>rec_manager\<close> over all sequences of events: the arrays keep their form, no
  reservation is planned twice, none that was reported as passed stays planned, the recorders
  and recordings keep their number. The order of the start times is kept by everything except
  the turn that follows moved events.
\<close>

section \<open>Recordings and recorders\<close>

lemma update_recording_frames [frames, simp]:
  "reserves (update_recording g f m) = reserves m" "results (update_recording g f m) = results m"
  "rec_instances (update_recording g f m) = rec_instances m"
  "plan (update_recording g f m) = plan m" "history (update_recording g f m) = history m"
  "tuner_resource_max (update_recording g f m) = tuner_resource_max m"
  "length (recordings (update_recording g f m)) = length (recordings m)"
  "sent (update_recording g f m) = sent m"
  by (simp_all add: update_recording_def plan_def history_def)

lemma nth_update_recording [simp]:
  "g < length (recordings m) \<Longrightarrow> recordings (update_recording g f m) ! g = f (recordings m ! g)"
  by (simp add: update_recording_def)

lemma set_progress_frames [frames, simp]:
  "reserves (set_instance_progress g p m) = reserves m"
  "results (set_instance_progress g p m) = results m"
  "recordings (set_instance_progress g p m) = recordings m"
  "plan (set_instance_progress g p m) = plan m" "history (set_instance_progress g p m) = history m"
  "tuner_resource_max (set_instance_progress g p m) = tuner_resource_max m"
  "length (rec_instances (set_instance_progress g p m)) = length (rec_instances m)"
  "sent (set_instance_progress g p m) = sent m"
  by (simp_all add: set_instance_progress_def plan_def history_def)

lemma clear_recording_frames [frames, simp]:
  "reserves (clear_recording g m) = reserves m" "results (clear_recording g m) = results m"
  "rec_instances (clear_recording g m) = rec_instances m"
  "plan (clear_recording g m) = plan m" "history (clear_recording g m) = history m"
  "tuner_resource_max (clear_recording g m) = tuner_resource_max m"
  "length (recordings (clear_recording g m)) = length (recordings m)"
  "sent (clear_recording g m) = sent m"
  by (simp_all add: clear_recording_def plan_def history_def)

lemma stop_close_frames [frames, simp]:
  "reserves (tuner_stop_close gr m) = reserves m" "results (tuner_stop_close gr m) = results m"
  "recordings (tuner_stop_close gr m) = recordings m"
  "rec_instances (tuner_stop_close gr m) = rec_instances m"
  "plan (tuner_stop_close gr m) = plan m" "history (tuner_stop_close gr m) = history m"
  "tuner_resource_max (tuner_stop_close gr m) = tuner_resource_max m"
  by (simp_all add: tuner_stop_close_def plan_def history_def)

lemma slots_frames:
  assumes "slots_ok m" "reserves m' = reserves m" "results m' = results m"
    "length (recordings m') = length (recordings m)"
    "length (rec_instances m') = length (rec_instances m)"
  shows "slots_ok m'"
  using assms by (simp add: slots_ok_def plan_def)

lemma recording_keeps [keeps, simp]:
  "slots_ok (update_recording g f m) = slots_ok m"
  "slots_ok (set_instance_progress g p m) = slots_ok m"
  "slots_ok (clear_recording g m) = slots_ok m"
  "slots_ok (tuner_stop_close gr m) = slots_ok m"
  by (simp_all add: slots_ok_def plan_def update_recording_def set_instance_progress_def
      clear_recording_def tuner_stop_close_def)

lemma give_up_frames [frames, simp]:
  "reserves (give_up st gr m) = reserves m" "plan (give_up st gr m) = plan m"
  "rec_instances (give_up st gr m) = rec_instances m"
  "tuner_resource_max (give_up st gr m) = tuner_resource_max m"
  by (simp_all add: give_up_def Let_def)

lemma give_up_keeps [keeps, simp]: "slots_ok m \<Longrightarrow> slots_ok (give_up st gr m)"
  by (simp add: give_up_def Let_def)

lemma fold_invariant: "\<lbrakk>\<And>i x. P x \<Longrightarrow> P (f i x); P x\<rbrakk> \<Longrightarrow> P (fold f is x)"
  by (induction "is" arbitrary: x) simp_all

lemma recording_end_frames [frames, simp]:
  "reserves (check_recording_end now m) = reserves m" "plan (check_recording_end now m) = plan m"
  "results (check_recording_end now m) = results m" "history (check_recording_end now m) = history m"
  "recordings (check_recording_end now m) = recordings m"
  "tuner_resource_max (check_recording_end now m) = tuner_resource_max m"
  "slots_ok (check_recording_end now m) = slots_ok m"
  unfolding check_recording_end_def
  by (rule fold_invariant; simp)+

lemma disk_free_frames [frames, simp]:
  "reserves (check_disk_free df limit m) = reserves m" "plan (check_disk_free df limit m) = plan m"
  "results (check_disk_free df limit m) = results m" "history (check_disk_free df limit m) = history m"
  "rec_instances (check_disk_free df limit m) = rec_instances m"
  "tuner_resource_max (check_disk_free df limit m) = tuner_resource_max m"
  "slots_ok (check_disk_free df limit m) = slots_ok m"
  unfolding check_disk_free_def
  by (rule fold_invariant; simp add: Let_def plan_def history_def slots_ok_def update_recording_def)+

section \<open>What changes the plan\<close>

definition module_ok :: "rec_manager \<Rightarrow> bool" where
  "module_ok m = (slots_ok m \<and> none_passed m \<and> tuner_resource_max m \<le> GROUP_MAX)"

lemma module_frames:
  assumes "module_ok m" "slots_ok m'" "plan m' = plan m"
    "tuner_resource_max m' = tuner_resource_max m"
  shows "module_ok m'"
  using assms by (simp add: module_ok_def none_passed_def)

lemma module_subset:
  assumes "module_ok m" "slots_ok m'" "set (plan m') \<subseteq> set (plan m)"
    "tuner_resource_max m' = tuner_resource_max m"
  shows "module_ok m'"
  using assms by (auto simp: module_ok_def none_passed_def list_all_iff)

lemma add_reserve_frames [frames, simp]:
  "recordings (snd (add_reserve key s e t v b p r m)) = recordings m"
  "results (snd (add_reserve key s e t v b p r m)) = results m"
  "history (snd (add_reserve key s e t v b p r m)) = history m"
  "rec_instances (snd (add_reserve key s e t v b p r m)) = rec_instances m"
  "sent (snd (add_reserve key s e t v b p r m)) = sent m"
  "tuner_resource_max (snd (add_reserve key s e t v b p r m)) = tuner_resource_max m"
  by (simp_all add: add_reserve_def Let_def history_def split: option.split prod.split)

lemma repeat_frames [frames, simp]:
  "tuner_resource_max (check_repeatability p m) = tuner_resource_max m"
  "recordings (check_repeatability p m) = recordings m"
  "rec_instances (check_repeatability p m) = rec_instances m"
  by (simp_all add: check_repeatability_def repeat_reserve_def split: repeatability.split)

lemma remove_resources:
  "remove_reserve idx c a m = Some (b, m') \<Longrightarrow>
   tuner_resource_max m' = tuner_resource_max m \<and> rec_instances m' = rec_instances m"
  by (auto simp: remove_reserve_def Let_def split: if_splits)

lemma add_module [keeps]:
  assumes "module_ok m"
  shows "module_ok (snd (add_reserve key s e t v b p r m))"
proof (cases "s = None \<or> e = None")
  case True
  with assms show ?thesis by auto
next
  case False
  then obtain s' e' where se: "s = Some s'" "e = Some e'" by auto
  have ok: "slots_ok m" using assms by (simp add: module_ok_def)
  show ?thesis
  proof (cases "acceptable key s' e' r m")
    case True
    then show ?thesis
      using assms se add_reserve_plan [OF ok True refl]
      by (auto simp: module_ok_def none_passed_def list_all_iff new_reserve_no_state)
  next
    case False
    then show ?thesis using assms se add_reserve_refuses [OF ok] by simp
  qed
qed

lemma remove_module [keeps]:
  assumes "module_ok m" "remove_reserve idx c a m = Some (b, m')"
  shows "module_ok m' \<and> set (plan m') \<subseteq> set (plan m) \<and> recordings m' = recordings m"
proof -
  have ok: "slots_ok m" using assms(1) by (simp add: module_ok_def)
  have res: "tuner_resource_max m' = tuner_resource_max m"
    using remove_resources [OF assms(2)] by blast
  have "slots_ok m'" using remove_reserve_keeps [OF ok assms(2)] .
  moreover have "set (plan m') \<subseteq> set (plan m) \<and> recordings m' = recordings m"
  proof (cases "idx \<ge> int RESERVE_NUM_MAX")
    case True
    with assms show ?thesis by (simp add: remove_reserve_def)
  next
    case False
    then have "0 \<le> idx" using assms(2) by (auto simp: remove_reserve_def split: if_splits)
    then obtain i where i: "idx = int i" by (metis nonneg_int_cases)
    with False have lt: "i < RESERVE_NUM_MAX" by simp
    have rm: "remove_reserve (int i) c a m = Some (b, m')" using assms(2) i by simp
    show ?thesis
    proof (cases "i < length (plan m)")
      case True
      then show ?thesis
        using remove_reserve_plan(3,4) [OF ok True rm]
        by (auto dest: in_set_takeD in_set_dropD)
    next
      case False
      then show ?thesis
        using remove_reserve_unused(3,4) [OF ok _ lt rm] by (simp add: plan_def)
    qed
  qed
  ultimately show ?thesis using module_subset [OF assms(1)] res by blast
qed

lemma check_module [keeps]: "module_ok m \<Longrightarrow> module_ok (check_reserves now m)"
  using check_reserves_plan [of m now] by (simp add: module_ok_def)

lemma pick_module [keeps]:
  assumes "module_ok m" "unat gr < GROUP_MAX"
  shows "module_ok (snd (pick_req_start_recording_reserve gr m))"
proof (cases "\<exists>r\<in>set (plan m). requested r")
  case True
  have ok: "slots_ok m" using assms by (simp add: module_ok_def)
  show ?thesis
    using pick_some [OF ok True assms(2)]
    by (intro module_subset [OF assms(1)]) (auto dest: in_set_takeD in_set_dropD)
next
  case False
  then show ?thesis using assms pick_none by (simp add: module_ok_def)
qed

section \<open>Closing a slot keeps the order\<close>

definition ordered_ok :: "rec_manager \<Rightarrow> bool" where
  "ordered_ok m = (module_ok m \<and> in_order m)"

lemma remove_ordered [keeps]:
  assumes "ordered_ok m" "remove_reserve idx c a m = Some (b, m')"
  shows "ordered_ok m'"
proof -
  have m: "module_ok m" using assms(1) by (simp add: ordered_ok_def)
  then have ok: "slots_ok m" by (simp add: module_ok_def)
  have mod: "module_ok m'" using remove_module [OF m assms(2)] by blast
  have "in_order m'"
  proof (cases "idx \<ge> int RESERVE_NUM_MAX")
    case True
    with assms show ?thesis by (simp add: remove_reserve_def ordered_ok_def)
  next
    case False
    then have "0 \<le> idx" using assms(2) by (auto simp: remove_reserve_def split: if_splits)
    then obtain i where i: "idx = int i" by (metis nonneg_int_cases)
    with False have lt: "i < RESERVE_NUM_MAX" by simp
    have rm: "remove_reserve (int i) c a m = Some (b, m')" using assms(2) i by simp
    have sorted: "sorted (map start_time (plan m))"
      using assms(1) by (simp add: ordered_ok_def in_order_def)
    show ?thesis
    proof (cases "i < length (plan m)")
      case True
      show ?thesis
        unfolding in_order_def remove_reserve_plan(3) [OF ok True rm]
        using sorted True by (rule sorted_remove_nth)
    next
      case False
      then have "plan m' = plan m"
        using remove_reserve_unused(3) [OF ok _ lt rm] by (simp add: plan_def)
      then show ?thesis using sorted by (simp add: in_order_def)
    qed
  qed
  with mod show ?thesis by (simp add: ordered_ok_def)
qed

lemma pick_ordered [keeps]:
  assumes "ordered_ok m" "unat gr < GROUP_MAX"
  shows "ordered_ok (snd (pick_req_start_recording_reserve gr m))"
proof (cases "\<exists>r\<in>set (plan m). requested r")
  case True
  have ok: "slots_ok m" using assms by (simp add: ordered_ok_def module_ok_def)
  have "sorted (map start_time (plan m))" using assms(1) by (simp add: ordered_ok_def in_order_def)
  then have "in_order (snd (pick_req_start_recording_reserve gr m))"
    unfolding in_order_def pick_some(5) [OF ok True assms(2)]
    by (rule sorted_remove_nth) (rule pick_some(1) [OF ok True assms(2)])
  then show ?thesis using assms pick_module by (simp add: ordered_ok_def)
next
  case False
  then show ?thesis using assms pick_none by (simp add: ordered_ok_def module_ok_def)
qed

section \<open>Invariants of the private functions are invariants of the module\<close>

text \<open>The events without the turn that follows moved events, and with groups that exist: the tuner
  service opens groups it has only.\<close>

fun event_scope :: "rec_event \<Rightarrow> bool" where
  "event_scope (Check_turn now df limit (Some gr) a) = (unat gr < GROUP_MAX)"
| "event_scope _ = True"

fun moves_reserves :: "rec_event \<Rightarrow> bool" where
  "moves_reserves (Reserves_event_turn ready f) = True"
| "moves_reserves _ = False"

text \<open>The handlers rely on the private functions only through this interface: an invariant \<open>I\<close> of
  the plan that adding, removing, checking and picking keep.\<close>

locale plan_invariant =
  fixes I :: "rec_manager \<Rightarrow> bool"
  assumes I_slots: "I m \<Longrightarrow> slots_ok m"
    and I_frame: "\<lbrakk>I m; slots_ok m'; plan m' = plan m; tuner_resource_max m' = tuner_resource_max m\<rbrakk>
      \<Longrightarrow> I m'"
    and I_add: "I m \<Longrightarrow> I (snd (add_reserve key s e t v b p r m))"
    and I_remove: "\<lbrakk>I m; remove_reserve idx c a m = Some (ok, m')\<rbrakk> \<Longrightarrow> I m'"
    and I_check: "I m \<Longrightarrow> I (check_reserves now m)"
    and I_pick: "\<lbrakk>I m; unat gr < GROUP_MAX\<rbrakk> \<Longrightarrow> I (snd (pick_req_start_recording_reserve gr m))"
begin

lemma frame [simp]:
  assumes "I m"
  shows "I (update_recording g f m)" "I (set_instance_progress g p m)" "I (clear_recording g m)"
    "I (tuner_stop_close gr m)" "I (check_recording_end now m)" "I (check_disk_free df limit m)"
    "I (give_up st gr m)" "I (set_result r m)"
  using I_slots [OF assms] by (intro I_frame [OF assms]; simp)+

lemma add_event: "I m \<Longrightarrow> I (snd (on_add_reserve_event rpt fs e svc m))"
  by (simp add: on_add_reserve_event_def I_add split: option.split)

lemma add_helper: "I m \<Longrightarrow> I (snd (on_add_reserve_event_helper rpt e svc m))"
  by (simp add: on_add_reserve_event_helper_def I_add split: option.split)

lemma add_manual: "I m \<Longrightarrow> I (snd (on_add_reserve_manual ts nw sv s e rpt ch svc m))"
  by (simp add: on_add_reserve_manual_def I_add)

lemma add_current: "I m \<Longrightarrow> I (snd (on_add_reserve_current_event gr t p n e svc m))"
  by (simp add: on_add_reserve_current_event_def I_add split: option.split)

lemma go_start: "I m \<Longrightarrow> I (snd (go_start now gr m))"
  by (simp add: go_start_def Let_def)

lemma reschedule: "I m \<Longrightarrow> I (snd (reschedule a gr m))"
  by (simp add: reschedule_def Let_def add_event)

lemma start: "I m \<Longrightarrow> I (snd (on_start_recording a gr m))"
  by (simp add: on_start_recording_def Let_def go_start reschedule split: option.split)

lemma packet:
  assumes "I m" "ts_packet gr buf m = Some m'"
  shows "I m'"
  using assms(2) I_slots [OF assms(1)]
  by (intro I_frame [OF assms(1)]) (auto simp: ts_packet_def slots_ok_def plan_def)

lemma pat_lost: "\<lbrakk>I m; on_pat_lost gr m = Some m'\<rbrakk> \<Longrightarrow> I m'"
  by (auto simp: on_pat_lost_def Let_def intro: packet [rotated] split: if_splits)

lemma check_turn:
  assumes "I m" "event_scope (Check_turn now df limit opened a)"
  shows "I (check_loop_turn now df limit opened a m)"
proof -
  let ?m = "check_disk_free df limit (check_recording_end now (check_reserves now m))"
  have m: "I ?m" using assms(1) by (simp add: I_check)
  have "I (snd (pick_req_start_recording_reserve gr ?m))" if "unat gr < GROUP_MAX" for gr
    using I_pick [OF m that] .
  then show ?thesis
    using m assms(2) by (auto simp: check_loop_turn_def Let_def start split: option.split)
qed

lemma recordings_turn: "I m \<Longrightarrow> I (snd (check_recordings_event_turn g e m))"
  by (simp add: check_recordings_event_turn_def Let_def split: option.split)

lemma notice: "I m \<Longrightarrow> I (on_recording_notice p gr now m)"
  by (simp add: on_recording_notice_def Let_def split: progress.split)

lemma stop: "I m \<Longrightarrow> I (snd (on_stop_recording gr m))"
  by (simp add: on_stop_recording_def Let_def)

lemma remove: "\<lbrakk>I m; on_remove_reserve key c a m = Some (ok, m')\<rbrakk> \<Longrightarrow> I m'"
  by (auto simp: on_remove_reserve_def Let_def dest: I_remove split: if_splits)

lemma step:
  assumes "I m" "event_scope e" "\<not> moves_reserves e" "rec_step e m = Some m'"
  shows "I m'"
  using assms
  by (cases e) (auto simp: on_remove_reserve_by_index_def intro: check_turn recordings_turn notice
      start add_event add_helper add_manual add_current stop packet pat_lost remove I_remove)

lemma run:
  "\<lbrakk>I m; list_all event_scope es; \<not> list_ex moves_reserves es; rec_run es m = Some m'\<rbrakk> \<Longrightarrow> I m'"
proof (induction es arbitrary: m)
  case (Cons e es)
  from Cons.prems(4) obtain m1 where m1: "rec_step e m = Some m1" "rec_run es m1 = Some m'"
    by (auto split: option.splits)
  have "I m1" using step [OF Cons.prems(1) _ _ m1(1)] Cons.prems(2,3) by simp
  then show ?case using Cons.IH m1(2) Cons.prems(2,3) by simp
qed simp

end

text \<open>An invariant that also survives moved events holds after all events.\<close>

locale plan_invariant_all = plan_invariant +
  assumes I_turn: "I m \<Longrightarrow> I (check_reserves_event_turn ready f m)"
begin

lemma step_all:
  assumes "I m" "event_scope e" "rec_step e m = Some m'"
  shows "I m'"
proof (cases "moves_reserves e")
  case False
  with assms show ?thesis using step by blast
next
  case True
  then obtain ready f where "e = Reserves_event_turn ready f" by (cases e) simp_all
  with assms I_turn show ?thesis by auto
qed

lemma run_all: "\<lbrakk>I m; list_all event_scope es; rec_run es m = Some m'\<rbrakk> \<Longrightarrow> I m'"
  by (induction es arbitrary: m) (auto dest: step_all split: option.splits)

end

section \<open>Following moved events\<close>

lemma follow_event_sel [simp]:
  "is_used (follow_event e r) = is_used r" "key_of (follow_event e r) = key_of r"
  "rsv_state (follow_event e r) = rsv_state r" "start_time (follow_event e r) = ev_start e"
  "end_time (follow_event e r) = ev_end e" "title_name (follow_event e r) = ev_name e"
  by (auto simp: follow_event_def key_of_def Let_def)

lemma update_reserve_module:
  assumes "module_ok m" "i < length (plan m)"
    and "\<And>r. is_used (f r) = is_used r" "\<And>r. key_of (f r) = key_of r"
    "\<And>r. rsv_state (f r) = rsv_state r"
  shows "module_ok (update_reserve i f m)"
proof -
  have ok: "slots_ok m" using assms(1) by (simp add: module_ok_def)
  have "has_state st (f r) = has_state st r" for st r by (simp add: has_state_def assms(5))
  then have "none_passed (update_reserve i f m)"
    using assms(1,2) update_reserve_plan(2) [OF ok assms(2-4)]
    by (auto simp: module_ok_def none_passed_def list_all_length nth_list_update)
  then show ?thesis
    using assms(1) update_reserve_plan(1) [OF ok assms(2-4)] by (simp add: module_ok_def)
qed

lemma used_index:
  assumes "slots_ok m" "i < RESERVE_NUM_MAX" "is_used (reserves m ! i)"
  shows "i < length (plan m)"
  using assms slots_reserves [OF assms(1)] rs.used_nth_cells [OF plan_used assms(2) plan_length [OF assms(1)]]
  by simp

lemma fold_range_invariant:
  "\<lbrakk>\<And>i x. \<lbrakk>P x; i \<in> set is\<rbrakk> \<Longrightarrow> P (f i x); P x\<rbrakk> \<Longrightarrow> P (fold f is x)"
  by (induction "is" arbitrary: x) simp_all

lemma event_turn_module [keeps]:
  assumes "module_ok m"
  shows "module_ok (check_reserves_event_turn ready f m)"
  unfolding check_reserves_event_turn_def
  using assms
  by (auto intro!: fold_range_invariant [where P = module_ok] update_reserve_module used_index
      simp: module_ok_def [THEN iffD1] split: option.split)

section \<open>The two invariants\<close>

interpretation mods: plan_invariant_all module_ok
proof unfold_locales
  show "module_ok m \<Longrightarrow> slots_ok m" for m by (simp add: module_ok_def)
  show "\<lbrakk>module_ok m; slots_ok m'; plan m' = plan m; tuner_resource_max m' = tuner_resource_max m\<rbrakk>
    \<Longrightarrow> module_ok m'" for m m' by (rule module_frames)
  show "\<lbrakk>module_ok m; remove_reserve idx c a m = Some (ok, m')\<rbrakk> \<Longrightarrow> module_ok m'"
    for m idx c a ok m' using remove_module by blast
qed (simp_all only: add_module check_module pick_module event_turn_module)

lemma frame_ordered [keeps]:
  assumes "ordered_ok m" "slots_ok m'" "plan m' = plan m" "tuner_resource_max m' = tuner_resource_max m"
  shows "ordered_ok m'"
  using assms(1,3) module_frames [OF _ assms(2-4)] by (simp add: ordered_ok_def in_order_def)

lemma add_ordered [keeps]:
  "ordered_ok m \<Longrightarrow> ordered_ok (snd (add_reserve key s e t v b p r m))"
  using mods.I_slots by (simp add: ordered_ok_def add_module add_reserve_order)

lemma check_ordered [keeps]:
  assumes "ordered_ok m"
  shows "ordered_ok (check_reserves now m)"
proof -
  have "plan (check_reserves now m) = due_plan now (plan m)"
    using assms by (intro check_reserves_plan(3)) (simp_all add: ordered_ok_def module_ok_def)
  with assms show ?thesis
    by (simp add: ordered_ok_def check_module in_order_def due_plan_sorted)
qed

interpretation ords: plan_invariant ordered_ok
proof unfold_locales
  show "ordered_ok m \<Longrightarrow> slots_ok m" for m by (simp add: ordered_ok_def module_ok_def)
  show "\<lbrakk>ordered_ok m; slots_ok m'; plan m' = plan m; tuner_resource_max m' = tuner_resource_max m\<rbrakk>
    \<Longrightarrow> ordered_ok m'" for m m' by (rule frame_ordered)
  show "\<lbrakk>ordered_ok m; remove_reserve idx c a m = Some (ok, m')\<rbrakk> \<Longrightarrow> ordered_ok m'"
    for m idx c a ok m' by (rule remove_ordered)
qed (simp_all only: add_ordered check_ordered pick_ordered)

end
