(* ===== verification/Rec_Claims.thy ===== *)
theory Rec_Claims
  imports Rec_Invariant
begin

text \<open>
  What \<open>rec_manager\<close> promises: the properties of the reservation array and of the monitoring
  loops, each with an instance.
\<close>

section \<open>Lemmas for the properties\<close>

text \<open>The module after \<open>on_module_up\<close> with \<open>n\<close> tuners and no saved files.\<close>

definition rec_started :: "nat \<Rightarrow> rec_manager" where
  "rec_started n = new_rec_manager\<lparr>tuner_resource_max := n\<rparr>"

lemma started_ok:
  assumes "n \<le> GROUP_MAX"
  shows "module_ok (rec_started n)" "ordered_ok (rec_started n)"
proof -
  have "slots_ok (rec_started n)" "plan (rec_started n) = []"
    using new_manager_ok slots_frames [of new_rec_manager "rec_started n"]
    by (simp_all add: rec_started_def plan_def)
  then show "module_ok (rec_started n)" "ordered_ok (rec_started n)"
    using assms by (simp_all add: ordered_ok_def module_ok_def none_passed_def in_order_def rec_started_def)
qed

lemma due_plan_front:
  "\<lbrakk>list_all (has_passed now) pre; is_current now r\<rbrakk> \<Longrightarrow>
   due_plan now (pre @ r # post) = mark_current now r # post"
  by (induction pre) (auto simp: has_passed_def is_current_def)

lemma disk_free_enough: "\<not> df < limit \<Longrightarrow> check_disk_free df limit m = m"
  by (simp add: check_disk_free_def fold_invariant [where P = "\<lambda>m'. m' = m"])

lemma recording_end_other:
  assumes "\<not> (is_used (recordings m ! g) \<and> has_state STATE_NOW_RECORDING (recordings m ! g))"
  shows "rec_instances (check_recording_end now m) ! g = rec_instances m ! g"
proof -
  let ?P = "\<lambda>m'. recordings m' = recordings m \<and> rec_instances m' ! g = rec_instances m ! g"
  have "?P (check_recording_end now m)"
    unfolding check_recording_end_def
  proof (rule fold_invariant [where P = ?P])
    fix i and m' :: rec_manager assume "?P m'"
    with assms show "?P (if is_used (recordings m' ! i) \<and>
        has_state STATE_NOW_RECORDING (recordings m' ! i) \<and>
        etime_le (end_time (recordings m' ! i)) now \<and>
        rec_progress (rec_instances m' ! i) = P_NOW_RECORDING
        then set_instance_progress i P_END_SUCCESS m' else m')"
      by (cases "i = g") (auto simp: set_instance_progress_def)
  qed simp
  then show ?thesis by simp
qed

lemma mark_current_requested [simp]: "requested (mark_current now r)"
  by (simp add: mark_current_def Let_def)

lemma disk_free_other:
  assumes "\<not> has_state STATE_NOW_RECORDING (recordings m ! g)"
  shows "recordings (check_disk_free df limit m) ! g = recordings m ! g"
proof -
  let ?P = "\<lambda>m'. recordings m' ! g = recordings m ! g"
  show ?thesis
    unfolding check_disk_free_def
  proof (rule fold_invariant [where P = ?P])
    fix i and m' :: rec_manager assume "?P m'"
    with assms show "?P (if is_used (recordings m' ! i) \<and>
        has_state STATE_NOW_RECORDING (recordings m' ! i) \<and> df < limit
        then let m = update_recording i (raise_state STATE_HDD_FREE_SPACE_LOW) m'
             in m\<lparr>sent := sent m @ [Stop_recording (of_nat i)]\<rparr>
        else m')"
      by (cases "i = g") (auto simp: update_recording_def Let_def)
  qed simp
qed

text \<open>The plan in the turn of the check loop, before the pick.\<close>

lemma turn_checked:
  assumes "module_ok m"
    and m1: "m1 = check_disk_free df limit (check_recording_end now (check_reserves now m))"
  shows "module_ok m1" "plan m1 = due_plan now (plan m)"
    "tuner_resource_max m1 = tuner_resource_max m"
  using assms check_reserves_plan [of m now] check_module [of m now]
  by (simp_all add: m1 module_ok_def none_passed_def)

section \<open>The invariant\<close>


definition sample_events :: "rec_event list" where
  "sample_events =
    [Add_manual 1 2 3 (Timespec 100 0) (Timespec 200 0) Rep_daily (Some 27) None,
     Add_event Rep_none (Some \<lparr>ev_key = (1, 2, 4, 9), ev_start = Timespec 50 0,
       ev_end = Timespec 90 0, ev_name = ''news''\<rparr>) None,
     Recordings_event_turn 0 None, Stop 0]"


text \<open>As long as no event is moved by the schedule, the planned reservations stay in
  ascending order of their start times.\<close>

theorem start_times_stay_ascending:
  assumes "n \<le> GROUP_MAX" "list_all event_scope es" "\<not> list_ex moves_reserves es"
    and "rec_run es (rec_started n) = Some m"
  shows "sorted (map start_time (plan m))"
  using ords.run [OF started_ok(2) [OF assms(1)] assms(2-4)]
  by (simp add: ordered_ok_def in_order_def)

theorem start_times_stay_ascending_witness:
  "sorted (map start_time (plan (the (rec_run sample_events (rec_started 2)))))"
  by (rule start_times_stay_ascending [of 2 sample_events]) (simp_all add: sample_events_def)

section \<open>Adding, finding, removing\<close>

text \<open>C4: \<open>add_reserve\<close> on the fixed array is the insertion by start time into the plan; it
  refuses exactly an empty interval, a full array, an event that is planned and, unless the
  recording reschedules itself, an event that is being recorded; refused, nothing changes.\<close>

theorem add_reserve_is_insertion:
  assumes "slots_ok m"
  shows "fst (add_reserve key (Some s) (Some e) title svc evt rpt resched m)
        = acceptable key s e resched m \<and>
    plan (snd (add_reserve key (Some s) (Some e) title svc evt rpt resched m))
      = (if acceptable key s e resched m
         then insert_by_start (new_reserve key s e title svc evt rpt resched) (plan m) else plan m) \<and>
    snd (add_reserve key (Some s) (Some e) title svc evt rpt resched m)
      = (if acceptable key s e resched m
         then save_reserves (m\<lparr>reserves := rs.cells
           (insert_by_start (new_reserve key s e title svc evt rpt resched) (plan m)) RESERVE_NUM_MAX\<rparr>)
         else m)"
  using add_reserve_accepts [OF assms] add_reserve_refuses [OF assms]
    add_reserve_plan(2) [OF assms _ refl]
  by (cases "acceptable key s e resched m") auto

theorem add_reserve_is_insertion_witness:
  "plan (snd (add_reserve (1, 2, 3, 4) (Some (Timespec 10 0)) (Some (Timespec 20 0)) None None True
     Rep_none False new_rec_manager))
   = [new_reserve (1, 2, 3, 4) (Timespec 10 0) (Timespec 20 0) None None True Rep_none False]"
proof -
  have "slots_ok new_rec_manager" "plan new_rec_manager = []" using new_manager_ok by blast+
  moreover have "acceptable (1, 2, 3, 4) (Timespec 10 0) (Timespec 20 0) False new_rec_manager"
    using new_manager_ok
    by (simp add: acceptable_def timespec_less_iff new_rec_manager_def)
  moreover have "plan (snd (add_reserve key (Some s) (Some e) t v b p r new_rec_manager))
      = (if acceptable key s e r new_rec_manager
         then insert_by_start (new_reserve key s e t v b p r) (plan new_rec_manager)
         else plan new_rec_manager)" for key s e t v b p r
    using add_reserve_is_insertion [of new_rec_manager] calculation(1) by blast
  ultimately show ?thesis by (simp add: insert_by_start_def)
qed

lemma index_of_key:
  assumes "slots_ok m" "i < length (plan m)"
  shows "get_reserve_index (key_of (plan m ! i)) m = int i"
proof -
  let ?k = "key_of (plan m ! i)"
  have same: "first_index (\<lambda>r. is_used r \<and> key_of r = ?k) us = first_index (\<lambda>r. key_of r = ?k) us"
    if "list_all is_used us" for us
    using that by (induction us) auto
  have ex: "\<exists>r\<in>set (plan m). key_of r = ?k" using assms(2) nth_mem by blast
  then have "\<exists>r\<in>set (plan m). is_used r \<and> key_of r = ?k" using plan_used [of m] by (auto simp: list_all_iff)
  then have "first_index (\<lambda>r. is_used r \<and> key_of r = ?k) (reserves m)
      = first_index (\<lambda>r. key_of r = ?k) (plan m)"
    using rs.first_index_cells [OF _ plan_length [OF assms(1)]] slots_reserves [OF assms(1)]
      same [OF plan_used] by simp
  also have "\<dots> = i"
  proof -
    let ?j = "first_index (\<lambda>r. key_of r = ?k) (plan m)"
    have j: "?j < length (plan m)" using ex first_index_less_iff by blast
    have "key_of (plan m ! ?j) = ?k" using first_index_nth [OF ex] .
    moreover have "distinct (map key_of (plan m))" using assms(1) by (simp add: slots_ok_def)
    ultimately show ?thesis
      using nth_eq_iff_index_eq [of "map key_of (plan m)" ?j i] j assms(2) by simp
  qed
  finally show ?thesis
    using assms plan_length [OF assms(1)] by (simp add: get_reserve_index_def reserve_eq_key Let_def)
qed

text \<open>A reservation that was accepted is found under its identifiers, and removing it gives
  the plan back as it was.\<close>

theorem add_then_remove:
  assumes "slots_ok m" "acceptable key s e resched m"
  shows "map_option (\<lambda>(ok, m'). (ok, plan m', recordings m', history m'))
      (on_remove_reserve key cons_rep False
        (snd (add_reserve key (Some s) (Some e) title svc evt rpt resched m)))
    = Some (True, plan m, recordings m, history m)"
proof -
  let ?r = "new_reserve key s e title svc evt rpt resched"
  let ?m1 = "snd (add_reserve key (Some s) (Some e) title svc evt rpt resched m)"
  let ?pre = "takeWhile (\<lambda>u. start_time u \<le> s) (plan m)"
  let ?post = "dropWhile (\<lambda>u. start_time u \<le> s) (plan m)"
  have m1: "slots_ok ?m1" "plan ?m1 = ?pre @ ?r # ?post"
    using add_reserve_plan [OF assms refl] by (simp_all add: insert_by_start_def)
  have i: "length ?pre < length (plan ?m1)" unfolding m1(2) by simp
  have at: "plan ?m1 ! length ?pre = ?r" unfolding m1(2) by simp
  have idx: "get_reserve_index key ?m1 = int (length ?pre)"
    using index_of_key [OF m1(1) i] at by simp
  obtain ok m' where rm: "remove_reserve (int (length ?pre)) cons_rep False ?m1 = Some (ok, m')"
    using remove_reserve_used [OF m1(1) i] unfolding Let_def by blast
  have "plan m' = ?pre @ ?post"
    using remove_reserve_plan(3) [OF m1(1) i rm] unfolding m1(2) by simp
  then show ?thesis
    using remove_reserve_plan(1,4,5) [OF m1(1) i rm] idx rm
    by (simp add: on_remove_reserve_def)
qed

theorem add_then_remove_witness:
  "map_option (\<lambda>(ok, m'). (ok, plan m', recordings m', history m'))
      (on_remove_reserve (1, 2, 3, 4) True False
        (snd (add_reserve (1, 2, 3, 4) (Some (Timespec 10 0)) (Some (Timespec 20 0)) None None True
          Rep_daily False new_rec_manager)))
    = Some (True, plan new_rec_manager, recordings new_rec_manager, history new_rec_manager)"
  by (rule add_then_remove)
    (use new_manager_ok in \<open>simp_all add: acceptable_def timespec_less_iff new_rec_manager_def\<close>)

text \<open>A daily or weekly reservation is never renewed: for every reservation that is still in
  the array or is the recording of a group, which are the ones \<open>check_repeatability\<close> is called
  with, it adds nothing, because \<open>add_reserve\<close> finds the reservation itself.\<close>

theorem repeats_are_never_renewed:
  assumes "slots_ok m" "is_used p" "p \<in> set (reserves m) \<union> set (recordings m)"
  shows "check_repeatability p m = m"
  by (rule repeat_refused [OF assms(1)]) (use assms(2,3) in \<open>auto simp: plan_def\<close>)

definition weekly_show :: reserve where
  "weekly_show = new_reserve (1, 2, 3, 0) (Timespec 10 0) (Timespec 20 0) None None False Rep_weekly False"

definition recording_weekly_show :: rec_manager where
  "recording_weekly_show = new_rec_manager\<lparr>recordings := weekly_show # replicate 3 cleared_reserve\<rparr>"

theorem repeats_are_never_renewed_witness:
  "check_repeatability weekly_show recording_weekly_show = recording_weekly_show"
proof (rule repeats_are_never_renewed)
  show "slots_ok recording_weekly_show"
    using new_manager_ok by (simp add: slots_ok_def plan_def recording_weekly_show_def)
qed (simp_all add: weekly_show_def recording_weekly_show_def)

text \<open>Removing by an index behind the last reservation is reported as a success, leaves the
  plan alone and, when the result is to be kept and the results are full, throws the oldest
  result away for an unused cell.\<close>

theorem removing_an_unused_index_drops_a_result:
  assumes "slots_ok m" "length (plan m) \<le> i" "i < RESERVE_NUM_MAX"
    and "length (history m) = RESULT_NUM_MAX"
  shows "map_option (\<lambda>(ok, m'). (ok, plan m', history m'))
      (on_remove_reserve_by_index (int i) cons_rep True m) = Some (True, plan m, tl (history m))"
proof -
  let ?r = "raise_state STATE_REMOVED cleared_reserve"
  obtain b m' where rm: "remove_reserve (int i) cons_rep True m = Some (b, m')"
    using assms(3) by (simp add: remove_reserve_def Let_def)
  note un = remove_reserve_unused [OF assms(1-3) rm]
  have tl: "filter is_used (tl (history m)) = tl (history m)"
    using set_result_cells(3) [OF assms(1)]
    by (cases "history m") (simp_all add: list_all_iff filter_id_conv)
  have "history m' = tl (history m)"
    using un(5) set_result_cells(1) [OF assms(1), of ?r] assms(4) tl
    by (simp add: history_def [of m'])
  then show ?thesis using rm un(1,3) by (simp add: on_remove_reserve_by_index_def plan_def)
qed

definition full_history :: rec_manager where
  "full_history = new_rec_manager\<lparr>results := weekly_show # replicate 19 weekly_show\<rparr>"

theorem removing_an_unused_index_drops_a_result_witness:
  "map_option (\<lambda>(ok, m'). (ok, plan m', history m'))
      (on_remove_reserve_by_index (int 7) False True full_history)
   = Some (True, plan full_history, tl (history full_history))"
proof (rule removing_an_unused_index_drops_a_result)
  have hist: "list_all is_used (results full_history)" "length (results full_history) = RESULT_NUM_MAX"
    by (simp_all add: full_history_def weekly_show_def list_all_iff)
  then have "used_prefix is_used (results full_history)"
    using used_prefixI [of is_used "results full_history" "[]"] by simp
  then show "slots_ok full_history"
    using new_manager_ok hist(2) by (simp add: slots_ok_def full_history_def plan_def)
  show "length (plan full_history) \<le> 7"
    using new_manager_ok by (simp add: full_history_def plan_def)
  show "length (history full_history) = RESULT_NUM_MAX"
    using hist by (simp add: history_def list_all_iff filter_True)
qed simp

section \<open>The check loop\<close>

text \<open>\<open>check_reserves\<close> reports every reservation that is over, up to the first one whose time
  is now, as a result with its state, keeps the last 20 results, takes the reported ones out of
  the plan, and asks for the recording of that first one.\<close>

theorem passed_reserves_become_results:
  assumes "slots_ok m" "none_passed m"
  shows "plan (check_reserves now m) = due_plan now (plan m) \<and>
    history (check_reserves now m) = keep_last RESULT_NUM_MAX (history m @ passed_ones now (plan m)) \<and>
    recordings (check_reserves now m) = recordings m"
  using check_reserves_plan [OF assms] by blast

theorem passed_reserves_become_results_witness:
  "plan (check_reserves (Timespec 5 0) new_rec_manager) = due_plan (Timespec 5 0) (plan new_rec_manager) \<and>
    history (check_reserves (Timespec 5 0) new_rec_manager)
      = keep_last RESULT_NUM_MAX (history new_rec_manager @ passed_ones (Timespec 5 0) (plan new_rec_manager)) \<and>
    recordings (check_reserves (Timespec 5 0) new_rec_manager) = recordings new_rec_manager"
  by (rule passed_reserves_become_results) (use new_manager_ok in \<open>simp_all add: none_passed_def\<close>)

text \<open>Everything a start of a recording needs for group \<open>g\<close>.\<close>

definition start_possible :: "start_answers \<Rightarrow> u8 \<Rightarrow> reserve \<Rightarrow> rec_manager \<Rightarrow> bool" where
  "start_possible a gr r m =
    (unat gr < tuner_resource_max m \<and> \<not> is_used (recordings m ! unat gr) \<and>
     rec_progress (rec_instances m ! unat gr) = P_INIT \<and>
     sa_disk_limit a \<le> sa_disk_free a \<and> sa_channel a \<noteq> None \<and> sa_tune a \<and>
     (is_event_type r \<longrightarrow> (case ask_present (sa_present a) [0..<11] of
        None \<Rightarrow> False | Some e \<Rightarrow> ev_id e = rsv_evtid r)))"

lemma key_evtid: "key_of a = key_of b \<Longrightarrow> rsv_evtid a = rsv_evtid b"
  by (simp add: key_of_def)

lemma go_start_records:
  assumes "slots_ok m" "unat gr < GROUP_MAX" "rec_progress (rec_instances m ! unat gr) = P_INIT"
  shows "let m' = snd (go_start now gr m) in
    plan m' = plan m \<and> key_of (recordings m' ! unat gr) = key_of (recordings m ! unat gr) \<and>
    is_used (recordings m' ! unat gr) = is_used (recordings m ! unat gr) \<and>
    has_state STATE_NOW_RECORDING (recordings m' ! unat gr) \<and>
    rec_progress (rec_instances m' ! unat gr) = P_PRE_PROCESS"
proof -
  have len: "unat gr < length (recordings m)" "unat gr < length (rec_instances m)"
    using assms by (simp_all add: slots_ok_def)
  have now: "has_state STATE_NOW_RECORDING ((raise_state STATE_NOW_RECORDING r)\<lparr>recording_start_time := t\<rparr>)"
    and key: "key_of ((raise_state STATE_NOW_RECORDING r)\<lparr>recording_start_time := t\<rparr>) = key_of r" for r t
    using has_raise_state [of STATE_NOW_RECORDING STATE_NOW_RECORDING r]
    by (simp_all add: has_state_def raise_state_def key_of_def)
  show ?thesis
    using assms(3) len now key
    by (simp add: go_start_def Let_def update_recording_def set_instance_progress_def plan_def
        set_next_progress_def)
qed

text \<open>C5: when the time of the first reservation that is not over has come, a tuner is free and
  the requests of the start succeed, one turn of the check loop takes it out of the plan and
  records it in the group the tuner service opened.\<close>

theorem due_reservation_is_recorded:
  assumes "module_ok m" "plan m = pre @ r # post"
    and "list_all (has_passed now) pre" "is_current now r"
    and "limit \<le> df" "start_possible a gr r m"
  shows "let m' = check_loop_turn now df limit (Some gr) a m in
    plan m' = post \<and> key_of (recordings m' ! unat gr) = key_of r \<and>
    has_state STATE_NOW_RECORDING (recordings m' ! unat gr) \<and>
    rec_progress (rec_instances m' ! unat gr) = P_PRE_PROCESS"
proof -
  let ?g = "unat gr" and ?r = "picked gr (mark_current now r)"
  define m1 where "m1 = check_disk_free df limit (check_recording_end now (check_reserves now m))"
  note t = turn_checked [OF assms(1) m1_def]
  have sp: "?g < tuner_resource_max m" "\<not> is_used (recordings m ! ?g)"
    "rec_progress (rec_instances m ! ?g) = P_INIT"
    using assms(6) by (simp_all add: start_possible_def)
  have g: "?g < GROUP_MAX" using sp(1) assms(1) by (simp add: module_ok_def)
  have ok: "slots_ok m" "none_passed m" "slots_ok m1" using assms(1) t(1) by (simp_all add: module_ok_def)
  have plan1: "plan m1 = mark_current now r # post"
    using t(2) assms(2-4) by (simp add: due_plan_front)
  have same: "recordings m1 = recordings m" "rec_instances m1 ! ?g = rec_instances m ! ?g"
    using check_reserves_plan(5,6) [OF ok(1,2)] sp(2) recording_end_other assms(5)
    by (simp_all add: m1_def disk_free_enough)
  have ex: "\<exists>u\<in>set (plan m1). requested u" using plan1 by simp
  define m2 where "m2 = snd (pick_req_start_recording_reserve gr m1)"
  note p = pick_some [OF ok(3) ex g, folded m2_def]
  have m2: "plan m2 = post" "recordings m2 ! ?g = ?r" "rec_instances m2 ! ?g = rec_instances m ! ?g"
    "slots_ok m2" "tuner_resource_max m2 = tuner_resource_max m"
    using p plan1 same g ok(3) t(3) by (simp_all add: slots_ok_def)
  have turn: "check_loop_turn now df limit (Some gr) a m = snd (on_start_recording a gr m2)"
    using ex exist_requested [of m1] same(1) sp(2) p(3)
    by (simp add: check_loop_turn_def Let_def m1_def [symmetric] m2_def [symmetric])
  have "is_event_type ?r = is_event_type r" "rsv_evtid ?r = rsv_evtid r"
    by (simp_all add: picked_def mark_current_def drop_state_def raise_state_def Let_def)
  then have "on_start_recording a gr m2 = go_start (sa_now a) gr m2"
    using assms(6) m2 by (auto simp: on_start_recording_def start_possible_def Let_def split: option.splits)
  then show ?thesis
    using go_start_records [OF m2(4) g, of "sa_now a"] m2 sp(3) turn by (simp add: Let_def)
qed

definition free_answers :: start_answers where
  "free_answers = \<lparr>sa_disk_free = 100, sa_disk_limit = 10, sa_channel = Some 27, sa_tune = True,
     sa_present = (\<lambda>_. None), sa_cache = False, sa_event = None, sa_service_name = None,
     sa_now = Timespec 15 0\<rparr>"

definition weekly_planned :: rec_manager where
  "weekly_planned = (rec_started 1)\<lparr>reserves := rs.cells [weekly_show] RESERVE_NUM_MAX\<rparr>"

theorem due_reservation_is_recorded_witness:
  "let m' = check_loop_turn (Timespec 15 0) 100 10 (Some 0) free_answers weekly_planned in
    plan m' = [] \<and> key_of (recordings m' ! unat (0 :: u8)) = key_of weekly_show \<and>
    has_state STATE_NOW_RECORDING (recordings m' ! unat (0 :: u8)) \<and>
    rec_progress (rec_instances m' ! unat (0 :: u8)) = P_PRE_PROCESS"
proof (rule due_reservation_is_recorded)
  have st: "module_ok (rec_started 1)" by (rule started_ok) simp
  then have w: "slots_ok weekly_planned" "plan weekly_planned = [weekly_show]"
    using slots_new_plan [of "rec_started 1" "[weekly_show]"]
    by (simp_all add: weekly_planned_def module_ok_def weekly_show_def)
  then show "module_ok weekly_planned"
    by (simp add: module_ok_def none_passed_def weekly_planned_def rec_started_def
        weekly_show_def new_reserve_no_state)
  show "plan weekly_planned = [] @ weekly_show # []" using w by simp
qed (simp_all add: is_current_def weekly_show_def timespec_less_iff start_possible_def
    free_answers_def weekly_planned_def rec_started_def new_rec_manager_def new_instance_def
    new_reserve_def reserve_set_def cleared_reserve_def not_less [symmetric])

lemma give_up_history:
  assumes "slots_ok m" "unat gr < GROUP_MAX" "is_used (recordings m ! unat gr)"
  shows "key_of (recordings m ! unat gr) \<in> key_of ` set (history (give_up st gr m))"
proof -
  let ?g = "unat gr"
  let ?m1 = "update_recording ?g (raise_state st) m"
  have at: "recordings ?m1 ! ?g = raise_state st (recordings m ! ?g)"
    using assms by (simp add: slots_ok_def)
  have "history (give_up st gr m)
      = keep_last RESULT_NUM_MAX (history m @ [raise_state st (recordings m ! ?g)])"
    using set_result_history [of ?m1 "raise_state st (recordings m ! ?g)"] assms at
    by (simp add: give_up_def Let_def)
  moreover have "raise_state st r \<in> set (keep_last RESULT_NUM_MAX (us @ [raise_state st r]))" for r us
    by (simp add: keep_last_def)
  ultimately show ?thesis by (metis image_eqI state_frames(3))
qed

text \<open>Where a reservation can be after its start was tried.\<close>

definition accounted_for :: "event_key \<Rightarrow> nat \<Rightarrow> rec_manager \<Rightarrow> bool" where
  "accounted_for k g m =
    (is_used (recordings m ! g) \<and> key_of (recordings m ! g) = k \<or>
     k \<in> key_of ` set (plan m) \<or> k \<in> key_of ` set (history m))"

lemma go_start_accounted:
  assumes "slots_ok m" "unat gr < GROUP_MAX" "is_used (recordings m ! unat gr)"
  shows "accounted_for (key_of (recordings m ! unat gr)) (unat gr) (snd (go_start now gr m))"
proof (cases "rec_progress (rec_instances m ! unat gr) = P_INIT")
  case True
  then show ?thesis
    using go_start_records [OF assms(1,2) True, of now] assms(3)
    by (simp add: accounted_for_def Let_def)
next
  case False
  then show ?thesis
    using give_up_history [OF assms] by (simp add: go_start_def Let_def accounted_for_def)
qed

lemma reschedule_accounted:
  assumes "slots_ok m" "unat gr < GROUP_MAX" "is_used (recordings m ! unat gr)"
    and "pred_option (\<lambda>e. ev_key e = key_of (recordings m ! unat gr)) (sa_event a)"
  shows "accounted_for (key_of (recordings m ! unat gr)) (unat gr) (snd (reschedule a gr m))"
proof -
  let ?k = "key_of (recordings m ! unat gr)"
  let ?r = "on_add_reserve_event (rsv_repeat (recordings m ! unat gr)) True (sa_event a)
    (sa_service_name a) m"
  have keeps: "slots_ok (snd ?r)" "recordings (snd ?r) = recordings m"
    using assms(1) by (simp_all add: on_add_reserve_event_def add_reserve_keeps split: option.split)
  have added: "?k \<in> key_of ` set (plan (snd ?r))" if accepted: "fst ?r"
  proof -
    obtain e where e: "sa_event a = Some e"
      using accepted by (cases "sa_event a") (auto simp: on_add_reserve_event_def split: if_splits)
    then have "ev_key e = ?k" using assms(4) by simp
    then have add: "?r = add_reserve ?k (Some (ev_start e)) (Some (ev_end e)) (Some (ev_name e))
        (sa_service_name a) True (rsv_repeat (recordings m ! unat gr)) True m"
      using accepted e by (auto simp: on_add_reserve_event_def split: if_splits)
    have "acceptable ?k (ev_start e) (ev_end e) True m"
      using accepted add add_reserve_refuses [OF assms(1)] by (metis fst_conv)
    from add_reserve_plan(2) [OF assms(1) this refl] show ?thesis unfolding add by simp
  qed
  show ?thesis
    using added give_up_history [OF assms(1-3)] give_up_history [OF keeps(1) assms(2)] assms(3) keeps(2)
    by (auto simp: reschedule_def Let_def accounted_for_def)
qed

text \<open>A start that is tried never loses the reservation: afterwards it is the recording of
  the group, planned again, or a result. The schedule answers with the event it was asked for.\<close>

theorem start_keeps_the_reservation:
  assumes "module_ok m" "unat gr < GROUP_MAX" "is_used (recordings m ! unat gr)"
    and "pred_option (\<lambda>e. ev_key e = key_of (recordings m ! unat gr)) (sa_event a)"
  shows "accounted_for (key_of (recordings m ! unat gr)) (unat gr) (snd (on_start_recording a gr m))"
proof -
  have ok: "slots_ok m" using assms(1) by (simp add: module_ok_def)
  note acc = go_start_accounted [OF ok assms(2,3)] reschedule_accounted [OF ok assms(2-4)]
    give_up_history [OF ok assms(2,3)]
  have stay: "accounted_for (key_of (recordings m ! unat gr)) (unat gr) m"
    using assms(3) by (simp add: accounted_for_def)
  have gone: "accounted_for (key_of (recordings m ! unat gr)) (unat gr)
      (tuner_stop_close gr (give_up st gr m))" for st
    using acc(3) by (simp add: accounted_for_def)
  have closed: "accounted_for (key_of (recordings m ! unat gr)) (unat gr) (tuner_stop_close gr m)"
    using stay by (simp add: accounted_for_def)
  show ?thesis
    using acc(1,2) stay gone closed by (simp add: on_start_recording_def Let_def split: option.split)
qed

lemma recording_weekly_ok: "module_ok recording_weekly_show"
  using new_manager_ok
  by (simp add: module_ok_def none_passed_def slots_ok_def plan_def recording_weekly_show_def)
    (simp add: new_rec_manager_def)

theorem start_keeps_the_reservation_witness:
  "accounted_for (key_of (recordings recording_weekly_show ! unat (0 :: u8))) (unat (0 :: u8))
    (snd (on_start_recording free_answers 0 recording_weekly_show))"
  by (rule start_keeps_the_reservation [OF recording_weekly_ok])
    (simp_all add: recording_weekly_show_def weekly_show_def free_answers_def)

text \<open>When the channel of a reservation is not known, its start leaves the recording of the
  group in use without recording it. Whenever the tuner service opens that group afterwards, the
  check loop starts nothing: the group is blocked.\<close>

theorem unknown_channel_blocks_the_group:
  assumes "module_ok m" "unat gr < tuner_resource_max m" "is_used (recordings m ! unat gr)"
    and "\<not> has_state STATE_NOW_RECORDING (recordings m ! unat gr)"
    and "sa_disk_limit a \<le> sa_disk_free a" "sa_channel a = None"
  shows "let m1 = snd (on_start_recording a gr m); m2 = check_loop_turn now df limit (Some gr) b m1 in
    recordings m1 = recordings m \<and> recordings m2 ! unat gr = recordings m ! unat gr \<and>
    plan m2 = due_plan now (plan m)"
proof -
  let ?m1 = "snd (on_start_recording a gr m)"
  have eq: "?m1 = tuner_stop_close gr m"
    using assms(2,5,6) by (simp add: on_start_recording_def Let_def)
  have ok: "module_ok ?m1" using mods.start [OF assms(1)] .
  define m2 where "m2 = check_disk_free df limit (check_recording_end now (check_reserves now ?m1))"
  note t = turn_checked [OF ok m2_def]
  have "recordings (check_reserves now ?m1) = recordings m"
    using ok check_reserves_plan(5) [of ?m1 now] eq by (simp add: module_ok_def)
  then have rec: "recordings m2 ! unat gr = recordings m ! unat gr"
    using assms(4) disk_free_other by (simp add: m2_def)
  have ok2: "slots_ok m2" using t(1) by (simp add: module_ok_def)
  have "check_loop_turn now df limit (Some gr) b ?m1 = m2"
    using rec assms(3) exist_requested [of m2] pick_none [OF ok2]
    by (simp add: check_loop_turn_def Let_def m2_def [symmetric])
  then show ?thesis using rec t(2) eq by (simp add: Let_def)
qed

theorem unknown_channel_blocks_the_group_witness:
  "let m = recording_weekly_show\<lparr>tuner_resource_max := 1\<rparr>;
       m1 = snd (on_start_recording (free_answers\<lparr>sa_channel := None\<rparr>) 0 m);
       m2 = check_loop_turn (Timespec 15 0) 100 10 (Some 0) free_answers m1 in
    recordings m1 = recordings m \<and> recordings m2 ! unat (0 :: u8) = recordings m ! unat (0 :: u8) \<and>
    plan m2 = due_plan (Timespec 15 0) (plan m)"
proof -
  let ?m = "recording_weekly_show\<lparr>tuner_resource_max := 1\<rparr>"
  have "module_ok ?m"
    using recording_weekly_ok by (simp add: module_ok_def slots_ok_def none_passed_def plan_def)
  moreover have "is_used (recordings ?m ! unat (0 :: u8))"
    "\<not> has_state STATE_NOW_RECORDING (recordings ?m ! unat (0 :: u8))"
    by (simp_all add: recording_weekly_show_def weekly_show_def new_reserve_no_state)
  ultimately show ?thesis
    unfolding Let_def
    using unknown_channel_blocks_the_group [of ?m 0 "free_answers\<lparr>sa_channel := None\<rparr>"
        "Timespec 15 0" 100 10 free_answers, unfolded Let_def]
    by (simp add: free_answers_def)
qed

section \<open>The recorder\<close>

text \<open>The packets of one receive loop, and the notices they make the recorder send.\<close>

fun receive_all :: "u8 list list \<Rightarrow> rec_instance \<Rightarrow> (progress list \<times> rec_instance) option" where
  "receive_all [] r = Some ([], r)"
| "receive_all (p # ps) r =
    (case on_ts_received p r of None \<Rightarrow> None
     | Some (ns, r') \<Rightarrow>
         (case receive_all ps r' of None \<Rightarrow> None | Some (ns', r'') \<Rightarrow> Some (ns @ ns', r'')))"

lemma recording_writes:
  "\<lbrakk>rec_progress r = P_NOW_RECORDING; rec_b25 r = Some w\<rbrakk> \<Longrightarrow>
   receive_all ps r = Some ([], r\<lparr>rec_b25 := Some (w @ ps)\<rparr>)"
  by (induction ps arbitrary: r w) (simp_all add: on_ts_received_def)

text \<open>Between the request to start and the request to end the recorder writes every packet
  it is given but the first, which only opens the output; two more packets report the end, close
  the output and make the recorder ready again.\<close>

theorem recorder_writes_received_packets:
  assumes "rec_progress r = P_PRE_PROCESS" "e = P_END_SUCCESS \<or> e = P_END_ERROR"
  shows "receive_all (p # ps) r =
      Some ([P_PRE_PROCESS], r\<lparr>rec_progress := P_NOW_RECORDING, rec_b25 := Some ps\<rparr>) \<and>
    receive_all [q, q'] (set_next_progress e (r\<lparr>rec_progress := P_NOW_RECORDING, rec_b25 := Some ps\<rparr>))
      = Some ([e, P_POST_PROCESS], r\<lparr>rec_progress := P_INIT, rec_b25 := None\<rparr>)"
  using assms recording_writes [of "r\<lparr>rec_b25 := Some [], rec_progress := P_NOW_RECORDING\<rparr>" "[]" ps]
  by (auto simp: on_ts_received_def set_next_progress_def)

theorem recorder_writes_received_packets_witness:
  "receive_all [[1], [2], [3]] (set_next_progress P_PRE_PROCESS new_instance) =
      Some ([P_PRE_PROCESS], (set_next_progress P_PRE_PROCESS new_instance)
        \<lparr>rec_progress := P_NOW_RECORDING, rec_b25 := Some [[2], [3]]\<rparr>) \<and>
    receive_all [[4], [5]] (set_next_progress P_END_ERROR ((set_next_progress P_PRE_PROCESS new_instance)
        \<lparr>rec_progress := P_NOW_RECORDING, rec_b25 := Some [[2], [3]]\<rparr>))
      = Some ([P_END_ERROR, P_POST_PROCESS], (set_next_progress P_PRE_PROCESS new_instance)
        \<lparr>rec_progress := P_INIT, rec_b25 := None\<rparr>)"
  by (rule recorder_writes_received_packets) (simp_all add: set_next_progress_def)

lemma ts_packet_None:
  "on_ts_received buf (rec_instances m ! unat gr) = None \<Longrightarrow> ts_packet gr buf m = None"
  by (simp add: ts_packet_def)

text \<open>\<open>stop_recording\<close> trusts the flag of the recording, not the recorder. When the recorder
  has closed its output and the notice about it has not been handled yet, a stop request makes
  the second packet after it flush the output that is closed, through a null pointer.\<close>

theorem late_stop_crashes_the_recorder:
  assumes "module_ok m" "unat gr < tuner_resource_max m"
    and "has_state STATE_NOW_RECORDING (recordings m ! unat gr)"
    and "rec_b25 (rec_instances m ! unat gr) = None"
  shows "rec_run [Stop gr, Packet gr p, Packet gr q] m = None"
proof -
  let ?g = "unat gr" and ?r = "rec_instances m ! unat gr"
  have g: "?g < length (rec_instances m)"
    using assms(1,2) by (simp add: module_ok_def slots_ok_def)
  let ?m1 = "snd (on_stop_recording gr m)"
  have m1: "rec_instances ?m1 = (rec_instances m)[?g := ?r\<lparr>rec_progress := P_END_ERROR\<rparr>]"
    using assms(2,3)
    by (simp add: on_stop_recording_def Let_def set_instance_progress_def set_next_progress_def)
  then have "on_ts_received p (rec_instances ?m1 ! ?g) =
      Some ([P_END_ERROR], ?r\<lparr>rec_progress := P_POST_PROCESS\<rparr>)"
    using g by (simp add: on_ts_received_def)
  then obtain m2 where m2: "ts_packet gr p ?m1 = Some m2"
    "rec_instances m2 ! ?g = ?r\<lparr>rec_progress := P_POST_PROCESS\<rparr>"
    using m1 g by (simp add: ts_packet_def)
  have "ts_packet gr q m2 = None"
    by (rule ts_packet_None) (simp add: m2(2) on_ts_received_def assms(4))
  then show ?thesis using m2(1) by simp
qed

definition closed_recording :: rec_manager where
  "closed_recording = new_rec_manager\<lparr>tuner_resource_max := 1,
     recordings := raise_state STATE_NOW_RECORDING weekly_show # replicate 3 cleared_reserve\<rparr>"

theorem late_stop_crashes_the_recorder_witness:
  "rec_run [Stop 0, Packet 0 [], Packet 0 []] closed_recording = None"
proof (rule late_stop_crashes_the_recorder)
  show "module_ok closed_recording"
    using new_manager_ok
    by (simp add: module_ok_def none_passed_def slots_ok_def plan_def closed_recording_def)
qed (simp_all add: closed_recording_def new_rec_manager_def new_instance_def)

end
