(* ===== verification/Arib_Common.thy ===== *)
theory Arib_Common
  imports Prelude
begin

text \<open>
  \<open>parser/ts_arib_common\<close> without the checksum: the headers of a transport stream packet and of
  its adaptation field, the program clock, dates and durations of the broadcast, the channel
  plan and the colour table.
\<close>

section \<open>Packet headers\<close>

record ts_header =
  sync :: u8
  transport_error_indicator :: u8
  payload_unit_start_indicator :: u8
  transport_priority :: u8
  ts_pid :: u16
  transport_scrambling_control :: u8
  adaptation_field_control :: u8
  continuity_counter :: u8

definition parse_ts_header :: "u8 \<Rightarrow> u8 \<Rightarrow> u8 \<Rightarrow> u8 \<Rightarrow> ts_header" where
  "parse_ts_header b0 b1 b2 b3 =
    \<lparr>sync = b0,
     transport_error_indicator = drop_bit 7 b1 AND 0x01,
     payload_unit_start_indicator = drop_bit 6 b1 AND 0x01,
     transport_priority = drop_bit 5 b1 AND 0x01,
     ts_pid = push_bit 8 (ucast (b1 AND 0x1f)) OR ucast b2,
     transport_scrambling_control = drop_bit 6 b3 AND 0x03,
     adaptation_field_control = drop_bit 4 b3 AND 0x03,
     continuity_counter = b3 AND 0x0f\<rparr>"

record adaptation_field_header =
  discontinuity_indicator :: u8
  random_access_indicator :: u8
  elemetary_stream_priority_indicator :: u8
  PCR_flag :: u8
  OPCR_flag :: u8
  splicing_point_flag :: u8
  transport_private_data_flag :: u8
  adaptation_field_extension_flag :: u8

definition parse_adaptation_field :: "u8 \<Rightarrow> adaptation_field_header" where
  "parse_adaptation_field b =
    \<lparr>discontinuity_indicator = drop_bit 7 b AND 0x1,
     random_access_indicator = drop_bit 6 b AND 0x1,
     elemetary_stream_priority_indicator = drop_bit 5 b AND 0x1,
     PCR_flag = drop_bit 4 b AND 0x1,
     OPCR_flag = drop_bit 3 b AND 0x1,
     splicing_point_flag = drop_bit 2 b AND 0x1,
     transport_private_data_flag = drop_bit 1 b AND 0x1,
     adaptation_field_extension_flag = b AND 0x1\<rparr>"

text \<open>\<open>pcr_t::parse\<close>; \<open>dw\<close> and \<open>w\<close> are the first four and the last two of six bytes.\<close>

definition parse_pcr :: "u8 \<Rightarrow> u8 \<Rightarrow> u8 \<Rightarrow> u8 \<Rightarrow> u8 \<Rightarrow> u8 \<Rightarrow> u64" where
  "parse_pcr b0 b1 b2 b3 b4 b5 =
    (let dw = push_bit 24 (ucast b0) OR push_bit 16 (ucast b1) OR push_bit 8 (ucast b2) OR ucast b3 :: u32;
         w = push_bit 8 (ucast b4) OR ucast b5 :: u16;
         base = push_bit 1 (ucast dw) OR ucast (drop_bit 15 w AND 0x1) :: u64;
         extension = ucast w AND 0x1ff :: u64
     in base * 300 + extension)"

section \<open>Dates and durations\<close>

text \<open>\<open>sprintf (buf, "%x", b); atoi (buf)\<close>: the hexadecimal digits of a byte, read as a decimal
  number up to the first digit above nine.\<close>

definition hex_digits :: "u8 \<Rightarrow> nat list" where
  "hex_digits b =
    (let n = unat b in if n < 16 then [n] else [n div 16, n mod 16])"

fun atoi :: "nat \<Rightarrow> nat list \<Rightarrow> nat" where
  "atoi acc [] = acc"
| "atoi acc (d # ds) = (if d \<le> 9 then atoi (10 * acc + d) ds else acc)"

definition bcd_byte :: "u8 \<Rightarrow> int" where
  "bcd_byte b = int (atoi 0 (hex_digits b))"

definition get_sec_from_bcd :: "u8 \<Rightarrow> u8 \<Rightarrow> u8 \<Rightarrow> int" where
  "get_sec_from_bcd h m s =
    (if h = 0xff \<and> m = 0xff \<and> s = 0xff then 0 + 0 + (-1)
     else bcd_byte h * 3600 + bcd_byte m * 60 + bcd_byte s)"

text \<open>\<open>struct tm\<close> as \<open>get_epoch_from_mjd\<close> fills it before \<open>mktime\<close>. The conversions from
  \<open>double\<close> to \<open>int\<close> cut off towards zero; the quotients are never integers, nor nearer to one than
  a thousandth of a thousandth, so that exact division gives the same integers.\<close>

record tm =
  tm_year :: int
  tm_mon :: int
  tm_mday :: int
  tm_hour :: int
  tm_min :: int
  tm_sec :: int

definition cut :: "int \<Rightarrow> int \<Rightarrow> int" where
  "cut a b = (if a < 0 then - ((- a) div b) else a div b)"

definition mjd_date :: "int \<Rightarrow> int \<times> int \<times> int" where
  "mjd_date tnum =
    (let yy = cut (100 * tnum - 1507820) 36525;
         mm = cut (1000 * ((10 * tnum - 149561) - 10 * cut (yy * 36525) 100)) 306001;
         dd = (tnum - 14956) - cut (yy * 36525) 100 - cut (mm * 306001) 10000
     in if mm = 14 \<or> mm = 15 then (yy + 1, mm - 1 - 1 * 12, dd) else (yy, mm - 1, dd))"

definition tm_from_mjd :: "u8 \<Rightarrow> u8 \<Rightarrow> u8 \<Rightarrow> u8 \<Rightarrow> u8 \<Rightarrow> tm" where
  "tm_from_mjd b0 b1 b2 b3 b4 =
    (case mjd_date (uint (push_bit 8 (ucast b0) OR ucast b1 :: u16)) of (yy, mm, dd) \<Rightarrow>
      \<lparr>tm_year = yy, tm_mon = mm - 1, tm_mday = dd,
       tm_hour = bcd_byte b2, tm_min = bcd_byte b3, tm_sec = bcd_byte b4\<rparr>)"

section \<open>Channels\<close>

text \<open>The subtraction in \<open>freq_khz2physical_ch\<close> is unsigned, the one in \<open>physical_ch2freq_khz\<close> is
  done in \<open>int\<close> and converted.\<close>

definition freq_khz2physical_ch :: "u32 \<Rightarrow> u16" where
  "freq_khz2physical_ch freq = ucast ((freq - 473143) div 6000 + 13)"

definition physical_ch2freq_khz :: "u16 \<Rightarrow> u32" where
  "physical_ch2freq_khz ch = word_of_int ((uint ch - 13) * 6000 + 473143)"

section \<open>Lemmas\<close>

lemma unat_u8: "k < 256 \<Longrightarrow> unat (word_of_nat k :: u8) = k"
  by (simp add: unat_of_nat take_bit_eq_mod)

text \<open>Two decimal digits in a byte.\<close>

definition to_bcd :: "nat \<Rightarrow> u8" where
  "to_bcd n = word_of_nat (16 * (n div 10) + n mod 10)"

lemma unat_to_bcd: "n < 100 \<Longrightarrow> unat (to_bcd n) = 16 * (n div 10) + n mod 10"
  unfolding to_bcd_def by (rule unat_u8) linarith

lemma bcd_byte_to_bcd: "n < 100 \<Longrightarrow> bcd_byte (to_bcd n) = int n"
proof -
  assume n: "n < 100"
  then have "n div 10 \<le> 9" "n mod 10 \<le> 9" by linarith+
  with n show ?thesis
    by (cases "n div 10 = 0") (simp_all add: bcd_byte_def hex_digits_def unat_to_bcd Let_def)
qed

lemma to_bcd_not_ff: "n < 100 \<Longrightarrow> to_bcd n \<noteq> 0xff"
proof
  assume "n < 100" "to_bcd n = 0xff"
  then have "16 * (n div 10) + n mod 10 = 255" using unat_to_bcd by fastforce
  with \<open>n < 100\<close> show False by linarith
qed

lemma sec_from_to_bcd:
  "\<lbrakk>h < 100; m < 100; s < 100\<rbrakk> \<Longrightarrow>
   get_sec_from_bcd (to_bcd h) (to_bcd m) (to_bcd s) = int (h * 3600 + m * 60 + s)"
  by (simp add: get_sec_from_bcd_def to_bcd_not_ff bcd_byte_to_bcd)

text \<open>The number of a day: \<open>y\<close> years after 1900; the years are counted from March.\<close>

definition day_number :: "int \<Rightarrow> int \<Rightarrow> int \<Rightarrow> int" where
  "day_number y m d =
    (let y' = (if m \<le> 2 then y - 1 else y); m' = (if m \<le> 2 then m + 12 else m)
     in 14956 + d + (1461 * y') div 4 + (306001 * (m' + 1)) div 10000)"

text \<open>The calendar from March 1900 on; 1900 itself has no leap day, 2000 has one.\<close>

definition days_in_month :: "int \<Rightarrow> int \<Rightarrow> int" where
  "days_in_month y m =
    (if m = 2 then (if y mod 4 = 0 then 29 else 28)
     else if m = 4 \<or> m = 6 \<or> m = 9 \<or> m = 11 then 30 else 31)"

definition valid_date :: "int \<Rightarrow> int \<Rightarrow> int \<Rightarrow> bool" where
  "valid_date y m d =
    (0 \<le> y \<and> y < 200 \<and> (y = 0 \<longrightarrow> 3 \<le> m) \<and> 1 \<le> m \<and> m \<le> 12 \<and> 1 \<le> d \<and> d \<le> days_in_month y m)"

lemma mjd_year:
  assumes "0 \<le> Y" "123 \<le> e" "e \<le> 487 \<or> e = 488 \<and> Y mod 4 = 3"
  shows "cut (100 * (14956 + e + (1461 * Y) div 4) - 1507820) 36525 = Y"
proof -
  define q r where "q = Y div 4" and "r = Y mod 4"
  have Y: "Y = 4 * q + r" and r: "r \<in> {0, 1, 2, 3}" by (auto simp: q_def r_def)
  have q0: "0 \<le> q" using assms(1) by (simp add: q_def)
  have "(1461 * Y) div 4 = 1461 * q + 365 * r" using r unfolding Y by auto
  then have "100 * (14956 + e + (1461 * Y) div 4) - 1507820
      = 36525 * Y + (100 * e - 12220 - 25 * r)"
    unfolding Y by simp
  moreover have "0 \<le> 100 * e - 12220 - 25 * r" "100 * e - 12220 - 25 * r < 36525"
    using assms(2,3) r by (auto simp: r_def)
  ultimately show ?thesis using assms(1) by (simp add: cut_def)
qed

lemma month_cases:
  assumes "3 \<le> M" "M \<le> 14"
  shows "M \<in> {3, 4, 5, 6, 7, 8, 9, 10, 11, 12, 13, 14 :: int}"
  unfolding insert_iff empty_iff using assms by presburger

lemma cutI: "\<lbrakk>0 < b; 0 \<le> q; b * q \<le> a; a < b * (q + 1)\<rbrakk> \<Longrightarrow> cut a b = q"
proof -
  assume "0 < b" "0 \<le> q" "b * q \<le> a" "a < b * (q + 1)"
  moreover from this have "a div b = q"
    by (intro int_div_pos_eq [of a b q "a - b * q"]) (auto simp: algebra_simps)
  moreover have "0 \<le> b * q" using \<open>0 < b\<close> \<open>0 \<le> q\<close> by simp
  then have "\<not> a < 0" using \<open>b * q \<le> a\<close> by linarith
  ultimately show ?thesis by (simp add: cut_def)
qed

lemma mjd_month:
  assumes "3 \<le> M" "M \<le> 14" "1 \<le> d" "d \<le> 31" "(M = 4 \<or> M = 6 \<or> M = 9 \<or> M = 11 \<or> M = 14) \<longrightarrow> d \<le> 30"
  shows "cut (1000 * (10 * (d + (306001 * (M + 1)) div 10000) - 1)) 306001 = M + 1"
proof -
  have "M \<in> {3, 4, 5, 6, 7, 8, 9, 10, 11, 12, 13, 14}" using assms by (intro month_cases)
  then show ?thesis
    by (elim insertE emptyE; intro cutI; use assms(3-5) in simp)
qed

lemma mjd_date_day_number:
  assumes "valid_date y m d"
  shows "mjd_date (day_number y m d) = (y, m, d)"
proof -
  define Y where "Y = (if m \<le> 2 then y - 1 else y)"
  define M where "M = (if m \<le> 2 then m + 12 else m)"
  define e where "e = d + (306001 * (M + 1)) div 10000"
  have num: "day_number y m d = 14956 + e + (1461 * Y) div 4"
    by (simp add: day_number_def Let_def Y_def M_def e_def)
  have Y0: "0 \<le> Y" and M: "3 \<le> M" "M \<le> 14" and d: "1 \<le> d" "d \<le> 31"
    and short: "(M = 4 \<or> M = 6 \<or> M = 9 \<or> M = 11 \<or> M = 14) \<longrightarrow> d \<le> 30"
    using assms by (auto simp: valid_date_def days_in_month_def Y_def M_def split: if_splits)
  have m: "M \<in> {3, 4, 5, 6, 7, 8, 9, 10, 11, 12, 13, 14}" using M by (rule month_cases)
  have "e \<le> 487 \<or> e = 488 \<and> Y mod 4 = 3"
  proof (cases "M = 14")
    case True
    then have "m = 2" using assms by (auto simp: valid_date_def M_def split: if_splits)
    then have "d \<le> 28 \<or> d = 29 \<and> y mod 4 = 0" "Y = y - 1"
      using assms by (auto simp: valid_date_def days_in_month_def Y_def split: if_splits)
    moreover have "y mod 4 = 0 \<Longrightarrow> (y - 1) mod 4 = 3" by presburger
    ultimately show ?thesis using True by (auto simp: e_def)
  next
    case False
    then show ?thesis using m d by (auto simp: e_def)
  qed
  moreover have "123 \<le> e" using m d by (auto simp: e_def)
  ultimately have yy: "cut (100 * day_number y m d - 1507820) 36525 = Y"
    unfolding num by (intro mjd_year [OF Y0])
  have cy: "cut (Y * 36525) 100 = (1461 * Y) div 4" using Y0 by (simp add: cut_def)
  have eq: "1000 * ((10 * day_number y m d - 149561) - 10 * ((1461 * Y) div 4)) = 1000 * (10 * e - 1)"
    unfolding num by simp
  have mm: "cut (1000 * ((10 * day_number y m d - 149561) - 10 * cut (Y * 36525) 100)) 306001 = M + 1"
    unfolding cy eq e_def by (rule mjd_month [OF M d short])
  have dd: "day_number y m d - 14956 - cut (Y * 36525) 100 - cut ((M + 1) * 306001) 10000 = d"
    using M unfolding num cy by (simp add: e_def cut_def mult.commute)
  show ?thesis
    unfolding mjd_date_def Let_def yy mm dd
    using assms by (auto simp: Y_def M_def valid_date_def)
qed

section \<open>The colour table\<close>

text \<open>Red, green, blue and alpha of the 128 colours.\<close>

definition g_CLUTPalette :: "(u8 \<times> u8 \<times> u8 \<times> u8) list" where
  "g_CLUTPalette = [
    (0, 0, 0, 255), (255, 0, 0, 255), (0, 255, 0, 255), (255, 255, 0, 255),
    (0, 0, 255, 255), (255, 0, 255, 255), (0, 255, 255, 255), (255, 255, 255, 255),
    (0, 0, 0, 0), (170, 0, 0, 255), (0, 170, 0, 255), (170, 170, 0, 255),
    (0, 0, 170, 255), (170, 0, 170, 255), (0, 170, 170, 255), (170, 170, 170, 255),
    (0, 0, 85, 255), (0, 85, 0, 255), (0, 85, 85, 255), (0, 85, 170, 255),
    (0, 85, 255, 255), (0, 170, 85, 255), (0, 170, 255, 255), (0, 255, 85, 255),
    (0, 255, 170, 255), (85, 0, 0, 255), (85, 0, 85, 255), (85, 0, 170, 255),
    (85, 0, 255, 255), (85, 85, 0, 255), (85, 85, 85, 255), (85, 85, 170, 255),
    (85, 85, 255, 255), (85, 170, 0, 255), (85, 170, 85, 255), (85, 170, 170, 255),
    (85, 170, 255, 255), (85, 255, 0, 255), (85, 255, 85, 255), (85, 255, 170, 255),
    (85, 255, 255, 255), (170, 0, 85, 255), (170, 0, 255, 255), (170, 85, 0, 255),
    (170, 85, 85, 255), (170, 85, 170, 255), (170, 85, 255, 255), (170, 170, 85, 255),
    (170, 170, 255, 255), (170, 255, 0, 255), (170, 255, 85, 255), (170, 255, 170, 255),
    (170, 255, 255, 255), (255, 0, 85, 255), (255, 0, 255, 255), (255, 85, 0, 255),
    (255, 85, 85, 255), (255, 85, 170, 255), (255, 85, 255, 255), (255, 170, 0, 255),
    (255, 170, 85, 255), (255, 170, 170, 255), (255, 170, 255, 255), (255, 255, 85, 255),
    (255, 255, 170, 255), (0, 0, 0, 128), (255, 0, 0, 128), (0, 255, 0, 128),
    (255, 255, 0, 128), (0, 0, 255, 128), (255, 0, 255, 128), (0, 255, 255, 128),
    (255, 255, 255, 128), (170, 0, 0, 128), (0, 170, 0, 128), (170, 170, 0, 128),
    (0, 0, 170, 128), (170, 0, 170, 128), (0, 170, 170, 128), (170, 170, 170, 128),
    (0, 0, 85, 128), (0, 85, 0, 128), (0, 85, 85, 128), (0, 85, 170, 128),
    (0, 85, 255, 128), (0, 170, 85, 128), (0, 170, 255, 128), (0, 255, 85, 128),
    (0, 255, 170, 128), (85, 0, 0, 128), (85, 0, 85, 128), (85, 0, 170, 128),
    (85, 0, 255, 128), (85, 85, 0, 128), (85, 85, 85, 128), (85, 85, 170, 128),
    (85, 85, 255, 128), (85, 170, 0, 128), (85, 170, 85, 128), (85, 170, 170, 128),
    (85, 170, 255, 128), (85, 255, 0, 128), (85, 255, 85, 128), (85, 255, 170, 128),
    (85, 255, 255, 128), (170, 0, 85, 128), (170, 0, 255, 128), (170, 85, 0, 128),
    (170, 85, 85, 128), (170, 85, 170, 128), (170, 85, 255, 128), (170, 170, 85, 128),
    (170, 170, 255, 128), (170, 255, 0, 128), (170, 255, 85, 128), (170, 255, 170, 128),
    (170, 255, 255, 128), (255, 0, 85, 128), (255, 0, 255, 128), (255, 85, 0, 128),
    (255, 85, 85, 128), (255, 85, 170, 128), (255, 85, 255, 128), (255, 170, 0, 128),
    (255, 170, 85, 128), (255, 170, 170, 128), (255, 170, 255, 128), (255, 255, 85, 128)]"

text \<open>\<open>get_clut_palette\<close> for the components 0 to 3; an index outside the table reads beside it.\<close>

definition get_clut_palette :: "nat \<Rightarrow> nat \<Rightarrow> u8 option" where
  "get_clut_palette idx rgba =
    (if idx < length g_CLUTPalette \<and> rgba < 4
     then (case g_CLUTPalette ! idx of (r, g, b, a) \<Rightarrow> Some ([r, g, b, a] ! rgba)) else None)"

section \<open>Properties\<close>

lemma day_bytes:
  assumes "0 \<le> n" "n < 65536"
  shows "uint (push_bit 8 (ucast (word_of_int (n div 256) :: u8)) OR
      ucast (word_of_int (n mod 256) :: u8) :: u16) = n"
proof -
  have "push_bit 8 (ucast (word_of_int (drop_bit 8 n) :: u8)) OR
      ucast (word_of_int (take_bit 8 n) :: u8) = (word_of_int n :: u16)"
    by (rule bit_word_eqI) (auto simp: bit_simps)
  then show ?thesis using assms by (simp add: drop_bit_eq_div take_bit_eq_mod uint_word_of_int)
qed

text \<open>Dates and times are read back: for every date from March 1900 on whose day number fits
  into the 16 bits of the broadcast, and every time in binary coded decimal.\<close>

theorem broadcast_time_roundtrip:
  assumes "valid_date y m d" "day_number y m d < 65536" "h < 100" "mi < 100" "s < 100"
  shows "tm_from_mjd (word_of_int (day_number y m d div 256)) (word_of_int (day_number y m d mod 256))
      (to_bcd h) (to_bcd mi) (to_bcd s)
    = \<lparr>tm_year = y, tm_mon = m - 1, tm_mday = d, tm_hour = int h, tm_min = int mi, tm_sec = int s\<rparr>"
proof -
  let ?n = "day_number y m d"
  have "0 \<le> ?n" using assms(1) by (auto simp: valid_date_def day_number_def Let_def)
  then have "uint (push_bit 8 (ucast (word_of_int (?n div 256) :: u8)) OR
      ucast (word_of_int (?n mod 256) :: u8) :: u16) = ?n"
    using assms(2) by (rule day_bytes)
  then show ?thesis
    using assms by (simp add: tm_from_mjd_def mjd_date_day_number bcd_byte_to_bcd)
qed

theorem broadcast_time_roundtrip_witness:
  "tm_from_mjd (word_of_int (day_number 124 2 29 div 256)) (word_of_int (day_number 124 2 29 mod 256))
      (to_bcd 23) (to_bcd 59) (to_bcd 7)
    = \<lparr>tm_year = 124, tm_mon = 2 - 1, tm_mday = 29, tm_hour = int 23, tm_min = int 59, tm_sec = int 7\<rparr>"
  by (rule broadcast_time_roundtrip)
    (simp_all add: valid_date_def days_in_month_def day_number_def Let_def)

text \<open>Every channel from 13 on is read back from its frequency.\<close>

theorem channel_plan_roundtrip:
  assumes "13 \<le> uint ch"
  shows "freq_khz2physical_ch (physical_ch2freq_khz ch) = ch"
proof -
  have ch: "uint ch < 65536" using uint_bounded [of ch] by simp
  define k where "k = uint ch - 13"
  define f where "f = physical_ch2freq_khz ch - 473143"
  have k: "0 \<le> k" "k < 65523" using assms ch by (simp_all add: k_def)
  have f: "f = word_of_int (k * 6000)" by (simp only: f_def physical_ch2freq_khz_def k_def) simp
  have "uint f = 6000 * k" unfolding f uint_word_of_int using k by simp
  then have "uint (f div 6000) = k" by (simp add: uint_div)
  then have "f div 6000 = word_of_int k" by (metis word_of_int_uint)
  then have "freq_khz2physical_ch (physical_ch2freq_khz ch) = ucast (word_of_int k + 13 :: u32)"
    by (simp add: freq_khz2physical_ch_def f_def)
  also have "word_of_int k + 13 = (word_of_int (uint ch) :: u32)" by (simp add: k_def)
  also have "ucast (word_of_int (uint ch) :: u32) = ch"
    by (rule bit_word_eqI) (auto simp: bit_simps)
  finally show ?thesis .
qed

theorem channel_plan_roundtrip_witness: "freq_khz2physical_ch (physical_ch2freq_khz 27) = 27"
  by (rule channel_plan_roundtrip) simp

text \<open>The second half of the colour table repeats the opaque colours of the first half in their
  order, half transparent, but for the last one, for which there is no room.\<close>

lemma palette_halves:
  "drop 65 g_CLUTPalette
   = butlast (map (\<lambda>(r, g, b, a). (r, g, b, 128)) (filter (\<lambda>(r, g, b, a). a = 255) (take 65 g_CLUTPalette)))"
  by (simp add: g_CLUTPalette_def)

end
