(* ===== verification/Tuner_Service.thy ===== *)
theory Tuner_Service
  imports Arib_Common
begin

text \<open>
  \<open>tuner_service/tuner_service.cpp\<close>: the allocation of tuners to modules and the requests to tune.
  The answers of the tuner control and of the PSI/SI manager are arguments. A handler holds the
  lock of its module while it waits, so it is one step.
\<close>

section \<open>State\<close>

datatype module_id = M_tune_thread nat | M_tuner_control nat | M_psisi_manager nat
  | M_tuner_service | M_rec_manager | M_channel_manager | M_event_schedule_manager
  | M_event_search | M_viewing_manager | M_command_server | M_max

datatype client_priority = PRI_OTHER | PRI_COMMAND | PRI_EVENT_SCHEDULE | PRI_LIVE_VIEW
  | PRI_CHANNEL_SCAN | PRI_RECORDING

record tuner_resource =
  tuner_id :: u8
  owner :: module_id
  priority :: client_priority
  is_now_tuned :: bool

definition cleared_resource :: tuner_resource where
  "cleared_resource =
    \<lparr>tuner_id = 0xff, owner = M_max, priority = PRI_OTHER, is_now_tuned = False\<rparr>"

record tuner_service =
  resource_max :: nat
  resource_allcates :: "tuner_resource list"
  next_allocate_tuner_id :: u8

definition tuner_module_up :: "nat \<Rightarrow> tuner_service" where
  "tuner_module_up n =
    \<lparr>resource_max = n, resource_allcates = replicate n cleared_resource, next_allocate_tuner_id = 0\<rparr>"

definition get_priority :: "module_id \<Rightarrow> client_priority" where
  "get_priority m =
    (case m of M_rec_manager \<Rightarrow> PRI_RECORDING
     | M_event_schedule_manager \<Rightarrow> PRI_EVENT_SCHEDULE
     | M_channel_manager \<Rightarrow> PRI_CHANNEL_SCAN
     | M_command_server \<Rightarrow> PRI_COMMAND
     | _ \<Rightarrow> PRI_OTHER)"

section \<open>Allocation\<close>

definition give_tuner :: "u8 \<Rightarrow> module_id \<Rightarrow> tuner_service \<Rightarrow> tuner_service" where
  "give_tuner t m ts =
    ts\<lparr>resource_allcates := (resource_allcates ts)[unat t :=
       (resource_allcates ts ! unat t)\<lparr>tuner_id := t, owner := m, priority := get_priority m\<rparr>]\<rparr>"

definition allocate_linear :: "module_id \<Rightarrow> tuner_service \<Rightarrow> u8 \<times> tuner_service" where
  "allocate_linear m ts =
    (let i = length (takeWhile (\<lambda>a. tuner_id a \<noteq> 0xff) (resource_allcates ts))
     in if i < resource_max ts then (word_of_nat i, give_tuner (word_of_nat i) m ts)
        else (0xff, ts))"

definition set_next :: "tuner_service \<Rightarrow> tuner_service" where
  "set_next ts =
    (let n = next_allocate_tuner_id ts + 1
     in ts\<lparr>next_allocate_tuner_id := (if unat n = resource_max ts then 0 else n)\<rparr>)"

text \<open>The loop of \<open>allocate_round_robin\<close>: \<open>Outside\<close> when it reads a resource that does not
  exist, \<open>Unfinished\<close> when the fuel, the number of turns, does not suffice.\<close>

datatype 'a outcome = Returned 'a | Outside | Unfinished

fun round_robin_loop ::
  "nat \<Rightarrow> u8 \<Rightarrow> nat \<Rightarrow> module_id \<Rightarrow> tuner_service \<Rightarrow> (u8 \<times> tuner_service) outcome" where
  "round_robin_loop 0 init n m ts = Unfinished"
| "round_robin_loop (Suc fuel) init n m ts =
    (if init = next_allocate_tuner_id ts \<and> n \<noteq> 0 then Returned (0xff, ts)
     else if \<not> unat (next_allocate_tuner_id ts) < length (resource_allcates ts) then Outside
     else if tuner_id (resource_allcates ts ! unat (next_allocate_tuner_id ts)) = 0xff
     then Returned (next_allocate_tuner_id ts,
            set_next (give_tuner (next_allocate_tuner_id ts) m ts))
     else round_robin_loop fuel init (Suc n) m (set_next ts))"

definition allocate_round_robin ::
  "nat \<Rightarrow> module_id \<Rightarrow> tuner_service \<Rightarrow> (u8 \<times> tuner_service) outcome" where
  "allocate_round_robin fuel m ts = round_robin_loop fuel (next_allocate_tuner_id ts) 0 m ts"

definition release :: "u8 \<Rightarrow> tuner_service \<Rightarrow> bool \<times> tuner_service" where
  "release t ts =
    (if unat t < resource_max ts then
       if is_now_tuned (resource_allcates ts ! unat t) then (False, ts)
       else (True, ts\<lparr>resource_allcates := (resource_allcates ts)[unat t := cleared_resource]\<rparr>)
     else (False, ts))"

definition pre_check :: "u8 \<Rightarrow> module_id \<Rightarrow> bool \<Rightarrow> tuner_service \<Rightarrow> bool" where
  "pre_check t m is_req_tune ts =
    (if unat t < resource_max ts then
       let a = resource_allcates ts ! unat t
       in if tuner_id a = t \<and> owner a = m
          then (if is_req_tune then \<not> is_now_tuned a else is_now_tuned a)
          else False
     else False)"

section \<open>Handlers\<close>

text \<open>\<open>on_open\<close>: the reply is the identifier, \<open>None\<close> an error reply. The fuel is one more than
  the number of tuners.\<close>

definition on_open :: "module_id \<Rightarrow> tuner_service \<Rightarrow> (u8 option \<times> tuner_service) outcome" where
  "on_open caller ts =
    (case allocate_round_robin (Suc (resource_max ts)) caller ts of
       Returned (t, ts') \<Rightarrow> Returned (if t \<noteq> 0xff then Some t else None, ts')
     | Outside \<Rightarrow> Outside
     | Unfinished \<Rightarrow> Unfinished)"

definition on_close :: "u8 \<Rightarrow> tuner_service \<Rightarrow> bool \<times> tuner_service" where
  "on_close t ts = release t ts"

text \<open>The replies to one \<open>on_tune\<close>: of the tuner control, and of the PSI/SI manager for each
  of the polls (\<open>None\<close> an error reply).\<close>

record tune_answers =
  ta_tune :: "u32 \<Rightarrow> bool"
  ta_ready :: "nat \<Rightarrow> bool option"
  ta_stop :: bool

fun poll_ready :: "(nat \<Rightarrow> bool option) \<Rightarrow> nat list \<Rightarrow> bool" where
  "poll_ready answer [] = False"
| "poll_ready answer (retry # rest) =
    (case answer retry of None \<Rightarrow> poll_ready answer rest
     | Some ready \<Rightarrow> if ready then True else poll_ready answer rest)"

definition set_tuned :: "u8 \<Rightarrow> bool \<Rightarrow> tuner_service \<Rightarrow> tuner_service" where
  "set_tuned t b ts =
    ts\<lparr>resource_allcates := (resource_allcates ts)[unat t :=
       (resource_allcates ts ! unat t)\<lparr>is_now_tuned := b\<rparr>]\<rparr>"

text \<open>\<open>caller\<close> is the module the request comes from, \<open>carried\<close> the one in the message, which counts
  when the request comes from \<open>on_tune_with_retry\<close>.\<close>

definition effective_caller :: "module_id \<Rightarrow> module_id \<Rightarrow> module_id" where
  "effective_caller caller carried = (if caller = M_tuner_service then carried else caller)"

definition on_tune ::
  "tune_answers \<Rightarrow> module_id \<Rightarrow> module_id \<Rightarrow> u16 \<Rightarrow> u8 \<Rightarrow> tuner_service \<Rightarrow> bool \<times> tuner_service" where
  "on_tune a caller carried ch t ts =
    (let m = effective_caller caller carried in
     if \<not> pre_check t m True ts then (False, ts)
     else if \<not> ta_tune a (physical_ch2freq_khz ch) then (False, ts)
     else if \<not> poll_ready (ta_ready a) [0..<76] then (False, ts)
     else (True, set_tuned t True ts))"

fun tune_attempts ::
  "nat \<Rightarrow> (nat \<Rightarrow> tune_answers) \<Rightarrow> module_id \<Rightarrow> u16 \<Rightarrow> u8 \<Rightarrow> tuner_service \<Rightarrow> bool \<times> tuner_service" where
  "tune_attempts retry a m ch t ts =
    (let r = on_tune (a retry) M_tuner_service m ch t ts
     in if fst r then (True, snd r)
        else case retry of 0 \<Rightarrow> (False, snd r) | Suc retry' \<Rightarrow> tune_attempts retry' a m ch t (snd r))"

declare tune_attempts.simps [simp del]

text \<open>Three retries: \<open>a 3\<close> answers the first attempt, \<open>a 0\<close> the last.\<close>

definition on_tune_with_retry ::
  "(nat \<Rightarrow> tune_answers) \<Rightarrow> module_id \<Rightarrow> module_id \<Rightarrow> u16 \<Rightarrow> u8 \<Rightarrow> tuner_service \<Rightarrow> bool \<times> tuner_service" where
  "on_tune_with_retry a caller carried ch t ts =
    (let m = effective_caller caller carried in
     if \<not> pre_check t m True ts then (False, ts) else tune_attempts 3 a m ch t ts)"

definition on_tune_stop :: "tune_answers \<Rightarrow> module_id \<Rightarrow> u8 \<Rightarrow> tuner_service \<Rightarrow> bool \<times> tuner_service" where
  "on_tune_stop a caller t ts =
    (if \<not> pre_check t caller False ts then (False, ts)
     else if ta_stop a then (True, set_tuned t False ts)
     else (False, ts))"

end
