(* ===== verification/Tuner_Claims.thy ===== *)
theory Tuner_Claims
  imports Tuner_Service
begin

text \<open>
  The allocation of tuners: the round robin loop ends and gives the next free tuner in turn, an
  allocated tuner answers its owner only, the retries of a tune request, and a request to close
  that comes from another module.
\<close>

definition free_tuner :: "tuner_service \<Rightarrow> nat \<Rightarrow> bool" where
  "free_tuner ts i = (tuner_id (resource_allcates ts ! i) = 0xff)"

text \<open>A resource is cleared, or it is allocated under its own index; only an allocated one is
  tuned.\<close>

definition resource_ok :: "nat \<Rightarrow> tuner_resource \<Rightarrow> bool" where
  "resource_ok i a = (a = cleared_resource \<or> tuner_id a = word_of_nat i)"

definition tuners_ok :: "tuner_service \<Rightarrow> bool" where
  "tuners_ok ts =
    (length (resource_allcates ts) = resource_max ts \<and> resource_max ts < 255 \<and>
     unat (next_allocate_tuner_id ts) < max 1 (resource_max ts) \<and>
     (\<forall>i<resource_max ts. resource_ok i (resource_allcates ts ! i)))"

lemma unat_tuner: "i < 255 \<Longrightarrow> unat (word_of_nat i :: u8) = i"
  by (simp add: unat_of_nat take_bit_eq_mod)

lemma tuner_not_ff: "i < 255 \<Longrightarrow> (word_of_nat i :: u8) \<noteq> 0xff"
proof
  assume "i < 255" "(word_of_nat i :: u8) = 0xff"
  then show False using unat_tuner [of i] by simp
qed

section \<open>Round robin\<close>

definition turn_from :: "nat \<Rightarrow> u8 \<Rightarrow> tuner_service \<Rightarrow> nat list" where
  "turn_from n init ts = map (\<lambda>k. (unat init + k) mod resource_max ts) [n..<resource_max ts]"

definition granted :: "u8 \<Rightarrow> module_id \<Rightarrow> tuner_service \<Rightarrow> nat option \<Rightarrow> u8 \<times> tuner_service" where
  "granted init m ts found =
    (case found of
       None \<Rightarrow> (0xff, ts\<lparr>next_allocate_tuner_id := init\<rparr>)
     | Some i \<Rightarrow> (word_of_nat i, (give_tuner (word_of_nat i) m ts)
         \<lparr>next_allocate_tuner_id := word_of_nat (Suc i mod resource_max ts)\<rparr>))"

lemma give_tuner_frames [simp]:
  "resource_max (give_tuner t m ts) = resource_max ts"
  "next_allocate_tuner_id (give_tuner t m ts) = next_allocate_tuner_id ts"
  "length (resource_allcates (give_tuner t m ts)) = length (resource_allcates ts)"
  by (simp_all add: give_tuner_def)

lemma set_next_value:
  assumes "unat (next_allocate_tuner_id ts) < resource_max ts" "resource_max ts < 255"
  shows "set_next ts =
    ts\<lparr>next_allocate_tuner_id := word_of_nat (Suc (unat (next_allocate_tuner_id ts)) mod resource_max ts)\<rparr>"
proof -
  let ?n = "next_allocate_tuner_id ts"
  have s: "?n + 1 = word_of_nat (Suc (unat ?n))" by simp
  have u: "unat (word_of_nat (Suc (unat ?n)) :: u8) = Suc (unat ?n)"
    using assms by (intro unat_u8) simp
  show ?thesis
    unfolding set_next_def Let_def s u using assms by (auto simp: mod_Suc)
qed

lemma mod_full_turn:
  assumes "i < m" "0 < n" "n < (m :: nat)"
  shows "(i + n) mod m \<noteq> i"
proof (cases "i + n < m")
  case True
  with assms show ?thesis by simp
next
  case False
  then have "(i + n) mod m = i + n - m" using assms by (simp add: mod_if)
  with assms False show ?thesis by linarith
qed

lemma round_robin_result:
  assumes "length (resource_allcates ts) = resource_max ts" "resource_max ts < 255"
    and "unat init < resource_max ts" "n \<le> resource_max ts"
    and "next_allocate_tuner_id ts = word_of_nat ((unat init + n) mod resource_max ts)"
    and "resource_max ts - n < fuel"
  shows "round_robin_loop fuel init n m ts
    = Returned (granted init m ts (find (free_tuner ts) (turn_from n init ts)))"
  using assms
proof (induction fuel arbitrary: n ts)
  case 0
  then show ?case by simp
next
  case (Suc fuel)
  let ?M = "resource_max ts" and ?i = "(unat init + n) mod resource_max ts"
  have lt: "?i < ?M" using Suc.prems(3) by simp
  have nx: "unat (next_allocate_tuner_id ts) = ?i"
    unfolding Suc.prems(5) by (rule unat_tuner) (use lt Suc.prems(2) in simp)
  show ?case
  proof (cases "n = ?M")
    case True
    then have i: "?i = unat init" using Suc.prems(3) by simp
    have "next_allocate_tuner_id ts = init" unfolding Suc.prems(5) i by simp
    moreover from this have "ts\<lparr>next_allocate_tuner_id := init\<rparr> = ts" by simp
    ultimately show ?thesis
      using True Suc.prems(3) by (simp add: turn_from_def granted_def)
  next
    case False
    then have n: "n < ?M" using Suc.prems(4) by simp
    have turn: "turn_from n init ts = ?i # turn_from (Suc n) init ts"
      using n by (simp add: turn_from_def upt_conv_Cons)
    have go: "\<not> (init = next_allocate_tuner_id ts \<and> n \<noteq> 0)"
      using mod_full_turn [OF Suc.prems(3), of n] n nx by (cases "n = 0") auto
    have next': "set_next ts = ts\<lparr>next_allocate_tuner_id := word_of_nat ((unat init + Suc n) mod ?M)\<rparr>"
      using set_next_value [of ts] nx lt Suc.prems(2) by (simp add: mod_Suc_eq)
    show ?thesis
    proof (cases "free_tuner ts ?i")
      case True
      have "set_next (give_tuner (word_of_nat ?i) m ts)
          = (give_tuner (word_of_nat ?i) m ts)\<lparr>next_allocate_tuner_id := word_of_nat (Suc ?i mod ?M)\<rparr>"
        using set_next_value [of "give_tuner (word_of_nat ?i) m ts"] nx lt Suc.prems(2) by simp
      then show ?thesis
        using True go lt nx turn Suc.prems(1,5) by (auto simp: granted_def free_tuner_def)
    next
      case False
      let ?ts = "set_next ts"
      have same: "resource_max ?ts = ?M" "resource_allcates ?ts = resource_allcates ts"
        "next_allocate_tuner_id ?ts = word_of_nat ((unat init + Suc n) mod ?M)"
        unfolding next' by simp_all
      have "round_robin_loop fuel init (Suc n) m ?ts
          = Returned (granted init m ?ts (find (free_tuner ?ts) (turn_from (Suc n) init ?ts)))"
        using Suc.prems n same by (intro Suc.IH) simp_all
      moreover have "turn_from (Suc n) init ?ts = turn_from (Suc n) init ts"
        "free_tuner ?ts = free_tuner ts"
        using same by (simp_all add: turn_from_def free_tuner_def [abs_def])
      moreover have "granted init m ?ts r = granted init m ts r" for r
        unfolding next' by (cases r) (simp_all add: granted_def give_tuner_def)
      moreover have "find (free_tuner ts) (turn_from n init ts) = find (free_tuner ts) (turn_from (Suc n) init ts)"
        using False turn by simp
      moreover have "tuner_id (resource_allcates ts ! ?i) \<noteq> 0xff"
        using False by (simp add: free_tuner_def)
      ultimately show ?thesis using go lt nx Suc.prems(1) by auto
    qed
  qed
qed

text \<open>The tuners in the order in which the service tries them.\<close>

definition turn_order :: "tuner_service \<Rightarrow> nat list" where
  "turn_order ts =
    map (\<lambda>k. (unat (next_allocate_tuner_id ts) + k) mod resource_max ts) [0..<resource_max ts]"

lemma turn_order_less: "\<lbrakk>i \<in> set (turn_order ts); 0 < resource_max ts\<rbrakk> \<Longrightarrow> i < resource_max ts"
  by (auto simp: turn_order_def)

lemma open_result:
  assumes "tuners_ok ts" "0 < resource_max ts"
  shows "on_open m ts = Returned
    (case find (free_tuner ts) (turn_order ts) of
       None \<Rightarrow> (None, ts)
     | Some i \<Rightarrow> (Some (word_of_nat i), (give_tuner (word_of_nat i) m ts)
         \<lparr>next_allocate_tuner_id := word_of_nat (Suc i mod resource_max ts)\<rparr>))"
proof -
  let ?init = "next_allocate_tuner_id ts"
  have init: "unat ?init < resource_max ts" using assms by (simp add: tuners_ok_def)
  have "?init = word_of_nat ((unat ?init + 0) mod resource_max ts)" using init by simp
  then have loop: "round_robin_loop (Suc (resource_max ts)) ?init 0 m ts
      = Returned (granted ?init m ts (find (free_tuner ts) (turn_order ts)))"
    using round_robin_result [of ts ?init 0 "Suc (resource_max ts)" m] assms init
    by (simp add: tuners_ok_def turn_order_def turn_from_def)
  show ?thesis
  proof (cases "find (free_tuner ts) (turn_order ts)")
    case None
    then show ?thesis using loop by (simp add: on_open_def allocate_round_robin_def granted_def)
  next
    case (Some i)
    then have "i \<in> set (turn_order ts)" by (auto simp: find_Some_iff)
    then have "i < 255" using turn_order_less assms by (fastforce simp: tuners_ok_def)
    then show ?thesis
      using loop Some tuner_not_ff by (simp add: on_open_def allocate_round_robin_def granted_def)
  qed
qed

text \<open>C37: opening a tuner ends after at most one turn around the tuners. It gives the first free
  one in turn, starting behind the one given last, and is refused, with nothing changed, exactly
  when every tuner is allocated.\<close>

theorem open_gives_the_next_free_tuner:
  assumes "tuners_ok ts" "0 < resource_max ts"
  shows "on_open m ts = Returned
    (case find (free_tuner ts) (turn_order ts) of
       None \<Rightarrow> (None, ts)
     | Some i \<Rightarrow> (Some (word_of_nat i), (give_tuner (word_of_nat i) m ts)
         \<lparr>next_allocate_tuner_id := word_of_nat (Suc i mod resource_max ts)\<rparr>))"
  by (rule open_result [OF assms])

lemma module_up_ok: "n < 255 \<Longrightarrow> tuners_ok (tuner_module_up n)"
  by (simp add: tuners_ok_def tuner_module_up_def resource_ok_def)

theorem open_gives_the_next_free_tuner_witness:
  "on_open M_rec_manager (tuner_module_up 2) = Returned
    (case find (free_tuner (tuner_module_up 2)) (turn_order (tuner_module_up 2)) of
       None \<Rightarrow> (None, tuner_module_up 2)
     | Some i \<Rightarrow> (Some (word_of_nat i), (give_tuner (word_of_nat i) M_rec_manager (tuner_module_up 2))
         \<lparr>next_allocate_tuner_id := word_of_nat (Suc i mod resource_max (tuner_module_up 2))\<rparr>))"
  by (rule open_gives_the_next_free_tuner [OF module_up_ok]) (simp_all add: tuner_module_up_def)

section \<open>The state over all requests\<close>

datatype tuner_event =
    Open module_id
  | Close u8
  | Tune tune_answers module_id module_id u16 u8
  | Tune_with_retry "nat \<Rightarrow> tune_answers" module_id module_id u16 u8
  | Tune_stop_request tune_answers module_id u8

fun tuner_step :: "tuner_event \<Rightarrow> tuner_service \<Rightarrow> tuner_service option" where
  "tuner_step (Open m) ts = (case on_open m ts of Returned (r, ts') \<Rightarrow> Some ts' | _ \<Rightarrow> None)"
| "tuner_step (Close t) ts = Some (snd (on_close t ts))"
| "tuner_step (Tune a c d ch t) ts = Some (snd (on_tune a c d ch t ts))"
| "tuner_step (Tune_with_retry a c d ch t) ts = Some (snd (on_tune_with_retry a c d ch t ts))"
| "tuner_step (Tune_stop_request a c t) ts = Some (snd (on_tune_stop a c t ts))"

fun tuner_run :: "tuner_event list \<Rightarrow> tuner_service \<Rightarrow> tuner_service option" where
  "tuner_run [] ts = Some ts"
| "tuner_run (e # es) ts =
    (case tuner_step e ts of None \<Rightarrow> None | Some ts' \<Rightarrow> tuner_run es ts')"

lemma set_tuned_frames [simp]:
  "resource_max (set_tuned t b ts) = resource_max ts"
  "next_allocate_tuner_id (set_tuned t b ts) = next_allocate_tuner_id ts"
  by (simp_all add: set_tuned_def)

text \<open>Only an allocated resource is ever tuned.\<close>

definition tuned_allocated :: "tuner_service \<Rightarrow> bool" where
  "tuned_allocated ts =
    list_all (\<lambda>a. is_now_tuned a \<longrightarrow> tuner_id a \<noteq> 0xff) (resource_allcates ts)"

definition service_ok :: "tuner_service \<Rightarrow> bool" where
  "service_ok ts = (tuners_ok ts \<and> tuned_allocated ts \<and> 0 < resource_max ts)"

lemma service_update:
  assumes "service_ok ts" "i < resource_max ts" "resource_ok i a"
    and "is_now_tuned a \<longrightarrow> tuner_id a \<noteq> 0xff" "unat n < resource_max ts"
  shows "service_ok (ts\<lparr>resource_allcates := (resource_allcates ts)[i := a], next_allocate_tuner_id := n\<rparr>)"
  using assms
  by (auto simp: service_ok_def tuners_ok_def tuned_allocated_def nth_list_update list_all_length)

lemma next_ok: "service_ok ts \<Longrightarrow> unat (next_allocate_tuner_id ts) < resource_max ts"
  by (auto simp: service_ok_def tuners_ok_def)

lemma service_update_cell:
  assumes "service_ok ts" "i < resource_max ts" "resource_ok i a"
    and "is_now_tuned a \<longrightarrow> tuner_id a \<noteq> 0xff"
  shows "service_ok (ts\<lparr>resource_allcates := (resource_allcates ts)[i := a]\<rparr>)"
  using service_update [OF assms next_ok [OF assms(1)]] by simp

lemma checked_tuner:
  assumes "service_ok ts" "pre_check t m b ts"
  shows "unat t < resource_max ts" "tuner_id (resource_allcates ts ! unat t) = t"
    "t \<noteq> 0xff" "resource_ok (unat t) (resource_allcates ts ! unat t)"
proof -
  show lt: "unat t < resource_max ts" and "tuner_id (resource_allcates ts ! unat t) = t"
    using assms(2) by (auto simp: pre_check_def Let_def split: if_splits)
  then show "t \<noteq> 0xff" "resource_ok (unat t) (resource_allcates ts ! unat t)"
    using assms(1) by (auto simp: service_ok_def tuners_ok_def)
qed

lemma set_tuned_ok:
  assumes "service_ok ts" "pre_check t m b ts"
  shows "service_ok (set_tuned t v ts)"
  unfolding set_tuned_def
  using checked_tuner [OF assms] assms(1)
  by (intro service_update_cell) (auto simp: resource_ok_def)

lemma on_tune_ok: "service_ok ts \<Longrightarrow> service_ok (snd (on_tune a c d ch t ts))"
  by (auto simp: on_tune_def Let_def intro: set_tuned_ok)

lemma tune_attempts_ok: "service_ok ts \<Longrightarrow> service_ok (snd (tune_attempts retry a m ch t ts))"
proof (induction retry arbitrary: ts)
  case 0
  then show ?case by (subst tune_attempts.simps) (simp add: Let_def on_tune_ok)
next
  case (Suc retry)
  then show ?case by (subst tune_attempts.simps) (simp add: Let_def on_tune_ok)
qed

lemma give_tuner_ok:
  assumes "service_ok ts" "i < resource_max ts"
  shows "service_ok ((give_tuner (word_of_nat i) m ts)
    \<lparr>next_allocate_tuner_id := word_of_nat (Suc i mod resource_max ts)\<rparr>)"
proof -
  have lim: "resource_max ts < 255" using assms(1) by (simp add: service_ok_def tuners_ok_def)
  have u: "unat (word_of_nat i :: u8) = i" "unat (word_of_nat (Suc i mod resource_max ts) :: u8) = Suc i mod resource_max ts"
    using assms(2) lim by (auto intro!: unat_tuner) (meson less_trans mod_less_divisor order_le_less_trans zero_le)
  have "(word_of_nat i :: u8) \<noteq> 0xff" using assms(2) lim by (intro tuner_not_ff) simp
  then show ?thesis
    unfolding give_tuner_def u
    using assms u by (intro service_update) (auto simp: resource_ok_def)
qed

lemma tuner_step_ok:
  assumes "service_ok ts" "tuner_step e ts = Some ts'"
  shows "service_ok ts'"
proof (cases e)
  case (Open m)
  have ok: "tuners_ok ts" "0 < resource_max ts" using assms(1) by (simp_all add: service_ok_def)
  show ?thesis
  proof (cases "find (free_tuner ts) (turn_order ts)")
    case None
    then show ?thesis using assms Open open_result [OF ok] by simp
  next
    case (Some i)
    then have "i \<in> set (turn_order ts)" by (auto simp: find_Some_iff)
    then have "i < resource_max ts" using turn_order_less ok(2) by blast
    then show ?thesis using assms Open Some open_result [OF ok] give_tuner_ok by auto
  qed
next
  case (Close t)
  have "resource_ok i cleared_resource" for i by (simp add: resource_ok_def)
  then show ?thesis
    using assms Close service_update_cell [OF assms(1), of "unat t" cleared_resource]
    by (auto simp: on_close_def release_def cleared_resource_def)
next
  case (Tune_stop_request a c t)
  then show ?thesis using assms set_tuned_ok by (auto simp: on_tune_stop_def split: if_splits)
qed (use assms on_tune_ok tune_attempts_ok in \<open>auto simp: on_tune_with_retry_def Let_def\<close>)

lemma tuner_run_ok:
  assumes "0 < n" "n < 255" "tuner_run es (tuner_module_up n) = Some ts"
  shows "service_ok ts"
proof -
  have "service_ok (tuner_module_up n)"
    using assms(1) module_up_ok [OF assms(2)]
    by (simp add: service_ok_def tuner_module_up_def tuned_allocated_def cleared_resource_def
        list_all_length)
  moreover have "\<lbrakk>service_ok s; tuner_run es s = Some ts\<rbrakk> \<Longrightarrow> service_ok ts" for s
    by (induction es arbitrary: s) (auto dest: tuner_step_ok split: option.splits)
  ultimately show ?thesis using assms(3) by blast
qed

text \<open>C6: after any requests to a started service every resource is cleared or allocated under its
  own index, only allocated ones are tuned, and the next tuner to try exists.\<close>

theorem tuners_stay_consistent:
  assumes "0 < n" "n < 255" "tuner_run es (tuner_module_up n) = Some ts"
  shows "service_ok ts"
  by (rule tuner_run_ok [OF assms])

theorem tuners_stay_consistent_witness:
  "service_ok (snd (on_close 1 (tuner_module_up 2)))"
  by (rule tuners_stay_consistent [of 2 "[Close 1]"]) simp_all

section \<open>Tuning\<close>

text \<open>One attempt succeeds when the tuner control tunes and the PSI/SI state becomes ready in one
  of 76 polls.\<close>

definition attempt_ok :: "(nat \<Rightarrow> tune_answers) \<Rightarrow> u16 \<Rightarrow> nat \<Rightarrow> bool" where
  "attempt_ok a ch k =
    (ta_tune (a k) (physical_ch2freq_khz ch) \<and> poll_ready (ta_ready (a k)) [0..<76])"

lemma on_tune_result:
  "on_tune (a k) M_tuner_service m ch t ts =
    (if pre_check t m True ts \<and> attempt_ok a ch k then (True, set_tuned t True ts) else (False, ts))"
  by (simp add: on_tune_def effective_caller_def attempt_ok_def)

lemma tune_attempts_result:
  "pre_check t m True ts \<Longrightarrow>
   tune_attempts retry a m ch t ts =
    (if list_ex (attempt_ok a ch) [0..<Suc retry] then (True, set_tuned t True ts) else (False, ts))"
proof (induction retry)
  case 0
  then show ?case by (subst tune_attempts.simps) (simp add: on_tune_result Let_def)
next
  case (Suc retry)
  then show ?case
    by (subst tune_attempts.simps) (auto simp: on_tune_result Let_def list_ex_iff less_Suc_eq)
qed

text \<open>A tune request with retry succeeds exactly when the caller owns the tuner, it is not
  tuned yet and one of four attempts succeeds; refused, nothing changes. A request that the
  service makes to itself counts for the module it carries.\<close>

theorem retry_makes_four_attempts:
  "on_tune_with_retry a caller carried ch t ts =
    (if pre_check t (effective_caller caller carried) True ts \<and> list_ex (attempt_ok a ch) [0..<4]
     then (True, set_tuned t True ts) else (False, ts))"
  using tune_attempts_result [of t "effective_caller caller carried" ts 3 a ch]
  by (simp add: on_tune_with_retry_def Let_def)

text \<open>Closing does not ask who owns the tuner. A module that has opened a tuner and not tuned
  it yet loses it to a close request of any other module: its own tune request is refused, and
  the tuner is free for the next module that opens one.\<close>

theorem foreign_close_takes_the_tuner:
  assumes "service_ok ts" "pre_check t m True ts"
  shows "let (ok, ts') = on_close t ts in
    ok \<and> free_tuner ts' (unat t) \<and> on_tune_with_retry a m m ch t ts' = (False, ts')"
proof -
  note c = checked_tuner [OF assms]
  have untuned: "\<not> is_now_tuned (resource_allcates ts ! unat t)"
    using assms(2) by (auto simp: pre_check_def Let_def split: if_splits)
  have len: "unat t < length (resource_allcates ts)"
    using c(1) assms(1) by (simp add: service_ok_def tuners_ok_def)
  let ?ts = "ts\<lparr>resource_allcates := (resource_allcates ts)[unat t := cleared_resource]\<rparr>"
  have close: "on_close t ts = (True, ?ts)" using c(1) untuned by (simp add: on_close_def release_def)
  have at: "resource_allcates ?ts ! unat t = cleared_resource" using len by simp
  then have "\<not> pre_check t m' True ?ts" for m'
    using c(3) by (auto simp: pre_check_def Let_def cleared_resource_def)
  then have "on_tune_with_retry a m m ch t ?ts = (False, ?ts)"
    by (simp add: on_tune_with_retry_def Let_def)
  then show ?thesis using close at by (simp add: free_tuner_def cleared_resource_def)
qed

definition opened_by_recorder :: tuner_service where
  "opened_by_recorder = give_tuner 0 M_rec_manager (tuner_module_up 1)"

definition deaf_tuner :: "nat \<Rightarrow> tune_answers" where
  "deaf_tuner k = \<lparr>ta_tune = (\<lambda>_. False), ta_ready = (\<lambda>_. None), ta_stop = False\<rparr>"

theorem foreign_close_takes_the_tuner_witness:
  "let (ok, ts') = on_close 0 opened_by_recorder in
    ok \<and> free_tuner ts' (unat (0 :: u8)) \<and>
    on_tune_with_retry deaf_tuner M_rec_manager M_rec_manager 27 0 ts' = (False, ts')"
  by (rule foreign_close_takes_the_tuner)
    (simp_all add: service_ok_def tuners_ok_def tuned_allocated_def opened_by_recorder_def
      give_tuner_def tuner_module_up_def cleared_resource_def resource_ok_def pre_check_def)

end
