(* ===== verification/Ts_Parser.thy ===== *)
theory Ts_Parser
  imports Arib_Common
begin

text \<open>
  \<open>parser/ts_parser\<close>: the inner buffer that collects what the tuner delivers, the detection of the
  packet size, the search for synchronisation, and the loop that hands packets to the listener.
  Pointers into the inner buffer are offsets; \<open>None\<close> is a read outside the buffer. The bit rate
  monitor, which only logs, is left out.
\<close>

section \<open>State\<close>

abbreviation "TS_SYNC_BYTE \<equiv> 0x47 :: u8"
abbreviation "TS_PACKET_LEN \<equiv> 188 :: nat"
abbreviation "TS_HEADER_LEN \<equiv> 4 :: nat"

text \<open>\<open>mp_bottom\<close> is \<open>None\<close> while the pointer is null; \<open>mp_top\<close> is the start of the buffer.\<close>

record ts_parser =
  inner_buff :: "u8 list"
  mp_bottom :: "nat option"
  parse_remain_len :: nat

text \<open>A payload pointer: into the buffer, or so many bytes behind the null pointer.\<close>

datatype pointer = Ptr nat | Null_plus nat

fun advance :: "pointer \<Rightarrow> nat \<Rightarrow> pointer" where
  "advance (Ptr i) n = Ptr (i + n)"
| "advance (Null_plus i) n = Null_plus (i + n)"

type_synonym delivery = "ts_header \<times> pointer \<times> nat"

section \<open>Packet size and synchronisation\<close>

definition sync_at :: "u8 list \<Rightarrow> nat \<Rightarrow> nat \<Rightarrow> bool" where
  "sync_at mem cur unit =
    (mem ! cur = TS_SYNC_BYTE \<and> mem ! (cur + unit) = TS_SYNC_BYTE \<and> mem ! (cur + unit * 2) = TS_SYNC_BYTE)"

function get_unit_size :: "u8 list \<Rightarrow> nat \<Rightarrow> nat \<Rightarrow> nat \<Rightarrow> nat" where
  "get_unit_size mem btm cur unit_size =
    (if cur + 204 * 3 < btm then
       if sync_at mem cur 188 then get_unit_size mem btm (cur + 188 * 2) 188
       else if sync_at mem cur 192 then get_unit_size mem btm (cur + 192 * 2) 192
       else if sync_at mem cur 204 then get_unit_size mem btm (cur + 204 * 2) 204
       else get_unit_size mem btm (cur + 1) unit_size
     else unit_size)"
  by pat_completeness auto

termination
  by (relation "measure (\<lambda>(mem, btm, cur, u). btm - cur)") auto

declare get_unit_size.simps [simp del]

function check_unit_size :: "u8 list \<Rightarrow> nat \<Rightarrow> nat \<Rightarrow> nat" where
  "check_unit_size mem btm cur =
    (let unit_size = get_unit_size mem btm cur 0
     in if unit_size = 0
        then (if cur + 512 < btm then check_unit_size mem btm (cur + 512) else 0)
        else unit_size)"
  by pat_completeness auto

termination
  by (relation "measure (\<lambda>(mem, btm, cur). btm - cur)") auto

declare check_unit_size.simps [simp del]

text \<open>Eight sync bytes at the distance of a packet; the last one compared may lie behind the
  received bytes.\<close>

fun sync_run :: "u8 list \<Rightarrow> nat \<Rightarrow> nat \<Rightarrow> nat list \<Rightarrow> bool option" where
  "sync_run mem p unit [] = Some True"
| "sync_run mem p unit (i # is) =
    (case rd mem (p + unit * (i + 1)) of None \<Rightarrow> None
     | Some b \<Rightarrow> if b \<noteq> TS_SYNC_BYTE then Some False else sync_run mem p unit is)"

function sync_search :: "u8 list \<Rightarrow> nat \<Rightarrow> nat \<Rightarrow> nat \<Rightarrow> nat option option" where
  "sync_search mem p e unit =
    (if p \<le> e then
       (case rd mem p of None \<Rightarrow> None
        | Some b \<Rightarrow>
          if b = TS_SYNC_BYTE then
            (case sync_run mem p unit [0..<8] of None \<Rightarrow> None
             | Some found \<Rightarrow> if found then Some (Some p) else sync_search mem (p + 1) e unit)
          else sync_search mem (p + 1) e unit)
     else Some None)"
  by pat_completeness auto

termination
  by (relation "measure (\<lambda>(mem, p, e, unit). Suc e - p)") auto

declare sync_search.simps [simp del]

definition get_sync_top_addr :: "u8 list \<Rightarrow> nat \<Rightarrow> nat \<Rightarrow> nat \<Rightarrow> nat option option" where
  "get_sync_top_addr mem start btm unit =
    (if unit = 0 then Some None
     else if btm - start \<ge> unit * 8 then sync_search mem start (btm - unit * 8) unit
     else Some None)"

lemma sync_search_bounds: "sync_search mem p e unit = Some (Some q) \<Longrightarrow> p \<le> q \<and> q \<le> e"
proof (induction "Suc e - p" arbitrary: p)
  case 0
  then show ?case by (simp add: sync_search.simps [of mem p])
next
  case (Suc n)
  then have p: "p \<le> e" "n = Suc e - (p + 1)" by simp_all
  show ?case
    using Suc.prems p(1) Suc.hyps(1) [OF p(2)]
    by (auto simp: sync_search.simps [of mem p] split: if_splits option.splits)
qed

lemma sync_top_bounds:
  "get_sync_top_addr mem start btm unit = Some (Some q) \<Longrightarrow> start \<le> q \<and> q + unit * 8 \<le> btm"
  using sync_search_bounds [of mem start "btm - unit * 8" unit q]
  by (auto simp: get_sync_top_addr_def split: if_splits)

section \<open>The packets of the buffer\<close>

text \<open>One packet at \<open>cur\<close>: the payload pointer, which a packet with an adaptation field moves on
  from where it was, and what the listener gets.\<close>

definition packet_at :: "u8 list \<Rightarrow> nat \<Rightarrow> pointer \<Rightarrow> pointer \<times> delivery list" where
  "packet_at mem cur payload =
    (let h = parse_ts_header (mem ! cur) (mem ! (cur + 1)) (mem ! (cur + 2)) (mem ! (cur + 3));
         payload = (if adaptation_field_control h AND 0x2 = 0x2
                    then advance payload (unat (mem ! (cur + TS_HEADER_LEN)) + 1)
                    else Ptr (cur + TS_HEADER_LEN))
     in (payload,
         if adaptation_field_control h \<noteq> 0x2 then [(h, payload, TS_PACKET_LEN - TS_HEADER_LEN)] else []))"

function parse_loop ::
  "u8 list \<Rightarrow> nat \<Rightarrow> nat \<Rightarrow> nat \<Rightarrow> pointer \<Rightarrow> delivery list \<Rightarrow> (nat \<times> delivery list) option" where
  "parse_loop mem btm unit cur payload out =
    (if 0 < unit \<and> cur + unit < btm then
       if mem ! cur \<noteq> TS_SYNC_BYTE \<and> mem ! (cur + unit) \<noteq> TS_SYNC_BYTE then
         (case get_sync_top_addr mem cur btm unit of
            None \<Rightarrow> None
          | Some None \<Rightarrow> parse_loop mem btm unit (cur + unit) payload out
          | Some (Some q) \<Rightarrow>
              parse_loop mem btm unit (q + unit) (fst (packet_at mem q payload))
                (out @ snd (packet_at mem q payload)))
       else parse_loop mem btm unit (cur + unit) (fst (packet_at mem cur payload))
              (out @ snd (packet_at mem cur payload))
     else Some (btm - cur, out))"
  by pat_completeness auto

termination
proof (relation "measure (\<lambda>(mem, btm, unit, cur, payload, out). btm - cur)")
  fix mem :: "u8 list" and btm unit cur :: nat and payload :: pointer and out :: "delivery list"
    and x q
  assume "0 < unit \<and> cur + unit < btm" "get_sync_top_addr mem cur btm unit = Some x" "x = Some q"
  then show "((mem, btm, unit, q + unit, fst (packet_at mem q payload),
        out @ snd (packet_at mem q payload)), mem, btm, unit, cur, payload, out)
      \<in> measure (\<lambda>(mem, btm, unit, cur, payload, out). btm - cur)"
    using sync_top_bounds [of mem cur btm unit q] by auto
qed auto

declare parse_loop.simps [simp del]

text \<open>\<open>parse\<close>: the rest that stays and what was delivered.\<close>

definition parse_buffer :: "u8 list \<Rightarrow> nat \<Rightarrow> (nat \<times> delivery list) option" where
  "parse_buffer mem btm =
    (let unit = check_unit_size mem btm 0
     in if unit = 0 then Some (0, []) else parse_loop mem btm unit 0 (Null_plus 0) [])"

section \<open>Collecting\<close>

datatype buff_state = CACHING | FULL

definition copy_to_inner_buffer :: "u8 list \<Rightarrow> ts_parser \<Rightarrow> buff_state \<times> ts_parser" where
  "copy_to_inner_buffer buf tp =
    (let size = length buf; total = length (inner_buff tp) in
     if size = 0 then (CACHING, tp)
     else if size > total then (CACHING, tp)
     else case mp_bottom tp of
       Some btm \<Rightarrow>
         if total - btm \<ge> size
         then (CACHING, tp\<lparr>inner_buff := take btm (inner_buff tp) @ buf @ drop (btm + size) (inner_buff tp),
                          mp_bottom := Some (btm + size)\<rparr>)
         else (FULL, tp)
     | None \<Rightarrow>
         (CACHING, tp\<lparr>inner_buff := buf @ drop size (inner_buff tp), mp_bottom := Some size\<rparr>))"

definition put :: "u8 list \<Rightarrow> ts_parser \<Rightarrow> (ts_parser \<times> delivery list) option" where
  "put buf tp =
    (if buf = [] then Some (tp, [])
     else case copy_to_inner_buffer buf tp of
       (CACHING, tp) \<Rightarrow> Some (tp, [])
     | (FULL, tp) \<Rightarrow>
         let btm = (case mp_bottom tp of None \<Rightarrow> 0 | Some b \<Rightarrow> b) in
         (case parse_buffer (inner_buff tp) btm of None \<Rightarrow> None
          | Some (remain, out) \<Rightarrow>
            let tp = tp\<lparr>parse_remain_len := remain,
                  inner_buff := block_move (inner_buff tp) 0 (btm - remain) remain,
                  mp_bottom := Some remain\<rparr>
            in Some (snd (copy_to_inner_buffer buf tp), out)))"

end
