(* ===== verification/Ts_Claims.thy ===== *)
theory Ts_Claims
  imports Ts_Parser
begin

text \<open>
  A buffer of whole packets with their sync bytes is cut into its packets, all but the last one,
  which stays for the next time; a packet with an adaptation field is delivered with a payload
  pointer that has nothing to do with it.
\<close>

definition synced :: "u8 list \<Rightarrow> nat \<Rightarrow> bool" where
  "synced mem n = (188 * n \<le> length mem \<and> list_all (\<lambda>k. mem ! (188 * k) = TS_SYNC_BYTE) [0..<n])"

lemma syncedD: "\<lbrakk>synced mem n; k < n\<rbrakk> \<Longrightarrow> mem ! (188 * k) = TS_SYNC_BYTE"
  by (simp add: synced_def list_all_iff)

lemma sync_at_packet:
  assumes "synced mem n" "k + 2 < n"
  shows "sync_at mem (188 * k) 188"
  using syncedD [OF assms(1), of k] syncedD [OF assms(1), of "k + 1"] syncedD [OF assms(1), of "k + 2"] assms(2)
  by (simp add: sync_at_def add.commute)

lemma unit_size_synced:
  assumes "synced mem n"
  shows "get_unit_size mem (188 * n) (188 * k) u = (if 188 * k + 612 < 188 * n then 188 else u)"
proof (induction "n - k" arbitrary: k u rule: less_induct)
  case less
  show ?case
  proof (cases "188 * k + 612 < 188 * n")
    case True
    then have k: "k + 2 < n" by simp
    then have "n - (k + 2) < n - k" by simp
    from less.hyps [OF this, of 188]
    have "get_unit_size mem (188 * n) (188 * k + 376) 188 = 188"
      by (simp add: add.commute split: if_splits)
    with True show ?thesis
      using sync_at_packet [OF assms k]
      by (simp add: get_unit_size.simps [of mem _ "188 * k"] add.commute)
  next
    case False
    then show ?thesis by (simp add: get_unit_size.simps [of mem _ "188 * k"])
  qed
qed

text \<open>What the packets of the given numbers deliver, the payload pointer handed on.\<close>

fun packets :: "u8 list \<Rightarrow> nat list \<Rightarrow> pointer \<Rightarrow> delivery list" where
  "packets mem [] payload = []"
| "packets mem (k # ks) payload =
    snd (packet_at mem (188 * k) payload) @ packets mem ks (fst (packet_at mem (188 * k) payload))"

lemma parse_loop_synced:
  assumes "synced mem n" "k < n"
  shows "parse_loop mem (188 * n) 188 (188 * k) payload out
    = Some (188, out @ packets mem [k..<n - 1] payload)"
  using assms(2)
proof (induction "n - k" arbitrary: k payload out rule: less_induct)
  case less
  show ?case
  proof (cases "Suc k < n")
    case True
    then have "n - Suc k < n - k" by simp
    note IH = less.hyps [OF this True]
    have "mem ! (188 * k) = TS_SYNC_BYTE" using syncedD [OF assms(1)] less.prems by simp
    moreover have "[k..<n - 1] = k # [Suc k..<n - 1]" using True by (simp add: upt_conv_Cons)
    moreover have "188 * k + 188 = 188 * Suc k" by simp
    ultimately show ?thesis
      using True IH by (simp add: parse_loop.simps [of mem _ _ "188 * k"] add.commute)
  next
    case False
    then have "n = Suc k" using less.prems by simp
    then show ?thesis by (simp add: parse_loop.simps [of mem _ _ "188 * k"])
  qed
qed

lemma parse_synced:
  assumes "synced mem n" "4 \<le> n"
  shows "parse_buffer mem (188 * n) = Some (188, packets mem [0..<n - 1] (Null_plus 0))"
proof -
  have "check_unit_size mem (188 * n) 0 = 188"
    using unit_size_synced [OF assms(1), of 0 0] assms(2)
    by (simp add: check_unit_size.simps [of mem _ 0] Let_def)
  then show ?thesis
    using parse_loop_synced [OF assms(1), of 0 "Null_plus 0" "[]"] assms(2)
    by (simp add: parse_buffer_def Let_def)
qed


definition sample_packet :: "u8 \<Rightarrow> u8 \<Rightarrow> u8 list" where
  "sample_packet control len = [0x47, 0x40, 0x00, control, len] @ replicate 183 0xff"

definition sample_stream :: "u8 list" where
  "sample_stream = sample_packet 0x10 0 @ sample_packet 0x30 7 @ sample_packet 0x10 0 @ sample_packet 0x10 0"

lemma sample_synced: "synced sample_stream 4"
  by (simp add: synced_def sample_stream_def sample_packet_def upt_rec nth_append)


lemma packets_append:
  "packets mem (ks @ ls) payload
   = packets mem ks payload @ packets mem ls (fold (\<lambda>k p. fst (packet_at mem (188 * k) p)) ks payload)"
  by (induction ks arbitrary: payload) simp_all

definition header_at :: "u8 list \<Rightarrow> nat \<Rightarrow> ts_header" where
  "header_at mem k =
    parse_ts_header (mem ! (188 * k)) (mem ! (188 * k + 1)) (mem ! (188 * k + 2)) (mem ! (188 * k + 3))"

text \<open>A packet that has an adaptation field in front of its payload is delivered with a wrong
  payload: behind a packet without one, the pointer goes into that packet, the length of the
  adaptation field behind its payload start, not into the packet of the header.\<close>

theorem adaptation_field_delivers_the_packet_before:
  assumes "synced mem n" "4 \<le> n" "Suc k < n - 1"
    and "adaptation_field_control (header_at mem k) = 0x1"
    and "adaptation_field_control (header_at mem (Suc k)) = 0x3"
  shows "map_option (\<lambda>(remain, out).
      (header_at mem (Suc k), Ptr (188 * k + 4 + (unat (mem ! (188 * Suc k + 4)) + 1)), 184) \<in> set out)
    (parse_buffer mem (188 * n)) = Some True"
proof -
  let ?d = "(header_at mem (Suc k), Ptr (188 * k + 4 + (unat (mem ! (188 * Suc k + 4)) + 1)), 184)"
  let ?p = "fold (\<lambda>k p. fst (packet_at mem (188 * k) p)) [0..<k] (Null_plus 0)"
  have split: "[0..<n - 1] = [0..<k] @ k # Suc k # [Suc (Suc k)..<n - 1]"
    using assms(3) upt_add_eq_append [of 0 k "n - 1 - k"] by (simp add: upt_conv_Cons)
  have first: "packet_at mem (188 * k) ?p = (Ptr (188 * k + 4), [(header_at mem k, Ptr (188 * k + 4), 184)])"
    using assms(4) by (simp add: packet_at_def header_at_def Let_def)
  have "packet_at mem (188 * Suc k) (Ptr (188 * k + 4))
      = (Ptr (188 * k + 4 + (unat (mem ! (188 * Suc k + 4)) + 1)), [?d])"
    using assms(5) unfolding packet_at_def header_at_def Let_def by simp
  then have "?d \<in> set (packets mem [0..<n - 1] (Null_plus 0))"
    unfolding split packets_append packets.simps first by simp
  then show ?thesis using parse_synced [OF assms(1,2)] by simp
qed

theorem adaptation_field_delivers_the_packet_before_witness:
  "map_option (\<lambda>(remain, out).
      (header_at sample_stream (Suc 0),
       Ptr (188 * 0 + 4 + (unat (sample_stream ! (188 * Suc 0 + 4)) + 1)), 184) \<in> set out)
    (parse_buffer sample_stream (188 * 4)) = Some True"
  by (rule adaptation_field_delivers_the_packet_before [OF sample_synced])
    (simp_all add: header_at_def parse_ts_header_def sample_stream_def sample_packet_def nth_append)

end
