(* ===== verification/Ordered_Map.thy ===== *)
theory Ordered_Map
  imports Prelude
begin

text \<open>
  The two containers of the standard library the managers rely on with a comparison of their
  own: \<open>std::map\<close>, the list of its entries in ascending order of the keys, and
  \<open>std::stable_sort\<close>. Both take the comparison as an argument; the locale \<open>comparison\<close> states
  what the standard asks of it, a strict weak order, and holds what both promise then.
\<close>

section \<open>std::map\<close>

text \<open>\<open>find\<close> returns the stored entry: its key need not be the one asked for, only equivalent.\<close>

fun map_find :: "('k \<Rightarrow> 'k \<Rightarrow> bool) \<Rightarrow> 'k \<Rightarrow> ('k \<times> 'v) list \<Rightarrow> ('k \<times> 'v) option" where
  "map_find lt k [] = None"
| "map_find lt k (e # es) =
    (if lt (fst e) k then map_find lt k es else if lt k (fst e) then None else Some e)"

text \<open>\<open>insert\<close> keeps the entry that is there.\<close>

fun map_insert :: "('k \<Rightarrow> 'k \<Rightarrow> bool) \<Rightarrow> 'k \<Rightarrow> 'v \<Rightarrow> ('k \<times> 'v) list \<Rightarrow> ('k \<times> 'v) list" where
  "map_insert lt k v [] = [(k, v)]"
| "map_insert lt k v (e # es) =
    (if lt (fst e) k then e # map_insert lt k v es
     else if lt k (fst e) then (k, v) # e # es else e # es)"

fun map_erase :: "('k \<Rightarrow> 'k \<Rightarrow> bool) \<Rightarrow> 'k \<Rightarrow> ('k \<times> 'v) list \<Rightarrow> ('k \<times> 'v) list" where
  "map_erase lt k [] = []"
| "map_erase lt k (e # es) =
    (if lt (fst e) k then e # map_erase lt k es else if lt k (fst e) then e # es else es)"

section \<open>std::stable_sort\<close>

fun insert_behind :: "('a \<Rightarrow> 'a \<Rightarrow> bool) \<Rightarrow> 'a \<Rightarrow> 'a list \<Rightarrow> 'a list" where
  "insert_behind lt x [] = [x]"
| "insert_behind lt x (y # ys) = (if lt x y then x # y # ys else y # insert_behind lt x ys)"

definition stable_sort :: "('a \<Rightarrow> 'a \<Rightarrow> bool) \<Rightarrow> 'a list \<Rightarrow> 'a list" where
  "stable_sort lt xs = fold (insert_behind lt) xs []"

text \<open>What holds of the sort for every comparison.\<close>

lemma mset_insert_behind [simp]: "mset (insert_behind lt x ys) = add_mset x (mset ys)"
  by (induction ys) simp_all

lemma set_insert_behind [simp]: "set (insert_behind lt x ys) = insert x (set ys)"
  by (induction ys) auto

lemma insert_behind_not_Nil [simp]: "insert_behind lt x ys \<noteq> []"
  by (cases ys) simp_all

lemma stable_sort_snoc: "stable_sort lt (xs @ [x]) = insert_behind lt x (stable_sort lt xs)"
  by (simp add: stable_sort_def)

lemma mset_stable_sort [simp]: "mset (stable_sort lt xs) = mset xs"
  by (induction xs rule: rev_induct) (simp_all add: stable_sort_snoc, simp add: stable_sort_def)

lemma set_stable_sort [simp]: "set (stable_sort lt xs) = set xs"
  using mset_stable_sort [of lt xs] by (metis set_mset_mset)

lemma length_stable_sort [simp]: "length (stable_sort lt xs) = length xs"
  using mset_stable_sort [of lt xs] by (metis size_mset)

lemma insert_behind_cong:
  "(\<And>y. y \<in> set ys \<Longrightarrow> lt x y = lt' x y) \<Longrightarrow> insert_behind lt x ys = insert_behind lt' x ys"
  by (induction ys) auto

section \<open>Strict weak orders\<close>

locale comparison =
  fixes lt :: "'k \<Rightarrow> 'k \<Rightarrow> bool"
  assumes irrefl: "\<not> lt a a"
    and trans: "\<lbrakk>lt a b; lt b c\<rbrakk> \<Longrightarrow> lt a c"
    and not_less_trans: "\<lbrakk>\<not> lt a b; \<not> lt b c\<rbrakk> \<Longrightarrow> \<not> lt a c"
begin

definition equiv :: "'k \<Rightarrow> 'k \<Rightarrow> bool" where
  "equiv a b = (\<not> lt a b \<and> \<not> lt b a)"

lemma equiv_refl [simp]: "equiv a a"
  by (simp add: equiv_def irrefl)

lemma equiv_sym: "equiv a b \<longleftrightarrow> equiv b a"
  by (auto simp: equiv_def)

lemma equiv_trans: "\<lbrakk>equiv a b; equiv b c\<rbrakk> \<Longrightarrow> equiv a c"
  using not_less_trans by (auto simp: equiv_def)

lemma less_equiv: "\<lbrakk>lt a b; equiv b c\<rbrakk> \<Longrightarrow> lt a c"
  using not_less_trans by (auto simp: equiv_def)

lemma equiv_less: "\<lbrakk>equiv a b; lt b c\<rbrakk> \<Longrightarrow> lt a c"
  using not_less_trans by (auto simp: equiv_def)

lemma less_not: "lt a b \<Longrightarrow> \<not> lt b a \<and> \<not> equiv a b \<and> \<not> equiv b a"
  using trans irrefl by (auto simp: equiv_def)

text \<open>The entries of a map ascend.\<close>

definition ordered :: "('k \<times> 'v) list \<Rightarrow> bool" where
  "ordered es = sorted_wrt (\<lambda>a b. lt (fst a) (fst b)) es"

lemma ordered_simps [simp]:
  "ordered []" "ordered (e # es) \<longleftrightarrow> (\<forall>x\<in>set es. lt (fst e) (fst x)) \<and> ordered es"
  by (simp_all add: ordered_def)

lemma not_found_below:
  "\<lbrakk>\<And>x. x \<in> set es \<Longrightarrow> lt k (fst x)\<rbrakk> \<Longrightarrow> map_find lt k es = None"
  by (cases es) (auto dest: less_not)

lemma find_unfold:
  "ordered es \<Longrightarrow> map_find lt k es = find (\<lambda>e. equiv (fst e) k) es"
proof (induction es)
  case (Cons e es)
  show ?case
  proof (cases "lt k (fst e)")
    case True
    have "lt k (fst x)" if "x \<in> set es" for x
      using Cons.prems True trans that by auto
    then have "\<not> equiv (fst x) k" if "x \<in> set es" for x
      using less_not that by blast
    then have "find (\<lambda>x. equiv (fst x) k) es = None" by (auto simp: find_None_iff)
    with True show ?thesis using less_not [OF True] by simp
  next
    case False
    with Cons show ?thesis using less_not by (auto simp: equiv_def)
  qed
qed simp

lemma find_SomeD: "map_find lt k es = Some e \<Longrightarrow> e \<in> set es \<and> equiv (fst e) k"
  by (induction es) (auto simp: equiv_def split: if_splits)

lemma find_None_iff: "ordered es \<Longrightarrow> map_find lt k es = None \<longleftrightarrow> (\<forall>x\<in>set es. \<not> equiv (fst x) k)"
  by (auto simp: find_unfold List.find_None_iff)

lemma find_entry:
  assumes "ordered es" "e \<in> set es" "equiv (fst e) k"
  shows "map_find lt k es = Some e"
  using assms
proof (induction es)
  case (Cons x es)
  show ?case
  proof (cases "e = x")
    case True
    with Cons.prems show ?thesis by (simp add: equiv_def)
  next
    case False
    with Cons.prems have "lt (fst x) (fst e)" by simp
    then have "lt (fst x) k" using Cons.prems(3) by (rule less_equiv)
    with False Cons show ?thesis by simp
  qed
qed simp

lemma set_insert:
  "ordered es \<Longrightarrow> set (map_insert lt k v es)
    = (if \<exists>x\<in>set es. equiv (fst x) k then set es else insert (k, v) (set es))"
proof (induction es)
  case (Cons e es)
  consider "lt (fst e) k" | "lt k (fst e)" | "equiv (fst e) k" by (auto simp: equiv_def)
  then show ?case
  proof cases
    case 1
    with Cons less_not [OF 1] show ?thesis by auto
  next
    case 2
    have "\<not> equiv (fst x) k" if "x \<in> set es" for x
      using Cons.prems 2 trans less_not that by (metis ordered_simps(2))
    with 2 less_not [OF 2] show ?thesis by auto
  next
    case 3
    then show ?thesis by (auto simp: equiv_def)
  qed
qed simp

lemma ordered_insert [keeps]: "ordered es \<Longrightarrow> ordered (map_insert lt k v es)"
proof (induction es)
  case (Cons e es)
  have above: "lt k (fst x)" if "lt k (fst e)" "x \<in> set es" for x
    using trans [OF that(1)] Cons.prems that(2) by simp
  from Cons show ?case by (simp add: set_insert above)
qed simp

lemma find_insert:
  assumes "ordered es"
  shows "map_find lt k' (map_insert lt k v es)
    = (if map_find lt k es = None \<and> equiv k k' then Some (k, v) else map_find lt k' es)"
  using assms
proof (induction es)
  case Nil
  then show ?case by (simp add: equiv_def)
next
  case (Cons e es)
  consider (below) "lt (fst e) k" | (gt) "lt k (fst e)" | (eq) "equiv (fst e) k"
    by (auto simp: equiv_def)
  then show ?case
  proof cases
    case below
    then have "\<not> lt k (fst e)" using less_not by blast
    moreover have "lt (fst e) k'" if "equiv k k'" using below that by (rule less_equiv)
    ultimately show ?thesis using Cons below by auto
  next
    case gt
    then have "\<not> lt (fst e) k" using less_not by blast
    moreover have "lt k' (fst e) \<and> \<not> lt (fst e) k'" if "\<not> lt k k'"
    proof (cases "equiv k k'")
      case True
      then have "lt k' (fst e)" using equiv_less equiv_sym gt by blast
      then show ?thesis using less_not by blast
    next
      case False
      with that have "lt k' k" by (auto simp: equiv_def)
      then have "lt k' (fst e)" using trans gt by blast
      then show ?thesis using less_not by blast
    qed
    moreover have "lt k k' \<Longrightarrow> \<not> equiv k k'" using less_not by blast
    ultimately show ?thesis using gt by (auto simp: equiv_def)
  next
    case eq
    then show ?thesis by (auto simp: equiv_def)
  qed
qed

lemma erase_unfold:
  "ordered es \<Longrightarrow> map_erase lt k es = filter (\<lambda>e. \<not> equiv (fst e) k) es"
proof (induction es)
  case (Cons e es)
  have above: "lt (fst e) (fst x)" if "x \<in> set es" for x using Cons.prems that by simp
  consider (below) "lt (fst e) k" | (ge) "\<not> lt (fst e) k" by blast
  then show ?case
  proof cases
    case below
    with Cons less_not [OF below] show ?thesis by simp
  next
    case ge
    have "\<not> equiv (fst x) k" if "x \<in> set es" for x
      using less_equiv [OF above [OF that]] ge by blast
    then have "filter (\<lambda>e. \<not> equiv (fst e) k) es = es" by (simp add: filter_id_conv)
    with ge show ?thesis by (auto simp: equiv_def)
  qed
qed simp

lemma ordered_erase [keeps]: "ordered es \<Longrightarrow> ordered (map_erase lt k es)"
  by (simp add: erase_unfold ordered_def sorted_wrt_filter)

lemma find_erase:
  assumes "ordered es"
  shows "map_find lt k' (map_erase lt k es)
    = (if equiv k k' then None else map_find lt k' es)"
proof -
  have "ordered (map_erase lt k es)" using assms by (rule ordered_erase)
  then have "map_find lt k' (map_erase lt k es)
      = find (\<lambda>e. equiv (fst e) k') (filter (\<lambda>e. \<not> equiv (fst e) k) es)"
    using assms by (simp add: find_unfold erase_unfold)
  also have "\<dots> = (if equiv k k' then None else find (\<lambda>e. equiv (fst e) k') es)"
  proof (induction es)
    case (Cons e es)
    have "\<not> equiv (fst e) k'" if "equiv k k'" "\<not> equiv (fst e) k"
      using that equiv_trans equiv_sym by blast
    moreover have "\<not> equiv (fst e) k'" if "\<not> equiv k k'" "equiv (fst e) k"
      using that equiv_trans equiv_sym by blast
    ultimately show ?case using Cons by auto
  qed simp
  finally show ?thesis using assms by (simp add: find_unfold)
qed

text \<open>The sort: in order, and equivalent elements stay in their order.\<close>

definition in_order :: "'k list \<Rightarrow> bool" where
  "in_order xs = sorted_wrt (\<lambda>a b. \<not> lt b a) xs"

lemma in_order_simps [simp]:
  "in_order []" "in_order (x # xs) \<longleftrightarrow> (\<forall>y\<in>set xs. \<not> lt y x) \<and> in_order xs"
  by (simp_all add: in_order_def)

lemma insert_in_order [keeps]: "in_order xs \<Longrightarrow> in_order (insert_behind lt x xs)"
proof (induction xs)
  case (Cons y ys)
  show ?case
  proof (cases "lt x y")
    case True
    have "\<not> lt z x" if "z \<in> set ys" for z
      using Cons.prems True trans that by auto
    with Cons.prems True less_not [OF True] show ?thesis by auto
  next
    case False
    with Cons show ?thesis by auto
  qed
qed simp

lemma sort_in_order: "in_order (stable_sort lt xs)"
  by (induction xs rule: rev_induct)
    (simp_all add: stable_sort_snoc insert_in_order, simp add: stable_sort_def)

lemma insert_last:
  "\<lbrakk>\<And>y. y \<in> set ys \<Longrightarrow> \<not> lt x y\<rbrakk> \<Longrightarrow> insert_behind lt x ys = ys @ [x]"
  by (induction ys) auto

lemma in_order_snoc: "in_order (xs @ [x]) \<longleftrightarrow> in_order xs \<and> (\<forall>y\<in>set xs. \<not> lt x y)"
  by (auto simp: in_order_def sorted_wrt_append)

lemma sort_sorted: "in_order xs \<Longrightarrow> stable_sort lt xs = xs"
proof (induction xs rule: rev_induct)
  case Nil
  then show ?case by (simp add: stable_sort_def)
next
  case (snoc x xs)
  then show ?case by (simp add: stable_sort_snoc in_order_snoc insert_last)
qed

text \<open>Adding one element to a sorted vector and sorting again is one insertion.\<close>

lemma sort_push_back: "in_order xs \<Longrightarrow> stable_sort lt (xs @ [x]) = insert_behind lt x xs"
  by (simp add: stable_sort_snoc sort_sorted)

lemma insert_stable:
  "in_order ys \<Longrightarrow> filter (equiv a) (insert_behind lt x ys) = filter (equiv a) ys @ filter (equiv a) [x]"
proof (induction ys)
  case (Cons y ys)
  show ?case
  proof (cases "lt x y \<and> equiv a x")
    case True
    then have lt: "lt a y" using equiv_less by blast
    have "lt a z" if "z \<in> set ys" for z
    proof (rule ccontr)
      assume "\<not> lt a z"
      then have "\<not> lt a y" using not_less_trans [of a z y] Cons.prems that by auto
      with lt show False by simp
    qed
    then have "filter (equiv a) (y # ys) = []"
      using lt less_not by (auto simp: filter_empty_conv)
    with True show ?thesis by auto
  next
    case False
    with Cons show ?thesis by auto
  qed
qed simp

lemma sort_stable: "filter (equiv a) (stable_sort lt xs) = filter (equiv a) xs"
proof (induction xs rule: rev_induct)
  case Nil
  then show ?case by (simp add: stable_sort_def)
next
  case (snoc x xs)
  then show ?case
    using insert_stable [OF sort_in_order, of a x xs] by (simp add: stable_sort_snoc)
qed

text \<open>There is one such arrangement.\<close>

lemma stable_unique:
  "\<lbrakk>in_order xs; in_order ys; \<And>a. filter (equiv a) xs = filter (equiv a) ys\<rbrakk> \<Longrightarrow> xs = ys"
proof (induction xs arbitrary: ys)
  case Nil
  show ?case
  proof (cases ys)
    case (Cons y zs)
    then show ?thesis using Nil(3) [of y] by simp
  qed simp
next
  case (Cons x xs)
  obtain y zs where ys: "ys = y # zs"
    using Cons.prems(3) [of x] by (cases ys) simp_all
  have "x \<in> set (filter (equiv x) ys)" unfolding Cons.prems(3) [symmetric] by simp
  then have "x \<in> set ys" by simp
  then have xy: "\<not> lt x y" using Cons.prems(2) ys irrefl by auto
  have "y \<in> set (filter (equiv y) (x # xs))" unfolding Cons.prems(3) ys by simp
  then have "y \<in> set (x # xs)" by (simp only: set_filter mem_Collect_eq)
  then have "\<not> lt y x" using Cons.prems(1) irrefl by auto
  with xy have "equiv x y" by (simp add: equiv_def)
  then have same: "x = y" using Cons.prems(3) [of x] ys by simp
  have "filter (equiv a) xs = filter (equiv a) zs" for a
    using Cons.prems(3) [of a] ys same by (simp split: if_splits)
  then have "xs = zs" using Cons.IH [of zs] Cons.prems(1,2) ys by simp
  with same ys show ?case by simp
qed

end

section \<open>The order of a linear order\<close>

text \<open>\<open>std::less\<close> on integers, and the comparison of a member by it.\<close>

interpretation uless: comparison "(<) :: u16 \<Rightarrow> u16 \<Rightarrow> bool"
  by unfold_locales (auto dest: order_less_trans)

lemma uless_equiv [simp]: "uless.equiv a b \<longleftrightarrow> a = b"
  by (auto simp: uless.equiv_def)

end
