(* ===== verification/Channel_Manager.thy ===== *)
theory Channel_Manager
  imports Ordered_Map
begin

text \<open>
  \<open>channel_manager/channel_manager.cpp\<close>: the channels found by a scan of the UHF band, a
  \<open>std::map\<close> from the physical channel to its entry, the queries of the other modules, and the
  scan itself. A reply of another module is an argument of the handler; the requests a handler
  makes of the tuner are recorded in order. The JSON file is the map written last.
\<close>

section \<open>State\<close>

record chan_service =
  cs_service_id :: u16
  cs_service_type :: u8
  cs_service_name :: string

record channel_entry =
  ce_physical_channel :: u16
  ce_tsid :: u16
  ce_nid :: u16
  ce_network_name :: string
  ce_area_code :: u16
  ce_remote_key :: u8
  ce_ts_name :: string
  ce_services :: "chan_service list"

text \<open>\<open>entry::clear\<close>, \<open>entry::set\<close> (a null name leaves the field, the services are appended)
  and \<open>entry::operator ==\<close>.\<close>

definition cleared_entry :: channel_entry where
  "cleared_entry =
    \<lparr>ce_physical_channel = 0, ce_tsid = 0, ce_nid = 0, ce_network_name = [], ce_area_code = 0,
     ce_remote_key = 0, ce_ts_name = [], ce_services = []\<rparr>"

definition entry_set ::
  "u16 \<Rightarrow> u16 \<Rightarrow> u16 \<Rightarrow> string option \<Rightarrow> u16 \<Rightarrow> u8 \<Rightarrow> string option \<Rightarrow> chan_service list \<Rightarrow>
   channel_entry \<Rightarrow> channel_entry" where
  "entry_set ch ts nid nname area key tname svcs e =
    e\<lparr>ce_physical_channel := ch, ce_tsid := ts, ce_nid := nid,
      ce_network_name := (case nname of None \<Rightarrow> ce_network_name e | Some s \<Rightarrow> s),
      ce_area_code := area, ce_remote_key := key,
      ce_ts_name := (case tname of None \<Rightarrow> ce_ts_name e | Some s \<Rightarrow> s),
      ce_services := ce_services e @ svcs\<rparr>"

definition entry_eq :: "channel_entry \<Rightarrow> channel_entry \<Rightarrow> bool" where
  "entry_eq a b = (ce_tsid a = ce_tsid b \<and> ce_nid a = ce_nid b)"

type_synonym channels = "(u16 \<times> channel_entry) list"

record channel_manager =
  channels :: channels
  channels_json :: "channels option"

definition new_channel_manager :: "channels option \<Rightarrow> channel_manager" where
  "new_channel_manager file = \<lparr>channels = [], channels_json = file\<rparr>"

definition save_channels :: "channel_manager \<Rightarrow> channel_manager" where
  "save_channels m = m\<lparr>channels_json := Some (channels m)\<rparr>"

definition load_channels :: "channel_manager \<Rightarrow> channel_manager" where
  "load_channels m = (case channels_json m of None \<Rightarrow> m | Some cs \<Rightarrow> m\<lparr>channels := cs\<rparr>)"

definition channel_module_up :: "channel_manager \<Rightarrow> channel_manager" where
  "channel_module_up m = load_channels m"

section \<open>Queries\<close>

definition same_stream :: "u16 \<Rightarrow> u16 \<Rightarrow> channel_entry \<Rightarrow> bool" where
  "same_stream ts nid e = (ce_tsid e = ts \<and> ce_nid e = nid)"

fun get_physical_channel_by_service_id :: "u16 \<Rightarrow> u16 \<Rightarrow> u16 \<Rightarrow> channels \<Rightarrow> u16" where
  "get_physical_channel_by_service_id ts nid svc [] = 0xffff"
| "get_physical_channel_by_service_id ts nid svc ((ch, e) # cs) =
    (if same_stream ts nid e \<and> list_ex (\<lambda>s. svc = cs_service_id s) (ce_services e) then ch
     else get_physical_channel_by_service_id ts nid svc cs)"

text \<open>The comparison of the first two arguments is commented out in the source.\<close>

fun get_physical_channel_by_remote_control_key_id :: "u16 \<Rightarrow> u16 \<Rightarrow> u8 \<Rightarrow> channels \<Rightarrow> u16" where
  "get_physical_channel_by_remote_control_key_id ts nid key [] = 0xffff"
| "get_physical_channel_by_remote_control_key_id ts nid key ((ch, e) # cs) =
    (if ce_remote_key e = key then ch
     else get_physical_channel_by_remote_control_key_id ts nid key cs)"

definition find_channel :: "u16 \<Rightarrow> channels \<Rightarrow> channel_entry option" where
  "find_channel ch cs = map_option snd (map_find (<) ch cs)"

abbreviation "UHF_PHYSICAL_CHANNEL_MIN \<equiv> 13 :: nat"
abbreviation "UHF_PHYSICAL_CHANNEL_MAX \<equiv> 62 :: nat"

text \<open>\<open>Some None\<close> is \<open>false\<close>; \<open>None\<close> reads outside the vector: a negative index is not
  refused.\<close>

definition get_service_id_by_physical_channel ::
  "u16 \<Rightarrow> int \<Rightarrow> channels \<Rightarrow> (u16 \<times> u16 \<times> u16) option option" where
  "get_service_id_by_physical_channel ch idx cs =
    (if unat ch < UHF_PHYSICAL_CHANNEL_MIN \<or> unat ch > UHF_PHYSICAL_CHANNEL_MAX then Some None
     else case find_channel ch cs of
       None \<Rightarrow> Some None
     | Some e \<Rightarrow>
         if int (length (ce_services e)) - 1 < idx then Some None
         else if idx < 0 then None
         else Some (Some (ce_tsid e, ce_nid e, cs_service_id (ce_services e ! nat idx))))"

definition is_duplicate_channel :: "channel_entry \<Rightarrow> channels \<Rightarrow> bool" where
  "is_duplicate_channel e cs = list_ex (\<lambda>(ch, x). entry_eq x e) cs"

text \<open>The reply of \<open>get_channels\<close>: one \<open>channel_t\<close> for each entry, as long as the caller's array
  has room. \<open>service_ids\<close> has ten cells; \<open>None\<close> is a write behind them.\<close>

record channel_t =
  ct_physical_channel :: u16
  ct_tsid :: u16
  ct_nid :: u16
  ct_remote_key :: u8
  ct_service_ids :: "u16 list"
  ct_service_num :: int

definition to_channel_t :: "channel_entry \<Rightarrow> channel_t option" where
  "to_channel_t e =
    (if length (ce_services e) > 10 then None
     else Some \<lparr>ct_physical_channel = ce_physical_channel e, ct_tsid = ce_tsid e, ct_nid = ce_nid e,
       ct_remote_key = ce_remote_key e, ct_service_ids = map cs_service_id (ce_services e),
       ct_service_num = int (length (ce_services e))\<rparr>)"

text \<open>\<open>n\<close> entries have been written; the array ends the loop after the write, so a negative size
  stops it after the first entry.\<close>

fun get_channels_loop :: "int \<Rightarrow> int \<Rightarrow> channels \<Rightarrow> channel_t list option" where
  "get_channels_loop array_max n [] = Some []"
| "get_channels_loop array_max n ((ch, e) # cs) =
    (case to_channel_t e of None \<Rightarrow> None
     | Some c \<Rightarrow>
         if array_max \<le> n + 1 then Some [c]
         else map_option ((#) c) (get_channels_loop array_max (n + 1) cs))"

definition get_channels :: "int \<Rightarrow> channels \<Rightarrow> channel_t list option" where
  "get_channels array_max cs = (if array_max = 0 then Some [] else get_channels_loop array_max 0 cs)"

fun get_original_network_name :: "u16 \<Rightarrow> channels \<Rightarrow> string option" where
  "get_original_network_name nid [] = None"
| "get_original_network_name nid ((ch, e) # cs) =
    (if ce_nid e = nid then Some (ce_network_name e) else get_original_network_name nid cs)"

fun get_transport_stream_name :: "u16 \<Rightarrow> u16 \<Rightarrow> channels \<Rightarrow> string option" where
  "get_transport_stream_name ts nid [] = None"
| "get_transport_stream_name ts nid ((ch, e) # cs) =
    (if same_stream ts nid e then Some (ce_ts_name e) else get_transport_stream_name ts nid cs)"

fun get_service_name :: "u16 \<Rightarrow> u16 \<Rightarrow> u16 \<Rightarrow> channels \<Rightarrow> string option" where
  "get_service_name ts nid svc [] = None"
| "get_service_name ts nid svc ((ch, e) # cs) =
    (case (if same_stream ts nid e then find (\<lambda>s. cs_service_id s = svc) (ce_services e) else None) of
       Some s \<Rightarrow> Some (cs_service_name s)
     | None \<Rightarrow> get_service_name ts nid svc cs)"

section \<open>Handlers of the queries\<close>

text \<open>\<open>None\<close> is an error reply.\<close>

definition on_get_physical_channel_by_service_id :: "u16 \<Rightarrow> u16 \<Rightarrow> u16 \<Rightarrow> channel_manager \<Rightarrow> u16 option" where
  "on_get_physical_channel_by_service_id ts nid svc m =
    (let ch = get_physical_channel_by_service_id ts nid svc (channels m)
     in if ch = 0xffff then None else Some ch)"

definition on_get_physical_channel_by_remote_control_key_id ::
  "u16 \<Rightarrow> u16 \<Rightarrow> u8 \<Rightarrow> channel_manager \<Rightarrow> u16 option" where
  "on_get_physical_channel_by_remote_control_key_id ts nid key m =
    (let ch = get_physical_channel_by_remote_control_key_id ts nid key (channels m)
     in if ch = 0xffff then None else Some ch)"

definition on_get_service_id_by_physical_channel ::
  "u16 \<Rightarrow> int \<Rightarrow> channel_manager \<Rightarrow> (u16 \<times> u16 \<times> u16) option option" where
  "on_get_service_id_by_physical_channel ch idx m =
    get_service_id_by_physical_channel ch idx (channels m)"

text \<open>\<open>array_max\<close> belongs to the caller's array, which is there; an error reply is \<open>Some None\<close>.\<close>

definition on_get_channels :: "int \<Rightarrow> channel_manager \<Rightarrow> channel_t list option option" where
  "on_get_channels array_max m =
    (if array_max = 0 then Some None else map_option Some (get_channels array_max (channels m)))"

definition name_reply :: "string option \<Rightarrow> string option" where
  "name_reply name = (case name of None \<Rightarrow> None | Some s \<Rightarrow> if s \<noteq> [] then Some s else None)"

definition on_get_original_network_name :: "u16 \<Rightarrow> channel_manager \<Rightarrow> string option" where
  "on_get_original_network_name nid m = name_reply (get_original_network_name nid (channels m))"

definition on_get_transport_stream_name :: "u16 \<Rightarrow> u16 \<Rightarrow> channel_manager \<Rightarrow> string option" where
  "on_get_transport_stream_name ts nid m = name_reply (get_transport_stream_name ts nid (channels m))"

definition on_get_service_name :: "u16 \<Rightarrow> u16 \<Rightarrow> u16 \<Rightarrow> channel_manager \<Rightarrow> string option" where
  "on_get_service_name ts nid svc m = name_reply (get_service_name ts nid svc (channels m))"

section \<open>The scan\<close>

text \<open>The replies of the other modules: \<open>None\<close> and \<open>False\<close> are error replies. The service
  infos are the filled part of the array of ten the scan passes.\<close>

record network_reply =
  nr_tsid :: u16
  nr_nid :: u16
  nr_network_name :: string
  nr_area_code :: u16
  nr_remote_key :: u8
  nr_ts_name :: string

record scan_answers =
  sc_open :: "u8 option"
  sc_tune :: "u16 \<Rightarrow> bool"
  sc_network :: "u16 \<Rightarrow> network_reply option"
  sc_services :: "u16 \<Rightarrow> chan_service list option"

datatype tuner_request = Req_open | Req_tune u16 u8 | Req_tune_stop u8 | Send_tune_stop u8 | Send_close u8

definition scan_entry :: "u16 \<Rightarrow> network_reply \<Rightarrow> chan_service list \<Rightarrow> channel_entry" where
  "scan_entry ch n svcs =
    entry_set ch (nr_tsid n) (nr_nid n) (Some (nr_network_name n)) (nr_area_code n) (nr_remote_key n)
      (Some (nr_ts_name n)) svcs cleared_entry"

text \<open>One turn of the loop: every path ends with a tune stop whose result is not looked at.\<close>

definition scan_channel ::
  "scan_answers \<Rightarrow> u8 \<Rightarrow> u16 \<Rightarrow> channels \<times> tuner_request list \<Rightarrow> channels \<times> tuner_request list" where
  "scan_channel a gr ch st =
    (let (cs, reqs) = st in
     if \<not> sc_tune a ch then (cs, reqs @ [Req_tune ch gr, Req_tune_stop gr])
     else case sc_network a ch of
       None \<Rightarrow> (cs, reqs @ [Req_tune ch gr, Req_tune_stop gr])
     | Some n \<Rightarrow>
         (case sc_services a ch of
            None \<Rightarrow> (cs, reqs @ [Req_tune ch gr, Req_tune_stop gr])
          | Some svcs \<Rightarrow>
              let rec = scan_entry ch n svcs;
                  cs' = (if svcs \<noteq> [] \<and> \<not> is_duplicate_channel rec cs
                         then map_insert (<) ch rec cs else cs)
              in (cs', reqs @ [Req_tune ch gr, Req_tune_stop gr])))"

definition uhf_channels :: "u16 list" where
  "uhf_channels = map word_of_nat [UHF_PHYSICAL_CHANNEL_MIN..<Suc UHF_PHYSICAL_CHANNEL_MAX]"

text \<open>\<open>on_channel_scan\<close>; its reply is sent before anything else and is always a success.\<close>

definition on_channel_scan :: "scan_answers \<Rightarrow> channel_manager \<Rightarrow> channel_manager \<times> tuner_request list" where
  "on_channel_scan a m =
    (let m = m\<lparr>channels := []\<rparr> in
     case sc_open a of
       None \<Rightarrow> (m, [Req_open])
     | Some gr \<Rightarrow>
         let (cs, reqs) = fold (scan_channel a gr) uhf_channels ([], [Req_open])
         in (save_channels (m\<lparr>channels := cs\<rparr>), reqs @ [Send_tune_stop gr, Send_close gr]))"

end
