(* ===== verification/Channel_Claims.thy ===== *)
theory Channel_Claims
  imports Channel_Manager
begin

text \<open>
  What the channel scan stores, and that the queries find it again. \<open>received\<close> is what the
  network tells of a physical channel; the scan keeps the first channel of every stream.
\<close>

section \<open>One turn of the scan\<close>

definition received :: "scan_answers \<Rightarrow> u16 \<Rightarrow> channel_entry option" where
  "received a ch =
    (if sc_tune a ch then
       case (sc_network a ch, sc_services a ch) of
         (Some n, Some svcs) \<Rightarrow> if svcs \<noteq> [] then Some (scan_entry ch n svcs) else None
       | _ \<Rightarrow> None
     else None)"

definition scan_step :: "scan_answers \<Rightarrow> u16 \<Rightarrow> channels \<Rightarrow> channels" where
  "scan_step a ch cs =
    (case received a ch of None \<Rightarrow> cs
     | Some e \<Rightarrow> if is_duplicate_channel e cs then cs else map_insert (<) ch e cs)"

lemma scan_channel_step:
  "scan_channel a gr ch (cs, reqs) = (scan_step a ch cs, reqs @ [Req_tune ch gr, Req_tune_stop gr])"
  by (simp add: scan_channel_def scan_step_def received_def Let_def split: option.split)

text \<open>The channels after the physical channels \<open>chs\<close>.\<close>

definition scanned :: "scan_answers \<Rightarrow> u16 list \<Rightarrow> channels" where
  "scanned a chs = fold (scan_step a) chs []"

lemma scan_fold:
  "fold (scan_channel a gr) chs (cs, reqs)
    = (fold (scan_step a) chs cs, reqs @ concat (map (\<lambda>ch. [Req_tune ch gr, Req_tune_stop gr]) chs))"
  by (induction chs arbitrary: cs reqs) (simp_all add: scan_channel_step)

lemma scanned_Nil [simp]: "scanned a [] = []"
  by (simp add: scanned_def)

lemma scanned_snoc: "scanned a (chs @ [ch]) = scan_step a ch (scanned a chs)"
  by (simp add: scanned_def)

lemma insert_above:
  "\<lbrakk>\<And>x. x \<in> set cs \<Longrightarrow> fst x < ch\<rbrakk> \<Longrightarrow> map_insert (<) ch e cs = cs @ [(ch, e)]"
  for ch :: u16
  by (induction cs) auto

text \<open>The entry of a channel is stored unless a lower channel has carried the same stream.\<close>

definition carries :: "scan_answers \<Rightarrow> channel_entry \<Rightarrow> u16 \<Rightarrow> bool" where
  "carries a e ch = (case received a ch of None \<Rightarrow> False | Some e' \<Rightarrow> entry_eq e' e)"

definition first_carrier :: "scan_answers \<Rightarrow> u16 list \<Rightarrow> u16 \<Rightarrow> channel_entry \<Rightarrow> bool" where
  "first_carrier a chs ch e =
    (received a ch = Some e \<and>
     list_all (\<lambda>c. c < ch \<longrightarrow> \<not> carries a e c) chs)"

lemma entry_eq_equiv:
  "entry_eq a a" "entry_eq a b \<longleftrightarrow> entry_eq b a" "\<lbrakk>entry_eq a b; entry_eq b c\<rbrakk> \<Longrightarrow> entry_eq a c"
  by (auto simp: entry_eq_def)

lemma set_map_insert: "set (map_insert (<) ch e cs) \<subseteq> insert (ch, e) (set cs)"
  for ch :: u16
  by (induction cs) auto

lemma scanned_keys: "x \<in> set (scanned a chs) \<Longrightarrow> fst x \<in> set chs \<and> received a (fst x) = Some (snd x)"
proof (induction chs rule: rev_induct)
  case (snoc ch chs)
  then have "x \<in> set (scanned a chs) \<or> received a ch = Some (snd x) \<and> fst x = ch"
    using set_map_insert by (fastforce simp: scanned_snoc scan_step_def split: option.splits if_splits)
  with snoc show ?case by auto
qed simp

text \<open>The scan goes upwards: every stored channel is below the next one.\<close>

lemma scanned_ordered: "uless.ordered (scanned a chs)"
proof (induction chs rule: rev_induct)
  case (snoc ch chs)
  then show ?case
    by (auto simp: scanned_snoc scan_step_def uless.ordered_insert split: option.split)
qed simp

lemma is_duplicate_iff: "is_duplicate_channel e cs \<longleftrightarrow> (\<exists>x\<in>set cs. entry_eq (snd x) e)"
  by (force simp: is_duplicate_channel_def list_ex_iff)

lemma scanned_first:
  assumes "sorted_wrt (<) chs"
  shows "(ch, e) \<in> set (scanned a chs) \<longleftrightarrow> ch \<in> set chs \<and> first_carrier a chs ch e"
  using assms
proof (induction chs arbitrary: ch e rule: rev_induct)
  case (snoc c chs)
  note below = snoc.prems [unfolded sorted_wrt_append, simplified]
  have IH: "(ch, e) \<in> set (scanned a chs) \<longleftrightarrow> ch \<in> set chs \<and> first_carrier a chs ch e" for ch e
    using snoc below by blast
  have old: "first_carrier a (chs @ [c]) ch e = first_carrier a chs ch e" if "ch \<in> set chs" for ch e
    using below that by (auto simp: first_carrier_def dest: order_less_trans)
  have new: "set (scanned a (chs @ [c])) = set (scanned a chs) \<union>
      (case received a c of None \<Rightarrow> {} | Some e \<Rightarrow>
         if is_duplicate_channel e (scanned a chs) then {} else {(c, e)})"
    using scanned_keys below
    by (auto simp: scanned_snoc scan_step_def insert_above split: option.split)
  have dup: "is_duplicate_channel e (scanned a chs) \<longleftrightarrow> \<not> list_all (\<lambda>d. \<not> carries a e d) chs" for e
  proof
    assume "is_duplicate_channel e (scanned a chs)"
    then obtain x where "x \<in> set (scanned a chs)" "entry_eq (snd x) e" by (auto simp: is_duplicate_iff)
    then show "\<not> list_all (\<lambda>d. \<not> carries a e d) chs"
      using scanned_keys [of x a chs] by (auto simp: carries_def list_all_iff intro!: bexI [of _ "fst x"])
  next
    let ?S = "{d \<in> set chs. carries a e d}"
    assume "\<not> list_all (\<lambda>d. \<not> carries a e d) chs"
    then have S: "finite ?S" "?S \<noteq> {}" by (auto simp: list_all_iff)
    define d where "d = Min ?S"
    have "d \<in> ?S" unfolding d_def by (rule Min_in [OF S])
    then obtain e' where e': "d \<in> set chs" "received a d = Some e'" "entry_eq e' e"
      by (auto simp: carries_def split: option.splits)
    have "\<not> carries a e' f" if "f \<in> set chs" "f < d" for f
    proof
      assume "carries a e' f"
      then have "f \<in> ?S"
        using e'(3) that(1) entry_eq_equiv(3) by (auto simp: carries_def split: option.splits)
      then have "d \<le> f" unfolding d_def using S(1) by simp
      with that(2) show False by simp
    qed
    then have "(d, e') \<in> set (scanned a chs)"
      using IH e' by (auto simp: first_carrier_def list_all_iff)
    with e' show "is_duplicate_channel e (scanned a chs)"
      by (auto simp: is_duplicate_iff intro!: bexI [of _ "(d, e')"])
  qed
  show ?case
  proof (cases "ch = c")
    case False
    then have "(ch, e) \<in> set (scanned a (chs @ [c])) \<longleftrightarrow> (ch, e) \<in> set (scanned a chs)"
      by (auto simp: new split: option.split)
    with False IH old show ?thesis by auto
  next
    case True
    have "c \<notin> set chs" using below by auto
    then have "(c, e) \<notin> set (scanned a chs)" using scanned_keys by fastforce
    moreover have "first_carrier a (chs @ [c]) c e
        \<longleftrightarrow> received a c = Some e \<and> \<not> is_duplicate_channel e (scanned a chs)"
      using below by (auto simp: first_carrier_def dup list_all_iff)
    ultimately show ?thesis using True by (auto simp: new split: option.split)
  qed
qed simp


section \<open>The whole scan\<close>

lemma uhf_sorted: "sorted_wrt (<) uhf_channels"
  by code_simp

lemma uhf_range: "ch \<in> set uhf_channels \<Longrightarrow> 13 \<le> unat ch \<and> unat ch \<le> 62"
  by (auto simp: uhf_channels_def unat_of_nat)

lemma scan_result:
  assumes "sc_open a = Some gr"
  shows "channels (fst (on_channel_scan a m)) = scanned a uhf_channels"
    "channels_json (fst (on_channel_scan a m)) = Some (scanned a uhf_channels)"
    "snd (on_channel_scan a m) = Req_open
      # concat (map (\<lambda>ch. [Req_tune ch gr, Req_tune_stop gr]) uhf_channels) @ [Send_tune_stop gr, Send_close gr]"
  using assms by (simp_all add: on_channel_scan_def Let_def scan_fold scanned_def save_channels_def)

text \<open>C40: the scan stores exactly the channels the network tells services of, under the lowest
  channel that carries the stream, with the entry of the network's replies; the file holds the
  same. Every channel tried is stopped again and the tuner is closed at the end.\<close>

theorem scan_stores_the_first_carriers:
  assumes "sc_open a = Some gr"
  shows "((ch, e) \<in> set (channels (fst (on_channel_scan a m))) \<longleftrightarrow>
      ch \<in> set uhf_channels \<and> first_carrier a uhf_channels ch e) \<and>
    channels_json (fst (on_channel_scan a m)) = Some (channels (fst (on_channel_scan a m))) \<and>
    snd (on_channel_scan a m) = Req_open # concat (map (\<lambda>ch. [Req_tune ch gr, Req_tune_stop gr]) uhf_channels)
      @ [Send_tune_stop gr, Send_close gr]"
  using scanned_first [OF uhf_sorted] by (simp only: scan_result [OF assms] simp_thms)

lemma one_entry_per_stream:
  assumes "sorted_wrt (<) chs" "(ch, e) \<in> set (scanned a chs)" "(ch', e') \<in> set (scanned a chs)" "entry_eq e e'"
  shows "ch = ch'"
proof -
  have e: "ch \<in> set chs" "first_carrier a chs ch e" "ch' \<in> set chs" "first_carrier a chs ch' e'"
    using assms scanned_first [OF assms(1)] by blast+
  with assms(4) entry_eq_equiv(2) have "\<not> ch < ch'" "\<not> ch' < ch"
    by (auto simp: first_carrier_def list_all_iff carries_def split: option.splits)
  then show ?thesis by simp
qed

lemma found_by_service:
  assumes "(ch, e) \<in> set cs" "same_stream ts nid e" "list_ex (\<lambda>s. svc = cs_service_id s) (ce_services e)"
    and "\<And>ch' e'. (ch', e') \<in> set cs \<Longrightarrow> same_stream ts nid e' \<Longrightarrow> ch' = ch"
  shows "get_physical_channel_by_service_id ts nid svc cs = ch"
  using assms
proof (induction cs)
  case (Cons x cs)
  obtain c d where x: "x = (c, d)" by fastforce
  show ?case
  proof (cases "same_stream ts nid d \<and> list_ex (\<lambda>s. svc = cs_service_id s) (ce_services d)")
    case True
    with Cons.prems(4) [of c d] x show ?thesis by simp
  next
    case False
    then have "(ch, e) \<noteq> x" using Cons.prems(2,3) x by auto
    then have "(ch, e) \<in> set cs" using Cons.prems(1) by simp
    moreover have "ch' = ch" if "(ch', e') \<in> set cs" "same_stream ts nid e'" for ch' e'
      using Cons.prems(4) [of ch' e'] that by simp
    ultimately have "get_physical_channel_by_service_id ts nid svc cs = ch"
      using Cons.IH Cons.prems(2,3) by blast
    with False x show ?thesis by auto
  qed
qed simp

text \<open>What the scan has stored, the queries find: a service of a stored channel is returned
  at its index, and its identifiers lead back to that channel.\<close>

theorem scanned_services_are_found:
  assumes "sc_open a = Some gr" "m' = fst (on_channel_scan a m)"
    and "(ch, e) \<in> set (channels m')" "i < length (ce_services e)"
  shows "on_get_service_id_by_physical_channel ch (int i) m'
      = Some (Some (ce_tsid e, ce_nid e, cs_service_id (ce_services e ! i))) \<and>
    on_get_physical_channel_by_service_id (ce_tsid e) (ce_nid e) (cs_service_id (ce_services e ! i)) m'
      = Some ch"
proof -
  let ?cs = "scanned a uhf_channels"
  have cs: "channels m' = ?cs" using assms(1,2) scan_result by simp
  have mem: "(ch, e) \<in> set ?cs" using assms(3) cs by simp
  have range: "13 \<le> unat ch" "unat ch \<le> 62"
    using scanned_keys [OF mem] uhf_range by auto
  have "map_find (<) ch ?cs = Some (ch, e)"
    using uless.find_entry [OF scanned_ordered mem, of ch] by simp
  then have "on_get_service_id_by_physical_channel ch (int i) m'
      = Some (Some (ce_tsid e, ce_nid e, cs_service_id (ce_services e ! i)))"
    using range assms(4)
    by (simp add: on_get_service_id_by_physical_channel_def get_service_id_by_physical_channel_def cs find_channel_def)
  moreover have "get_physical_channel_by_service_id (ce_tsid e) (ce_nid e) (cs_service_id (ce_services e ! i)) ?cs = ch"
  proof (rule found_by_service [OF mem])
    show "same_stream (ce_tsid e) (ce_nid e) e" by (simp add: same_stream_def)
    show "list_ex (\<lambda>s. cs_service_id (ce_services e ! i) = cs_service_id s) (ce_services e)"
      using assms(4) by (auto simp: list_ex_iff)
    fix ch' e' assume "(ch', e') \<in> set ?cs" "same_stream (ce_tsid e) (ce_nid e) e'"
    then show "ch' = ch"
      using one_entry_per_stream [OF uhf_sorted _ mem] by (simp add: same_stream_def entry_eq_def)
  qed
  moreover have "ch \<noteq> 0xffff" using range by auto
  ultimately show ?thesis
    by (simp add: on_get_physical_channel_by_service_id_def cs)
qed

text \<open>A scan that gets no tuner has dropped the channels it had before it asks; the file keeps
  them.\<close>

theorem refused_scan_forgets_the_channels:
  assumes "sc_open a = None"
  shows "channels (fst (on_channel_scan a m)) = [] \<and>
    channels_json (fst (on_channel_scan a m)) = channels_json m \<and>
    on_get_physical_channel_by_service_id ts nid svc (fst (on_channel_scan a m)) = None"
  using assms by (simp add: on_channel_scan_def on_get_physical_channel_by_service_id_def)

section \<open>Witnesses\<close>

definition sample_scan :: scan_answers where
  "sample_scan =
    \<lparr>sc_open = Some 1, sc_tune = (\<lambda>ch. ch = 21 \<or> ch = 27),
     sc_network = (\<lambda>ch. Some \<lparr>nr_tsid = ch + 0x7000, nr_nid = 0x7fe0, nr_network_name = ''net'',
       nr_area_code = 1, nr_remote_key = 2, nr_ts_name = ''ts''\<rparr>),
     sc_services = (\<lambda>ch. Some [\<lparr>cs_service_id = 0x400, cs_service_type = 1, cs_service_name = ''svc''\<rparr>])\<rparr>"

lemma sample_27: "received sample_scan 27 =
    Some \<lparr>ce_physical_channel = 27, ce_tsid = 0x701b, ce_nid = 0x7fe0, ce_network_name = ''net'',
      ce_area_code = 1, ce_remote_key = 2, ce_ts_name = ''ts'',
      ce_services = [\<lparr>cs_service_id = 0x400, cs_service_type = 1, cs_service_name = ''svc''\<rparr>]\<rparr>"
  by (simp add: received_def sample_scan_def scan_entry_def entry_set_def cleared_entry_def)

lemma sample_received: "received sample_scan ch \<noteq> None \<Longrightarrow> ch = 21 \<or> ch = 27"
  by (auto simp: received_def sample_scan_def split: if_splits)

lemma sample_member:
  "(27, the (received sample_scan 27)) \<in> set (channels (fst (on_channel_scan sample_scan (new_channel_manager None))))"
proof -
  have "27 \<in> set uhf_channels" by code_simp
  moreover have "\<not> carries sample_scan (the (received sample_scan 27)) c" if "c < 27" for c
  proof (cases "c = 21")
    case True
    then show ?thesis
      by (simp add: carries_def received_def sample_scan_def scan_entry_def entry_set_def entry_eq_def)
  next
    case False
    then have "received sample_scan c = None" using sample_received that by fastforce
    then show ?thesis by (simp add: carries_def)
  qed
  ultimately have "(27, the (received sample_scan 27)) \<in> set (scanned sample_scan uhf_channels)"
    using scanned_first [OF uhf_sorted] sample_27 by (simp add: first_carrier_def list_all_iff)
  moreover have "sc_open sample_scan = Some 1" by (simp add: sample_scan_def)
  ultimately show ?thesis using scan_result(1) by simp
qed

theorem scan_stores_the_first_carriers_witness:
  "((27, the (received sample_scan 27)) \<in> set (channels (fst (on_channel_scan sample_scan (new_channel_manager None)))) \<longleftrightarrow>
      27 \<in> set uhf_channels \<and> first_carrier sample_scan uhf_channels 27 (the (received sample_scan 27))) \<and>
    channels_json (fst (on_channel_scan sample_scan (new_channel_manager None)))
      = Some (channels (fst (on_channel_scan sample_scan (new_channel_manager None)))) \<and>
    snd (on_channel_scan sample_scan (new_channel_manager None))
      = Req_open # concat (map (\<lambda>ch. [Req_tune ch 1, Req_tune_stop 1]) uhf_channels)
        @ [Send_tune_stop 1, Send_close 1]"
  by (rule scan_stores_the_first_carriers) (simp add: sample_scan_def)

theorem scanned_services_are_found_witness:
  "on_get_service_id_by_physical_channel 27 (int 0)
      (fst (on_channel_scan sample_scan (new_channel_manager None)))
      = Some (Some (0x701b, 0x7fe0, 0x400)) \<and>
    on_get_physical_channel_by_service_id 0x701b 0x7fe0 0x400
      (fst (on_channel_scan sample_scan (new_channel_manager None))) = Some 27"
  using scanned_services_are_found [OF _ refl sample_member, of 1 0] sample_27
  by (simp add: sample_scan_def)

theorem refused_scan_forgets_the_channels_witness:
  "channels (fst (on_channel_scan (sample_scan\<lparr>sc_open := None\<rparr>) (new_channel_manager None))) = [] \<and>
    channels_json (fst (on_channel_scan (sample_scan\<lparr>sc_open := None\<rparr>) (new_channel_manager None)))
      = channels_json (new_channel_manager None) \<and>
    on_get_physical_channel_by_service_id 1 2 3
      (fst (on_channel_scan (sample_scan\<lparr>sc_open := None\<rparr>) (new_channel_manager None))) = None"
  by (rule refused_scan_forgets_the_channels) simp

end
