(* ===== verification/Psisi_Info.thy ===== *)
theory Psisi_Info
  imports Si_Tables Arib_Common Etime Reserves
begin

text \<open>
  \<open>psisi_manager/psisi_manager.h\<close> and the cache functions of \<open>psisi_manager.cpp\<close>: the fixed arrays
  into which the manager copies what the parsed tables say of programs, services, present and
  following events and the network. The pointers back to the tables only serve the dumps and are
  left out. The clock, \<open>mktime\<close> and the conversion of broadcast text to a C string
  (\<open>third_party/aribstr\<close>) are parameters.
\<close>

record psisi_env =
  now :: timespec
  mktime :: "tm \<Rightarrow> int"
  arib :: "u8 list \<Rightarrow> string"

section \<open>Data\<close>

abbreviation "PROGRAM_INFOS_MAX \<equiv> 32 :: nat"
abbreviation "SERVICE_INFOS_MAX \<equiv> 64 :: nat"
abbreviation "EVENT_PF_INFOS_MAX \<equiv> 32 :: nat"

record program_info =
  pg_table_id :: u8
  pg_tsid :: u16
  pg_number :: u16
  pg_map_PID :: u16
  pg_streams :: "(u8 \<times> u16) list"
  pg_used :: bool

definition cleared_program :: program_info where
  "cleared_program = \<lparr>pg_table_id = 0, pg_tsid = 0, pg_number = 0, pg_map_PID = 0, pg_streams = [],
     pg_used = False\<rparr>"

datatype event_pf_state = Pf_init | Pf_present | Pf_follow | Pf_already_passed

record event_pf_info =
  pf_table_id :: u8
  pf_tsid :: u16
  pf_nid :: u16
  pf_service_id :: u16
  pf_event_id :: u16
  pf_start_time :: timespec
  pf_end_time :: timespec
  pf_event_name :: string
  pf_state :: event_pf_state
  pf_used :: bool

definition cleared_pf :: event_pf_info where
  "cleared_pf = \<lparr>pf_table_id = 0, pf_tsid = 0, pf_nid = 0, pf_service_id = 0, pf_event_id = 0,
     pf_start_time = etime_clear, pf_end_time = etime_clear, pf_event_name = [], pf_state = Pf_init,
     pf_used = False\<rparr>"

record service_info =
  svc_table_id :: u8
  svc_tsid :: u16
  svc_nid :: u16
  svc_id :: u16
  svc_type :: u8
  svc_name :: string
  svc_target :: bool
  svc_follow :: event_pf_info
  svc_last_update :: timespec
  svc_used :: bool

definition cleared_service :: service_info where
  "cleared_service = \<lparr>svc_table_id = 0, svc_tsid = 0, svc_nid = 0, svc_id = 0, svc_type = 0,
     svc_name = [], svc_target = False, svc_follow = cleared_pf, svc_last_update = etime_clear,
     svc_used = False\<rparr>"

definition clear_at_tuning :: "service_info \<Rightarrow> service_info" where
  "clear_at_tuning s = s\<lparr>svc_target := False, svc_follow := cleared_pf\<rparr>"

text \<open>\<open>net_services\<close> is the part of the array of 16 that \<open>services_num\<close> counts.\<close>

record network_info =
  net_table_id :: u8
  net_network_id :: u16
  net_name :: string
  net_tsid :: u16
  net_nid :: u16
  net_services :: "(u16 \<times> u8) list"
  net_area_code :: u16
  net_guard_interval :: u8
  net_transmission_mode :: u8
  net_remote_key :: u8
  net_ts_name :: string
  net_used :: bool

definition cleared_network :: network_info where
  "cleared_network = \<lparr>net_table_id = 0, net_network_id = 0, net_name = [], net_tsid = 0, net_nid = 0,
     net_services = [], net_area_code = 0, net_guard_interval = 0, net_transmission_mode = 0,
     net_remote_key = 0, net_ts_name = [], net_used = False\<rparr>"

section \<open>Programs\<close>

definition clear_program_infos :: "program_info list" where
  "clear_program_infos = replicate PROGRAM_INFOS_MAX cleared_program"

definition mk_program :: "pat_table \<Rightarrow> (u16 \<Rightarrow> pmt_table list) \<Rightarrow> pat_program \<Rightarrow> program_info \<Rightarrow> program_info" where
  "mk_program t pmt p i =
    i\<lparr>pg_table_id := table_id (pat_header t), pg_tsid := table_id_extension (pat_header t),
      pg_number := program_number p, pg_map_PID := program_map_PID p, pg_used := True,
      pg_streams := pg_streams i @
        (if pmt (program_map_PID p) \<noteq> []
         then map (\<lambda>s. (stream_type s, elementary_PID s)) (pmt_streams (last (pmt (program_map_PID p))))
         else [])\<rparr>"

text \<open>\<open>cache_program_infos\<close>: the programs of the latest PAT; \<open>pmt\<close> are the tables of the PMT
  parsers, none where there is no parser.\<close>

fun cache_programs ::
  "pat_table \<Rightarrow> (u16 \<Rightarrow> pmt_table list) \<Rightarrow> nat \<Rightarrow> pat_program list \<Rightarrow> program_info list \<Rightarrow> program_info list" where
  "cache_programs t pmt n [] is = is"
| "cache_programs t pmt n (p # ps) is =
    (if n \<ge> PROGRAM_INFOS_MAX then is
     else cache_programs t pmt (n + 1) ps (is[n := mk_program t pmt p (is ! n)]))"

definition cache_program_infos ::
  "pat_table list \<Rightarrow> (u16 \<Rightarrow> pmt_table list) \<Rightarrow> program_info list \<Rightarrow> program_info list" where
  "cache_program_infos pats pmt is =
    (if length pats = 0 then is else cache_programs (last pats) pmt 0 (programs (last pats)) is)"

definition get_stream_infos :: "u16 \<Rightarrow> u8 \<Rightarrow> int \<Rightarrow> program_info list \<Rightarrow> (u8 \<times> u16) list" where
  "get_stream_infos number ty num is =
    (if num = 0 then []
     else case find (\<lambda>i. pg_number i = number) is of None \<Rightarrow> []
     | Some i \<Rightarrow> take (nat num) (filter (\<lambda>s. fst s = ty) (pg_streams i)))"

section \<open>Services\<close>

abbreviation "TBLID_SDT_A \<equiv> 0x42 :: u8"
abbreviation "TBLID_EIT_PF_A \<equiv> 0x4e :: u8"
abbreviation "TBLID_NIT_A \<equiv> 0x40 :: u8"

type_synonym service_ident = "u8 \<times> u16 \<times> u16 \<times> u16"

definition svc_key :: "service_info \<Rightarrow> service_ident" where
  "svc_key s = (svc_table_id s, svc_tsid s, svc_nid s, svc_id s)"

definition find_service_info :: "service_ident \<Rightarrow> service_info list \<Rightarrow> nat option" where
  "find_service_info k is =
    (if k = (0, 0, 0, 0) then None
     else let i = first_index (\<lambda>s. svc_used s \<and> k = svc_key s) is
          in if i = SERVICE_INFOS_MAX then None else Some i)"

definition find_empty_service_info :: "service_info list \<Rightarrow> nat option" where
  "find_empty_service_info is =
    (let i = first_index (\<lambda>s. \<not> svc_used s) is in if i = SERVICE_INFOS_MAX then None else Some i)"

definition service_slot :: "service_ident \<Rightarrow> service_info list \<Rightarrow> nat option" where
  "service_slot k is =
    (case find_service_info k is of Some i \<Rightarrow> Some i | None \<Rightarrow> find_empty_service_info is)"

text \<open>One descriptor of a service. \<open>strncpy (..., 64)\<close> leaves no terminator behind 64 characters.\<close>

definition service_descriptor_step :: "psisi_env \<Rightarrow> descriptor \<Rightarrow> service_info \<Rightarrow> service_info option" where
  "service_descriptor_step env d s =
    (if tag d = 0x48 then
       when_valid (service_descriptor d) (\<lambda>sd. s\<lparr>svc_type := service_type sd,
         svc_name := take 64 (arib env (take (unat (service_name_length sd)) (service_name_char sd)))\<rparr>) s
     else Some s)"

definition sdt_key :: "sdt_table \<Rightarrow> sdt_service \<Rightarrow> service_ident" where
  "sdt_key t sv = (table_id (sdt_header t), table_id_extension (sdt_header t),
     sdt_original_network_id t, service_id sv)"

definition fill_service ::
  "psisi_env \<Rightarrow> bool \<Rightarrow> sdt_table \<Rightarrow> sdt_service \<Rightarrow> service_info \<Rightarrow> service_info option" where
  "fill_service env tuning t sv s =
    (let s = (if tuning then s\<lparr>svc_target := True\<rparr> else s);
         s = s\<lparr>svc_table_id := table_id (sdt_header t), svc_tsid := table_id_extension (sdt_header t),
               svc_nid := sdt_original_network_id t, svc_id := service_id sv\<rparr>
     in map_option (\<lambda>s. s\<lparr>svc_used := True, svc_last_update := now env\<rparr>)
          (run_all (service_descriptor_step env) (sv_descriptors sv) s))"

text \<open>\<open>cache_service_infos\<close>: the pairs of a table and a service in the order of the two loops; it
  returns when the array is full.\<close>

fun cache_services ::
  "psisi_env \<Rightarrow> bool \<Rightarrow> (sdt_table \<times> sdt_service) list \<Rightarrow> service_info list \<Rightarrow> service_info list option" where
  "cache_services env tuning [] is = Some is"
| "cache_services env tuning ((t, sv) # svs) is =
    (case service_slot (sdt_key t sv) is of
       None \<Rightarrow> Some is
     | Some i \<Rightarrow>
         (case fill_service env tuning t sv (is ! i) of
            None \<Rightarrow> None
          | Some s \<Rightarrow> cache_services env tuning svs (is[i := s])))"

definition own_services :: "sdt_table list \<Rightarrow> (sdt_table \<times> sdt_service) list" where
  "own_services ts =
    concat (map (\<lambda>t. map (Pair t) (services t)) (filter (\<lambda>t. table_id (sdt_header t) = TBLID_SDT_A) ts))"

definition cache_service_infos ::
  "psisi_env \<Rightarrow> bool \<Rightarrow> sdt_table list \<Rightarrow> service_info list \<Rightarrow> service_info list option" where
  "cache_service_infos env tuning ts is = cache_services env tuning (own_services ts) is"

definition clear_service_infos :: "bool \<Rightarrow> service_info list \<Rightarrow> service_info list" where
  "clear_service_infos tuning is = map (if tuning then clear_at_tuning else (\<lambda>s. cleared_service)) is"

text \<open>The reply of \<open>get_current_service_infos\<close>: \<open>n\<close> cells of the caller's array are filled.\<close>

fun current_services :: "int \<Rightarrow> int \<Rightarrow> service_info list \<Rightarrow> service_info list" where
  "current_services num n [] = []"
| "current_services num n (s # ss) =
    (if n \<ge> num then []
     else if \<not> svc_used s then current_services num n ss
     else if \<not> svc_target s then current_services num n ss
     else s # current_services num (n + 1) ss)"

definition get_current_service_infos :: "int \<Rightarrow> service_info list \<Rightarrow> service_info list" where
  "get_current_service_infos num is = (if num = 0 then [] else current_services num 0 is)"

end
