(* ===== verification/Psisi_Events.thy ===== *)
theory Psisi_Events
  imports Psisi_Info
begin

text \<open>
  \<open>psisi_manager.cpp\<close>, the present and following events and the network information: what is
  copied from the EIT and NIT tables, how events are classified by the clock, and how the start
  of the following event is noticed.
\<close>

section \<open>Present and following events\<close>

type_synonym pf_infos = "event_pf_info list"

definition clear_event_pf_infos :: "pf_infos \<Rightarrow> pf_infos" where
  "clear_event_pf_infos is = map (\<lambda>i. cleared_pf) is"

definition find_empty_event_pf_info :: "pf_infos \<Rightarrow> nat option" where
  "find_empty_event_pf_info is =
    (let i = first_index (\<lambda>s. \<not> pf_used s) is in if i = EVENT_PF_INFOS_MAX then None else Some i)"

definition eit_key :: "eit_table \<Rightarrow> service_ident" where
  "eit_key t = (table_id (eit_header t), eit_transport_stream_id t, eit_original_network_id t,
     table_id_extension (eit_header t))"

definition event_start :: "psisi_env \<Rightarrow> eit_event \<Rightarrow> timespec" where
  "event_start env e =
    (let b = ev_start_time e
     in Timespec (mktime env (tm_from_mjd (b ! 0) (b ! 1) (b ! 2) (b ! 3) (b ! 4))) 0)"

definition event_duration :: "eit_event \<Rightarrow> int" where
  "event_duration e = (let d = ev_duration e in get_sec_from_bcd (d ! 0) (d ! 1) (d ! 2))"

definition pf_descriptor_step :: "psisi_env \<Rightarrow> descriptor \<Rightarrow> event_pf_info \<Rightarrow> event_pf_info option" where
  "pf_descriptor_step env d i =
    (if tag d = 0x4d then
       when_valid (short_event_descriptor d) (\<lambda>sd. i\<lparr>pf_event_name :=
         arib env (take (unat (event_name_length sd)) (event_name_char sd))\<rparr>) i
     else Some i)"

definition pf_event_step :: "psisi_env \<Rightarrow> eit_event \<Rightarrow> event_pf_info \<Rightarrow> event_pf_info option" where
  "pf_event_step env e i =
    (if event_id e = 0 then Some i
     else run_all (pf_descriptor_step env) (ev_descriptors e)
       (i\<lparr>pf_event_id := event_id e, pf_start_time := event_start env e,
          pf_end_time := add_sec (event_duration e) (event_start env e)\<rparr>))"

definition fill_pf :: "psisi_env \<Rightarrow> eit_table \<Rightarrow> event_pf_info \<Rightarrow> event_pf_info option" where
  "fill_pf env t i =
    (case run_all (pf_event_step env) (events t)
       (i\<lparr>pf_table_id := table_id (eit_header t), pf_tsid := eit_transport_stream_id t,
          pf_nid := eit_original_network_id t, pf_service_id := table_id_extension (eit_header t)\<rparr>) of
       None \<Rightarrow> None
     | Some i \<Rightarrow> Some (if pf_event_id i = 0 then cleared_pf else i\<lparr>pf_used := True\<rparr>))"

text \<open>\<open>cache_event_pf_infos\<close> with a key. Its result only decides whether a line is logged.\<close>

fun cache_pf_tables :: "psisi_env \<Rightarrow> service_ident \<Rightarrow> eit_table list \<Rightarrow> pf_infos \<Rightarrow> pf_infos option" where
  "cache_pf_tables env k [] is = Some is"
| "cache_pf_tables env k (t # ts) is =
    (if k \<noteq> eit_key t then cache_pf_tables env k ts is
     else case find_empty_event_pf_info is of
       None \<Rightarrow> Some is
     | Some n \<Rightarrow>
         (case fill_pf env t (is ! n) of None \<Rightarrow> None
          | Some i \<Rightarrow> cache_pf_tables env k ts (is[n := i])))"

definition cache_event_pf_infos_key ::
  "psisi_env \<Rightarrow> eit_table list \<Rightarrow> service_ident \<Rightarrow> pf_infos \<Rightarrow> pf_infos option" where
  "cache_event_pf_infos_key env ts k is = (if k = (0, 0, 0, 0) then Some is else cache_pf_tables env k ts is)"

definition cache_pf_service ::
  "psisi_env \<Rightarrow> eit_table list \<Rightarrow> service_info \<Rightarrow> pf_infos \<Rightarrow> pf_infos option" where
  "cache_pf_service env ts s is =
    (if \<not> svc_target s then Some is
     else let k = (TBLID_EIT_PF_A, svc_tsid s, svc_nid s, svc_id s)
          in if k = (0, 0, 0, 0) then Some is else cache_event_pf_infos_key env ts k is)"

definition cache_event_pf_infos ::
  "psisi_env \<Rightarrow> eit_table list \<Rightarrow> service_info list \<Rightarrow> pf_infos \<Rightarrow> pf_infos option" where
  "cache_event_pf_infos env ts svcs is = run_all (cache_pf_service env ts) svcs is"

definition classify :: "timespec \<Rightarrow> event_pf_info \<Rightarrow> event_pf_info" where
  "classify t i =
    (if etime_le (pf_start_time i) t \<and> etime_ge (pf_end_time i) t then i\<lparr>pf_state := Pf_present\<rparr>
     else if etime_gt (pf_start_time i) t then i\<lparr>pf_state := Pf_follow\<rparr>
     else if etime_lt (pf_end_time i) t then i\<lparr>pf_state := Pf_already_passed\<rparr>
     else i)"

definition check_event_pf_infos :: "psisi_env \<Rightarrow> pf_infos \<Rightarrow> pf_infos" where
  "check_event_pf_infos env is = map (\<lambda>i. if pf_used i then classify (now env) i else i) is"

definition refresh_event_pf_infos :: "pf_infos \<Rightarrow> pf_infos" where
  "refresh_event_pf_infos is =
    map (\<lambda>i. if pf_used i \<and> pf_state i = Pf_already_passed then cleared_pf else i) is"

definition pf_key :: "event_pf_info \<Rightarrow> service_ident" where
  "pf_key i = (pf_table_id i, pf_tsid i, pf_nid i, pf_service_id i)"

text \<open>The comparison of the state is compiled in, without \<open>_DUMMY_TUNER\<close>.\<close>

definition find_event_pf_info :: "service_ident \<Rightarrow> event_pf_state \<Rightarrow> pf_infos \<Rightarrow> event_pf_info option" where
  "find_event_pf_info k st is =
    (let i = first_index (\<lambda>p. pf_used p \<and> pf_state p = st \<and> pf_key p = k) is
     in if i = EVENT_PF_INFOS_MAX then None else Some (is ! i))"

text \<open>Clearing, caching and classifying always follow each other.\<close>

definition renew_event_pf_infos ::
  "psisi_env \<Rightarrow> eit_table list \<Rightarrow> service_info list \<Rightarrow> pf_infos \<Rightarrow> pf_infos option" where
  "renew_event_pf_infos env ts svcs is =
    map_option (check_event_pf_infos env) (cache_event_pf_infos env ts svcs (clear_event_pf_infos is))"

section \<open>The following event of a service\<close>

definition assign_follow_event :: "psisi_env \<Rightarrow> pf_infos \<Rightarrow> service_info \<Rightarrow> service_info" where
  "assign_follow_event env is s =
    (if svc_target s \<and> \<not> pf_used (svc_follow s) then
       case find_event_pf_info (TBLID_EIT_PF_A, svc_tsid s, svc_nid s, svc_id s) Pf_follow is of
         None \<Rightarrow> s
       | Some p \<Rightarrow>
           s\<lparr>svc_follow := cleared_pf\<lparr>pf_start_time := pf_start_time p, pf_end_time := pf_end_time p,
               pf_used := True\<rparr>, svc_last_update := now env\<rparr>
     else s)"

definition assign_follow_event_to_service_infos ::
  "psisi_env \<Rightarrow> pf_infos \<Rightarrow> service_info list \<Rightarrow> service_info list" where
  "assign_follow_event_to_service_infos env is svcs = map (assign_follow_event env is) svcs"

text \<open>\<open>notify_event_info_t\<close>: the identifiers of the event that begins.\<close>

definition event_notice :: "event_pf_info \<Rightarrow> service_ident \<times> u16" where
  "event_notice p = (pf_key p, pf_event_id p)"

definition check_follow_event ::
  "psisi_env \<Rightarrow> eit_table list \<Rightarrow> nat \<Rightarrow>
   service_info list \<times> pf_infos \<times> (service_ident \<times> u16) list \<Rightarrow>
   (service_info list \<times> pf_infos \<times> (service_ident \<times> u16) list) option" where
  "check_follow_event env ts i st =
    (let (svcs, is, notices) = st; s = svcs ! i; f = svc_follow s
     in if svc_target s \<and> pf_used f \<and> etime_le (pf_start_time f) (now env) then
          (case (if etime_lt (add_sec 15 (pf_start_time f)) (now env)
                 then renew_event_pf_infos env ts svcs is else Some is) of
             None \<Rightarrow> None
           | Some is' \<Rightarrow>
               Some (svcs[i := s\<lparr>svc_follow := cleared_pf\<rparr>], is', notices @ [event_notice f]))
        else Some st)"

definition check_follow_event_at_service_infos ::
  "psisi_env \<Rightarrow> eit_table list \<Rightarrow> service_info list \<times> pf_infos \<times> (service_ident \<times> u16) list \<Rightarrow>
   (service_info list \<times> pf_infos \<times> (service_ident \<times> u16) list) option" where
  "check_follow_event_at_service_infos env ts st =
    run_all (check_follow_event env ts) [0..<SERVICE_INFOS_MAX] st"

section \<open>The network\<close>

definition network_descriptor_step :: "psisi_env \<Rightarrow> descriptor \<Rightarrow> network_info \<Rightarrow> network_info option" where
  "network_descriptor_step env d n =
    (if tag d = 0x40 then
       when_valid (network_name_descriptor d) (\<lambda>name.
         n\<lparr>net_name := take 64 (arib env (take (unat (dlen d)) name))\<rparr>) n
     else Some n)"

definition stream_descriptor_step :: "psisi_env \<Rightarrow> descriptor \<Rightarrow> network_info \<Rightarrow> network_info option" where
  "stream_descriptor_step env d n =
    (if tag d = 0x41 then
       when_valid (service_list_descriptor d) (\<lambda>svs.
         n\<lparr>net_services := map (\<lambda>s. (sl_service_id s, sl_service_type s)) (take 16 svs)\<rparr>) n
     else if tag d = 0xfa then
       when_valid (terrestrial_delivery_system_descriptor d) (\<lambda>td.
         n\<lparr>net_area_code := area_code td, net_guard_interval := guard_interval td,
           net_transmission_mode := transmission_mode td\<rparr>) n
     else if tag d = 0xcd then
       when_valid (ts_information_descriptor d) (\<lambda>ti.
         n\<lparr>net_remote_key := remote_control_key_id ti,
           net_ts_name := take 64 (arib env (take (unat (length_of_ts_name ti)) (ts_name_char ti)))\<rparr>) n
     else Some n)"

definition fill_network :: "psisi_env \<Rightarrow> nit_table \<Rightarrow> network_info \<Rightarrow> network_info option" where
  "fill_network env t n =
    (case run_all (network_descriptor_step env) (nit_descriptors t)
       (n\<lparr>net_used := True, net_table_id := table_id (nit_header t),
          net_network_id := table_id_extension (nit_header t)\<rparr>) of
       None \<Rightarrow> None
     | Some n \<Rightarrow>
         (case nit_streams t of [] \<Rightarrow> Some n
          | s # ss \<Rightarrow> run_all (stream_descriptor_step env) (ns_descriptors s)
              (n\<lparr>net_tsid := ns_transport_stream_id s, net_nid := ns_original_network_id s\<rparr>)))"

text \<open>Only the first table of the own stream, and of it the first stream, are looked at.\<close>

fun cache_network_info :: "psisi_env \<Rightarrow> nit_table list \<Rightarrow> network_info \<Rightarrow> network_info option" where
  "cache_network_info env [] n = Some n"
| "cache_network_info env (t # ts) n =
    (if table_id (nit_header t) \<noteq> TBLID_NIT_A then cache_network_info env ts n
     else fill_network env t n)"

end
