(* ===== verification/Psisi_Services.thy ===== *)
theory Psisi_Services
  imports Psisi_Events
begin

text \<open>
  The arrays of services and events as sets of keys: every service occupies one cell, caching a
  table makes its services current, and the events found by a query are those of the tables,
  classified by the clock.
\<close>

section \<open>Cells and keys\<close>

definition used_services :: "service_info list \<Rightarrow> service_info list" where
  "used_services ss = filter svc_used ss"

definition current :: "service_info list \<Rightarrow> service_info list" where
  "current ss = filter (\<lambda>s. svc_used s \<and> svc_target s) ss"

text \<open>A following event of a service carries times only.\<close>

definition follow_blank :: "service_info \<Rightarrow> bool" where
  "follow_blank s = (event_notice (svc_follow s) = ((0, 0, 0, 0), 0))"

definition cell_ok :: "service_info \<Rightarrow> bool" where
  "cell_ok s = ((svc_target s \<longrightarrow> svc_used s) \<and> (svc_used s \<longrightarrow> svc_table_id s = TBLID_SDT_A) \<and> follow_blank s)"

definition services_ok :: "service_info list \<Rightarrow> bool" where
  "services_ok ss =
    (length ss = SERVICE_INFOS_MAX \<and> distinct (map svc_key (used_services ss)) \<and>
     list_all cell_ok ss)"

lemma current_services_take:
  "0 \<le> n \<Longrightarrow> current_services num n ss = take (nat (num - n)) (current ss)"
proof (induction ss arbitrary: n)
  case (Cons s ss)
  show ?case
  proof (cases "num \<le> n")
    case True
    then show ?thesis by simp
  next
    case False
    then have "nat (num - n) = Suc (nat (num - (n + 1)))" by simp
    with Cons False show ?thesis by (simp add: current_def)
  qed
qed (simp add: current_def)

lemma get_current_take: "get_current_service_infos num ss = take (nat num) (current ss)"
  by (simp add: get_current_service_infos_def current_services_take)

lemma current_used: "set (current ss) \<subseteq> set (used_services ss)"
  by (auto simp: current_def used_services_def)

lemma distinct_current:
  "services_ok ss \<Longrightarrow> distinct (map svc_key (current ss))"
proof -
  assume "services_ok ss"
  moreover have "current ss = filter svc_target (used_services ss)"
    by (simp add: current_def used_services_def conj_commute)
  ultimately show ?thesis by (simp add: services_ok_def distinct_map_filter)
qed

section \<open>Where a service goes\<close>

lemma slot_cases:
  assumes "service_slot k ss = Some i" "length ss = SERVICE_INFOS_MAX"
  obtains (found) "i < length ss" "svc_used (ss ! i)" "svc_key (ss ! i) = k"
    | (fresh) "i < length ss" "\<not> svc_used (ss ! i)" "k \<notin> set (map svc_key (used_services ss)) \<or> k = (0, 0, 0, 0)"
proof (cases "find_service_info k ss")
  case (Some j)
  let ?P = "\<lambda>s. svc_used s \<and> k = svc_key s"
  from Some assms have j: "j = i" "i = first_index ?P ss" "i \<noteq> SERVICE_INFOS_MAX"
    by (auto simp: service_slot_def find_service_info_def Let_def split: if_splits)
  then have "i < length ss" using first_index_le [of ?P ss] assms(2) by simp
  moreover from this j have "?P (ss ! i)"
    using first_index_less_iff [of ?P ss] first_index_nth [of "ss" ?P] by simp
  ultimately show ?thesis using found by simp
next
  case None
  let ?P = "\<lambda>s. svc_used s \<and> k = svc_key s" and ?E = "\<lambda>s. \<not> svc_used s"
  from None assms(1) have i: "i = first_index ?E ss" "i \<noteq> SERVICE_INFOS_MAX"
    by (auto simp: service_slot_def find_empty_service_info_def Let_def split: if_splits)
  then have less: "i < length ss" using first_index_le [of ?E ss] assms(2) by simp
  moreover from less i have "?E (ss ! i)"
    using first_index_less_iff [of ?E ss] first_index_nth [of "ss" ?E] by simp
  moreover have "k \<notin> set (map svc_key (used_services ss)) \<or> k = (0, 0, 0, 0)"
  proof (cases "k = (0, 0, 0, 0)")
    case False
    with None have "\<not> first_index ?P ss < length ss"
      using assms(2) by (auto simp: find_service_info_def Let_def split: if_splits)
    then show ?thesis using first_index_less_iff [of ?P ss] by (auto simp: used_services_def)
  qed simp
  ultimately show ?thesis using fresh by blast
qed

lemma slot_None:
  assumes "service_slot k ss = None" "length ss = SERVICE_INFOS_MAX" "k \<noteq> (0, 0, 0, 0)"
  shows "used_services ss = ss" "k \<notin> set (map svc_key ss)"
proof -
  let ?P = "\<lambda>s. svc_used s \<and> k = svc_key s" and ?E = "\<lambda>s. \<not> svc_used s"
  from assms have "first_index ?P ss = length ss" "first_index ?E ss = length ss"
    by (auto simp: service_slot_def find_service_info_def find_empty_service_info_def Let_def
        split: option.splits if_splits)
  then have none: "\<not> (\<exists>s\<in>set ss. ?P s)" "\<not> (\<exists>s\<in>set ss. ?E s)"
    using first_index_less_iff [of ?P ss] first_index_less_iff [of ?E ss] by auto
  then show "used_services ss = ss" by (auto simp: used_services_def filter_id_conv)
  from none show "k \<notin> set (map svc_key ss)" by auto
qed

lemma write_cell:
  assumes "services_ok (a @ x # b)" "svc_used s" "cell_ok s"
    and "svc_used x \<and> svc_key x = svc_key s
      \<or> \<not> svc_used x \<and> svc_key s \<notin> set (map svc_key (used_services (a @ x # b)))"
  shows "services_ok (a @ s # b)"
    "set (map svc_key (used_services (a @ s # b))) = insert (svc_key s) (set (map svc_key (used_services (a @ x # b))))"
    "svc_target s \<Longrightarrow>
      set (map svc_key (current (a @ s # b))) = insert (svc_key s) (set (map svc_key (current (a @ x # b))))"
proof -
  have "svc_target s \<Longrightarrow> svc_used s" "length a + length b + 1 = SERVICE_INFOS_MAX"
    using assms by (simp_all add: services_ok_def)
  with assms(4) show "services_ok (a @ s # b)"
    by (elim disjE conjE) (use assms(1-3) in \<open>simp_all add: services_ok_def used_services_def\<close>)
  show "set (map svc_key (used_services (a @ s # b)))
      = insert (svc_key s) (set (map svc_key (used_services (a @ x # b))))"
    using assms(2,4) by (auto simp: used_services_def)
  show "set (map svc_key (current (a @ s # b))) = insert (svc_key s) (set (map svc_key (current (a @ x # b))))"
    if "svc_target s"
    using assms(2,4) that by (auto simp: current_def)
qed

lemma write_service:
  assumes "services_ok ss" "service_slot (svc_key s) ss = Some i" "svc_used s" "svc_table_id s = TBLID_SDT_A"
    and "follow_blank s"
  shows "services_ok (ss[i := s])"
    "set (map svc_key (used_services (ss[i := s]))) = insert (svc_key s) (set (map svc_key (used_services ss)))"
    "svc_target s \<Longrightarrow>
      set (map svc_key (current (ss[i := s]))) = insert (svc_key s) (set (map svc_key (current ss)))"
proof -
  have len: "length ss = SERVICE_INFOS_MAX" using assms(1) by (simp add: services_ok_def)
  have nz: "svc_key s \<noteq> (0, 0, 0, 0)" using assms(4) by (simp add: svc_key_def)
  have i: "i < length ss" using assms(2) len by (rule slot_cases) auto
  obtain a x b where ab: "ss = a @ x # b" "length a = i" "ss ! i = x"
    using id_take_nth_drop [OF i] i by (metis length_take min.absorb4)
  have upd: "ss[i := s] = a @ s # b" using ab by (simp add: list_update_append)
  have "svc_used x \<and> svc_key x = svc_key s
      \<or> \<not> svc_used x \<and> svc_key s \<notin> set (map svc_key (used_services ss))"
    using assms(2) len by (rule slot_cases) (use nz ab(3) in auto)
  note cell = write_cell [OF assms(1) [unfolded ab(1)] assms(3) _ this [unfolded ab(1)]]
  have cell_s: "cell_ok s" using assms(3-5) by (simp add: cell_ok_def)
  show "services_ok (ss[i := s])"
    unfolding upd by (rule cell(1) [OF cell_s])
  show "set (map svc_key (used_services (ss[i := s]))) = insert (svc_key s) (set (map svc_key (used_services ss)))"
    unfolding upd unfolding ab(1) by (rule cell(2) [OF cell_s])
  show "set (map svc_key (current (ss[i := s]))) = insert (svc_key s) (set (map svc_key (current ss)))"
    if "svc_target s"
    unfolding upd unfolding ab(1) by (rule cell(3) [OF cell_s that])
qed

section \<open>Caching a service table\<close>

text \<open>The descriptors of a service change its type and name only.\<close>

definition same_cell :: "service_info \<Rightarrow> service_info \<Rightarrow> bool" where
  "same_cell s t = (svc_key t = svc_key s \<and> svc_table_id t = svc_table_id s \<and> svc_target t = svc_target s \<and>
     svc_follow t = svc_follow s)"

lemma descriptor_same_cell:
  "service_descriptor_step env d s = Some t \<Longrightarrow> same_cell s t"
  by (auto simp: service_descriptor_step_def same_cell_def svc_key_def split: if_splits
      dest!: when_valid_SomeD)

lemma fill_service_cell:
  assumes "fill_service env tuning t sv s = Some s'"
  shows "svc_key s' = sdt_key t sv" "svc_used s'" "svc_follow s' = svc_follow s"
    "svc_target s' \<longleftrightarrow> tuning \<or> svc_target s" "svc_table_id s' = table_id (sdt_header t)"
proof -
  define s0 where "s0 = (if tuning then s\<lparr>svc_target := True\<rparr> else s)
    \<lparr>svc_table_id := table_id (sdt_header t), svc_tsid := table_id_extension (sdt_header t),
     svc_nid := sdt_original_network_id t, svc_id := service_id sv\<rparr>"
  obtain s1 where s1: "run_all (service_descriptor_step env) (sv_descriptors sv) s0 = Some s1"
    "s' = s1\<lparr>svc_used := True, svc_last_update := now env\<rparr>"
    using assms by (auto simp: fill_service_def s0_def Let_def)
  have "same_cell s0 s1"
    by (rule run_all_keeps [OF s1(1)])
      (auto simp: same_cell_def dest!: descriptor_same_cell)
  with s1(2) show "svc_key s' = sdt_key t sv" "svc_used s'" "svc_follow s' = svc_follow s"
    "svc_target s' \<longleftrightarrow> tuning \<or> svc_target s" "svc_table_id s' = table_id (sdt_header t)"
    by (auto simp: same_cell_def s0_def svc_key_def sdt_key_def)
qed

lemma nth_ok: "\<lbrakk>services_ok ss; i < length ss\<rbrakk> \<Longrightarrow> cell_ok (ss ! i)"
  by (simp add: services_ok_def list_all_length)

lemma cache_step:
  assumes "services_ok ss" "service_slot (sdt_key t sv) ss = Some i" "table_id (sdt_header t) = TBLID_SDT_A"
    and "fill_service env tuning t sv (ss ! i) = Some s"
  shows "services_ok (ss[i := s])"
    "set (map svc_key (used_services (ss[i := s]))) = insert (sdt_key t sv) (set (map svc_key (used_services ss)))"
    "tuning \<Longrightarrow> set (map svc_key (current (ss[i := s]))) = insert (sdt_key t sv) (set (map svc_key (current ss)))"
proof -
  note f = fill_service_cell [OF assms(4)]
  have "length ss = SERVICE_INFOS_MAX" using assms(1) by (simp add: services_ok_def)
  with assms(2) have "i < length ss" by (rule slot_cases) auto
  then have "follow_blank s"
    using nth_ok [OF assms(1)] f(3) by (simp add: cell_ok_def follow_blank_def)
  then show "services_ok (ss[i := s])"
    "set (map svc_key (used_services (ss[i := s]))) = insert (sdt_key t sv) (set (map svc_key (used_services ss)))"
    "tuning \<Longrightarrow> set (map svc_key (current (ss[i := s]))) = insert (sdt_key t sv) (set (map svc_key (current ss)))"
    using write_service [OF assms(1), of s i] f assms(2,3) by simp_all
qed

lemma cache_services_ok:
  assumes "services_ok ss" "cache_services env tuning svs ss = Some ss'"
    and "list_all (\<lambda>(t, sv). table_id (sdt_header t) = TBLID_SDT_A) svs"
  shows "services_ok ss'"
  using assms
proof (induction svs arbitrary: ss)
  case (Cons x svs)
  obtain t sv where x: "x = (t, sv)" by fastforce
  show ?case
  proof (cases "service_slot (sdt_key t sv) ss")
    case None
    with Cons.prems x show ?thesis by simp
  next
    case (Some i)
    with Cons.prems x obtain s where "fill_service env tuning t sv (ss ! i) = Some s"
      "cache_services env tuning svs (ss[i := s]) = Some ss'"
      by (auto split: option.splits)
    note * = this
    have tid: "table_id (sdt_header t) = TBLID_SDT_A" using Cons.prems(3) x by simp
    show ?thesis
      by (rule Cons.IH [OF cache_step(1) [OF Cons.prems(1) Some tid *(1)] *(2)]) (use Cons.prems(3) in simp)
  qed
qed simp

lemma own_services_tables:
  "list_all (\<lambda>(t, sv). table_id (sdt_header t) = TBLID_SDT_A) (own_services ts)"
  by (auto simp: own_services_def list_all_iff)

text \<open>A full array needs more keys than cells.\<close>

lemma full_needs_room:
  assumes "services_ok ss" "service_slot k ss = None" "k \<noteq> (0, 0, 0, 0)"
  shows "card (insert k (set (map svc_key (used_services ss)))) = SERVICE_INFOS_MAX + 1"
proof -
  have len: "length ss = SERVICE_INFOS_MAX" using assms(1) by (simp add: services_ok_def)
  note none = slot_None [OF assms(2) len assms(3)]
  then have "card (set (map svc_key (used_services ss))) = SERVICE_INFOS_MAX"
    using assms(1) distinct_card [of "map svc_key ss"] len by (simp add: services_ok_def)
  moreover have "k \<notin> set (map svc_key (used_services ss))" using none by simp
  ultimately show ?thesis by simp
qed

lemma cache_services_keys:
  assumes "services_ok ss" "cache_services env True svs ss = Some ss'"
    and "list_all (\<lambda>(t, sv). table_id (sdt_header t) = TBLID_SDT_A) svs"
    and "card (set (map svc_key (used_services ss)) \<union> set (map (case_prod sdt_key) svs)) \<le> SERVICE_INFOS_MAX"
  shows "set (map svc_key (current ss')) = set (map svc_key (current ss)) \<union> set (map (case_prod sdt_key) svs)"
  using assms
proof (induction svs arbitrary: ss)
  case (Cons x svs)
  obtain t sv where x: "x = (t, sv)" by fastforce
  let ?k = "sdt_key t sv" and ?U = "set (map svc_key (used_services ss))"
    and ?R = "set (map (case_prod sdt_key) svs)"
  have tid: "table_id (sdt_header t) = TBLID_SDT_A" using Cons.prems(3) x by simp
  then have nz: "?k \<noteq> (0, 0, 0, 0)" by (simp add: sdt_key_def)
  have room: "card (insert ?k ?U \<union> ?R) \<le> SERVICE_INFOS_MAX"
    using Cons.prems(4) x by (simp add: Un_insert_right)
  show ?case
  proof (cases "service_slot ?k ss")
    case None
    have "card (insert ?k ?U) \<le> card (insert ?k ?U \<union> ?R)" by (rule card_mono) auto
    then show ?thesis using full_needs_room [OF Cons.prems(1) None nz] room by simp
  next
    case (Some i)
    with Cons.prems x obtain s where s: "fill_service env True t sv (ss ! i) = Some s"
      "cache_services env True svs (ss[i := s]) = Some ss'"
      by (auto split: option.splits)
    note step = cache_step [OF Cons.prems(1) Some tid s(1)]
    have "set (map svc_key (current ss')) = set (map svc_key (current (ss[i := s]))) \<union> ?R"
    proof (rule Cons.IH [OF step(1) s(2)])
      show "list_all (\<lambda>(t, sv). table_id (sdt_header t) = TBLID_SDT_A) svs" using Cons.prems(3) by simp
      show "card (set (map svc_key (used_services (ss[i := s]))) \<union> ?R) \<le> SERVICE_INFOS_MAX"
        using room step(2) by (simp only: simp_thms)
    qed
    also have "set (map svc_key (current (ss[i := s]))) = insert ?k (set (map svc_key (current ss)))"
      using step(3) by (simp only: simp_thms)
    finally show ?thesis using x by simp
  qed
qed simp

text \<open>Clearing at tuning keeps the cells and makes no service current.\<close>

lemma clear_at_tuning_cells:
  assumes "services_ok ss"
  shows "services_ok (clear_service_infos True ss)"
    "map svc_key (used_services (clear_service_infos True ss)) = map svc_key (used_services ss)"
    "current (clear_service_infos True ss) = []"
proof -
  have used: "used_services (clear_service_infos True ss) = map clear_at_tuning (used_services ss)"
    by (simp add: used_services_def clear_service_infos_def filter_map clear_at_tuning_def comp_def)
  then show keys: "map svc_key (used_services (clear_service_infos True ss)) = map svc_key (used_services ss)"
    by (simp add: clear_at_tuning_def svc_key_def comp_def)
  have "list_all cell_ok (clear_service_infos True ss)"
    using assms by (auto simp: services_ok_def list_all_iff clear_service_infos_def clear_at_tuning_def
        cell_ok_def follow_blank_def event_notice_def pf_key_def cleared_pf_def)
  with assms keys show "services_ok (clear_service_infos True ss)"
    by (simp add: services_ok_def) (simp add: clear_service_infos_def)
  show "current (clear_service_infos True ss) = []"
    by (simp add: current_def clear_service_infos_def filter_empty_conv clear_at_tuning_def)
qed

lemma cached_services:
  assumes "services_ok ss" "cache_service_infos env True ts (clear_service_infos True ss) = Some ss'"
  shows "services_ok ss'"
    "card (set (map svc_key (used_services ss)) \<union> set (map (case_prod sdt_key) (own_services ts))) \<le> SERVICE_INFOS_MAX
      \<Longrightarrow> set (map svc_key (current ss')) = set (map (case_prod sdt_key) (own_services ts))"
proof -
  note c = clear_at_tuning_cells [OF assms(1)]
  note run = assms(2) [unfolded cache_service_infos_def]
  show "services_ok ss'" by (rule cache_services_ok [OF c(1) run own_services_tables])
  show "set (map svc_key (current ss')) = set (map (case_prod sdt_key) (own_services ts))"
    if "card (set (map svc_key (used_services ss)) \<union> set (map (case_prod sdt_key) (own_services ts))) \<le> SERVICE_INFOS_MAX"
    using cache_services_keys [OF c(1) run own_services_tables] that c(2,3) by simp
qed

text \<open>Once every cell is used by a service of other streams, a tuned stream has no services.\<close>

lemma full_array_current:
  assumes "services_ok ss" "used_services ss = ss"
    and "set (map svc_key ss) \<inter> set (map (case_prod sdt_key) (own_services ts)) = {}"
  shows "cache_service_infos env True ts (clear_service_infos True ss) = Some (clear_service_infos True ss)"
proof (cases "own_services ts")
  case Nil
  then show ?thesis by (simp add: cache_service_infos_def)
next
  case (Cons x svs)
  obtain t sv where x: "x = (t, sv)" by fastforce
  have "list_all (\<lambda>(t, sv). table_id (sdt_header t) = TBLID_SDT_A) (x # svs)"
    using own_services_tables [of ts] Cons by simp
  then have nz: "sdt_key t sv \<noteq> (0, 0, 0, 0)" using x by (simp add: sdt_key_def)
  let ?c = "clear_service_infos True ss"
  have "length ?c = SERVICE_INFOS_MAX" using assms(1) by (simp add: services_ok_def clear_service_infos_def)
  have "service_slot (sdt_key t sv) ?c = None"
  proof (rule ccontr)
    assume "service_slot (sdt_key t sv) ?c \<noteq> None"
    then obtain i where i: "service_slot (sdt_key t sv) ?c = Some i" by auto
    from i \<open>length ?c = SERVICE_INFOS_MAX\<close> show False
    proof (rule slot_cases)
      assume "i < length ?c" "svc_key (?c ! i) = sdt_key t sv"
      moreover from this have "svc_key (?c ! i) = svc_key (ss ! i)" "ss ! i \<in> set ss"
        by (simp_all add: clear_service_infos_def clear_at_tuning_def svc_key_def)
      ultimately have "sdt_key t sv \<in> set (map svc_key ss)" by (metis image_eqI list.set_map)
      then show False using assms(3) Cons x by auto
    next
      assume "i < length ?c" "\<not> svc_used (?c ! i)"
      then have "\<not> svc_used (ss ! i)" "ss ! i \<in> set ss"
        by (simp_all add: clear_service_infos_def clear_at_tuning_def)
      then show False using assms(2) by (metis filter_id_conv used_services_def)
    qed
  qed
  then show ?thesis by (simp add: cache_service_infos_def Cons x)
qed

end
