(* ===== verification/Png_Logo.thy ===== *)
theory Png_Logo
  imports Arib_Common Si_Tables
begin

text \<open>
  \<open>common/pngcrc.h\<close>, the checksum of PNG chunks by a table made at run time, and
  \<open>manager::store_logo\<close> of \<open>psisi_manager.cpp\<close>, which puts the colour table of the standard and
  its transparency between the header and the rest of a broadcast logo. The checksum is shown to
  be the bitwise one of the PNG specification.
\<close>

section \<open>The checksum\<close>

text \<open>The body of the loop over \<open>k\<close>, and the table.\<close>

definition png_bit :: "u32 \<Rightarrow> u32" where
  "png_bit c = (if c AND 1 \<noteq> 0 then 0xedb88320 XOR drop_bit 1 c else drop_bit 1 c)"

definition make_crc_table :: "u32 list" where
  "make_crc_table = map (\<lambda>n. (png_bit ^^ 8) (word_of_nat n)) [0..<256]"

definition update_crc :: "u32 \<Rightarrow> u8 list \<Rightarrow> u32" where
  "update_crc crc buf =
    foldl (\<lambda>c b. make_crc_table ! unat ((c XOR ucast b) AND 0xff) XOR drop_bit 8 c) crc buf"

definition png_crc :: "u8 list \<Rightarrow> u32" where
  "png_crc buf = update_crc 0xffffffff buf XOR 0xffffffff"

text \<open>The specification: the byte is added to the low bits, then eight single steps.\<close>

definition png_byte :: "u32 \<Rightarrow> u8 \<Rightarrow> u32" where
  "png_byte c b = (png_bit ^^ 8) (c XOR ucast b)"

lemma png_bit_odd: "png_bit c = (if bit c 0 then 0xedb88320 XOR drop_bit 1 c else drop_bit 1 c)"
  by (simp add: png_bit_def and_one_eq bit_0 even_iff_mod_2_eq_zero)

lemma png_bit_xor: "png_bit (a XOR b) = png_bit a XOR png_bit b"
  by (cases "bit a 0"; cases "bit b 0")
    (simp_all add: png_bit_odd bit_xor_iff drop_bit_xor xor.assoc xor.left_commute)

lemma png_bits_xor: "(png_bit ^^ n) (a XOR b) = (png_bit ^^ n) a XOR (png_bit ^^ n) b"
  by (induction n) (simp_all add: png_bit_xor)

lemma png_bits_shift:
  "(\<And>k. k < n \<Longrightarrow> \<not> bit x k) \<Longrightarrow> (png_bit ^^ n) x = drop_bit n x"
proof (induction n)
  case (Suc n)
  then have "\<not> bit (drop_bit n x) 0" by (simp add: bit_simps)
  with Suc show ?case by (simp add: png_bit_odd)
qed simp

lemma mask_8: "(0xff :: u32) = mask 8"
  by (simp add: mask_eq_exp_minus_1)

lemma low_high: "c = (c AND 0xff) XOR push_bit 8 (drop_bit 8 c)" for c :: u32
  unfolding mask_8 by (rule bit_word_eqI) (auto simp: bit_simps)

lemma table_step:
  "make_crc_table ! unat ((c XOR ucast b) AND 0xff) XOR drop_bit 8 c = png_byte c b"
proof -
  let ?x = "(c XOR ucast b) :: u32"
  have bound: "unat (?x AND 0xff) < 256"
    using unat_and_mask_less [of ?x 8] by (simp add: mask_eq_exp_minus_1)
  have "png_byte c b = (png_bit ^^ 8) ((?x AND 0xff) XOR push_bit 8 (drop_bit 8 ?x))"
    using low_high [of ?x] by (simp add: png_byte_def)
  also have "\<dots> = (png_bit ^^ 8) (?x AND 0xff) XOR (png_bit ^^ 8) (push_bit 8 (drop_bit 8 ?x))"
    by (rule png_bits_xor)
  also have "(png_bit ^^ 8) (push_bit 8 (drop_bit 8 ?x)) = drop_bit 8 (push_bit 8 (drop_bit 8 ?x))"
    by (rule png_bits_shift) (simp add: bit_simps)
  also have "\<dots> = drop_bit 8 c"
    by (rule bit_word_eqI) (auto simp: bit_simps dest: bit_imp_le_length)
  also have "(png_bit ^^ 8) (?x AND 0xff) = make_crc_table ! unat (?x AND 0xff)"
    using bound by (simp add: make_crc_table_def)
  finally show ?thesis by simp
qed

text \<open>The checksum by the table is the bitwise one of the PNG specification.\<close>

theorem png_crc_is_bitwise:
  "png_crc buf = foldl png_byte 0xffffffff buf XOR 0xffffffff"
  by (simp add: png_crc_def update_crc_def table_step)

section \<open>The logo files\<close>

abbreviation "COMMON_CLUT_SIZE \<equiv> 128 :: nat"

text \<open>A colour component; the indices of the loops lie inside the table.\<close>

definition clut :: "nat \<Rightarrow> nat \<Rightarrow> u8" where
  "clut i rgba = (case get_clut_palette i rgba of None \<Rightarrow> 0 | Some v \<Rightarrow> v)"

text \<open>The buffers \<open>buff_plte\<close> and \<open>buff_trns\<close>: length, type, content, checksum.\<close>

definition buff_plte :: "u8 list" where
  "buff_plte =
    (let body = [0x50, 0x4c, 0x54, 0x45]
       @ concat (map (\<lambda>i. [clut i 0, clut i 1, clut i 2]) [0..<COMMON_CLUT_SIZE])
     in be32_bytes (word_of_nat (COMMON_CLUT_SIZE * 3)) @ body @ be32_bytes (png_crc body))"

definition buff_trns :: "u8 list" where
  "buff_trns =
    (let body = [0x74, 0x52, 0x4e, 0x53] @ map (\<lambda>i. clut i 3) [0..<COMMON_CLUT_SIZE]
     in be32_bytes (word_of_nat COMMON_CLUT_SIZE) @ body @ be32_bytes (png_crc body))"

text \<open>The picture: \<open>None\<close> when the data is shorter than the 33 bytes that are copied first.\<close>

definition png_include_plte :: "u8 list \<Rightarrow> u8 list option" where
  "png_include_plte dat =
    (if length dat < 33 then None
     else Some (take 33 dat @ buff_plte @ buff_trns @ drop 33 dat))"

text \<open>What the file name is printed from, apart from the directory: the transport stream's name and
  identifiers, the table's extension, and the logo's type, identifier and version.\<close>

type_synonym logo_name = "string \<times> u16 \<times> u16 \<times> u16 \<times> u8 \<times> u16 \<times> u16"

definition logo_file ::
  "string \<Rightarrow> u16 \<Rightarrow> u16 \<Rightarrow> cdt_table \<Rightarrow> (logo_name \<times> u8 list) list \<Rightarrow> (logo_name \<times> u8 list) list option" where
  "logo_file name ts nid t fs =
    (if data_type t \<noteq> 0x01 then Some fs
     else map_option (\<lambda>png. fs @ [((name, ts, nid, table_id_extension (cdt_header t),
              cd_logo_type (cdt_data t), cd_logo_id (cdt_data t), cd_logo_version (cdt_data t)), png)])
            (png_include_plte (data_byte (cdt_data t))))"

text \<open>\<open>store_logo\<close>: the files written, in order. \<open>dir_ok\<close> says that the directory is there or can be
  made; otherwise the program exits.\<close>

definition store_logo ::
  "bool \<Rightarrow> bool \<Rightarrow> string \<Rightarrow> u16 \<Rightarrow> u16 \<Rightarrow> cdt_table list \<Rightarrow> (logo_name \<times> u8 list) list \<Rightarrow>
   (logo_name \<times> u8 list) list option" where
  "store_logo dir_ok ready name ts nid tabs fs =
    (if \<not> ready then Some fs
     else if \<not> dir_ok then None
     else run_all (logo_file name ts nid) tabs fs)"

text \<open>A reader of the file finds the chunks: length, type, content and checksum of each.\<close>

definition chunk :: "u8 list \<Rightarrow> u8 list \<Rightarrow> u8 list" where
  "chunk ty content = be32_bytes (word_of_nat (length content)) @ ty @ content @ be32_bytes (png_crc (ty @ content))"

lemma length_palette: "length g_CLUTPalette = 128"
  by (simp add: g_CLUTPalette_def)

lemma clut_nth:
  "i < 128 \<Longrightarrow> g_CLUTPalette ! i = (clut i 0, clut i 1, clut i 2, clut i 3)"
  by (simp add: clut_def get_clut_palette_def length_palette split: prod.split)

lemma length_triples: "length (concat (map (\<lambda>i. [f i, g i, h i]) [0..<n])) = 3 * n"
  by (induction n) simp_all

lemma nth_triples:
  "i < n \<Longrightarrow> concat (map (\<lambda>i. [f i, g i, h i]) [0..<n]) ! (3 * i) = f i \<and>
    concat (map (\<lambda>i. [f i, g i, h i]) [0..<n]) ! (3 * i + 1) = g i \<and>
    concat (map (\<lambda>i. [f i, g i, h i]) [0..<n]) ! (3 * i + 2) = h i"
proof (induction n)
  case (Suc n)
  then show ?case
    by (cases "i = n") (simp_all add: nth_append length_triples)
qed simp

text \<open>A logo is stored with the colour table of the standard put in as two chunks, each with its
  length, type and checksum, between the header and the rest of the picture: the 128 colours and
  their transparency.\<close>

theorem stored_logo_has_its_palette:
  assumes "data_type t = 0x01" "33 \<le> length (data_byte (cdt_data t))"
  shows "\<exists>colours alphas. length colours = 3 * 128 \<and> length alphas = 128 \<and>
    (\<forall>i < 128. g_CLUTPalette ! i
       = (colours ! (3 * i), colours ! (3 * i + 1), colours ! (3 * i + 2), alphas ! i)) \<and>
    map_option (map snd) (store_logo True True name ts nid [t] [])
      = Some [take 33 (data_byte (cdt_data t))
          @ chunk [0x50, 0x4c, 0x54, 0x45] colours @ chunk [0x74, 0x52, 0x4e, 0x53] alphas
          @ drop 33 (data_byte (cdt_data t))]"
proof -
  define colours where "colours = concat (map (\<lambda>i. [clut i 0, clut i 1, clut i 2]) [0..<128])"
  define alphas where "alphas = map (\<lambda>i. clut i 3) [0..<128]"
  have len: "length colours = 3 * 128" "length alphas = 128"
    unfolding colours_def alphas_def length_triples by simp_all
  have "\<forall>i < 128. g_CLUTPalette ! i
       = (colours ! (3 * i), colours ! (3 * i + 1), colours ! (3 * i + 2), alphas ! i)"
    unfolding colours_def alphas_def using nth_triples [of _ 128 "\<lambda>i. clut i 0" "\<lambda>i. clut i 1" "\<lambda>i. clut i 2"]
    by (simp add: clut_nth)
  moreover have "buff_plte = chunk [0x50, 0x4c, 0x54, 0x45] colours"
    "buff_trns = chunk [0x74, 0x52, 0x4e, 0x53] alphas"
    unfolding buff_plte_def buff_trns_def chunk_def Let_def len
    by (simp_all add: colours_def alphas_def)
  moreover have "map_option (map snd) (store_logo True True name ts nid [t] [])
      = Some [take 33 (data_byte (cdt_data t)) @ buff_plte @ buff_trns @ drop 33 (data_byte (cdt_data t))]"
    using assms by (simp add: store_logo_def logo_file_def png_include_plte_def)
  ultimately show ?thesis using len by metis
qed

definition sample_logo :: cdt_table where
  "sample_logo =
    \<lparr>cdt_header = zero_header, cdt_original_network_id = 4, data_type = 0x01, cdt_reserved_future_use = 0,
     cdt_descriptors_loop_length = 0, cdt_descriptors = [],
     cdt_data = empty_cdt_data\<lparr>data_size := 40, data_byte := replicate 40 7\<rparr>\<rparr>"

theorem stored_logo_has_its_palette_witness:
  "\<exists>colours alphas. length colours = 3 * 128 \<and> length alphas = 128 \<and>
    (\<forall>i < 128. g_CLUTPalette ! i
       = (colours ! (3 * i), colours ! (3 * i + 1), colours ! (3 * i + 2), alphas ! i)) \<and>
    map_option (map snd) (store_logo True True ''ts'' 1 2 [sample_logo] [])
      = Some [take 33 (data_byte (cdt_data sample_logo))
          @ chunk [0x50, 0x4c, 0x54, 0x45] colours @ chunk [0x74, 0x52, 0x4e, 0x53] alphas
          @ drop 33 (data_byte (cdt_data sample_logo))]"
  by (rule stored_logo_has_its_palette) (simp_all add: sample_logo_def)

end
