(* ===== verification/Psisi_Manager.thy ===== *)
theory Psisi_Manager
  imports Psisi_Events Png_Logo Ts_Parser
begin

text \<open>
  \<open>psisi_manager/psisi_manager.cpp\<close>, the handlers: the section parsers of one tuner, the caches they
  fill, and the state the other modules see. A handler that leads to undefined behaviour or ends
  the program is \<open>None\<close>. The handlers that wait are given as the steps between the waits; the
  clock is read once in each step.
\<close>

section \<open>State\<close>

text \<open>\<open>section_comp_flag_t\<close>: whether a table has been completed and then seen again.\<close>

definition check_update :: "bool \<Rightarrow> nat \<Rightarrow> nat" where
  "check_update is_new_section flag =
    (if is_new_section then (if flag = 0 then 1 else flag) else if flag = 1 then 2 else flag)"

definition is_completed :: "nat \<Rightarrow> bool" where
  "is_completed flag = (flag = 2)"

datatype psisi_notice =
    Pat_detect bool
  | Event_change "service_ident \<times> u16"
  | Psisi_state bool
  | Send_stabilization

type_synonym 't table_parser = "section_parser \<times> 't table_store"

text \<open>\<open>psisi_ready\<close> is \<open>state_\<close>; \<open>program_map\<close> the PMT parser of each PID; \<open>psisi_sent\<close> the notices
  and requests sent, \<open>logos\<close> the logo files written.\<close>

record psisi_manager =
  tuner_is_tuned :: bool
  is_detected_PAT :: bool
  psisi_ready :: bool
  mPAT :: "pat_table table_parser"
  mEIT_H :: "eit_table table_parser"
  mNIT :: "nit_table table_parser"
  mSDT :: "sdt_table table_parser"
  mCAT :: "cat_table table_parser"
  mCDT :: "cdt_table table_parser"
  mEIT_H_sched :: "section_parser \<times> sched_store"
  program_map :: "u16 \<rightharpoonup> pmt_table table_parser"
  is_enable_EIT_sched :: bool
  pat_recv_time :: timespec
  program_infos :: "program_info list"
  service_infos :: "service_info list"
  event_pf_infos :: pf_infos
  the_network :: network_info
  EIT_H_comp_flag :: nat
  NIT_comp_flag :: nat
  SDT_comp_flag :: nat
  psisi_sent :: "psisi_notice list"
  logos :: "(logo_name \<times> u8 list) list"

definition new_psisi_manager :: psisi_manager where
  "new_psisi_manager =
    \<lparr>tuner_is_tuned = False, is_detected_PAT = False, psisi_ready = False,
     mPAT = (new_parser POOL_SIZE 16 T_PSISI, empty_store),
     mEIT_H = (new_parser (4096 * 100) 100 T_PSISI, empty_store),
     mNIT = (new_parser POOL_SIZE 0 T_PSISI, empty_store),
     mSDT = (new_parser POOL_SIZE 0 T_PSISI, empty_store),
     mCAT = (new_parser POOL_SIZE 0 T_PSISI, empty_store),
     mCDT = (new_parser (4096 * 100) 0 T_PSISI, empty_store),
     mEIT_H_sched = (new_parser (4096 * 100) 100 T_PSISI,
       \<lparr>sched_tables = [], sched_wild_read = False, on_schedule_update = 0\<rparr>),
     program_map = Map.empty, is_enable_EIT_sched = False, pat_recv_time = etime_clear,
     program_infos = clear_program_infos,
     service_infos = replicate SERVICE_INFOS_MAX cleared_service,
     event_pf_infos = replicate EVENT_PF_INFOS_MAX cleared_pf,
     the_network = cleared_network, EIT_H_comp_flag = 0, NIT_comp_flag = 0, SDT_comp_flag = 0,
     psisi_sent = [], logos = []\<rparr>"

definition psisi_notify :: "psisi_notice \<Rightarrow> psisi_manager \<Rightarrow> psisi_manager" where
  "psisi_notify n m = m\<lparr>psisi_sent := psisi_sent m @ [n]\<rparr>"

text \<open>\<open>clear\<close> of a table class, and the deferred removal of its sections.\<close>

definition clear_tables :: "'t table_parser \<Rightarrow> 't table_parser" where
  "clear_tables p = (async_delete (fst p), (snd p)\<lparr>tables := []\<rparr>)"

definition check_async :: "section_parser \<times> 'c \<Rightarrow> section_parser \<times> 'c" where
  "check_async p = (check_async_delete (fst p), snd p)"

definition check_async_deletes :: "psisi_manager \<Rightarrow> psisi_manager" where
  "check_async_deletes m =
    m\<lparr>mPAT := check_async (mPAT m), mEIT_H := check_async (mEIT_H m),
      mEIT_H_sched := check_async (mEIT_H_sched m), mNIT := check_async (mNIT m),
      mSDT := check_async (mSDT m), mCAT := check_async (mCAT m), mCDT := check_async (mCDT m)\<rparr>"

section \<open>Sections\<close>

datatype psisi_type = PAT | PMT | NIT | SDT | CAT | CDT | EIT_H_PF | Other_type

text \<open>The fields of the packet header that are read, and the payload.\<close>

record ts_packet =
  pk_pid :: u16
  pk_start :: u8
  pk_payload :: "u8 list"

definition feed_tables ::
  "'t table_store listener \<Rightarrow> ts_packet \<Rightarrow> 't table_parser \<Rightarrow> ('t table_parser \<times> check_result) option" where
  "feed_tables L pk p =
    (let r = check_section L (pk_pid pk) (pk_start pk) (pk_payload pk) p
     in if wild_read (snd (fst r)) then None else Some r)"

definition pmt_tables :: "(u16 \<rightharpoonup> pmt_table table_parser) \<Rightarrow> u16 \<Rightarrow> pmt_table list" where
  "pmt_tables pm pid = (case pm pid of None \<Rightarrow> [] | Some p \<Rightarrow> tables (snd p))"

definition renew_programs :: "psisi_manager \<Rightarrow> psisi_manager" where
  "renew_programs m = m\<lparr>program_infos :=
     cache_program_infos (tables (snd (mPAT m))) (pmt_tables (program_map m)) clear_program_infos\<rparr>"

text \<open>\<open>program_map::add\<close> replaces a parser that is there.\<close>

definition add_pmt_parser :: "pat_program \<Rightarrow> (u16 \<rightharpoonup> pmt_table table_parser) \<Rightarrow> (u16 \<rightharpoonup> pmt_table table_parser)" where
  "add_pmt_parser p pm =
    (if program_number p = 0 then pm
     else pm(program_map_PID p \<mapsto> (new_parser POOL_SIZE 0 T_PSISI, empty_store)))"

text \<open>A new PAT: \<open>* (-- iter)\<close> needs a table.\<close>

definition on_PAT :: "psisi_env \<Rightarrow> ts_packet \<Rightarrow> psisi_manager \<Rightarrow> psisi_manager option" where
  "on_PAT env pk m =
    (case feed_tables pat_listener pk (mPAT m) of None \<Rightarrow> None
     | Some (p, r) \<Rightarrow>
         let m = m\<lparr>mPAT := p\<rparr> in
         map_option (\<lambda>m. m\<lparr>pat_recv_time := now env\<rparr>)
           (if r = COMPLETED then
              if tables (snd p) = [] then None
              else Some ((renew_programs m)\<lparr>program_map :=
                fold add_pmt_parser (programs (last (tables (snd p)))) Map.empty\<rparr>)
            else Some m))"

definition on_PMT :: "ts_packet \<Rightarrow> psisi_manager \<Rightarrow> psisi_manager option" where
  "on_PMT pk m =
    (case program_map m (pk_pid pk) of None \<Rightarrow> Some m
     | Some q \<Rightarrow>
         (case feed_tables pmt_listener pk q of None \<Rightarrow> None
          | Some (p, r) \<Rightarrow>
              let m = m\<lparr>program_map := (program_map m)(pk_pid pk \<mapsto> p)\<rparr>
              in Some (if r = COMPLETED then renew_programs m else m)))"

definition on_CAT :: "ts_packet \<Rightarrow> psisi_manager \<Rightarrow> psisi_manager option" where
  "on_CAT pk m = map_option (\<lambda>(p, r). m\<lparr>mCAT := p\<rparr>) (feed_tables cat_listener pk (mCAT m))"

definition on_CDT :: "bool \<Rightarrow> ts_packet \<Rightarrow> psisi_manager \<Rightarrow> psisi_manager option" where
  "on_CDT dir_ok pk m =
    (case feed_tables cdt_listener pk (mCDT m) of None \<Rightarrow> None
     | Some (p, r) \<Rightarrow>
         let m = m\<lparr>mCDT := p\<rparr> in
         if r = COMPLETED then
           map_option (\<lambda>fs. m\<lparr>logos := fs\<rparr>)
             (store_logo dir_ok (psisi_ready m) (net_ts_name (the_network m)) (net_tsid (the_network m))
                (net_nid (the_network m)) (tables (snd p)) (logos m))
         else Some m)"

definition on_NIT :: "psisi_env \<Rightarrow> ts_packet \<Rightarrow> psisi_manager \<Rightarrow> psisi_manager option" where
  "on_NIT env pk m =
    (case feed_tables nit_listener pk (mNIT m) of None \<Rightarrow> None
     | Some (p, r) \<Rightarrow>
         let m = m\<lparr>mNIT := p, NIT_comp_flag := check_update (r = COMPLETED) (NIT_comp_flag m)\<rparr> in
         if r = COMPLETED then
           map_option (\<lambda>n. m\<lparr>the_network := n\<rparr>) (cache_network_info env (tables (snd p)) cleared_network)
         else Some m)"

definition renew_events :: "psisi_env \<Rightarrow> psisi_manager \<Rightarrow> psisi_manager option" where
  "renew_events env m =
    map_option (\<lambda>is. m\<lparr>event_pf_infos := is\<rparr>)
      (renew_event_pf_infos env (tables (snd (mEIT_H m))) (service_infos m) (event_pf_infos m))"

definition on_SDT :: "psisi_env \<Rightarrow> ts_packet \<Rightarrow> psisi_manager \<Rightarrow> psisi_manager option" where
  "on_SDT env pk m =
    (case feed_tables sdt_listener pk (mSDT m) of None \<Rightarrow> None
     | Some (p, r) \<Rightarrow>
         let m = m\<lparr>mSDT := p, SDT_comp_flag := check_update (r = COMPLETED) (SDT_comp_flag m)\<rparr> in
         if r = COMPLETED then
           (case cache_service_infos env True (tables (snd p)) (clear_service_infos True (service_infos m)) of
              None \<Rightarrow> None
            | Some svcs \<Rightarrow> renew_events env (m\<lparr>service_infos := svcs\<rparr>))
         else Some m)"

definition feed_sched :: "ts_packet \<Rightarrow> psisi_manager \<Rightarrow> psisi_manager option" where
  "feed_sched pk m =
    (if is_enable_EIT_sched m then
       let p = fst (check_section sched_listener (pk_pid pk) (pk_start pk) (pk_payload pk) (mEIT_H_sched m))
       in if sched_wild_read (snd p) then None else Some (m\<lparr>mEIT_H_sched := p\<rparr>)
     else Some m)"

definition on_EIT :: "psisi_env \<Rightarrow> ts_packet \<Rightarrow> psisi_manager \<Rightarrow> psisi_manager option" where
  "on_EIT env pk m =
    (case feed_tables eit_listener pk (mEIT_H m) of None \<Rightarrow> None
     | Some (p, r) \<Rightarrow>
         let m = m\<lparr>mEIT_H := p, EIT_H_comp_flag := check_update (r = COMPLETED) (EIT_H_comp_flag m)\<rparr> in
         (case (if r = COMPLETED then renew_events env m else Some m) of None \<Rightarrow> None
          | Some m \<Rightarrow> feed_sched pk m))"

definition on_parser_notice ::
  "psisi_env \<Rightarrow> bool \<Rightarrow> psisi_type \<Rightarrow> ts_packet \<Rightarrow> psisi_manager \<Rightarrow> psisi_manager option" where
  "on_parser_notice env dir_ok ty pk m =
    (let m = check_async_deletes m in
     case ty of
       PAT \<Rightarrow> on_PAT env pk m
     | PMT \<Rightarrow> on_PMT pk m
     | CAT \<Rightarrow> on_CAT pk m
     | CDT \<Rightarrow> on_CDT dir_ok pk m
     | NIT \<Rightarrow> on_NIT env pk m
     | SDT \<Rightarrow> on_SDT env pk m
     | EIT_H_PF \<Rightarrow> on_EIT env pk m
     | Other_type \<Rightarrow> Some m)"

section \<open>Tuning\<close>

datatype tuner_state = Tuning_begin | Tuning_success | Tuning_error_stop | Tuner_stopped

definition set_ready :: "bool \<Rightarrow> psisi_manager \<Rightarrow> psisi_manager" where
  "set_ready b m = psisi_notify (Psisi_state b) (m\<lparr>psisi_ready := b\<rparr>)"

definition clear_caches :: "psisi_manager \<Rightarrow> psisi_manager" where
  "clear_caches m =
    m\<lparr>program_infos := clear_program_infos, the_network := cleared_network,
      service_infos := clear_service_infos True (service_infos m),
      event_pf_infos := clear_event_pf_infos (event_pf_infos m),
      tuner_is_tuned := False, is_detected_PAT := False\<rparr>"

definition on_receive_notify :: "tuner_state \<Rightarrow> psisi_manager \<Rightarrow> psisi_manager" where
  "on_receive_notify st m =
    (case st of
       Tuning_begin \<Rightarrow> (set_ready False m)\<lparr>tuner_is_tuned := False\<rparr>
     | Tuning_success \<Rightarrow> psisi_notify Send_stabilization m
     | Tuning_error_stop \<Rightarrow> clear_caches (set_ready False m)
     | Tuner_stopped \<Rightarrow> clear_caches (set_ready False m))"

text \<open>\<open>on_stabilization_after_tuning\<close>: what follows the wait of 200 ms, and one poll of its loop,
  which ends when it is true.\<close>

definition stabilization_begin :: "psisi_manager \<Rightarrow> psisi_manager" where
  "stabilization_begin m =
    m\<lparr>mPAT := clear_tables (mPAT m), mEIT_H := clear_tables (mEIT_H m), mNIT := clear_tables (mNIT m),
      mSDT := clear_tables (mSDT m), mCAT := clear_tables (mCAT m), mCDT := clear_tables (mCDT m),
      EIT_H_comp_flag := 0, NIT_comp_flag := 0, SDT_comp_flag := 0\<rparr>"

definition stabilization_poll :: "psisi_manager \<Rightarrow> bool \<times> psisi_manager" where
  "stabilization_poll m =
    (if is_completed (EIT_H_comp_flag m) \<and> is_completed (NIT_comp_flag m) \<and> is_completed (SDT_comp_flag m)
     then (True, set_ready True (m\<lparr>tuner_is_tuned := True\<rparr>)) else (False, m))"

text \<open>The two steps of \<open>on_check_loop\<close>.\<close>

definition check_PAT :: "timespec \<Rightarrow> psisi_manager \<Rightarrow> psisi_manager" where
  "check_PAT t m =
    (if \<not> tuner_is_tuned m then m
     else if etime_gt t (add_sec 30 (pat_recv_time m))
     then (if is_detected_PAT m then psisi_notify (Pat_detect False) m else m)\<lparr>is_detected_PAT := False\<rparr>
     else (if \<not> is_detected_PAT m then psisi_notify (Pat_detect True) m else m)\<lparr>is_detected_PAT := True\<rparr>)"

definition check_follow :: "psisi_env \<Rightarrow> psisi_manager \<Rightarrow> psisi_manager option" where
  "check_follow env m =
    (case check_follow_event_at_service_infos env (tables (snd (mEIT_H m)))
       (assign_follow_event_to_service_infos env (event_pf_infos m) (service_infos m), event_pf_infos m, []) of
       None \<Rightarrow> None
     | Some (svcs, is, notices) \<Rightarrow>
         Some (fold (\<lambda>n. psisi_notify (Event_change n)) notices
           (m\<lparr>service_infos := svcs, event_pf_infos := is\<rparr>)))"

section \<open>Requests\<close>

text \<open>An error reply is \<open>None\<close>. The caller's name buffers are zeroed before, so that the copies
  without a terminator end where the name ends.\<close>

definition on_get_stream_infos :: "u16 \<Rightarrow> u8 \<Rightarrow> int \<Rightarrow> psisi_manager \<Rightarrow> (u8 \<times> u16) list option" where
  "on_get_stream_infos number ty num m =
    (if num = 0 then None else Some (get_stream_infos number ty num (program_infos m)))"

definition on_get_current_service_infos :: "int \<Rightarrow> psisi_manager \<Rightarrow> service_info list option" where
  "on_get_current_service_infos num m =
    (if num = 0 then None else Some (get_current_service_infos num (service_infos m)))"

definition on_get_present_event_info :: "u16 \<Rightarrow> u16 \<Rightarrow> u16 \<Rightarrow> psisi_manager \<Rightarrow> event_pf_info option" where
  "on_get_present_event_info ts nid svc m =
    find_event_pf_info (TBLID_EIT_PF_A, ts, nid, svc) Pf_present (event_pf_infos m)"

definition on_get_follow_event_info :: "u16 \<Rightarrow> u16 \<Rightarrow> u16 \<Rightarrow> psisi_manager \<Rightarrow> event_pf_info option" where
  "on_get_follow_event_info ts nid svc m =
    find_event_pf_info (TBLID_EIT_PF_A, ts, nid, svc) Pf_follow (event_pf_infos m)"

definition on_get_current_network_info :: "psisi_manager \<Rightarrow> network_info option" where
  "on_get_current_network_info m = (if net_used (the_network m) then Some (the_network m) else None)"

definition on_enable_parse_eit_sched :: "psisi_manager \<Rightarrow> psisi_manager" where
  "on_enable_parse_eit_sched m = m\<lparr>is_enable_EIT_sched := True\<rparr>"

definition on_disable_parse_eit_sched :: "psisi_manager \<Rightarrow> psisi_manager" where
  "on_disable_parse_eit_sched m = m\<lparr>is_enable_EIT_sched := False\<rparr>"

section \<open>Packets\<close>

text \<open>\<open>on_ts_packet_available\<close>: which notice a packet becomes. The notices are requests to the
  manager itself; \<open>None\<close> is no notice.\<close>

definition packet_type :: "u16 \<Rightarrow> psisi_manager \<Rightarrow> psisi_type option" where
  "packet_type pid m =
    (if pid = 0x0000 then Some PAT
     else if pid = 0x0012 then Some EIT_H_PF
     else if pid = 0x0010 then Some NIT
     else if pid = 0x0011 then Some SDT
     else if pid = 0x0001 then Some CAT
     else if pid = 0x0029 then Some CDT
     else if program_map m pid \<noteq> None then Some PMT
     else None)"

text \<open>A delivery of the packet parser: nothing is done for a null payload; one that is computed from
  the null pointer is read by the notice's \<open>memcpy\<close>, as is one that leaves the buffer.\<close>

definition on_ts_packet_available ::
  "u8 list \<Rightarrow> delivery \<Rightarrow> psisi_manager \<Rightarrow> (psisi_type \<times> ts_packet) option option" where
  "on_ts_packet_available mem d m =
    (let (h, payload, n) = d in
     if payload = Null_plus 0 \<or> n = 0 then Some None
     else case packet_type (ts_pid h) m of
       None \<Rightarrow> Some None
     | Some ty \<Rightarrow>
         (case payload of
            Null_plus k \<Rightarrow> None
          | Ptr p \<Rightarrow>
              if p + n \<le> length mem
              then Some (Some (ty, \<lparr>pk_pid = ts_pid h, pk_start = payload_unit_start_indicator h,
                pk_payload = slice mem p (p + n)\<rparr>))
              else None))"

end
