(* ===== verification/Psisi_Invariant.thy ===== *)
theory Psisi_Invariant
  imports Psisi_Services Psisi_Manager
begin

text \<open>
  What holds of the PSI/SI manager of a tuner after any sequence of its steps: the arrays keep
  their sizes and keys, cached events repeat the tables, and the manager is ready exactly when its
  tuner is tuned.
\<close>

section \<open>Events are those of the tables\<close>

text \<open>The cell of an event: it is cleared, or it repeats an event of a table.\<close>

definition event_of :: "psisi_env \<Rightarrow> eit_table list \<Rightarrow> event_pf_info \<Rightarrow> bool" where
  "event_of env ts p = (\<exists>t\<in>set ts. \<exists>e\<in>set (events t). pf_key p = eit_key t \<and> pf_event_id p = event_id e \<and>
     event_id e \<noteq> 0 \<and> pf_start_time p = event_start env e \<and>
     pf_end_time p = add_sec (event_duration e) (event_start env e))"

definition same_event :: "event_pf_info \<Rightarrow> event_pf_info \<Rightarrow> bool" where
  "same_event i j = (pf_key j = pf_key i \<and> pf_event_id j = pf_event_id i \<and>
     pf_start_time j = pf_start_time i \<and> pf_end_time j = pf_end_time i \<and> pf_used j = pf_used i)"

lemma descriptor_same_event: "pf_descriptor_step env d i = Some j \<Longrightarrow> same_event i j"
  by (auto simp: pf_descriptor_step_def same_event_def pf_key_def split: if_splits
      dest!: when_valid_SomeD)

lemma descriptors_same_event:
  "run_all (pf_descriptor_step env) ds i = Some j \<Longrightarrow> same_event i j"
  by (erule run_all_keeps) (auto simp: same_event_def dest!: descriptor_same_event)

lemma event_step:
  assumes "pf_event_step env e i = Some j"
  shows "pf_key j = pf_key i" "event_id e \<noteq> 0 \<Longrightarrow> pf_event_id j = event_id e \<and>
      pf_start_time j = event_start env e \<and> pf_end_time j = add_sec (event_duration e) (event_start env e)"
    "event_id e = 0 \<Longrightarrow> j = i"
  using assms
  by (auto simp: pf_event_step_def same_event_def pf_key_def split: if_splits
      dest!: descriptors_same_event)

lemma fill_pf_event:
  assumes "fill_pf env t i = Some j" "pf_event_id i = 0"
  shows "pf_used j \<longrightarrow> event_of env [t] j"
proof -
  define i0 where "i0 = i\<lparr>pf_table_id := table_id (eit_header t), pf_tsid := eit_transport_stream_id t,
    pf_nid := eit_original_network_id t, pf_service_id := table_id_extension (eit_header t)\<rparr>"
  obtain k where k: "run_all (pf_event_step env) (events t) i0 = Some k"
    "j = (if pf_event_id k = 0 then cleared_pf else k\<lparr>pf_used := True\<rparr>)"
    using assms(1) by (auto simp: fill_pf_def i0_def split: option.splits)
  define ok where "ok p = (pf_key p = eit_key t \<and> (pf_event_id p = 0 \<or> event_of env [t] p))" for p
  have "ok k"
  proof (rule run_all_keeps [OF k(1)])
    show "ok i0" using assms(2) by (simp add: ok_def i0_def pf_key_def eit_key_def)
    fix e p q assume *: "e \<in> set (events t)" "pf_event_step env e p = Some q" "ok p"
    show "ok q"
    proof (cases "event_id e = 0")
      case True
      with * event_step(3) show ?thesis by metis
    next
      case False
      with * event_step(1,2) [OF *(2)] show ?thesis
        by (auto simp: ok_def event_of_def)
    qed
  qed
  with k(2) show ?thesis
    by (auto simp: ok_def event_of_def pf_key_def cleared_pf_def)
qed

text \<open>The array of events: every cell is cleared or repeats an event of the tables.\<close>

definition pf_ok :: "psisi_env \<Rightarrow> eit_table list \<Rightarrow> pf_infos \<Rightarrow> bool" where
  "pf_ok env ts is = (length is = EVENT_PF_INFOS_MAX \<and>
     list_all (\<lambda>p. if pf_used p then event_of env ts p else pf_event_id p = 0) is)"

lemma event_of_mono: "event_of env ts p \<Longrightarrow> set ts \<subseteq> set us \<Longrightarrow> event_of env us p"
  unfolding event_of_def by blast

lemma empty_slot:
  assumes "find_empty_event_pf_info ps = Some n" "length ps = EVENT_PF_INFOS_MAX"
  shows "n < length ps" "\<not> pf_used (ps ! n)"
proof -
  let ?P = "\<lambda>s. \<not> pf_used s"
  have n: "n = first_index ?P ps" "n \<noteq> EVENT_PF_INFOS_MAX"
    using assms(1) by (auto simp: find_empty_event_pf_info_def Let_def split: if_splits)
  then show "n < length ps" using first_index_le [of ?P ps] assms(2) by simp
  with n show "\<not> pf_used (ps ! n)"
    using first_index_less_iff [of ?P ps] first_index_nth [of ps ?P] by simp
qed

lemma fill_pf_cell:
  assumes "fill_pf env t i = Some j" "pf_event_id i = 0"
  shows "if pf_used j then event_of env [t] j else pf_event_id j = 0"
  using fill_pf_event [OF assms] assms(1)
  by (auto simp: fill_pf_def cleared_pf_def split: option.splits if_splits)

lemma cache_pf_tables_ok:
  assumes "cache_pf_tables env k us ps = Some ps'" "pf_ok env ts ps" "set us \<subseteq> set ts"
  shows "pf_ok env ts ps'"
  using assms
proof (induction us arbitrary: ps)
  case (Cons t us)
  show ?case
  proof (cases "k \<noteq> eit_key t \<or> find_empty_event_pf_info ps = None")
    case True
    with Cons show ?thesis by (auto split: if_splits)
  next
    case False
    then obtain n where n: "k = eit_key t" "find_empty_event_pf_info ps = Some n" by auto
    with Cons.prems obtain j where j: "fill_pf env t (ps ! n) = Some j"
      "cache_pf_tables env k us (ps[n := j]) = Some ps'"
      by (auto split: option.splits)
    have len: "length ps = EVENT_PF_INFOS_MAX" using Cons.prems(2) by (simp add: pf_ok_def)
    note slot = empty_slot [OF n(2) len]
    have "pf_event_id (ps ! n) = 0"
      using Cons.prems(2) slot by (auto simp: pf_ok_def list_all_length split: if_splits)
    then have cell: "if pf_used j then event_of env [t] j else pf_event_id j = 0"
      by (rule fill_pf_cell [OF j(1)])
    have "if pf_used j then event_of env ts j else pf_event_id j = 0"
      using cell event_of_mono [of env "[t]" j ts] Cons.prems(3) by (auto split: if_splits)
    then have "pf_ok env ts (ps[n := j])"
      using Cons.prems(2) slot
      by (simp add: pf_ok_def list_all_length nth_list_update)
    then show ?thesis using Cons.IH [OF j(2)] Cons.prems(3) by simp
  qed
qed simp

lemma renewed_events:
  assumes "renew_event_pf_infos env ts svcs ps = Some ps'" "length ps = EVENT_PF_INFOS_MAX"
  shows "pf_ok env ts ps'" "list_all (\<lambda>p. pf_used p \<longrightarrow> pf_state p = pf_state (classify (now env) p)) ps'"
proof -
  obtain qs where qs: "run_all (cache_pf_service env ts) svcs (clear_event_pf_infos ps) = Some qs"
    "ps' = check_event_pf_infos env qs"
    using assms(1) by (auto simp: renew_event_pf_infos_def cache_event_pf_infos_def)
  have "pf_ok env ts (clear_event_pf_infos ps)"
    using assms(2) by (auto simp: pf_ok_def clear_event_pf_infos_def list_all_iff cleared_pf_def)
  then have ok: "pf_ok env ts qs"
    by (rule run_all_keeps [OF qs(1)])
      (auto simp: cache_pf_service_def cache_event_pf_infos_key_def Let_def split: if_splits
        intro: cache_pf_tables_ok)
  have same: "event_of env ts (classify c p) = event_of env ts p" "pf_used (classify c p) = pf_used p"
    "pf_event_id (classify c p) = pf_event_id p" for c p
    by (simp_all add: classify_def event_of_def pf_key_def)
  show "pf_ok env ts ps'"
    using ok unfolding pf_ok_def qs(2) check_event_pf_infos_def
    by (auto simp: list_all_iff same)
  show "list_all (\<lambda>p. pf_used p \<longrightarrow> pf_state p = pf_state (classify (now env) p)) ps'"
    unfolding qs(2) check_event_pf_infos_def
    by (auto simp: list_all_iff classify_def)
qed

lemma found_event:
  assumes "find_event_pf_info k st ps = Some p" "length ps = EVENT_PF_INFOS_MAX"
  shows "p \<in> set ps" "pf_used p" "pf_state p = st" "pf_key p = k"
proof -
  let ?P = "\<lambda>p. pf_used p \<and> pf_state p = st \<and> pf_key p = k"
  have i: "first_index ?P ps \<noteq> EVENT_PF_INFOS_MAX" "p = ps ! first_index ?P ps"
    using assms(1) by (auto simp: find_event_pf_info_def Let_def split: if_splits)
  then have less: "first_index ?P ps < length ps" using first_index_le [of ?P ps] assms(2) by simp
  then have "?P p" using i(2) first_index_less_iff [of ?P ps] first_index_nth [of ps ?P] by simp
  with less i(2) show "p \<in> set ps" "pf_used p" "pf_state p = st" "pf_key p = k" by auto
qed

section \<open>Reachable states\<close>

text \<open>The notices that a following event begins.\<close>

definition blank_change :: "psisi_notice \<Rightarrow> bool" where
  "blank_change n = (case n of Event_change e \<Rightarrow> e = ((0, 0, 0, 0), 0) | _ \<Rightarrow> True)"

definition psisi_ok :: "psisi_manager \<Rightarrow> bool" where
  "psisi_ok m = (length (program_infos m) = PROGRAM_INFOS_MAX \<and> services_ok (service_infos m) \<and>
     length (event_pf_infos m) = EVENT_PF_INFOS_MAX \<and> psisi_ready m = tuner_is_tuned m \<and>
     list_all blank_change (psisi_sent m))"

text \<open>One step of the manager. The clock and the other parameters may differ from step to step.\<close>

inductive psisi_step :: "psisi_manager \<Rightarrow> psisi_manager \<Rightarrow> bool" where
  step_notice: "on_parser_notice env dir_ok ty pk m = Some m' \<Longrightarrow> psisi_step m m'"
| step_tuner: "psisi_step m (on_receive_notify st m)"
| step_begin: "psisi_step m (stabilization_begin m)"
| step_poll: "psisi_step m (snd (stabilization_poll m))"
| step_check_PAT: "psisi_step m (check_PAT t m)"
| step_follow: "check_follow env m = Some m' \<Longrightarrow> psisi_step m m'"
| step_enable: "psisi_step m (on_enable_parse_eit_sched m)"
| step_disable: "psisi_step m (on_disable_parse_eit_sched m)"

inductive psisi_reachable :: "psisi_manager \<Rightarrow> bool" where
  psisi_init: "psisi_reachable new_psisi_manager"
| psisi_next: "\<lbrakk>psisi_reachable m; psisi_step m m'\<rbrakk> \<Longrightarrow> psisi_reachable m'"

lemma cache_programs_length [simp]: "length (cache_programs t pmt n ps is) = length is"
  by (induction t pmt n ps "is" rule: cache_programs.induct) auto

lemma cache_program_infos_length [simp]: "length (cache_program_infos pats pmt ps) = length ps"
  by (simp add: cache_program_infos_def)

lemma psisi_ok_frame [simp]:
  "psisi_ok (m\<lparr>mPAT := x0\<rparr>) = psisi_ok m"
  "psisi_ok (m\<lparr>mEIT_H := x1\<rparr>) = psisi_ok m"
  "psisi_ok (m\<lparr>mNIT := x2\<rparr>) = psisi_ok m"
  "psisi_ok (m\<lparr>mSDT := x3\<rparr>) = psisi_ok m"
  "psisi_ok (m\<lparr>mCAT := x4\<rparr>) = psisi_ok m"
  "psisi_ok (m\<lparr>mCDT := x5\<rparr>) = psisi_ok m"
  "psisi_ok (m\<lparr>mEIT_H_sched := x6\<rparr>) = psisi_ok m"
  "psisi_ok (m\<lparr>program_map := x7\<rparr>) = psisi_ok m"
  "psisi_ok (m\<lparr>is_enable_EIT_sched := x8\<rparr>) = psisi_ok m"
  "psisi_ok (m\<lparr>pat_recv_time := x9\<rparr>) = psisi_ok m"
  "psisi_ok (m\<lparr>the_network := x10\<rparr>) = psisi_ok m"
  "psisi_ok (m\<lparr>EIT_H_comp_flag := x11\<rparr>) = psisi_ok m"
  "psisi_ok (m\<lparr>NIT_comp_flag := x12\<rparr>) = psisi_ok m"
  "psisi_ok (m\<lparr>SDT_comp_flag := x13\<rparr>) = psisi_ok m"
  "psisi_ok (m\<lparr>logos := x14\<rparr>) = psisi_ok m"
  "psisi_ok (m\<lparr>is_detected_PAT := x15\<rparr>) = psisi_ok m"
  by (simp_all add: psisi_ok_def)

lemma renew_programs_ok [simp]: "psisi_ok m \<Longrightarrow> psisi_ok (renew_programs m)"
  by (simp add: psisi_ok_def renew_programs_def clear_program_infos_def)

lemma renew_events_ok: "\<lbrakk>psisi_ok m; renew_events env m = Some m'\<rbrakk> \<Longrightarrow> psisi_ok m'"
  by (auto simp: psisi_ok_def renew_events_def pf_ok_def dest!: renewed_events(1))

lemma on_PAT_ok: "\<lbrakk>psisi_ok m; on_PAT env pk m = Some m'\<rbrakk> \<Longrightarrow> psisi_ok m'"
  by (auto simp: on_PAT_def Let_def split: option.splits if_splits)

lemma on_PMT_ok: "\<lbrakk>psisi_ok m; on_PMT pk m = Some m'\<rbrakk> \<Longrightarrow> psisi_ok m'"
  by (auto simp: on_PMT_def Let_def split: option.splits if_splits)

lemma on_CAT_ok: "\<lbrakk>psisi_ok m; on_CAT pk m = Some m'\<rbrakk> \<Longrightarrow> psisi_ok m'"
  by (auto simp: on_CAT_def)

lemma on_CDT_ok: "\<lbrakk>psisi_ok m; on_CDT dir_ok pk m = Some m'\<rbrakk> \<Longrightarrow> psisi_ok m'"
  by (auto simp: on_CDT_def Let_def split: option.splits if_splits)

lemma on_NIT_ok: "\<lbrakk>psisi_ok m; on_NIT env pk m = Some m'\<rbrakk> \<Longrightarrow> psisi_ok m'"
  by (auto simp: on_NIT_def Let_def split: option.splits if_splits)

lemma on_SDT_ok:
  assumes "psisi_ok m" "on_SDT env pk m = Some m'"
  shows "psisi_ok m'"
proof -
  obtain p r where f: "feed_tables sdt_listener pk (mSDT m) = Some (p, r)"
    using assms(2) by (auto simp: on_SDT_def split: option.splits)
  let ?m1 = "m\<lparr>mSDT := p, SDT_comp_flag := check_update (r = COMPLETED) (SDT_comp_flag m)\<rparr>"
  show ?thesis
  proof (cases "r = COMPLETED")
    case False
    with assms f show ?thesis by (auto simp: on_SDT_def)
  next
    case True
    with assms(2) f obtain svcs where s:
      "cache_service_infos env True (tables (snd p)) (clear_service_infos True (service_infos m)) = Some svcs"
      "renew_events env (?m1\<lparr>service_infos := svcs\<rparr>) = Some m'"
      by (auto simp: on_SDT_def Let_def split: option.splits)
    have "services_ok svcs"
      using assms(1) by (intro cached_services(1) [OF _ s(1)]) (simp add: psisi_ok_def)
    then have "psisi_ok (?m1\<lparr>service_infos := svcs\<rparr>)" using assms(1) by (simp add: psisi_ok_def)
    then show ?thesis by (rule renew_events_ok [OF _ s(2)])
  qed
qed

lemma feed_sched_ok: "\<lbrakk>psisi_ok m; feed_sched pk m = Some m'\<rbrakk> \<Longrightarrow> psisi_ok m'"
  by (auto simp: feed_sched_def Let_def split: if_splits)

lemma on_EIT_ok:
  assumes "psisi_ok m" "on_EIT env pk m = Some m'"
  shows "psisi_ok m'"
proof -
  obtain p r m1 where f: "feed_tables eit_listener pk (mEIT_H m) = Some (p, r)"
    "(if r = COMPLETED then renew_events env (m\<lparr>mEIT_H := p, EIT_H_comp_flag := check_update (r = COMPLETED) (EIT_H_comp_flag m)\<rparr>)
      else Some (m\<lparr>mEIT_H := p, EIT_H_comp_flag := check_update (r = COMPLETED) (EIT_H_comp_flag m)\<rparr>)) = Some m1"
    "feed_sched pk m1 = Some m'"
    using assms(2) by (auto simp: on_EIT_def Let_def split: option.splits)
  have "psisi_ok (m\<lparr>mEIT_H := p, EIT_H_comp_flag := check_update (r = COMPLETED) (EIT_H_comp_flag m)\<rparr>)"
    using assms(1) by simp
  then have "psisi_ok m1" using f(2) by (cases "r = COMPLETED") (auto elim!: renew_events_ok [rotated])
  then show ?thesis by (rule feed_sched_ok [OF _ f(3)])
qed

lemmas section_handlers_ok = on_PAT_ok on_PMT_ok on_CAT_ok on_CDT_ok on_NIT_ok on_SDT_ok on_EIT_ok

lemma on_parser_notice_ok:
  assumes "psisi_ok m" "on_parser_notice env dir_ok ty pk m = Some m'"
  shows "psisi_ok m'"
proof -
  have "psisi_ok (check_async_deletes m)" using assms(1) by (simp add: psisi_ok_def check_async_deletes_def)
  then show ?thesis
    using assms(2) by (auto simp: on_parser_notice_def Let_def split: psisi_type.splits intro: section_handlers_ok)
qed

section \<open>The following events\<close>

lemma services_ok_cells:
  assumes "services_ok ss" "map (\<lambda>s. (svc_key s, svc_used s)) ts = map (\<lambda>s. (svc_key s, svc_used s)) ss"
    and "list_all cell_ok ts"
  shows "services_ok ts"
proof -
  have "map svc_key (used_services us) = map fst (filter snd (map (\<lambda>s. (svc_key s, svc_used s)) us))" for us
    by (simp add: used_services_def filter_map comp_def)
  then have "map svc_key (used_services ts) = map svc_key (used_services ss)" using assms(2) by simp
  moreover have "length ts = length ss" using assms(2) by (rule map_eq_imp_length_eq)
  ultimately show ?thesis using assms by (simp add: services_ok_def)
qed

lemma follow_update [simp]:
  "svc_key (s\<lparr>svc_follow := p, svc_last_update := t\<rparr>) = svc_key s"
  "cell_ok (s\<lparr>svc_follow := cleared_pf\<lparr>pf_start_time := u, pf_end_time := v, pf_used := b\<rparr>, svc_last_update := t\<rparr>)
    = cell_ok (s\<lparr>svc_follow := cleared_pf\<rparr>)"
  by (simp_all add: svc_key_def cell_ok_def follow_blank_def event_notice_def pf_key_def cleared_pf_def)

lemma cell_ok_cleared: "cell_ok s \<Longrightarrow> cell_ok (s\<lparr>svc_follow := cleared_pf\<rparr>)"
  by (simp add: cell_ok_def follow_blank_def event_notice_def pf_key_def cleared_pf_def)

lemma assign_follow_cell:
  "svc_key (assign_follow_event env ps s) = svc_key s" "svc_used (assign_follow_event env ps s) = svc_used s"
  "cell_ok s \<Longrightarrow> cell_ok (assign_follow_event env ps s)"
  by (simp_all add: assign_follow_event_def cell_ok_cleared split: option.split)

lemma assign_follow_ok:
  assumes "services_ok ss"
  shows "services_ok (assign_follow_event_to_service_infos env ps ss)"
proof (rule services_ok_cells [OF assms])
  show "map (\<lambda>s. (svc_key s, svc_used s)) (assign_follow_event_to_service_infos env ps ss) =
    map (\<lambda>s. (svc_key s, svc_used s)) ss"
    by (simp add: assign_follow_event_to_service_infos_def assign_follow_cell)
  show "list_all cell_ok (assign_follow_event_to_service_infos env ps ss)"
    using assms by (simp add: assign_follow_event_to_service_infos_def services_ok_def list_all_iff
        assign_follow_cell)
qed

text \<open>What the two steps of the check loop keep.\<close>

definition follow_ok :: "service_info list \<times> pf_infos \<times> (service_ident \<times> u16) list \<Rightarrow> bool" where
  "follow_ok st = (services_ok (fst st) \<and> length (fst (snd st)) = EVENT_PF_INFOS_MAX \<and>
     list_all (\<lambda>e. e = ((0, 0, 0, 0), 0)) (snd (snd st)))"

lemma check_follow_event_ok:
  assumes "check_follow_event env ts i st = Some st'" "follow_ok st" "i < SERVICE_INFOS_MAX"
  shows "follow_ok st'"
proof -
  obtain ss ps ns where st: "st = (ss, ps, ns)" by (cases st)
  show ?thesis
  proof (cases "st' = st")
    case False
    then obtain ps' where ps': "(if etime_lt (add_sec 15 (pf_start_time (svc_follow (ss ! i)))) (now env)
        then renew_event_pf_infos env ts ss ps else Some ps) = Some ps'"
      and s: "st' = (ss[i := (ss ! i)\<lparr>svc_follow := cleared_pf\<rparr>], ps', ns @ [event_notice (svc_follow (ss ! i))])"
      using assms(1) st by (simp add: check_follow_event_def Let_def split: if_split_asm option.split_asm)
    have "length ps' = EVENT_PF_INFOS_MAX"
      using ps' assms(2) st by (auto simp: follow_ok_def pf_ok_def split: if_split_asm dest!: renewed_events(1))
    note s = this s
    have ok: "services_ok ss" and len: "i < length ss"
      using assms(2,3) st by (simp_all add: follow_ok_def services_ok_def)
    have cell: "cell_ok (ss ! i)" by (rule nth_ok [OF ok len])
    have "services_ok (ss[i := (ss ! i)\<lparr>svc_follow := cleared_pf\<rparr>])"
    proof (rule services_ok_cells [OF ok])
      show "map (\<lambda>s. (svc_key s, svc_used s)) (ss[i := (ss ! i)\<lparr>svc_follow := cleared_pf\<rparr>]) =
        map (\<lambda>s. (svc_key s, svc_used s)) ss"
        using len by (simp add: map_update svc_key_def list_update_same_conv)
      have "cell_ok ((ss ! i)\<lparr>svc_follow := cleared_pf\<rparr>)"
        using cell by (rule cell_ok_cleared)
      then show "list_all cell_ok (ss[i := (ss ! i)\<lparr>svc_follow := cleared_pf\<rparr>])"
        using ok len by (auto simp: services_ok_def list_all_length nth_list_update)
    qed
    moreover have "event_notice (svc_follow (ss ! i)) = ((0, 0, 0, 0), 0)"
      using cell by (simp add: cell_ok_def follow_blank_def)
    ultimately show ?thesis using assms(2) s st by (simp add: follow_ok_def)
  qed (use assms in simp)
qed

lemma psisi_notify_changes:
  "fold (\<lambda>n. psisi_notify (Event_change n)) ns m = m\<lparr>psisi_sent := psisi_sent m @ map Event_change ns\<rparr>"
  by (induction ns arbitrary: m) (simp_all add: psisi_notify_def)

lemma check_follow_ok:
  assumes "psisi_ok m" "check_follow env m = Some m'"
  shows "psisi_ok m'"
proof -
  let ?st = "(assign_follow_event_to_service_infos env (event_pf_infos m) (service_infos m), event_pf_infos m, [])"
  obtain ss ps ns where c: "check_follow_event_at_service_infos env (tables (snd (mEIT_H m))) ?st = Some (ss, ps, ns)"
    "m' = m\<lparr>service_infos := ss, event_pf_infos := ps, psisi_sent := psisi_sent m @ map Event_change ns\<rparr>"
    using assms(2) by (auto simp: check_follow_def psisi_notify_changes split: option.splits)
  have "follow_ok ?st" using assms(1) by (simp add: follow_ok_def psisi_ok_def assign_follow_ok)
  then have "follow_ok (ss, ps, ns)"
    by (rule run_all_keeps [OF c(1) [unfolded check_follow_event_at_service_infos_def]])
      (rule check_follow_event_ok, auto)
  then show ?thesis
    using assms(1) c(2) by (auto simp: follow_ok_def psisi_ok_def list_all_iff blank_change_def)
qed

lemma clear_caches_ok:
  assumes "psisi_ok m" "\<not> psisi_ready m"
  shows "psisi_ok (clear_caches m)"
  using assms by (simp add: psisi_ok_def clear_caches_def clear_program_infos_def clear_at_tuning_cells
      clear_event_pf_infos_def)

lemma on_receive_notify_ok: "psisi_ok m \<Longrightarrow> psisi_ok (on_receive_notify st m)"
  by (cases st)
    (simp_all add: on_receive_notify_def clear_caches_def set_ready_def psisi_notify_def psisi_ok_def
      blank_change_def clear_program_infos_def clear_at_tuning_cells clear_event_pf_infos_def)

lemma stabilization_begin_ok: "psisi_ok m \<Longrightarrow> psisi_ok (stabilization_begin m)"
  by (simp add: stabilization_begin_def)

lemma stabilization_poll_ok: "psisi_ok m \<Longrightarrow> psisi_ok (snd (stabilization_poll m))"
  by (simp add: stabilization_poll_def psisi_ok_def set_ready_def psisi_notify_def blank_change_def)

lemma check_PAT_ok: "psisi_ok m \<Longrightarrow> psisi_ok (check_PAT t m)"
  by (simp add: check_PAT_def psisi_ok_def psisi_notify_def blank_change_def)

lemma enable_ok: "psisi_ok m \<Longrightarrow> psisi_ok (on_enable_parse_eit_sched m)"
  "psisi_ok m \<Longrightarrow> psisi_ok (on_disable_parse_eit_sched m)"
  by (simp_all add: on_enable_parse_eit_sched_def on_disable_parse_eit_sched_def)

lemma psisi_step_ok: "\<lbrakk>psisi_step m m'; psisi_ok m\<rbrakk> \<Longrightarrow> psisi_ok m'"
  by (induction rule: psisi_step.induct)
    (assumption | erule (1) on_parser_notice_ok [rotated] check_follow_ok [rotated]
      | erule on_receive_notify_ok stabilization_begin_ok stabilization_poll_ok check_PAT_ok enable_ok)+

lemma new_psisi_manager_ok: "psisi_ok new_psisi_manager"
  by (simp add: psisi_ok_def new_psisi_manager_def clear_program_infos_def services_ok_def used_services_def
      cleared_service_def list_all_iff cell_ok_def follow_blank_def event_notice_def pf_key_def cleared_pf_def)

lemma psisi_reachable_ok: "psisi_reachable m \<Longrightarrow> psisi_ok m"
  by (induction rule: psisi_reachable.induct) (blast intro: new_psisi_manager_ok psisi_step_ok)+

end
