(* ===== verification/Psisi_Claims.thy ===== *)
theory Psisi_Claims
  imports Psisi_Invariant Section_Claims Table_Claims
begin

text \<open>
  What the other modules get from the PSI/SI manager of a tuner: its services, its present and
  following events, its notices, and a table that ends the program.
\<close>

section \<open>The state\<close>

text \<open>C23: after any notices, requests and timer steps the arrays have their sizes, no service
  occupies two cells, a current service is in use and of the own stream, and the manager is ready
  exactly when its tuner is tuned.\<close>

theorem psisi_state_is_consistent:
  assumes "psisi_reachable m"
  shows "length (program_infos m) = PROGRAM_INFOS_MAX \<and> length (service_infos m) = SERVICE_INFOS_MAX \<and>
    length (event_pf_infos m) = EVENT_PF_INFOS_MAX \<and>
    distinct (map svc_key (filter svc_used (service_infos m))) \<and>
    list_all (\<lambda>s. (svc_target s \<longrightarrow> svc_used s) \<and> (svc_used s \<longrightarrow> svc_table_id s = TBLID_SDT_A)) (service_infos m) \<and>
    psisi_ready m = tuner_is_tuned m"
  using psisi_reachable_ok [OF assms]
  by (auto simp: psisi_ok_def services_ok_def used_services_def list_all_iff cell_ok_def)

lemma tuned_reachable: "psisi_reachable (stabilization_begin (on_receive_notify Tuning_success new_psisi_manager))"
  by (rule psisi_next [OF psisi_next [OF psisi_init step_tuner] step_begin])

theorem psisi_state_is_consistent_witness:
  "length (service_infos (stabilization_begin (on_receive_notify Tuning_success new_psisi_manager))) = SERVICE_INFOS_MAX"
  using psisi_state_is_consistent [OF tuned_reachable] by simp

section \<open>Services\<close>

text \<open>C30: caching the service tables of a newly tuned stream makes exactly its services current,
  once each, as long as the services met so far and the new ones fit the 64 cells.\<close>

theorem current_services_are_the_streams:
  assumes "psisi_reachable m"
    and "cache_service_infos env True ts (clear_service_infos True (service_infos m)) = Some svcs"
    and "card (set (map svc_key (filter svc_used (service_infos m)))
      \<union> set (map (case_prod sdt_key) (own_services ts))) \<le> SERVICE_INFOS_MAX"
  shows "distinct (map svc_key (get_current_service_infos 64 svcs)) \<and>
    set (map svc_key (get_current_service_infos 64 svcs)) = set (map (case_prod sdt_key) (own_services ts))"
proof -
  have ok: "services_ok (service_infos m)" using psisi_reachable_ok [OF assms(1)] by (simp add: psisi_ok_def)
  note c = cached_services [OF ok assms(2)]
  have "length (current svcs) \<le> 64"
    using c(1) length_filter_le [of _ svcs] by (simp add: services_ok_def current_def)
  then have "get_current_service_infos 64 svcs = current svcs" by (simp add: get_current_take)
  then show ?thesis using c distinct_current [OF c(1)] assms(3) by (simp add: used_services_def)
qed

definition sample_env :: psisi_env where
  "sample_env = \<lparr>now = Timespec 1000 0, mktime = (\<lambda>t. 900), arib = (\<lambda>bs. map (\<lambda>b. CHR ''x'') bs)\<rparr>"

definition sample_sdt :: sdt_table where
  "sample_sdt = \<lparr>sdt_header = zero_header\<lparr>table_id := TBLID_SDT_A, table_id_extension := 0x7fe1\<rparr>,
     sdt_original_network_id = 0x7fe1, sdt_reserved_future_use_2 = 0xff,
     services = [\<lparr>service_id = 0x408, sv_reserved_future_use = 0, EIT_user_defined_flags = 0,
       EIT_schedule_flag = 1, EIT_present_following_flag = 1, sv_running_status = 0, sv_free_CA_mode = 0,
       sv_descriptors_loop_length = 0, sv_descriptors = []\<rparr>]\<rparr>"

definition sample_cell :: service_info where
  "sample_cell = cleared_service\<lparr>svc_table_id := TBLID_SDT_A, svc_tsid := 0x7fe1, svc_nid := 0x7fe1,
     svc_id := 0x408, svc_target := True, svc_used := True, svc_last_update := Timespec 1000 0\<rparr>"

lemma sample_own: "own_services [sample_sdt] = [(sample_sdt, hd (services sample_sdt))]"
  by (simp add: own_services_def sample_sdt_def)

lemma sample_svc_key: "sdt_key sample_sdt (hd (services sample_sdt)) = svc_key sample_cell"
  by (simp add: sdt_key_def svc_key_def sample_sdt_def sample_cell_def)

lemma cleared_cells: "clear_service_infos True (service_infos new_psisi_manager) = replicate SERVICE_INFOS_MAX cleared_service"
  by (simp add: clear_service_infos_def new_psisi_manager_def clear_at_tuning_def cleared_service_def)

lemma first_index_replicate: "\<not> P x \<Longrightarrow> first_index P (replicate n x) = n"
  by (induction n) simp_all

lemma sample_cached:
  "cache_service_infos sample_env True [sample_sdt] (clear_service_infos True (service_infos new_psisi_manager))
   = Some (sample_cell # replicate 63 cleared_service)"
proof -
  have r: "replicate SERVICE_INFOS_MAX cleared_service = cleared_service # replicate 63 cleared_service"
    by (simp add: numeral_eq_Suc)
  have "service_slot (svc_key sample_cell) (replicate SERVICE_INFOS_MAX cleared_service) = Some 0"
    by (simp add: service_slot_def find_service_info_def find_empty_service_info_def Let_def first_index_replicate
        cleared_service_def svc_key_def sample_cell_def) (simp add: numeral_eq_Suc)
  then show ?thesis
    by (simp add: cache_service_infos_def sample_own cleared_cells sample_svc_key r fill_service_def Let_def)
      (simp add: sample_sdt_def sample_cell_def sample_env_def cleared_service_def)
qed

theorem current_services_are_the_streams_witness:
  "distinct (map svc_key (get_current_service_infos 64 (sample_cell # replicate 63 cleared_service))) \<and>
    set (map svc_key (get_current_service_infos 64 (sample_cell # replicate 63 cleared_service)))
     = set (map (case_prod sdt_key) (own_services [sample_sdt]))"
  by (rule current_services_are_the_streams [OF psisi_init sample_cached])
    (simp add: sample_own new_psisi_manager_def cleared_service_def)

text \<open>A cell is never given back, so that once 64 services have been met, a stream with other
  services has no current services at all.\<close>

theorem full_array_hides_services:
  assumes "services_ok ss" "list_all svc_used ss"
    and "set (map svc_key ss) \<inter> set (map (case_prod sdt_key) (own_services ts)) = {}"
  shows "map_option (get_current_service_infos 64) (cache_service_infos env True ts (clear_service_infos True ss)) = Some []"
proof -
  have "used_services ss = ss" using assms(2) by (simp add: used_services_def list_all_iff filter_id_conv)
  from full_array_current [OF assms(1) this assms(3)] clear_at_tuning_cells(3) [OF assms(1)]
  show ?thesis by (simp add: get_current_take)
qed

definition met_services :: "service_info list" where
  "met_services = map (\<lambda>n. sample_cell\<lparr>svc_id := of_nat n\<rparr>) [0..<64]"

lemma met_services_ok: "services_ok met_services" "list_all svc_used met_services"
proof -
  have "map svc_key (used_services met_services) = map (\<lambda>n. (TBLID_SDT_A, 0x7fe1, 0x7fe1, of_nat n)) [0..<64]"
    by (simp add: used_services_def met_services_def filter_map comp_def sample_cell_def svc_key_def)
  moreover have "inj_on (\<lambda>n. (TBLID_SDT_A, 0x7fe1 :: u16, 0x7fe1 :: u16, of_nat n :: u16)) (set [0..<64])"
  proof (rule inj_onI)
    fix m n :: nat
    assume "m \<in> set [0..<64]" "n \<in> set [0..<64]"
      "(TBLID_SDT_A, 0x7fe1 :: u16, 0x7fe1 :: u16, of_nat m :: u16) = (TBLID_SDT_A, 0x7fe1, 0x7fe1, of_nat n)"
    then have "unat (of_nat m :: u16) = unat (of_nat n :: u16)" "m < 65536" "n < 65536" by simp_all
    then show "m = n" by (simp add: unsigned_of_nat take_bit_nat_eq_self)
  qed
  ultimately show "services_ok met_services"
    by (simp add: services_ok_def distinct_map)
      (simp add: met_services_def list_all_iff cell_ok_def follow_blank_def event_notice_def pf_key_def
        cleared_pf_def sample_cell_def cleared_service_def)
  show "list_all svc_used met_services"
    by (simp add: met_services_def list_all_iff sample_cell_def)
qed

theorem full_array_hides_services_witness:
  "map_option (get_current_service_infos 64)
     (cache_service_infos sample_env True [sample_sdt] (clear_service_infos True met_services)) = Some []"
proof (rule full_array_hides_services [OF met_services_ok])
  have "of_nat n \<noteq> (0x408 :: u16)" if "n < 64" for n
  proof -
    have "unat (of_nat n :: u16) = n" using that by (simp add: unsigned_of_nat take_bit_nat_eq_self)
    with that show ?thesis by auto
  qed
  then show "set (map svc_key met_services) \<inter> set (map (case_prod sdt_key) (own_services [sample_sdt])) = {}"
    by (auto simp: sample_own sample_svc_key met_services_def svc_key_def sample_cell_def)
qed

section \<open>Events\<close>




definition on_air_pf :: event_pf_info where
  "on_air_pf = cleared_pf\<lparr>pf_table_id := TBLID_EIT_PF_A, pf_tsid := 0x7fe1, pf_nid := 0x7fe1,
     pf_service_id := 0x408, pf_event_id := 7, pf_start_time := Timespec 900 0,
     pf_end_time := add_sec 180 (Timespec 900 0), pf_state := Pf_present, pf_used := True\<rparr>"




lemma blank_cells: "\<not> svc_target cleared_service" "\<not> pf_used cleared_pf"
  by (simp_all add: cleared_service_def cleared_pf_def)




section \<open>The notice of a following event\<close>

text \<open>A step of the loop for another service.\<close>

lemma check_other_service:
  assumes "check_follow_event env ts j st = Some st'" "j \<noteq> i"
  shows "fst st' ! i = fst st ! i" "set (snd (snd st)) \<subseteq> set (snd (snd st'))"
  using assms by (auto simp: check_follow_event_def Let_def split: if_split_asm option.split_asm prod.split_asm)

lemma check_own_service:
  assumes "check_follow_event env ts i (ss, ps, ns) = Some st'" "svc_target (ss ! i)"
    "pf_used (svc_follow (ss ! i))" "etime_le (pf_start_time (svc_follow (ss ! i))) (now env)"
  shows "event_notice (svc_follow (ss ! i)) \<in> set (snd (snd st'))"
  using assms by (auto simp: check_follow_event_def Let_def split: option.split_asm)

lemma notices_grow:
  "check_follow_event env ts j st = Some st' \<Longrightarrow> set (snd (snd st)) \<subseteq> set (snd (snd st'))"
  by (auto simp: check_follow_event_def Let_def split: if_split_asm option.split_asm prod.split_asm)

lemma service_is_noticed:
  assumes "check_follow_event_at_service_infos env ts (ss, ps, ns) = Some st'" "i < SERVICE_INFOS_MAX"
    and "svc_target (ss ! i)" "pf_used (svc_follow (ss ! i))"
    and "etime_le (pf_start_time (svc_follow (ss ! i))) (now env)"
  shows "event_notice (svc_follow (ss ! i)) \<in> set (snd (snd st'))"
proof -
  have split: "[0..<SERVICE_INFOS_MAX] = [0..<i] @ i # [Suc i..<SERVICE_INFOS_MAX]"
    using assms(2) upt_add_eq_append [of 0 i "SERVICE_INFOS_MAX - i"] by (simp add: upt_conv_Cons)
  obtain st1 st2 where r: "run_all (check_follow_event env ts) [0..<i] (ss, ps, ns) = Some st1"
    "check_follow_event env ts i st1 = Some st2"
    "run_all (check_follow_event env ts) [Suc i..<SERVICE_INFOS_MAX] st2 = Some st'"
    using assms(1) unfolding check_follow_event_at_service_infos_def split run_all_append
    by (auto split: option.splits)
  have "fst st1 ! i = ss ! i"
    by (rule run_all_keeps [OF r(1)]) (auto simp: check_other_service(1))
  then have "event_notice (svc_follow (ss ! i)) \<in> set (snd (snd st2))"
    using check_own_service [of env ts i "fst st1" "fst (snd st1)" "snd (snd st1)"] r(2) assms(3-5) by simp
  then show ?thesis
    by (rule run_all_keeps [OF r(3)]) (use notices_grow in blast)
qed

text \<open>When the following event of a current service begins, a notice is sent, but the identifiers
  in it are all zero: of the event only the times have been copied into the service.\<close>

theorem event_change_names_nothing:
  assumes "services_ok (service_infos m)" "length (event_pf_infos m) = EVENT_PF_INFOS_MAX"
    and "i < SERVICE_INFOS_MAX" "service_infos m ! i = s" "svc_target s" "\<not> pf_used (svc_follow s)"
    and "on_get_follow_event_info (svc_tsid s) (svc_nid s) (svc_id s) m = Some p"
    and "etime_le (pf_start_time p) (now env)" "check_follow env m = Some m'"
  shows "\<exists>ns. psisi_sent m' = psisi_sent m @ ns \<and> set ns = {Event_change ((0, 0, 0, 0), 0)} \<and>
    event_notice p \<noteq> ((0, 0, 0, 0), 0)"
proof -
  let ?ss = "assign_follow_event_to_service_infos env (event_pf_infos m) (service_infos m)"
  have len: "length (service_infos m) = SERVICE_INFOS_MAX" using assms(1) by (simp add: services_ok_def)
  obtain ss ps ns where c: "check_follow_event_at_service_infos env (tables (snd (mEIT_H m))) (?ss, event_pf_infos m, [])
      = Some (ss, ps, ns)"
    "psisi_sent m' = psisi_sent m @ map Event_change ns"
    using assms(9) by (auto simp: check_follow_def psisi_notify_changes split: option.splits)
  have "follow_ok (?ss, event_pf_infos m, [])" using assms(1,2) by (simp add: follow_ok_def assign_follow_ok)
  then have "follow_ok (ss, ps, ns)"
    by (rule run_all_keeps [OF c(1) [unfolded check_follow_event_at_service_infos_def]])
      (rule check_follow_event_ok, auto)
  then have zero: "set ns \<subseteq> {((0, 0, 0, 0), 0)}" by (auto simp: follow_ok_def list_all_iff)
  have f: "?ss ! i = s\<lparr>svc_follow := cleared_pf\<lparr>pf_start_time := pf_start_time p,
      pf_end_time := pf_end_time p, pf_used := True\<rparr>, svc_last_update := now env\<rparr>"
    using assms(3-7) len
    by (simp add: assign_follow_event_to_service_infos_def assign_follow_event_def on_get_follow_event_info_def)
  have "event_notice (svc_follow (?ss ! i)) \<in> set ns"
    using service_is_noticed [OF c(1) assms(3)] assms(5,8) by (simp add: f)
  then have "set ns = {((0, 0, 0, 0), 0)}" using zero by auto
  moreover have "pf_table_id p = TBLID_EIT_PF_A"
    using found_event(4) [OF assms(7) [unfolded on_get_follow_event_info_def] assms(2)] by (simp add: pf_key_def)
  ultimately show ?thesis using c(2) by (simp add: event_notice_def pf_key_def)
qed

definition begin_env :: psisi_env where
  "begin_env = sample_env\<lparr>now := Timespec 910 0\<rparr>"

definition follow_pf :: event_pf_info where
  "follow_pf = on_air_pf\<lparr>pf_state := Pf_follow\<rparr>"

definition follow_manager :: psisi_manager where
  "follow_manager = new_psisi_manager\<lparr>service_infos := sample_cell # replicate 63 cleared_service,
     event_pf_infos := follow_pf # replicate 31 cleared_pf\<rparr>"

lemma untargeted_checks:
  "list_all (\<lambda>j. \<not> svc_target (ss ! j)) js \<Longrightarrow>
   run_all (check_follow_event env ts) js (ss, ps, ns) = Some (ss, ps, ns)"
  by (induction js) (simp_all add: check_follow_event_def)

lemma follow_manager_found:
  "on_get_follow_event_info (svc_tsid sample_cell) (svc_nid sample_cell) (svc_id sample_cell) follow_manager
   = Some follow_pf"
  by (simp add: on_get_follow_event_info_def find_event_pf_info_def Let_def follow_manager_def)
    (simp add: follow_pf_def on_air_pf_def pf_key_def cleared_pf_def sample_cell_def)

lemma follow_times: "etime_le (pf_start_time follow_pf) (now begin_env)"
  "\<not> etime_lt (add_sec 15 (pf_start_time follow_pf)) (now begin_env)"
  by code_simp+

lemma follow_manager_ok:
  "services_ok (service_infos follow_manager)" "length (event_pf_infos follow_manager) = EVENT_PF_INFOS_MAX"
proof -
  have "cell_ok sample_cell" "cell_ok cleared_service" "\<not> svc_used cleared_service"
    by (simp_all add: cell_ok_def follow_blank_def event_notice_def pf_key_def cleared_pf_def sample_cell_def
        cleared_service_def)
  then show "services_ok (service_infos follow_manager)"
    by (simp add: services_ok_def follow_manager_def used_services_def list_all_iff)
  show "length (event_pf_infos follow_manager) = EVENT_PF_INFOS_MAX" by (simp add: follow_manager_def)
qed

lemma follow_manager_checked: "\<exists>m'. check_follow begin_env follow_manager = Some m'"
proof -
  define s where "s = assign_follow_event begin_env (event_pf_infos follow_manager) sample_cell"
  have cell: "svc_target sample_cell" "\<not> pf_used (svc_follow sample_cell)"
    by (simp_all add: sample_cell_def cleared_service_def cleared_pf_def)
  then have s: "svc_target s" "pf_used (svc_follow s)" "pf_start_time (svc_follow s) = pf_start_time follow_pf"
    using follow_manager_found by (simp_all add: s_def assign_follow_event_def on_get_follow_event_info_def)
  have "assign_follow_event begin_env ps cleared_service = cleared_service" for ps
    by (simp add: assign_follow_event_def blank_cells)
  then have a: "assign_follow_event_to_service_infos begin_env (event_pf_infos follow_manager)
      (service_infos follow_manager) = s # replicate 63 cleared_service"
    by (simp add: assign_follow_event_to_service_infos_def s_def) (simp add: follow_manager_def)
  have upt: "[0..<SERVICE_INFOS_MAX] = 0 # [1..<SERVICE_INFOS_MAX]" by (simp add: upt_conv_Cons)
  have rest: "list_all (\<lambda>j. \<not> svc_target ((t # replicate 63 cleared_service) ! j)) [1..<SERVICE_INFOS_MAX]" for t
    by (auto simp: list_all_iff nth_Cons' blank_cells)
  show ?thesis
    unfolding check_follow_def a check_follow_event_at_service_infos_def upt
    using s follow_times untargeted_checks [OF rest]
    by (simp add: check_follow_event_def Let_def)
qed

theorem event_change_names_nothing_witness:
  "\<exists>m' ns. check_follow begin_env follow_manager = Some m' \<and> psisi_sent m' = psisi_sent follow_manager @ ns \<and>
    set ns = {Event_change ((0, 0, 0, 0), 0)}"
proof -
  obtain m' where m': "check_follow begin_env follow_manager = Some m'" using follow_manager_checked by blast
  have "service_infos follow_manager ! 0 = sample_cell" "svc_target sample_cell" "\<not> pf_used (svc_follow sample_cell)"
    by (simp_all add: follow_manager_def sample_cell_def cleared_service_def cleared_pf_def)
  from event_change_names_nothing [OF follow_manager_ok _ this follow_manager_found follow_times(1) m'] m'
  show ?thesis by auto
qed

section \<open>A table that ends the program\<close>







end
