(* ===== verification/Sched_Events.thy ===== *)
theory Sched_Events
  imports Psisi_Events Ordered_Map
begin

text \<open>
  \<open>event_schedule_manager/event.h\<close> and the part of \<open>event_schedule_manager.cpp\<close> that turns the
  tables of the EIT schedule parser into the events of one service: \<open>cache_schedule\<close>,
  \<open>cache_schedule_extended\<close> and the comparisons they sort with.
\<close>

section \<open>Data\<close>

record sched_key =
  sk_tsid :: u16
  sk_nid :: u16
  sk_svc :: u16
  sk_type :: u8
  sk_name :: string

text \<open>The key without the additional fields, and the order of the map.\<close>

definition mk_key :: "u16 \<Rightarrow> u16 \<Rightarrow> u16 \<Rightarrow> sched_key" where
  "mk_key ts nid svc = \<lparr>sk_tsid = ts, sk_nid = nid, sk_svc = svc, sk_type = 0, sk_name = []\<rparr>"

definition key_eq :: "sched_key \<Rightarrow> sched_key \<Rightarrow> bool" where
  "key_eq a b = (sk_tsid a = sk_tsid b \<and> sk_nid a = sk_nid b \<and> sk_svc a = sk_svc b)"

definition key_less :: "sched_key \<Rightarrow> sched_key \<Rightarrow> bool" where
  "key_less a b =
    (if sk_nid a < sk_nid b then True
     else if sk_nid a = sk_nid b then
       (if sk_tsid a < sk_tsid b then True
        else if sk_tsid a = sk_tsid b then
          (if sk_svc a < sk_svc b then True else if sk_svc a = sk_svc b then False else False)
        else False)
     else False)"

record extended_info =
  ei_description :: string
  ei_item :: string

record sched_event =
  se_table_id :: u8
  se_tsid :: u16
  se_nid :: u16
  se_svc :: u16
  se_section_number :: u8
  se_event_id :: u16
  se_start :: timespec
  se_end :: timespec
  se_name :: string
  se_text :: string
  se_component_type :: u8
  se_component_tag :: u8
  se_audio_component_type :: u8
  se_audio_component_tag :: u8
  se_multi_lingual :: u8
  se_main_component :: u8
  se_quality :: u8
  se_sampling_rate :: u8
  se_genres :: "(u8 \<times> u8) list"
  se_extended :: "extended_info list"

definition cleared_event :: sched_event where
  "cleared_event = \<lparr>se_table_id = 0, se_tsid = 0, se_nid = 0, se_svc = 0, se_section_number = 0,
     se_event_id = 0, se_start = etime_clear, se_end = etime_clear, se_name = [], se_text = [],
     se_component_type = 0, se_component_tag = 0, se_audio_component_type = 0,
     se_audio_component_tag = 0, se_multi_lingual = 0, se_main_component = 0, se_quality = 0,
     se_sampling_rate = 0, se_genres = [], se_extended = []\<rparr>"

definition sched_event_eq :: "sched_event \<Rightarrow> sched_event \<Rightarrow> bool" where
  "sched_event_eq a b = (se_tsid a = se_tsid b \<and> se_nid a = se_nid b \<and> se_svc a = se_svc b \<and>
     se_event_id a = se_event_id b)"

section \<open>One event\<close>

abbreviation "TBLID_EIT_SCHED_A \<equiv> 0x50 :: u8"
abbreviation "TBLID_EIT_SCHED_A_EXT \<equiv> 0x58 :: u8"

definition sched_descriptor_step :: "psisi_env \<Rightarrow> descriptor \<Rightarrow> sched_event \<Rightarrow> sched_event option" where
  "sched_descriptor_step env d e =
    (if tag d = 0x4d then
       when_valid (short_event_descriptor d) (\<lambda>sd.
         let e = e\<lparr>se_name := arib env (take (unat (event_name_length sd)) (event_name_char sd))\<rparr>
         in if se_text_length sd > 0
            then e\<lparr>se_text := arib env (take (unat (se_text_length sd)) (se_text_char sd))\<rparr> else e) e
     else if tag d = 0x50 then
       when_valid (component_descriptor d) (\<lambda>cd.
         e\<lparr>se_component_type := co_component_type cd, se_component_tag := co_component_tag cd\<rparr>) e
     else if tag d = 0xc4 then
       when_valid (audio_component_descriptor d) (\<lambda>ad.
         e\<lparr>se_audio_component_type := ac_component_type ad, se_audio_component_tag := ac_component_tag ad,
           se_multi_lingual := ES_multi_lingual_flag ad, se_main_component := main_component_flag ad,
           se_quality := quality_indicator ad, se_sampling_rate := sampling_rate ad\<rparr>) e
     else if tag d = 0x54 then
       when_valid (content_descriptor d) (\<lambda>cs.
         e\<lparr>se_genres := se_genres e @
           map (\<lambda>c. (content_nibble_level_1 c, content_nibble_level_2 c)) cs\<rparr>) e
     else Some e)"

definition mk_sched_event :: "psisi_env \<Rightarrow> eit_table \<Rightarrow> eit_event \<Rightarrow> sched_event option" where
  "mk_sched_event env t ev =
    run_all (sched_descriptor_step env) (ev_descriptors ev)
      (cleared_event\<lparr>se_table_id := table_id (eit_header t), se_tsid := eit_transport_stream_id t,
         se_nid := eit_original_network_id t, se_svc := table_id_extension (eit_header t),
         se_section_number := section_number (eit_header t), se_event_id := event_id ev,
         se_start := event_start env ev, se_end := add_sec (event_duration ev) (event_start env ev)\<rparr>)"

section \<open>The schedule of a service\<close>

definition comp_table_id :: "sched_event \<Rightarrow> sched_event \<Rightarrow> bool" where
  "comp_table_id l r = (if se_table_id r > se_table_id l then True else False)"

definition comp_section_number :: "sched_event \<Rightarrow> sched_event \<Rightarrow> bool" where
  "comp_section_number l r =
    (if se_table_id r = se_table_id l then (if se_section_number r > se_section_number l then True else False)
     else False)"

definition same_service_table :: "u16 \<Rightarrow> u16 \<Rightarrow> u16 \<Rightarrow> eit_table \<Rightarrow> bool" where
  "same_service_table ts nid svc t = (\<not> (ts \<noteq> eit_transport_stream_id t \<or> nid \<noteq> eit_original_network_id t \<or>
     svc \<noteq> table_id_extension (eit_header t)))"

text \<open>The events of one table, and the two loops; the vector is filled in order.\<close>

definition push_event :: "psisi_env \<Rightarrow> eit_table \<Rightarrow> eit_event \<Rightarrow> sched_event list \<Rightarrow> sched_event list option" where
  "push_event env t ev es =
    (if event_id ev = 0 then Some es else map_option (\<lambda>e. es @ [e]) (mk_sched_event env t ev))"

definition cache_sched_table ::
  "psisi_env \<Rightarrow> u16 \<Rightarrow> u16 \<Rightarrow> u16 \<Rightarrow> eit_table \<Rightarrow> sched_event list \<Rightarrow> sched_event list option" where
  "cache_sched_table env ts nid svc t es =
    (if \<not> same_service_table ts nid svc t then Some es
     else if table_id (eit_header t) \<noteq> TBLID_EIT_SCHED_A \<and> table_id (eit_header t) \<noteq> TBLID_EIT_SCHED_A + 1
     then Some es
     else run_all (push_event env t) (events t) es)"

definition cache_schedule ::
  "psisi_env \<Rightarrow> eit_table list \<Rightarrow> u16 \<Rightarrow> u16 \<Rightarrow> u16 \<Rightarrow> sched_event list option" where
  "cache_schedule env tabs ts nid svc =
    (if ts = 0 \<and> nid = 0 \<and> svc = 0 then Some []
     else map_option (\<lambda>es. stable_sort comp_section_number (stable_sort comp_table_id es))
       (run_all (cache_sched_table env ts nid svc) tabs []))"

section \<open>Extended events\<close>

definition extended_item :: "psisi_env \<Rightarrow> ext_item \<Rightarrow> extended_info" where
  "extended_item env i =
    \<lparr>ei_description = arib env (take (unat (item_description_length i)) (item_description_char i)),
     ei_item = arib env (take (unat (item_length i)) (item_char i))\<rparr>"

definition extended_descriptor_step :: "psisi_env \<Rightarrow> descriptor \<Rightarrow> sched_event \<Rightarrow> sched_event option" where
  "extended_descriptor_step env d e =
    (if tag d = 0x4e then
       when_valid (extended_event_descriptor d) (\<lambda>eed.
         e\<lparr>se_extended := se_extended e @ map (extended_item env) (ee_items eed)\<rparr>) e
     else Some e)"

definition extended_event_step :: "psisi_env \<Rightarrow> eit_event \<Rightarrow> sched_event \<Rightarrow> sched_event option" where
  "extended_event_step env ev e =
    (if event_id ev = 0 then Some e
     else if se_event_id e \<noteq> event_id ev then Some e
     else run_all (extended_descriptor_step env) (ev_descriptors ev) e)"

definition extended_table_step :: "psisi_env \<Rightarrow> eit_table \<Rightarrow> sched_event \<Rightarrow> sched_event option" where
  "extended_table_step env t e =
    (if \<not> same_service_table (se_tsid e) (se_nid e) (se_svc e) t then Some e
     else if table_id (eit_header t) < TBLID_EIT_SCHED_A_EXT \<or> table_id (eit_header t) > TBLID_EIT_SCHED_A_EXT + 7
     then Some e
     else run_all (extended_event_step env) (events t) e)"

definition cache_extended_event :: "psisi_env \<Rightarrow> eit_table list \<Rightarrow> sched_event \<Rightarrow> sched_event option" where
  "cache_extended_event env tabs e = run_all (extended_table_step env) tabs e"

fun cache_schedule_extended ::
  "psisi_env \<Rightarrow> eit_table list \<Rightarrow> sched_event list \<Rightarrow> sched_event list option" where
  "cache_schedule_extended env tabs [] = Some []"
| "cache_schedule_extended env tabs (e # es) =
    (case cache_extended_event env tabs e of None \<Rightarrow> None
     | Some e' \<Rightarrow> map_option ((#) e') (cache_schedule_extended env tabs es))"

section \<open>Order\<close>

interpretation skey: comparison key_less
  by unfold_locales (auto simp: key_less_def split: if_splits)

lemma skey_equiv: "skey.equiv a b \<longleftrightarrow> key_eq a b"
  by (auto simp: skey.equiv_def key_less_def key_eq_def)

interpretation by_table: comparison comp_table_id
  by unfold_locales (auto simp: comp_table_id_def split: if_splits)

text \<open>The order by table and section.\<close>

definition comp_table_section :: "sched_event \<Rightarrow> sched_event \<Rightarrow> bool" where
  "comp_table_section l r = (comp_table_id l r \<or> comp_section_number l r)"

interpretation by_section: comparison comp_table_section
  by unfold_locales (auto simp: comp_table_section_def comp_table_id_def comp_section_number_def split: if_splits)

lemma section_sort_grouped:
  "by_table.in_order es \<Longrightarrow> stable_sort comp_section_number es = stable_sort comp_table_section es"
proof (induction es rule: rev_induct)
  case (snoc e es)
  then have "by_table.in_order es" "\<forall>y\<in>set es. \<not> comp_table_id e y"
    by (simp_all add: by_table.in_order_snoc)
  then show ?case
    unfolding stable_sort_snoc snoc.IH [OF \<open>by_table.in_order es\<close>]
    by (intro insert_behind_cong) (simp add: comp_table_section_def)
qed (simp add: stable_sort_def)

text \<open>Sorting by table and then by section within the table is one stable sort.\<close>

lemma two_sorts:
  "stable_sort comp_section_number (stable_sort comp_table_id es) = stable_sort comp_table_section es"
  unfolding section_sort_grouped [OF by_table.sort_in_order]
proof (rule by_section.stable_unique [OF by_section.sort_in_order by_section.sort_in_order])
  fix a
  have refines: "by_section.equiv a b \<Longrightarrow> by_table.equiv a b" for b
    by (auto simp: by_section.equiv_def by_table.equiv_def comp_table_section_def)
  have "filter (by_section.equiv a) xs = filter (by_section.equiv a) (filter (by_table.equiv a) xs)" for xs
    by (auto intro: filter_cong simp: refines)
  then have "filter (by_section.equiv a) (stable_sort comp_table_id es) = filter (by_section.equiv a) es"
    by (metis by_table.sort_stable)
  then show "filter (by_section.equiv a) (stable_sort comp_table_section (stable_sort comp_table_id es))
      = filter (by_section.equiv a) (stable_sort comp_table_section es)"
    by (simp add: by_section.sort_stable)
qed

end
