(* ===== verification/Sched_Container.thy ===== *)
theory Sched_Container
  imports Sched_Events
begin

text \<open>
  \<open>event_schedule_manager/event_schedule_container.cpp\<close>: the schedules of the services, a
  \<open>std::map\<close> from the service key to a vector of events, and the queries for one event, for an
  index and for a keyword. A null pointer reply is \<open>None\<close>.
\<close>

type_synonym sched_map = "(sched_key \<times> sched_event list) list"

text \<open>\<open>insert\<close> does nothing when the key is there.\<close>

definition add_schedule_map :: "sched_key \<Rightarrow> sched_event list \<Rightarrow> sched_map \<Rightarrow> bool \<times> sched_map" where
  "add_schedule_map k es sm = (if length es = 0 then (False, sm) else (True, map_insert key_less k es sm))"

definition delete_schedule_map :: "sched_key \<Rightarrow> sched_map \<Rightarrow> sched_map" where
  "delete_schedule_map k sm = (if map_find key_less k sm = None then sm else map_erase key_less k sm)"

definition has_schedule_map :: "sched_key \<Rightarrow> sched_map \<Rightarrow> bool" where
  "has_schedule_map k sm =
    (case map_find key_less k sm of None \<Rightarrow> False | Some e \<Rightarrow> if length (snd e) = 0 then False else True)"

fun find_event_id :: "sched_key \<Rightarrow> u16 \<Rightarrow> sched_event list \<Rightarrow> sched_event option" where
  "find_event_id k ev [] = None"
| "find_event_id k ev (e # es) =
    (if se_tsid e = sk_tsid k \<and> se_nid e = sk_nid k \<and> se_svc e = sk_svc k \<and> se_event_id e = ev then Some e
     else find_event_id k ev es)"

definition get_event :: "sched_key \<Rightarrow> u16 \<Rightarrow> sched_map \<Rightarrow> sched_event option" where
  "get_event k ev sm =
    (if \<not> has_schedule_map k sm then None
     else case map_find key_less k sm of None \<Rightarrow> None
     | Some p \<Rightarrow> if length (snd p) = 0 then None else find_event_id k ev (snd p))"

fun find_event_index :: "int \<Rightarrow> int \<Rightarrow> sched_event list \<Rightarrow> sched_event option" where
  "find_event_index index i [] = None"
| "find_event_index index i (e # es) = (if index = i then Some e else find_event_index index (i + 1) es)"

definition get_event_by_index :: "sched_key \<Rightarrow> int \<Rightarrow> sched_map \<Rightarrow> sched_event option" where
  "get_event_by_index k index sm =
    (if \<not> has_schedule_map k sm then None
     else case map_find key_less k sm of None \<Rightarrow> None
     | Some p \<Rightarrow> if length (snd p) = 0 then None else find_event_index index 0 (snd p))"

section \<open>Keyword search\<close>

text \<open>\<open>strstr\<close> is not null.\<close>

fun starts_with :: "string \<Rightarrow> string \<Rightarrow> bool" where
  "starts_with [] s = True"
| "starts_with (c # k) [] = False"
| "starts_with (c # k) (d # s) = (c = d \<and> starts_with k s)"

fun strstr :: "string \<Rightarrow> string \<Rightarrow> bool" where
  "strstr [] k = starts_with k []"
| "strstr (c # s) k = (starts_with k (c # s) \<or> strstr s k)"

text \<open>The loop over the extended items ends at the first one that has the keyword.\<close>

fun extended_match :: "string \<Rightarrow> extended_info list \<Rightarrow> bool" where
  "extended_match k [] = False"
| "extended_match k (x # xs) =
    (if strstr (ei_description x) k \<or> strstr (ei_item x) k then True else extended_match k xs)"

definition event_match :: "string \<Rightarrow> bool \<Rightarrow> sched_event \<Rightarrow> bool" where
  "event_match k ext e =
    (if ext then strstr (se_text e) k \<or> extended_match k (se_extended e) else strstr (se_name e) k)"

text \<open>\<open>event_t\<close>, the events that are handed out.\<close>

record event_reply =
  er_tsid :: u16
  er_nid :: u16
  er_svc :: u16
  er_event_id :: u16
  er_start :: timespec
  er_end :: timespec
  er_name :: string
  er_text :: string

definition to_event_reply :: "sched_event \<Rightarrow> event_reply" where
  "to_event_reply e = \<lparr>er_tsid = se_tsid e, er_nid = se_nid e, er_svc = se_svc e, er_event_id = se_event_id e,
     er_start = se_start e, er_end = se_end e, er_name = se_name e, er_text = se_text e\<rparr>"

text \<open>The two loops: the room left in the caller's array and the replies written.\<close>

fun search_events :: "string \<Rightarrow> bool \<Rightarrow> sched_event list \<Rightarrow> int \<times> event_reply list \<Rightarrow> int \<times> event_reply list" where
  "search_events k ext [] st = st"
| "search_events k ext (e # es) st =
    (if fst st = 0 then st
     else search_events k ext es
       (if event_match k ext e then (fst st - 1, snd st @ [to_event_reply e]) else st))"

fun search_services :: "string \<Rightarrow> bool \<Rightarrow> sched_map \<Rightarrow> int \<times> event_reply list \<Rightarrow> int \<times> event_reply list" where
  "search_services k ext [] st = st"
| "search_services k ext (p # ps) st =
    (if fst st = 0 then st else search_services k ext ps (search_events k ext (snd p) st))"

definition get_events :: "string \<Rightarrow> int \<Rightarrow> bool \<Rightarrow> sched_map \<Rightarrow> event_reply list option" where
  "get_events k num ext sm =
    (if num \<le> 0 then None else Some (snd (search_services k ext sm (num, []))))"

section \<open>Clearing\<close>

text \<open>The loop deletes the entry of its iterator, starts again at the first one and then advances:
  when nothing is left the iterator is advanced past the end (\<open>None\<close>).\<close>

partial_function (option) clear_loop :: "sched_map \<Rightarrow> nat \<Rightarrow> sched_map option" where
  "clear_loop sm i =
    (if length sm \<le> i then Some sm
     else let sm' = delete_schedule_map (fst (sm ! i)) sm
          in if sm' = [] then None else clear_loop sm' 1)"

definition container_clear :: "sched_map \<Rightarrow> sched_map option" where
  "container_clear sm = (if sm = [] then Some [] else map_option (\<lambda>_. []) (clear_loop sm 0))"

section \<open>Lemmas\<close>

lemma delete_unfold: "skey.ordered sm \<Longrightarrow> delete_schedule_map k sm = filter (\<lambda>p. \<not> key_eq (fst p) k) sm"
  by (auto simp: delete_schedule_map_def skey.find_None_iff skey.erase_unfold skey_equiv filter_id_conv
      intro!: sym [OF filter_True])

lemma ordered_delete [keeps]: "skey.ordered sm \<Longrightarrow> skey.ordered (delete_schedule_map k sm)"
  by (simp add: delete_schedule_map_def skey.ordered_erase)

lemma ordered_add [keeps]: "skey.ordered sm \<Longrightarrow> skey.ordered (snd (add_schedule_map k es sm))"
  by (simp add: add_schedule_map_def skey.ordered_insert)

lemma key_eq_refl [simp]: "key_eq k k"
  by (simp add: key_eq_def)

lemma find_event_id_find:
  "find_event_id k ev es = find (\<lambda>e. se_tsid e = sk_tsid k \<and> se_nid e = sk_nid k \<and> se_svc e = sk_svc k \<and> se_event_id e = ev) es"
  by (induction es) simp_all

lemma find_event_index_nth:
  "find_event_index index i es
   = (if i \<le> index \<and> index < i + int (length es) then Some (es ! nat (index - i)) else None)"
proof (induction es arbitrary: i)
  case (Cons e es)
  show ?case
  proof (cases "index = i")
    case False
    have "i < index \<Longrightarrow> nat (index - i) = Suc (nat (index - (i + 1)))" by simp
    with False Cons.IH [of "i + 1"] show ?thesis by (cases "i < index") (simp_all del: nat_diff_distrib)
  qed simp
qed simp

lemma starts_with_prefix: "starts_with k s \<longleftrightarrow> take (length k) s = k"
  by (induction k s rule: starts_with.induct) auto

lemma strstr_iff: "strstr s k \<longleftrightarrow> (\<exists>a b. s = a @ k @ b)"
proof (induction s)
  case Nil
  then show ?case by (simp add: starts_with_prefix) metis
next
  case (Cons c s)
  have "starts_with k (c # s) \<longleftrightarrow> (\<exists>b. c # s = k @ b)"
    unfolding starts_with_prefix by (metis append_eq_conv_conj append_take_drop_id)
  with Cons show ?case by (auto simp: Cons_eq_append_conv)
qed

lemma extended_match_iff:
  "extended_match k xs \<longleftrightarrow> list_ex (\<lambda>x. strstr (ei_description x) k \<or> strstr (ei_item x) k) xs"
  by (induction xs) simp_all

lemma search_events_take:
  "0 \<le> n \<Longrightarrow> search_events k ext es (n, rs)
    = (n - int (length (take (nat n) (filter (event_match k ext) es))),
       rs @ map to_event_reply (take (nat n) (filter (event_match k ext) es)))"
proof (induction es arbitrary: n rs)
  case (Cons e es)
  show ?case
  proof (cases "n = 0")
    case False
    then have "nat n = Suc (nat (n - 1))" using Cons.prems by simp
    with Cons False show ?thesis by simp
  qed simp
qed simp

lemma search_services_take:
  "0 \<le> n \<Longrightarrow> snd (search_services k ext sm (n, rs))
    = rs @ map to_event_reply (take (nat n) (filter (event_match k ext) (concat (map snd sm))))"
proof (induction sm arbitrary: n rs)
  case (Cons p sm)
  let ?f = "filter (event_match k ext)"
  show ?case
  proof (cases "n = 0")
    case False
    define m where "m = n - int (length (take (nat n) (?f (snd p))))"
    have m: "0 \<le> m" "nat m = nat n - length (?f (snd p))" using Cons.prems by (auto simp: m_def)
    from False Cons.IH [OF m(1)] show ?thesis
      using Cons.prems by (simp add: search_events_take m_def [symmetric] m(2) take_append del: length_take)
  qed simp
qed simp

lemma clear_loop_ordered:
  assumes "skey.ordered sm" "i < 2"
  shows "clear_loop sm i = None \<longleftrightarrow> length sm = 1 \<and> i = 0"
  using assms
proof (induction "length sm" arbitrary: sm i rule: less_induct)
  case less
  show ?case
  proof (cases "length sm \<le> i")
    case True
    then show ?thesis by (simp add: clear_loop.simps)
  next
    case False
    define sm' where "sm' = delete_schedule_map (fst (sm ! i)) sm"
    have keep: "filter (\<lambda>p. \<not> key_eq (fst p) (fst (sm ! i))) sm = take i sm @ drop (Suc i) sm"
    proof -
      have split: "sm = take i sm @ sm ! i # drop (Suc i) sm" using False by (simp add: id_take_nth_drop)
      have "sorted_wrt (\<lambda>a b. key_less (fst a) (fst b)) (take i sm @ sm ! i # drop (Suc i) sm)"
        using less.prems(1) split by (simp add: skey.ordered_def)
      then have "\<forall>p\<in>set (take i sm). key_less (fst p) (fst (sm ! i))"
        "\<forall>p\<in>set (drop (Suc i) sm). key_less (fst (sm ! i)) (fst p)"
        by (auto simp: sorted_wrt_append)
      then have "\<forall>p\<in>set (take i sm) \<union> set (drop (Suc i) sm). \<not> key_eq (fst p) (fst (sm ! i))"
        using skey.less_not skey_equiv by blast
      then have "filter (\<lambda>p. \<not> key_eq (fst p) (fst (sm ! i))) (take i sm @ sm ! i # drop (Suc i) sm)
          = take i sm @ drop (Suc i) sm" by (auto simp: filter_id_conv)
      with split show ?thesis by metis
    qed
    then have sm': "sm' = take i sm @ drop (Suc i) sm" by (simp add: sm'_def delete_unfold less.prems(1))
    then have len: "length sm' = length sm - 1" using False by simp
    have ord: "skey.ordered sm'" unfolding sm'_def by (rule ordered_delete [OF less.prems(1)])
    have loop: "clear_loop sm i = (if sm' = [] then None else clear_loop sm' 1)"
      using False by (subst clear_loop.simps) (simp add: sm'_def Let_def)
    show ?thesis
    proof (cases "sm' = []")
      case True
      then show ?thesis using loop len False by (cases sm) auto
    next
      case False
      then have "2 \<le> length sm" using len by (cases sm') auto
      moreover from this have "clear_loop sm' 1 \<noteq> None" using less.hyps [OF _ ord, of 1] len by simp
      ultimately show ?thesis using loop False by simp
    qed
  qed
qed

end
