(* ===== verification/Sched_Manager.thy ===== *)
theory Sched_Manager
  imports Sched_Container Channel_Manager
begin

text \<open>
  \<open>event_schedule_manager/event_schedule_manager.cpp\<close>: the reservations to read the schedule of a
  stream, the loop that starts them, the execution of one, its end, and the requests of the other
  modules. What is sent to other modules is recorded; their replies are arguments.
\<close>

section \<open>State\<close>

abbreviation "NORMAL \<equiv> 0x0001 :: u32"
abbreviation "FORCE \<equiv> 0x0002 :: u32"
abbreviation "TYPE_MASK \<equiv> 0x00ff :: u32"
abbreviation "S_FLG \<equiv> 0x0100 :: u32"
abbreviation "E_FLG \<equiv> 0x0200 :: u32"
abbreviation "N_FLG \<equiv> 0x0400 :: u32"
abbreviation "R_FLG \<equiv> 0x0800 :: u32"

unbundle bit_operations_syntax

record sched_reserve =
  sr_tsid :: u16
  sr_nid :: u16
  sr_svc :: u16
  sr_start :: timespec
  sr_type :: u32

definition cleared_sched_reserve :: sched_reserve where
  "cleared_sched_reserve = \<lparr>sr_tsid = 0, sr_nid = 0, sr_svc = 0, sr_start = etime_clear, sr_type = 0\<rparr>"

definition sched_reserve_eq :: "sched_reserve \<Rightarrow> sched_reserve \<Rightarrow> bool" where
  "sched_reserve_eq a b = (sr_tsid a = sr_tsid b \<and> sr_nid a = sr_nid b \<and> sr_svc a = sr_svc b \<and>
     etime_eq (sr_start a) (sr_start b) \<and> sr_type a = sr_type b)"

definition sched_reserve_valid :: "sched_reserve \<Rightarrow> bool" where
  "sched_reserve_valid r = (sr_tsid r \<noteq> 0 \<and> sr_nid r \<noteq> 0 \<and> sr_svc r \<noteq> 0)"

definition comp_reserve_start :: "sched_reserve \<Rightarrow> sched_reserve \<Rightarrow> bool" where
  "comp_reserve_start l r = (if etime_gt (sr_start r) (sr_start l) then True else False)"

datatype history_state = H_init | H_complete | H_timeout | H_cancel | H_error

record history_service =
  hs_key :: sched_key
  hs_item_num :: int

record history_stream =
  ht_name :: string
  ht_state :: history_state
  ht_services :: "history_service list"

record history =
  hi_streams :: "history_stream list"
  hi_start :: timespec
  hi_end :: timespec

definition cleared_stream :: history_stream where
  "cleared_stream = \<lparr>ht_name = [], ht_state = H_init, ht_services = []\<rparr>"

definition cleared_history :: history where
  "cleared_history = \<lparr>hi_streams = [], hi_start = etime_clear, hi_end = etime_clear\<rparr>"

definition history_add :: "history_stream \<Rightarrow> history \<Rightarrow> history" where
  "history_add s h = h\<lparr>hi_streams := hi_streams h @ [s]\<rparr>"

datatype cache_state = Cache_init | Cache_busy | Cache_ready

datatype sched_msg =
    Cache_state_notice cache_state
  | Send_exec "u16 \<times> u16 \<times> u16"
  | Send_add_reserves timespec
  | Send_tune_stop u8
  | Send_close u8

text \<open>\<open>cache_data\<close> and \<open>cache_histories\<close> are the files; the JSON text is not modelled.\<close>

record sched_manager =
  cache_sched_state :: cache_state
  last_update_EIT_sched :: timespec
  start_time_EIT_sched :: timespec
  latest_dumped_key :: sched_key
  schedule_cache_next_day :: timespec
  sched_reserves :: "sched_reserve list"
  retry_reserves :: "sched_reserve list"
  executing_reserve :: sched_reserve
  is_need_stop :: bool
  current_history :: history
  current_history_stream :: history_stream
  histories :: "history list"
  container :: sched_map
  force_cache_group_id :: u8
  tuner_resource_max :: int
  cache_data :: "sched_map option"
  cache_histories :: "history list option"
  sched_sent :: "sched_msg list"

text \<open>The constructor, and \<open>on_module_up\<close> with the files that are there.\<close>

definition new_sched_manager :: "sched_map option \<Rightarrow> history list option \<Rightarrow> sched_manager" where
  "new_sched_manager saved hist =
    \<lparr>cache_sched_state = Cache_init, last_update_EIT_sched = etime_clear, start_time_EIT_sched = etime_clear,
     latest_dumped_key = mk_key 0 0 0, schedule_cache_next_day = etime_clear, sched_reserves = [],
     retry_reserves = [], executing_reserve = cleared_sched_reserve, is_need_stop = False,
     current_history = cleared_history, current_history_stream = cleared_stream, histories = [],
     container = [], force_cache_group_id = 0xff, tuner_resource_max = 0, cache_data = saved,
     cache_histories = hist, sched_sent = []\<rparr>"

definition sched_module_up :: "int \<Rightarrow> timespec \<Rightarrow> sched_manager \<Rightarrow> sched_manager" where
  "sched_module_up tuners today m =
    m\<lparr>tuner_resource_max := tuners, schedule_cache_next_day := today,
      histories := (case cache_histories m of None \<Rightarrow> histories m | Some hs \<Rightarrow> hs),
      container := (case cache_data m of None \<Rightarrow> container m | Some sm \<Rightarrow> sm)\<rparr>"

definition sched_send :: "sched_msg \<Rightarrow> sched_manager \<Rightarrow> sched_manager" where
  "sched_send msg m = m\<lparr>sched_sent := sched_sent m @ [msg]\<rparr>"

section \<open>Reservations\<close>

fun is_exist_reserve :: "sched_reserve \<Rightarrow> sched_reserve list \<Rightarrow> bool" where
  "is_exist_reserve r [] = False"
| "is_exist_reserve r (x # xs) = (if sched_reserve_eq x r then True else is_exist_reserve r xs)"

definition is_duplicate_sched_reserve :: "sched_reserve \<Rightarrow> sched_reserve list \<Rightarrow> bool" where
  "is_duplicate_sched_reserve r rs = is_exist_reserve r rs"

definition add_sched_reserve :: "sched_reserve \<Rightarrow> sched_manager \<Rightarrow> bool \<times> sched_manager" where
  "add_sched_reserve r m =
    (if is_duplicate_sched_reserve r (sched_reserves m) then (False, m)
     else (True, m\<lparr>sched_reserves := stable_sort comp_reserve_start (sched_reserves m @ [r])\<rparr>))"

fun remove_sched_reserve :: "sched_reserve \<Rightarrow> sched_reserve list \<Rightarrow> bool \<times> sched_reserve list" where
  "remove_sched_reserve r [] = (False, [])"
| "remove_sched_reserve r (x # xs) =
    (if sched_reserve_eq x r then (True, xs)
     else let (b, ys) = remove_sched_reserve r xs in (b, x # ys))"

text \<open>The loop of \<open>check2execute_reserves\<close>: the reservation that ends it, if any, whether it is
  executed, and the vector without it.\<close>

fun due_reserve :: "timespec \<Rightarrow> sched_reserve list \<Rightarrow> (bool \<times> sched_reserve) option \<times> sched_reserve list" where
  "due_reserve t [] = (None, [])"
| "due_reserve t (r # rs) =
    (if sr_type r AND TYPE_MASK = 0 then let (x, ys) = due_reserve t rs in (x, r # ys)
     else if etime_ge t (add_hour 1 (sr_start r)) then (Some (False, r), rs)
     else if etime_ge t (sr_start r) then (Some (True, r), rs)
     else let (x, ys) = due_reserve t rs in (x, r # ys))"

definition check2execute_reserves :: "timespec \<Rightarrow> sched_manager \<Rightarrow> sched_manager" where
  "check2execute_reserves t m =
    (if sched_reserve_valid (executing_reserve m) then m
     else case due_reserve t (sched_reserves m) of
       (None, rs) \<Rightarrow> m
     | (Some (False, r), rs) \<Rightarrow> m\<lparr>sched_reserves := rs\<rparr>
     | (Some (True, r), rs) \<Rightarrow>
         (sched_send (Send_exec (sr_tsid r, sr_nid r, sr_svc r)) m)\<lparr>executing_reserve := r, sched_reserves := rs\<rparr>)"

text \<open>One turn of \<open>on_check_loop\<close>; \<open>today\<close> is the day of the clock, the settings are arguments.\<close>

record sched_settings =
  start_hour :: int
  start_min :: int
  interval_day :: int
  cache_enabled :: bool
  retry_interval_min :: int
  timeout_min :: int

definition sched_check_turn :: "sched_settings \<Rightarrow> timespec \<Rightarrow> timespec \<Rightarrow> sched_manager \<Rightarrow> sched_manager" where
  "sched_check_turn cfg today t m =
    (let m = (if etime_eq today (schedule_cache_next_day m)
        then (sched_send (Send_add_reserves (add_min (start_min cfg) (add_hour (start_hour cfg) (schedule_cache_next_day m)))) m)
          \<lparr>schedule_cache_next_day := add_day (if interval_day cfg \<le> 1 then 1 else interval_day cfg) (schedule_cache_next_day m)\<rparr>
        else m)
     in if cache_enabled cfg then check2execute_reserves t m else m)"

definition sched_parser_notice :: "bool \<Rightarrow> timespec \<Rightarrow> sched_manager \<Rightarrow> sched_manager" where
  "sched_parser_notice is_sched t m = (if is_sched then m\<lparr>last_update_EIT_sched := t\<rparr> else m)"

text \<open>The reservations of \<open>on_add_reserves\<close>: one for each channel, a minute apart.\<close>

definition reserve_type :: "nat \<Rightarrow> nat \<Rightarrow> u32" where
  "reserve_type i n =
    (let ty = NORMAL OR R_FLG;
         ty = (if i = 0 then ty OR (S_FLG OR N_FLG) else ty)
     in if i = n - 1 then ty OR (E_FLG OR N_FLG) else ty)"

fun add_channel_reserves :: "nat \<Rightarrow> nat \<Rightarrow> timespec \<Rightarrow> channel_t list \<Rightarrow> sched_manager \<Rightarrow> sched_manager" where
  "add_channel_reserves n i base [] m = m"
| "add_channel_reserves n i base (c # cs) m =
    (let base = (if i \<noteq> 0 then add_min 1 base else base);
         svc = (case ct_service_ids c of [] \<Rightarrow> 0 | s # _ \<Rightarrow> s)
     in add_channel_reserves n (i + 1) base cs
       (snd (add_sched_reserve \<lparr>sr_tsid = ct_tsid c, sr_nid = ct_nid c, sr_svc = svc, sr_start = base,
          sr_type = reserve_type i n\<rparr> m)))"

text \<open>\<open>chs\<close> is the reply of \<open>get_channels\<close> with room for 20; the result is the reply.\<close>

definition on_add_reserves :: "timespec \<Rightarrow> channel_t list option \<Rightarrow> sched_manager \<Rightarrow> bool \<times> sched_manager" where
  "on_add_reserves base chs m =
    (case chs of None \<Rightarrow> (False, m)
     | Some cs \<Rightarrow> if cs = [] then (False, m) else (True, add_channel_reserves (length cs) 0 base cs m))"

end
