(* ===== verification/Sched_Exec.thy ===== *)
theory Sched_Exec
  imports Sched_Manager
begin

text \<open>
  \<open>event_schedule_manager.cpp\<close>: the execution of a reservation. \<open>on_exec_cache_schedule\<close> waits for
  other modules and for the parser, and other requests are handled meanwhile; it is given as the
  steps between the waits. A step ends the sequence with its reply, or goes on with the local
  variables of the function. The requests for the service information and the forced and the
  interrupted execution follow.
\<close>

section \<open>The end of an execution\<close>

record exec_locals =
  ex_key :: "u16 \<times> u16 \<times> u16"
  ex_timeouted :: bool
  ex_already_using :: bool
  ex_group :: u8
  ex_force :: bool
  ex_infos :: "service_info list"

definition push_histories :: "history \<Rightarrow> history list \<Rightarrow> history list" where
  "push_histories h hs = drop (length hs - 9) hs @ [h]"

definition save_histories :: "sched_manager \<Rightarrow> sched_manager" where
  "save_histories m = m\<lparr>cache_histories := Some (histories m)\<rparr>"

definition save_schedule_map :: "sched_manager \<Rightarrow> sched_manager" where
  "save_schedule_map m = m\<lparr>cache_data := Some (container m)\<rparr>"

text \<open>The retries are added when the last reservation ends: the first one starts, the last one ends
  the series; \<open>rs\<close> is the number of retries.\<close>

definition retry_type :: "nat \<Rightarrow> nat \<Rightarrow> u32 \<Rightarrow> u32" where
  "retry_type i rs ty =
    (if i = 0 then NORMAL OR (S_FLG OR N_FLG) else if i = rs - 1 then NORMAL OR (E_FLG OR N_FLG) else ty)"

fun add_retries :: "nat \<Rightarrow> nat \<Rightarrow> sched_reserve list \<Rightarrow> sched_manager \<Rightarrow> sched_manager" where
  "add_retries rs i [] m = m"
| "add_retries rs i (r # xs) m =
    add_retries rs (i + 1) xs (snd (add_sched_reserve (r\<lparr>sr_type := retry_type i rs (sr_type r)\<rparr>) m))"

definition retry_reserve_add :: "sched_manager \<Rightarrow> sched_manager" where
  "retry_reserve_add m =
    (case retry_reserves m of
       [] \<Rightarrow> m
     | [r] \<Rightarrow> (snd (add_sched_reserve (r\<lparr>sr_type := NORMAL OR (S_FLG OR (E_FLG OR N_FLG))\<rparr>) m))\<lparr>retry_reserves := []\<rparr>
     | rs \<Rightarrow> (add_retries (length rs) 0 rs m)\<lparr>retry_reserves := []\<rparr>)"

definition end_of_series :: "timespec \<Rightarrow> sched_manager \<Rightarrow> sched_manager" where
  "end_of_series t m =
    (let h = (current_history m)\<lparr>hi_end := t\<rparr>;
         m = save_histories (m\<lparr>histories := push_histories h (histories m)\<rparr>);
         m = m\<lparr>current_history := cleared_history, cache_sched_state := Cache_ready\<rparr>
     in save_schedule_map (retry_reserve_add m))"

definition do_exit :: "timespec \<Rightarrow> exec_locals \<Rightarrow> sched_manager \<Rightarrow> sched_manager" where
  "do_exit t ex m =
    (let m = (if \<not> ex_already_using ex \<and> \<not> ex_force ex
              then sched_send (Send_close (ex_group ex)) (sched_send (Send_tune_stop (ex_group ex)) m) else m);
         ty = sr_type (executing_reserve m);
         m = (if ty AND E_FLG \<noteq> 0 then end_of_series t m else m);
         m = (if ty AND N_FLG \<noteq> 0 then sched_send (Cache_state_notice (cache_sched_state m)) m else m)
     in m\<lparr>executing_reserve := cleared_sched_reserve\<rparr>)"

definition do_error :: "sched_settings \<Rightarrow> timespec \<Rightarrow> exec_locals \<Rightarrow> sched_manager \<Rightarrow> sched_manager" where
  "do_error cfg t ex m =
    (let st = (if is_need_stop m then H_cancel else if ex_timeouted ex then H_timeout else H_error);
         s = (current_history_stream m)\<lparr>ht_state := st\<rparr>;
         m = m\<lparr>current_history_stream := s, current_history := history_add s (current_history m)\<rparr>;
         (ts, nid, svc) = ex_key ex;
         m = (if sr_type (executing_reserve m) AND R_FLG \<noteq> 0
              then m\<lparr>retry_reserves := retry_reserves m @
                [\<lparr>sr_tsid = ts, sr_nid = nid, sr_svc = svc,
                  sr_start = add_min (retry_interval_min cfg) t, sr_type = NORMAL\<rparr>]\<rparr>
              else m)
     in do_exit t ex m)"

section \<open>The steps of an execution\<close>

datatype exec_result = Exec_go exec_locals sched_manager | Exec_end bool sched_manager

definition exec_error :: "sched_settings \<Rightarrow> timespec \<Rightarrow> exec_locals \<Rightarrow> sched_manager \<Rightarrow> exec_result" where
  "exec_error cfg t ex m = Exec_end False (do_error cfg t ex m)"

definition exec_entry :: "timespec \<Rightarrow> u16 \<times> u16 \<times> u16 \<Rightarrow> sched_manager \<Rightarrow> exec_result" where
  "exec_entry t k m =
    (let ty = sr_type (executing_reserve m);
         ex = \<lparr>ex_key = k, ex_timeouted = False, ex_already_using = False, ex_group = 0xff,
           ex_force = (ty AND TYPE_MASK = FORCE), ex_infos = []\<rparr>;
         m = (if ty AND S_FLG \<noteq> 0
              then m\<lparr>cache_sched_state := Cache_busy, current_history := cleared_history\<lparr>hi_start := t\<rparr>, retry_reserves := []\<rparr>
              else m)
     in Exec_go ex (if ty AND N_FLG \<noteq> 0 then sched_send (Cache_state_notice (cache_sched_state m)) m else m))"

definition exec_stream_name :: "string \<Rightarrow> exec_locals \<Rightarrow> sched_manager \<Rightarrow> exec_result" where
  "exec_stream_name name ex m = Exec_go ex (m\<lparr>current_history_stream := cleared_stream\<lparr>ht_name := name\<rparr>\<rparr>)"

definition exec_open :: "sched_settings \<Rightarrow> timespec \<Rightarrow> u8 option \<Rightarrow> exec_locals \<Rightarrow> sched_manager \<Rightarrow> exec_result" where
  "exec_open cfg t reply ex m =
    (if ex_force ex then Exec_go ex m
     else case reply of
       None \<Rightarrow> exec_error cfg t (ex\<lparr>ex_already_using := True\<rparr>) m
     | Some g \<Rightarrow> Exec_go (ex\<lparr>ex_group := g\<rparr>) m)"

text \<open>The replies of the channel manager and of the tune request: whether they succeed.\<close>

definition exec_tune :: "sched_settings \<Rightarrow> timespec \<Rightarrow> bool \<Rightarrow> exec_locals \<Rightarrow> sched_manager \<Rightarrow> exec_result" where
  "exec_tune cfg t ok ex m = (if ex_force ex \<or> ok then Exec_go ex m else exec_error cfg t ex m)"

definition exec_services ::
  "sched_settings \<Rightarrow> timespec \<Rightarrow> service_info list option \<Rightarrow> exec_locals \<Rightarrow> sched_manager \<Rightarrow> exec_result" where
  "exec_services cfg t reply ex m =
    (case reply of
       None \<Rightarrow> exec_error cfg t ex m
     | Some infos \<Rightarrow> if infos = [] then exec_error cfg t ex m else Exec_go (ex\<lparr>ex_infos := infos\<rparr>) m)"

definition exec_enable :: "sched_settings \<Rightarrow> timespec \<Rightarrow> bool \<Rightarrow> exec_locals \<Rightarrow> sched_manager \<Rightarrow> exec_result" where
  "exec_enable cfg t ok ex m =
    (if ok then Exec_go ex (m\<lparr>start_time_EIT_sched := t\<rparr>) else exec_error cfg t ex m)"

text \<open>The poll loop. A turn sees whether a stop is wanted before its wait, the clock and the time of
  the last table behind it; the result says whether it timed out, \<open>None\<close> that it still runs after
  these turns.\<close>

type_synonym poll_turn = "bool \<times> timespec \<times> timespec"

fun exec_polls :: "int \<Rightarrow> timespec \<Rightarrow> poll_turn list \<Rightarrow> bool option" where
  "exec_polls timeout start [] = None"
| "exec_polls timeout start ((stop, t, last_update) # ps) =
    (if stop then Some False
     else if etime_gt t (add_sec 10 last_update) then Some False
     else if etime_gt t (add_min timeout start) then Some True
     else exec_polls timeout start ps)"

text \<open>The cache loop over the services: the schedule of each one that has events replaces the one in
  the container.\<close>

definition cache_service ::
  "psisi_env \<Rightarrow> eit_table list \<Rightarrow> service_info \<Rightarrow> sched_manager \<Rightarrow> sched_manager option" where
  "cache_service env tabs s m =
    (case cache_schedule env tabs (svc_tsid s) (svc_nid s) (svc_id s) of
       None \<Rightarrow> None
     | Some es \<Rightarrow>
         if es = [] then Some m
         else map_option (\<lambda>es.
           let k = \<lparr>sk_tsid = svc_tsid s, sk_nid = svc_nid s, sk_svc = svc_id s, sk_type = svc_type s,
                 sk_name = svc_name s\<rparr>;
               sm = (if has_schedule_map k (container m) then delete_schedule_map k (container m) else container m);
               st = current_history_stream m
           in m\<lparr>container := snd (add_schedule_map k es sm),
                current_history_stream := st\<lparr>ht_services := ht_services st @
                  [\<lparr>hs_key = k, hs_item_num = int (length es)\<rparr>]\<rparr>\<rparr>)
           (cache_schedule_extended env tabs es))"

definition exec_cache ::
  "psisi_env \<Rightarrow> eit_table list \<Rightarrow> exec_locals \<Rightarrow> sched_manager \<Rightarrow> sched_manager option" where
  "exec_cache env tabs ex m = run_all (cache_service env tabs) (ex_infos ex) m"

definition exec_finish :: "sched_settings \<Rightarrow> timespec \<Rightarrow> exec_locals \<Rightarrow> sched_manager \<Rightarrow> exec_result" where
  "exec_finish cfg t ex m =
    (if ex_timeouted ex \<or> is_need_stop m then exec_error cfg t ex m
     else let s = (current_history_stream m)\<lparr>ht_state := H_complete\<rparr>
          in Exec_end True (do_exit t ex (m\<lparr>current_history_stream := s,
               current_history := history_add s (current_history m)\<rparr>)))"

section \<open>Requests\<close>

text \<open>\<open>on_cache_schedule_force_current_service\<close>: the part before its wait; \<open>None\<close> is an error reply.\<close>

definition force_reserve :: "timespec \<Rightarrow> service_info \<Rightarrow> sched_reserve" where
  "force_reserve t s = \<lparr>sr_tsid = svc_tsid s, sr_nid = svc_nid s, sr_svc = svc_id s, sr_start = t,
     sr_type = FORCE OR (S_FLG OR E_FLG)\<rparr>"

definition force_current_service ::
  "timespec \<Rightarrow> u8 \<Rightarrow> service_info list option \<Rightarrow> sched_manager \<Rightarrow> sched_reserve option \<times> sched_manager" where
  "force_current_service t g reply m =
    (if uint g \<ge> tuner_resource_max m then (None, m\<lparr>force_cache_group_id := 0xff\<rparr>)
     else let m = m\<lparr>force_cache_group_id := g\<rparr> in
       case reply of
         None \<Rightarrow> (None, m\<lparr>force_cache_group_id := 0xff\<rparr>)
       | Some [] \<Rightarrow> (None, m\<lparr>force_cache_group_id := 0xff\<rparr>)
       | Some (s # ss) \<Rightarrow>
           (Some (force_reserve t s), snd (add_sched_reserve (force_reserve t s) m)))"

text \<open>Its wait: whether the loop goes on. The loop of \<open>on_stop_cache_schedule\<close>, its begin and end.\<close>

definition force_waits :: "sched_reserve \<Rightarrow> sched_manager \<Rightarrow> bool" where
  "force_waits r m =
    (if is_exist_reserve r (sched_reserves m) then True
     else sched_reserve_eq (executing_reserve m) r \<and> sched_reserve_valid (executing_reserve m))"

definition force_end :: "sched_manager \<Rightarrow> sched_manager" where
  "force_end m = m\<lparr>force_cache_group_id := 0xff\<rparr>"

definition stop_begin :: "sched_manager \<Rightarrow> sched_manager" where
  "stop_begin m = m\<lparr>is_need_stop := True\<rparr>"

definition stop_waits :: "sched_manager \<Rightarrow> bool" where
  "stop_waits m = sched_reserve_valid (executing_reserve m)"

definition stop_end :: "sched_manager \<Rightarrow> sched_manager" where
  "stop_end m = m\<lparr>is_need_stop := False\<rparr>"

text \<open>The queries; \<open>None\<close> is an error reply. A null array is an error too.\<close>

definition on_get_event :: "u16 \<Rightarrow> u16 \<Rightarrow> u16 \<Rightarrow> u16 \<Rightarrow> sched_manager \<Rightarrow> event_reply option" where
  "on_get_event ts nid svc ev m = map_option to_event_reply (get_event (mk_key ts nid svc) ev (container m))"

definition on_get_event_latest_dumped_schedule :: "int \<Rightarrow> sched_manager \<Rightarrow> event_reply option" where
  "on_get_event_latest_dumped_schedule index m =
    map_option to_event_reply (get_event_by_index (latest_dumped_key m) index (container m))"

definition on_get_events_keyword_search :: "string \<Rightarrow> int \<Rightarrow> bool \<Rightarrow> sched_manager \<Rightarrow> event_reply list option" where
  "on_get_events_keyword_search k num ext m =
    (if num \<le> 0 then None else get_events k num ext (container m))"

definition on_dump_schedule :: "u16 \<times> u16 \<times> u16 \<Rightarrow> sched_manager \<Rightarrow> sched_manager" where
  "on_dump_schedule k m = (case k of (ts, nid, svc) \<Rightarrow> m\<lparr>latest_dumped_key := mk_key ts nid svc\<rparr>)"

end
