(* ===== verification/Sched_Claims.thy ===== *)
theory Sched_Claims
  imports Sched_Exec
begin

text \<open>
  What the other modules get from the event schedule: the events of a service in order, the reply
  to a keyword, and the schedules that a new one leaves alone.
\<close>

section \<open>The events of a service\<close>

text \<open>What an event takes over from its table, apart from the texts and attributes in the
  descriptors.\<close>

definition event_summary :: "sched_event \<Rightarrow> u8 \<times> u16 \<times> u16 \<times> u16 \<times> u8 \<times> u16 \<times> timespec \<times> timespec" where
  "event_summary e = (se_table_id e, se_tsid e, se_nid e, se_svc e, se_section_number e, se_event_id e,
     se_start e, se_end e)"

definition table_summary ::
  "psisi_env \<Rightarrow> eit_table \<Rightarrow> eit_event \<Rightarrow> u8 \<times> u16 \<times> u16 \<times> u16 \<times> u8 \<times> u16 \<times> timespec \<times> timespec" where
  "table_summary env t ev = (table_id (eit_header t), eit_transport_stream_id t, eit_original_network_id t,
     table_id_extension (eit_header t), section_number (eit_header t), event_id ev, event_start env ev,
     add_sec (event_duration ev) (event_start env ev))"

definition basic_table :: "u16 \<Rightarrow> u16 \<Rightarrow> u16 \<Rightarrow> eit_table \<Rightarrow> bool" where
  "basic_table ts nid svc t = (eit_transport_stream_id t = ts \<and> eit_original_network_id t = nid \<and>
     table_id_extension (eit_header t) = svc \<and> table_id (eit_header t) \<in> {0x50, 0x51})"

definition summaries ::
  "psisi_env \<Rightarrow> u16 \<Rightarrow> u16 \<Rightarrow> u16 \<Rightarrow> eit_table list \<Rightarrow> (u8 \<times> u16 \<times> u16 \<times> u16 \<times> u8 \<times> u16 \<times> timespec \<times> timespec) list" where
  "summaries env ts nid svc tabs = concat (map (\<lambda>t. map (table_summary env t)
     (filter (\<lambda>ev. event_id ev \<noteq> 0) (events t))) (filter (basic_table ts nid svc) tabs))"

lemma valid_summary:
  "\<lbrakk>when_valid r f e = Some e'; \<And>x. event_summary (f x) = event_summary e\<rbrakk> \<Longrightarrow> event_summary e' = event_summary e"
  by (drule when_valid_SomeD) auto

lemma descriptor_summary:
  assumes "sched_descriptor_step env d e = Some e'"
  shows "event_summary e' = event_summary e"
proof -
  consider "tag d = 0x4d" | "tag d = 0x50" | "tag d = 0xc4" | "tag d = 0x54"
    | "tag d \<notin> {0x4d, 0x50, 0xc4, 0x54}" by blast
  then show ?thesis
    by cases (use assms in \<open>simp_all add: sched_descriptor_step_def\<close>,
      (erule valid_summary, simp add: event_summary_def Let_def)+)
qed

lemma mk_summary: "mk_sched_event env t ev = Some e \<Longrightarrow> event_summary e = table_summary env t ev"
  unfolding mk_sched_event_def
  by (erule run_all_keeps) (simp_all add: descriptor_summary, simp add: event_summary_def table_summary_def)

lemma push_events:
  "run_all (push_event env t) evs es = Some es' \<Longrightarrow>
   map event_summary es' = map event_summary es @ map (table_summary env t) (filter (\<lambda>ev. event_id ev \<noteq> 0) evs)"
proof (induction evs arbitrary: es)
  case (Cons ev evs)
  then obtain es1 where es1: "push_event env t ev es = Some es1" "run_all (push_event env t) evs es1 = Some es'"
    by (auto split: option.splits)
  from Cons.IH [OF es1(2)] es1(1) show ?case
    by (auto simp: push_event_def mk_summary split: if_splits)
qed simp

lemma cache_tables_summary:
  "run_all (cache_sched_table env ts nid svc) tabs es = Some es' \<Longrightarrow>
   map event_summary es' = map event_summary es @ summaries env ts nid svc tabs"
proof (induction tabs arbitrary: es)
  case (Cons t tabs)
  then obtain es1 where es1: "cache_sched_table env ts nid svc t es = Some es1"
    "run_all (cache_sched_table env ts nid svc) tabs es1 = Some es'"
    by (auto split: option.splits)
  from Cons.IH [OF es1(2)] es1(1) show ?case
    by (auto simp: cache_sched_table_def same_service_table_def summaries_def basic_table_def push_events split: if_splits)
qed (simp add: summaries_def)

lemma stable_sort_Nil_iff: "[] = stable_sort lt xs \<longleftrightarrow> xs = []"
  using length_stable_sort [of lt xs] by (cases xs) (auto simp: stable_sort_def)

lemma sorted_tables:
  assumes "cache_schedule env tabs ts nid svc = Some es" "(ts, nid, svc) \<noteq> (0, 0, 0)"
  shows "\<exists>es0. map event_summary es0 = summaries env ts nid svc tabs \<and>
    es = stable_sort comp_table_section es0 \<and>
    sorted_wrt (\<lambda>a b. se_table_id a < se_table_id b \<or>
      se_table_id a = se_table_id b \<and> se_section_number a \<le> se_section_number b) es"
proof -
  obtain es0 where es0: "run_all (cache_sched_table env ts nid svc) tabs [] = Some es0"
    "es = stable_sort comp_section_number (stable_sort comp_table_id es0)"
    using assms by (auto simp: cache_schedule_def split: if_splits)
  then have es: "es = stable_sort comp_table_section es0" by (simp add: two_sorts)
  have "by_section.in_order es" unfolding es by (rule by_section.sort_in_order)
  then have "sorted_wrt (\<lambda>a b. se_table_id a < se_table_id b \<or>
      se_table_id a = se_table_id b \<and> se_section_number a \<le> se_section_number b) es"
    unfolding by_section.in_order_def
    by (rule sorted_wrt_mono_rel [rotated])
      (auto simp: comp_table_section_def comp_table_id_def comp_section_number_def split: if_splits)
  then show ?thesis using cache_tables_summary [OF es0(1)] es by auto
qed

text \<open>The schedule of a service consists of exactly the events, with identifiers and times, of
  its tables 0x50 and 0x51, in the order of table and section; events of one section keep their
  order. The second of the two sorts uses a comparison that is no order, but on events sorted by
  table both together are one stable sort.\<close>

theorem schedule_is_the_sorted_tables:
  assumes "cache_schedule env tabs ts nid svc = Some es" "(ts, nid, svc) \<noteq> (0, 0, 0)"
  shows "\<exists>es0. map event_summary es0 = summaries env ts nid svc tabs \<and>
    es = stable_sort comp_table_section es0 \<and>
    sorted_wrt (\<lambda>a b. se_table_id a < se_table_id b \<or>
      se_table_id a = se_table_id b \<and> se_section_number a \<le> se_section_number b) es"
  by (rule sorted_tables [OF assms])

definition plain_event :: "u16 \<Rightarrow> eit_event" where
  "plain_event n = \<lparr>event_id = n, ev_start_time = replicate 8 0, ev_duration = [0, 3, 0], ev_running_status = 0,
     ev_free_CA_mode = 0, ev_descriptors_loop_length = 0, ev_descriptors = []\<rparr>"

definition plain_table :: "u8 \<Rightarrow> u8 \<Rightarrow> u16 list \<Rightarrow> eit_table" where
  "plain_table tid sec ns = \<lparr>eit_header = zero_header\<lparr>table_id := tid, table_id_extension := 3, section_number := sec\<rparr>,
     eit_transport_stream_id = 1, eit_original_network_id = 2, segment_last_section_number = 0,
     last_table_id = 0x51, events = map plain_event ns\<rparr>"

definition sched_env :: psisi_env where
  "sched_env = \<lparr>now = Timespec 1000 0, mktime = (\<lambda>t. 900), arib = (\<lambda>bs. map (\<lambda>b. CHR ''x'') bs)\<rparr>"

lemma plain_tables:
  "cache_schedule sched_env [plain_table 0x51 0 [7], plain_table 0x50 8 [5, 0], plain_table 0x50 0 [4]] 1 2 3 \<noteq> None"
  by (simp add: cache_schedule_def cache_sched_table_def same_service_table_def plain_table_def push_event_def
      mk_sched_event_def plain_event_def)

theorem schedule_is_the_sorted_tables_witness:
  "\<exists>es es0. cache_schedule sched_env [plain_table 0x51 0 [7], plain_table 0x50 8 [5, 0], plain_table 0x50 0 [4]] 1 2 3
      = Some es \<and> es = stable_sort comp_table_section es0 \<and> map se_event_id es0 = [7, 5, 4]"
proof -
  let ?ts = "[plain_table 0x51 0 [7], plain_table 0x50 8 [5, 0], plain_table 0x50 0 [4]]"
  obtain es where es: "cache_schedule sched_env ?ts 1 2 3 = Some es" using plain_tables by auto
  from schedule_is_the_sorted_tables [OF es] obtain es0 where
    es0: "map event_summary es0 = summaries sched_env 1 2 3 ?ts" "es = stable_sort comp_table_section es0" by auto
  have "map se_event_id es0 = map (\<lambda>(a, b, c, d, e, f, g). f) (map event_summary es0)"
    by (simp add: event_summary_def)
  also have "\<dots> = [7, 5, 4]"
    unfolding es0(1) by (simp add: summaries_def basic_table_def plain_table_def table_summary_def plain_event_def)
  finally show ?thesis using es es0(2) by (intro exI conjI)
qed

section \<open>The container\<close>

text \<open>What a step that changes the container leaves: the entries of all other services.\<close>

lemma find_add:
  assumes "skey.ordered sm" "es \<noteq> []" "map_find key_less k sm = None"
  shows "map_find key_less k' (snd (add_schedule_map k es sm))
    = (if key_eq k k' then Some (k, es) else map_find key_less k' sm)"
proof -
  have "map_find key_less k' sm = None" if "key_eq k k'"
    using assms(1,3) that by (auto simp: skey.find_None_iff skey_equiv key_eq_def)
  then show ?thesis using assms by (auto simp: add_schedule_map_def skey.find_insert skey_equiv)
qed

lemma find_replaced:
  assumes "skey.ordered sm" "es \<noteq> []"
    and "sm' = (if has_schedule_map k sm then delete_schedule_map k sm else sm)"
    and "list_all (\<lambda>p. snd p \<noteq> []) sm"
  shows "map_find key_less k' (snd (add_schedule_map k es sm'))
    = (if key_eq k k' then Some (k, es) else map_find key_less k' sm)"
proof -
  have ord: "skey.ordered sm'" using assms(1,3) by (simp add: ordered_delete)
  have "has_schedule_map k sm \<longleftrightarrow> map_find key_less k sm \<noteq> None"
    using assms(4) by (auto simp: has_schedule_map_def list_all_iff split: option.split dest!: skey.find_SomeD)
  then have sm': "sm' = (if map_find key_less k sm = None then sm else map_erase key_less k sm)"
    using assms(3) by (simp add: delete_schedule_map_def)
  then have none: "map_find key_less k sm' = None"
    by (auto simp: skey.find_erase [OF assms(1)] skey_equiv)
  have "map_find key_less k' sm' = map_find key_less k' sm" if "\<not> key_eq k k'"
    using that by (auto simp: sm' skey.find_erase [OF assms(1)] skey_equiv)
  then show ?thesis using find_add [OF ord assms(2) none] by simp
qed

definition container_ok :: "sched_map \<Rightarrow> bool" where
  "container_ok sm = (skey.ordered sm \<and> list_all (\<lambda>(k, es). es \<noteq> [] \<and>
     list_all (\<lambda>e. (se_tsid e, se_nid e, se_svc e) = (sk_tsid k, sk_nid k, sk_svc k)) es) sm)"

lemma container_filled: "container_ok sm \<Longrightarrow> list_all (\<lambda>p. snd p \<noteq> []) sm"
  by (auto simp: container_ok_def list_all_iff)

text \<open>The service whose schedule is cached, as its key.\<close>

definition service_key_of :: "service_info \<Rightarrow> sched_key" where
  "service_key_of s = \<lparr>sk_tsid = svc_tsid s, sk_nid = svc_nid s, sk_svc = svc_id s, sk_type = svc_type s,
     sk_name = svc_name s\<rparr>"

lemma cache_service_cases:
  assumes "cache_service env tabs s m = Some m'"
  obtains (nothing) "cache_schedule env tabs (svc_tsid s) (svc_nid s) (svc_id s) = Some []" "m' = m"
    | (cached) es es' where "cache_schedule env tabs (svc_tsid s) (svc_nid s) (svc_id s) = Some es" "es \<noteq> []"
      "cache_schedule_extended env tabs es = Some es'"
      "m' = m\<lparr>container := snd (add_schedule_map (service_key_of s) es'
          (if has_schedule_map (service_key_of s) (container m)
           then delete_schedule_map (service_key_of s) (container m) else container m)),
        current_history_stream := (current_history_stream m)\<lparr>ht_services := ht_services (current_history_stream m) @
          [\<lparr>hs_key = service_key_of s, hs_item_num = int (length es')\<rparr>]\<rparr>\<rparr>"
proof -
  obtain es where es: "cache_schedule env tabs (svc_tsid s) (svc_nid s) (svc_id s) = Some es"
    using assms by (auto simp: cache_service_def split: option.splits)
  show ?thesis
  proof (cases "es = []")
    case True
    show ?thesis by (rule nothing) (use es assms True in \<open>simp_all add: cache_service_def\<close>)
  next
    case False
    obtain es' where es': "cache_schedule_extended env tabs es = Some es'"
      using assms es False by (auto simp: cache_service_def)
    show ?thesis
      by (rule cached [OF es False es'])
        (rule sym, use assms es es' False in
          \<open>simp add: cache_service_def service_key_of_def [symmetric] Let_def split del: if_split\<close>)
  qed
qed

definition same_ident :: "sched_event \<Rightarrow> sched_event \<Rightarrow> bool" where
  "same_ident a b = (event_summary b = event_summary a)"

lemma extended_ident:
  "extended_descriptor_step env d e = Some e' \<Longrightarrow> event_summary e' = event_summary e"
  by (auto simp: extended_descriptor_step_def event_summary_def split: if_splits dest!: when_valid_SomeD)

lemma cache_extended_ident: "cache_extended_event env tabs e = Some e' \<Longrightarrow> event_summary e' = event_summary e"
proof -
  have ds: "event_summary y = event_summary x"
    if "run_all (extended_descriptor_step env) ds x = Some y" for ds x y
    by (rule run_all_keeps [OF that]) (auto dest: extended_ident)
  have ev: "extended_event_step env ev x = Some y \<Longrightarrow> event_summary y = event_summary x" for ev x y
    by (auto simp: extended_event_step_def split: if_splits dest: ds)
  have evs: "event_summary y = event_summary x"
    if "run_all (extended_event_step env) evs x = Some y" for evs x y
    by (rule run_all_keeps [OF that]) (auto dest: ev)
  have tab: "extended_table_step env t x = Some y \<Longrightarrow> event_summary y = event_summary x" for t x y
    by (auto simp: extended_table_step_def split: if_splits dest: evs)
  show "cache_extended_event env tabs e = Some e' \<Longrightarrow> event_summary e' = event_summary e"
    unfolding cache_extended_event_def by (erule run_all_keeps) (auto dest: tab)
qed

lemma cache_extended_summaries:
  "cache_schedule_extended env tabs es = Some es' \<Longrightarrow> map event_summary es' = map event_summary es"
  by (induction es arbitrary: es') (auto split: option.splits dest!: cache_extended_ident)

lemma cached_idents:
  assumes "cache_schedule env tabs ts nid svc = Some es"
  shows "list_all (\<lambda>e. (se_tsid e, se_nid e, se_svc e) = (ts, nid, svc)) es"
proof (cases "(ts, nid, svc) = (0, 0, 0)")
  case False
  with assms obtain es0 where es0: "run_all (cache_sched_table env ts nid svc) tabs [] = Some es0"
    "es = stable_sort comp_section_number (stable_sort comp_table_id es0)"
    by (auto simp: cache_schedule_def split: if_splits)
  have "event_summary e \<in> set (summaries env ts nid svc tabs)" if "e \<in> set es0" for e
    using that cache_tables_summary [OF es0(1)] by (metis append_Nil list.map(1) image_eqI list.set_map)
  then have "(se_tsid e, se_nid e, se_svc e) = (ts, nid, svc)" if "e \<in> set es0" for e
    using that by (fastforce simp: summaries_def basic_table_def table_summary_def event_summary_def)
  then show ?thesis by (simp add: list_all_iff es0(2))
qed (use assms in \<open>simp add: cache_schedule_def\<close>)

lemma cached_extended_idents:
  assumes "cache_schedule env tabs ts nid svc = Some es" "cache_schedule_extended env tabs es = Some es'"
  shows "list_all (\<lambda>e. (se_tsid e, se_nid e, se_svc e) = (ts, nid, svc)) es'"
proof -
  have "list_all (\<lambda>x. case x of (a, b, c, d, x) \<Rightarrow> (b, c, d) = (ts, nid, svc)) (map event_summary es)"
    using cached_idents [OF assms(1)] by (simp add: list_all_iff event_summary_def)
  then have "list_all (\<lambda>x. case x of (a, b, c, d, x) \<Rightarrow> (b, c, d) = (ts, nid, svc)) (map event_summary es')"
    by (simp only: cache_extended_summaries [OF assms(2)])
  then show ?thesis by (simp add: list_all_iff event_summary_def)
qed

lemma container_ok_add:
  assumes "container_ok sm" "list_all (\<lambda>e. (se_tsid e, se_nid e, se_svc e) = (sk_tsid k, sk_nid k, sk_svc k)) es"
  shows "container_ok (snd (add_schedule_map k es sm))"
  using assms by (auto simp: container_ok_def add_schedule_map_def skey.ordered_insert list_all_iff skey.set_insert
      split: if_splits)

lemma container_ok_delete: "container_ok sm \<Longrightarrow> container_ok (delete_schedule_map k sm)"
  using ordered_delete [of sm k] by (auto simp: container_ok_def delete_unfold list_all_iff)

lemma cache_service_ok:
  assumes "cache_service env tabs s m = Some m'" "container_ok (container m)"
  shows "container_ok (container m')"
  using assms(1)
proof (cases rule: cache_service_cases)
  case (cached es es')
  note idents = cached_extended_idents [OF cached(1,3)]
  show ?thesis
    unfolding cached(4) using assms(2) idents
    by (simp add: container_ok_add container_ok_delete service_key_of_def)
qed (use assms(2) in simp)

lemma caching_replaces:
  assumes "cache_service env tabs s m = Some m'" "container_ok (container m)"
  shows "container_ok (container m') \<and>
    (\<exists>es es'. cache_schedule env tabs (svc_tsid s) (svc_nid s) (svc_id s) = Some es \<and>
      cache_schedule_extended env tabs es = Some es' \<and> map event_summary es' = map event_summary es \<and>
      (\<forall>k. map_find key_less k (container m')
        = (if key_eq (service_key_of s) k \<and> es \<noteq> [] then Some (service_key_of s, es')
           else map_find key_less k (container m))))"
  using assms(1)
proof (cases rule: cache_service_cases)
  case nothing
  then show ?thesis using assms(2) by auto
next
  case (cached es es')
  have ord: "skey.ordered (container m)" using assms(2) by (simp add: container_ok_def)
  have sums: "map event_summary es' = map event_summary es" by (rule cache_extended_summaries [OF cached(3)])
  have "es' \<noteq> []" using arg_cong [OF sums, of length] cached(2) by auto
  from find_replaced [OF ord this refl container_filled [OF assms(2)]]
  have "map_find key_less k (container m')
      = (if key_eq (service_key_of s) k \<and> es \<noteq> [] then Some (service_key_of s, es')
         else map_find key_less k (container m))" for k
    using cached(2,4) by simp
  then show ?thesis using cached(1,3) sums cache_service_ok [OF assms] by blast
qed

text \<open>Caching the schedule of a service replaces the one it had, of every event with its
  extended texts, and leaves those of all other services; a service without events keeps its old
  schedule.\<close>

theorem caching_replaces_one_schedule:
  assumes "cache_service env tabs s m = Some m'" "container_ok (container m)"
  shows "container_ok (container m') \<and>
    (\<exists>es es'. cache_schedule env tabs (svc_tsid s) (svc_nid s) (svc_id s) = Some es \<and>
      cache_schedule_extended env tabs es = Some es' \<and> map event_summary es' = map event_summary es \<and>
      (\<forall>k. map_find key_less k (container m')
        = (if key_eq (service_key_of s) k \<and> es \<noteq> [] then Some (service_key_of s, es')
           else map_find key_less k (container m))))"
  by (rule caching_replaces [OF assms])

definition plain_service :: service_info where
  "plain_service = cleared_service\<lparr>svc_tsid := 1, svc_nid := 2, svc_id := 3, svc_name := ''one''\<rparr>"

definition plain_manager :: sched_manager where
  "plain_manager = new_sched_manager None None"

lemma plain_container: "container_ok (container plain_manager)"
  by (simp add: plain_manager_def new_sched_manager_def container_ok_def)

lemma plain_cached: "cache_service sched_env [plain_table 0x50 0 [4]] plain_service plain_manager \<noteq> None"
  by (simp add: cache_service_def plain_service_def cache_schedule_def cache_sched_table_def same_service_table_def
      plain_table_def push_event_def mk_sched_event_def plain_event_def stable_sort_def cache_extended_event_def
      extended_table_step_def split: option.split)

lemma plain_cached_obtain:
  obtains m where "cache_service sched_env [plain_table 0x50 0 [4]] plain_service plain_manager = Some m"
  using plain_cached by auto

theorem caching_replaces_one_schedule_witness:
  "\<exists>m. cache_service sched_env [plain_table 0x50 0 [4]] plain_service plain_manager = Some m \<and> container_ok (container m)"
proof -
  obtain m where m: "cache_service sched_env [plain_table 0x50 0 [4]] plain_service plain_manager = Some m"
    by (rule plain_cached_obtain)
  with caching_replaces_one_schedule [OF m plain_container] show ?thesis by simp
qed

section \<open>Queries\<close>

lemma lookup_cached:
  assumes "map_find key_less (mk_key ts nid svc) sm = Some (k, es)" "es \<noteq> []"
    and "list_all (\<lambda>e. (se_tsid e, se_nid e, se_svc e) = (ts, nid, svc)) es"
  shows "get_event (mk_key ts nid svc) n sm = find (\<lambda>e. se_event_id e = n) es"
proof -
  have "find_event_id (mk_key ts nid svc) n es = find (\<lambda>e. se_event_id e = n) es"
    unfolding find_event_id_find using assms(3) by (intro find_cong) (auto simp: mk_key_def list_all_iff)
  then show ?thesis using assms(1,2) by (simp add: get_event_def has_schedule_map_def)
qed

lemma find_mem: "find P xs = Some x \<Longrightarrow> P x \<and> x \<in> set xs"
  by (induction xs) (auto split: if_splits)

text \<open>Once the schedule of a service has been cached, every event of its tables is found by its
  identifier, with the times of one of its entries, and no other identifier is.\<close>

theorem cached_events_are_found:
  assumes "cache_service env tabs s m = Some m'" "container_ok (container m)"
    and "cache_schedule env tabs (svc_tsid s) (svc_nid s) (svc_id s) \<noteq> Some []"
  shows "case on_get_event (svc_tsid s) (svc_nid s) (svc_id s) n m' of
      None \<Rightarrow> \<not> list_ex (\<lambda>(tid, ts, nid, svc, sec, i, st, en). i = n) (summaries env (svc_tsid s) (svc_nid s) (svc_id s) tabs)
    | Some r \<Rightarrow> list_ex (\<lambda>(tid, ts, nid, svc, sec, i, st, en). i = n \<and>
        (er_tsid r, er_nid r, er_svc r, er_event_id r, er_start r, er_end r) = (ts, nid, svc, n, st, en))
        (summaries env (svc_tsid s) (svc_nid s) (svc_id s) tabs)"
proof -
  let ?k = "mk_key (svc_tsid s) (svc_nid s) (svc_id s)" and ?S = "summaries env (svc_tsid s) (svc_nid s) (svc_id s) tabs"
  from caching_replaces [OF assms(1,2)] obtain es es' where
    c: "cache_schedule env tabs (svc_tsid s) (svc_nid s) (svc_id s) = Some es"
      "cache_schedule_extended env tabs es = Some es'" "map event_summary es' = map event_summary es"
    and find: "\<And>k. map_find key_less k (container m')
        = (if key_eq (service_key_of s) k \<and> es \<noteq> [] then Some (service_key_of s, es')
           else map_find key_less k (container m))" by blast
  have ne: "es \<noteq> []" "es' \<noteq> []" using assms(3) c by auto
  have ids: "(svc_tsid s, svc_nid s, svc_id s) \<noteq> (0, 0, 0)"
    using c(1) ne by (auto simp: cache_schedule_def)
  obtain es0 where es0: "map event_summary es0 = ?S" "es = stable_sort comp_table_section es0"
    using sorted_tables [OF c(1) ids] by blast
  have mem: "x \<in> set ?S \<longleftrightarrow> (\<exists>e\<in>set es'. event_summary e = x)" for x
  proof -
    have "set ?S = event_summary ` set es" unfolding es0(1) [symmetric] es0(2) by simp
    also have "\<dots> = event_summary ` set es'" using arg_cong [OF c(3), of set] by simp
    finally show ?thesis by auto
  qed
  have "map_find key_less ?k (container m') = Some (service_key_of s, es')"
    using find ne by (simp add: key_eq_def service_key_of_def mk_key_def)
  from lookup_cached [OF this ne(2) cached_extended_idents [OF c(1,2)]]
  have get: "on_get_event (svc_tsid s) (svc_nid s) (svc_id s) n m'
      = map_option to_event_reply (find (\<lambda>e. se_event_id e = n) es')"
    by (simp add: on_get_event_def)
  show ?thesis
  proof (cases "find (\<lambda>e. se_event_id e = n) es'")
    case None
    then have "\<forall>e\<in>set es'. se_event_id e \<noteq> n" by (auto simp: find_None_iff)
    then have "\<not> list_ex (\<lambda>(tid, ts, nid, svc, sec, i, st, en). i = n) ?S"
      by (auto simp: list_ex_iff mem) (auto simp: event_summary_def)
    then show ?thesis using get None by simp
  next
    case (Some e)
    from find_mem [OF this] have e: "se_event_id e = n" "e \<in> set es'" by simp_all
    then have "event_summary e \<in> set ?S" using mem by blast
    then have "list_ex (\<lambda>(tid, ts, nid, svc, sec, i, st, en). i = n \<and>
        (se_tsid e, se_nid e, se_svc e, se_event_id e, se_start e, se_end e) = (ts, nid, svc, n, st, en)) ?S"
      unfolding list_ex_iff using e(1) by (intro bexI [of _ "event_summary e"]) (auto simp: event_summary_def)
    then show ?thesis using get Some by (simp add: to_event_reply_def)
  qed
qed

theorem cached_events_are_found_witness:
  "\<exists>m. cache_service sched_env [plain_table 0x50 0 [4]] plain_service plain_manager = Some m \<and>
    on_get_event 1 2 3 4 m \<noteq> None \<and> on_get_event 1 2 3 5 m = None"
proof -
  let ?t = "[plain_table 0x50 0 [4]]"
  obtain m where m: "cache_service sched_env ?t plain_service plain_manager = Some m"
    by (rule plain_cached_obtain)
  have ids: "svc_tsid plain_service = 1" "svc_nid plain_service = 2" "svc_id plain_service = 3"
    by (simp_all add: plain_service_def)
  have sums: "summaries sched_env 1 2 3 ?t = [table_summary sched_env (plain_table 0x50 0 [4]) (plain_event 4)]"
    by (simp add: summaries_def basic_table_def plain_table_def) (simp add: plain_event_def)
  have ids4: "table_summary sched_env (plain_table 0x50 0 [4]) (plain_event 4)
      = (0x50, 1, 2, 3, 0, 4, event_start sched_env (plain_event 4),
         add_sec (event_duration (plain_event 4)) (event_start sched_env (plain_event 4)))"
    by (simp add: table_summary_def plain_table_def) (simp add: plain_event_def)
  have "cache_schedule sched_env ?t 1 2 3 \<noteq> Some []"
  proof
    assume "cache_schedule sched_env ?t 1 2 3 = Some []"
    from sorted_tables [OF this] sums show False by (auto simp: stable_sort_Nil_iff)
  qed
  note found = cached_events_are_found [OF m plain_container, unfolded ids, OF this]
  have "on_get_event 1 2 3 4 m \<noteq> None" using found [of 4] by (simp add: sums ids4 split: option.splits)
  moreover have "on_get_event 1 2 3 5 m = None"
    using found [of 5] by (simp add: sums ids4 split: option.splits)
  ultimately show ?thesis using m by blast
qed

text \<open>A keyword search returns the events with the keyword, of all services in the order of
  their keys, each service's in the order of its schedule, as many as the caller has room for; the
  keyword is looked for in the name, or in the text and the extended texts.\<close>

theorem keyword_search_finds_the_first_matches:
  assumes "0 < num"
  shows "on_get_events_keyword_search k num ext m
    = Some (map to_event_reply (take (nat num) (filter (\<lambda>e.
        if ext then (\<exists>a b. se_text e = a @ k @ b) \<or>
          list_ex (\<lambda>x. (\<exists>a b. ei_description x = a @ k @ b) \<or> (\<exists>a b. ei_item x = a @ k @ b)) (se_extended e)
        else (\<exists>a b. se_name e = a @ k @ b)) (concat (map snd (container m))))))"
  using assms
  by (simp add: on_get_events_keyword_search_def get_events_def search_services_take event_match_def [abs_def]
      extended_match_iff strstr_iff)

theorem keyword_search_finds_the_first_matches_witness:
  "on_get_events_keyword_search ''ew'' 1 False
     (plain_manager\<lparr>container := [(mk_key 1 2 3, [cleared_event\<lparr>se_name := ''film''\<rparr>, cleared_event\<lparr>se_name := ''news''\<rparr>])]\<rparr>)
   = Some [to_event_reply (cleared_event\<lparr>se_name := ''news''\<rparr>)]"
proof -
  have "strstr ''news'' ''ew''" "\<not> strstr ''film'' ''ew''" by simp_all
  note this [unfolded strstr_iff, simplified]
  then show ?thesis
    unfolding keyword_search_finds_the_first_matches [OF zero_less_one] by simp
qed

text \<open>The loop that empties the container ends for every number of services but one, where it
  advances the iterator past the end.\<close>

theorem one_service_cannot_be_cleared:
  assumes "skey.ordered sm"
  shows "container_clear sm = (if length sm = 1 then None else Some [])"
proof (cases "sm = []")
  case False
  have "clear_loop sm 0 = None \<longleftrightarrow> length sm = 1" using clear_loop_ordered [OF assms, of 0] by simp
  with False show ?thesis by (auto simp: container_clear_def)
qed (simp add: container_clear_def)

theorem one_service_cannot_be_cleared_witness:
  "container_clear [(mk_key 1 2 3, [cleared_event])]
   = (if length [(mk_key 1 2 3, [cleared_event])] = 1 then None else Some [])"
  by (rule one_service_cannot_be_cleared) simp

end
