(* ===== verification/Sched_Series.thy ===== *)
theory Sched_Series
  imports Sched_Claims
begin

text \<open>
  The reservations of the event schedule: what holds of the manager after any of its steps, the
  series of reservations for the channels, what is executed when, and how an execution ends.
\<close>

section \<open>The vector of reservations\<close>

interpretation by_start: comparison comp_reserve_start
  by unfold_locales (auto simp: comp_reserve_start_def split: if_splits)

lemma sched_reserve_eq_iff: "sched_reserve_eq a b \<longleftrightarrow> a = b"
  by (auto simp: sched_reserve_eq_def)

lemma is_exist_iff [simp]: "is_exist_reserve r rs \<longleftrightarrow> r \<in> set rs"
  by (induction rs) (auto simp: sched_reserve_eq_iff)

definition reserves_ok :: "sched_reserve list \<Rightarrow> bool" where
  "reserves_ok rs = (by_start.in_order rs \<and> distinct rs \<and> list_all (\<lambda>r. sr_type r AND TYPE_MASK \<noteq> 0) rs)"

lemma distinct_stable_sort [simp]: "distinct (stable_sort lt xs) = distinct xs"
  by (rule mset_eq_imp_distinct_iff) simp

lemma list_all_stable_sort [simp]: "list_all P (stable_sort lt xs) = list_all P xs"
  by (simp add: list_all_iff)

lemma add_sched_reserve_ok:
  "\<lbrakk>reserves_ok (sched_reserves m); sr_type r AND TYPE_MASK \<noteq> 0\<rbrakk>
    \<Longrightarrow> reserves_ok (sched_reserves (snd (add_sched_reserve r m)))"
  by (auto simp: add_sched_reserve_def is_duplicate_sched_reserve_def reserves_ok_def by_start.sort_in_order)

lemma due_reserve_parts:
  "due_reserve t rs = (x, ys) \<Longrightarrow>
   (case x of None \<Rightarrow> ys = rs | Some (b, r) \<Rightarrow> \<exists>us vs. rs = us @ r # vs \<and> ys = us @ vs)"
proof (induction rs arbitrary: x ys)
  case (Cons r rs)
  obtain x' ys' where d: "due_reserve t rs = (x', ys')" by fastforce
  show ?case
  proof (cases "sr_type r AND TYPE_MASK \<noteq> 0 \<and> etime_ge t (sr_start r)")
    case True
    then obtain b where "x = Some (b, r)" "ys = rs" using Cons.prems by (auto split: if_splits)
    moreover have "r # rs = [] @ r # rs \<and> rs = [] @ rs" by simp
    ultimately show ?thesis by (simp only: option.case prod.case) blast
  next
    case False
    have "\<not> etime_ge t (add_hour 1 (sr_start r))" if "\<not> etime_ge t (sr_start r)"
      using that by (auto simp: timespec_less_iff add_hour_def not_le)
    then have "x = x'" "ys = r # ys'" using False Cons.prems d by (auto split: if_splits)
    moreover have "\<exists>us' vs. r # us @ q # ws = us' @ q # vs \<and> r # us @ ws = us' @ vs" for us q ws
      by (metis append_Cons)
    ultimately show ?thesis using Cons.IH [OF d] by (fastforce split: option.splits prod.splits)
  qed
qed simp

lemma due_reserve_ok:
  assumes "due_reserve t rs = (x, ys)" "reserves_ok rs"
  shows "reserves_ok ys"
  using due_reserve_parts [OF assms(1)] assms(2)
  by (auto simp: reserves_ok_def by_start.in_order_def sorted_wrt_append split: option.splits prod.splits)

section \<open>Reachable states\<close>

definition sched_ok :: "sched_manager \<Rightarrow> bool" where
  "sched_ok m = (reserves_ok (sched_reserves m) \<and> length (histories m) \<le> 10 \<and> container_ok (container m) \<and>
     list_all (\<lambda>r. sr_type r = NORMAL) (retry_reserves m))"

text \<open>One step of the manager; the steps of an execution may be interleaved with all others.\<close>

inductive sched_step :: "sched_manager \<Rightarrow> sched_manager \<Rightarrow> bool" where
  step_turn: "sched_step m (sched_check_turn cfg today t m)"
| step_parser: "sched_step m (sched_parser_notice is_sched t m)"
| step_add: "sched_step m (snd (on_add_reserves base chs m))"
| step_entry: "exec_entry t k m = Exec_go ex m' \<Longrightarrow> sched_step m m'"
| step_name: "exec_stream_name name ex m = Exec_go ex' m' \<Longrightarrow> sched_step m m'"
| step_enable: "exec_enable cfg t ok ex m = Exec_go ex' m' \<Longrightarrow> sched_step m m'"
| step_error: "exec_error cfg t ex m = Exec_end b m' \<Longrightarrow> sched_step m m'"
| step_cache: "exec_cache env tabs ex m = Some m' \<Longrightarrow> sched_step m m'"
| step_finish: "exec_finish cfg t ex m = Exec_end b m' \<Longrightarrow> sched_step m m'"
| step_force: "sched_step m (snd (force_current_service t g reply m))"
| step_force_end: "sched_step m (force_end m)"
| step_stop: "sched_step m (stop_begin m)"
| step_stop_end: "sched_step m (stop_end m)"
| step_dump: "sched_step m (on_dump_schedule k m)"

inductive sched_reachable :: "sched_manager \<Rightarrow> bool" where
  sched_init: "sched_reachable (sched_module_up tuners today (new_sched_manager None None))"
| sched_next: "\<lbrakk>sched_reachable m; sched_step m m'\<rbrakk> \<Longrightarrow> sched_reachable m'"

lemma sched_ok_frame [simp]:
  "sched_ok (m\<lparr>last_update_EIT_sched := a\<rparr>) = sched_ok m" "sched_ok (m\<lparr>start_time_EIT_sched := a\<rparr>) = sched_ok m"
  "sched_ok (m\<lparr>latest_dumped_key := k\<rparr>) = sched_ok m" "sched_ok (m\<lparr>schedule_cache_next_day := a\<rparr>) = sched_ok m"
  "sched_ok (m\<lparr>executing_reserve := r\<rparr>) = sched_ok m" "sched_ok (m\<lparr>is_need_stop := b\<rparr>) = sched_ok m"
  "sched_ok (m\<lparr>current_history := h\<rparr>) = sched_ok m" "sched_ok (m\<lparr>current_history_stream := s\<rparr>) = sched_ok m"
  "sched_ok (m\<lparr>force_cache_group_id := g\<rparr>) = sched_ok m" "sched_ok (m\<lparr>cache_data := d\<rparr>) = sched_ok m"
  "sched_ok (m\<lparr>cache_histories := hs\<rparr>) = sched_ok m" "sched_ok (m\<lparr>cache_sched_state := st\<rparr>) = sched_ok m"
  "sched_ok (sched_send msg m) = sched_ok m"
  by (simp_all add: sched_ok_def sched_send_def)

lemma sched_ok_parts [simp]:
  "sched_ok m \<Longrightarrow> sched_ok (m\<lparr>sched_reserves := rs\<rparr>) = reserves_ok rs"
  "sched_ok m \<Longrightarrow> sched_ok (m\<lparr>retry_reserves := rs\<rparr>) = list_all (\<lambda>r. sr_type r = NORMAL) rs"
  by (simp_all add: sched_ok_def)

lemma add_ok [simp]: "\<lbrakk>sched_ok m; sr_type r AND TYPE_MASK \<noteq> 0\<rbrakk> \<Longrightarrow> sched_ok (snd (add_sched_reserve r m))"
  using add_sched_reserve_ok [of m r] by (simp add: sched_ok_def add_sched_reserve_def)

lemma types_masked [simp]:
  "reserve_type i n AND TYPE_MASK \<noteq> 0" "retry_type i n NORMAL AND TYPE_MASK \<noteq> 0"
  by (simp_all add: reserve_type_def retry_type_def Let_def)

lemma add_channels_ok: "sched_ok m \<Longrightarrow> sched_ok (add_channel_reserves n i base cs m)"
  by (induction n i base cs m rule: add_channel_reserves.induct) (simp_all add: Let_def)

lemma add_retries_ok:
  "\<lbrakk>sched_ok m; list_all (\<lambda>r. sr_type r = NORMAL) rs\<rbrakk> \<Longrightarrow> sched_ok (add_retries n i rs m)"
  by (induction n i rs m rule: add_retries.induct) simp_all

lemma retry_reserve_add_ok: "sched_ok m \<Longrightarrow> sched_ok (retry_reserve_add m)"
proof -
  assume ok: "sched_ok m"
  then have "list_all (\<lambda>r. sr_type r = NORMAL) (retry_reserves m)" by (simp add: sched_ok_def)
  with ok show ?thesis by (auto simp: retry_reserve_add_def add_retries_ok split: list.split)
qed

lemma length_push: "length (push_histories h hs) \<le> 10"
  by (simp add: push_histories_def)

lemma end_of_series_ok: "sched_ok m \<Longrightarrow> sched_ok (end_of_series t m)"
proof -
  assume "sched_ok m"
  then have "sched_ok (m\<lparr>histories := push_histories h (histories m)\<rparr>)" for h
    using length_push by (simp add: sched_ok_def)
  then show ?thesis
    by (simp add: end_of_series_def save_histories_def save_schedule_map_def retry_reserve_add_ok Let_def)
qed

lemma do_exit_ok: "sched_ok m \<Longrightarrow> sched_ok (do_exit t ex m)"
  by (simp add: do_exit_def Let_def end_of_series_ok)

lemma do_error_ok: "sched_ok m \<Longrightarrow> sched_ok (do_error cfg t ex m)"
proof -
  assume ok: "sched_ok m"
  then have "list_all (\<lambda>r. sr_type r = NORMAL) (retry_reserves m)" by (simp add: sched_ok_def)
  with ok show ?thesis by (simp add: do_error_def Let_def do_exit_ok split: prod.split)
qed

lemma check2execute_ok: "sched_ok m \<Longrightarrow> sched_ok (check2execute_reserves t m)"
proof -
  assume ok: "sched_ok m"
  obtain x ys where d: "due_reserve t (sched_reserves m) = (x, ys)" by fastforce
  then have "reserves_ok ys" using ok due_reserve_ok by (simp add: sched_ok_def)
  with ok d show ?thesis by (auto simp: check2execute_reserves_def split: option.split bool.split)
qed

lemma cache_ok: "\<lbrakk>exec_cache env tabs ex m = Some m'; sched_ok m\<rbrakk> \<Longrightarrow> sched_ok m'"
proof (unfold exec_cache_def, erule run_all_keeps)
  fix s m m'
  assume step: "cache_service env tabs s m = Some m'" and ok: "sched_ok m"
  have "container_ok (container m)" using ok by (simp add: sched_ok_def)
  then have c: "container_ok (container m')" by (rule cache_service_ok [OF step])
  from step show "sched_ok m'"
  proof (cases rule: cache_service_cases)
    case (cached es es')
    then have "sched_reserves m' = sched_reserves m" "histories m' = histories m"
      "retry_reserves m' = retry_reserves m" by simp_all
    with c ok show ?thesis by (simp add: sched_ok_def)
  qed (use ok in simp)
qed

lemma sched_step_ok: "\<lbrakk>sched_step m m'; sched_ok m\<rbrakk> \<Longrightarrow> sched_ok m'"
proof (induction rule: sched_step.induct)
  case (step_turn m cfg today t)
  then show ?case by (simp add: sched_check_turn_def Let_def check2execute_ok)
next
  case (step_add m base chs)
  then show ?case by (simp add: on_add_reserves_def add_channels_ok split: option.split)
next
  case (step_entry t k m ex m')
  then show ?case by (auto simp: exec_entry_def Let_def split: if_splits)
next
  case (step_finish cfg t ex m b m')
  then show ?case by (auto simp: exec_finish_def exec_error_def Let_def do_error_ok do_exit_ok split: if_splits)
next
  case (step_force m t g reply)
  then show ?case by (simp add: force_current_service_def force_reserve_def Let_def split: option.split list.split)
qed (auto simp: sched_parser_notice_def exec_stream_name_def exec_enable_def exec_error_def do_error_ok
    force_end_def stop_begin_def stop_end_def on_dump_schedule_def split: if_splits intro: cache_ok)

lemma sched_reachable_ok: "sched_reachable m \<Longrightarrow> sched_ok m"
proof (induction rule: sched_reachable.induct)
  case (sched_init tuners today)
  show ?case
    by (simp add: sched_module_up_def new_sched_manager_def sched_ok_def reserves_ok_def container_ok_def)
qed (blast intro: sched_step_ok)

end
