(* ===== verification/Sched_Run.thy ===== *)
theory Sched_Run
  imports Sched_Series
begin

text \<open>
  The execution of a reservation as a whole: \<open>on_exec_cache_schedule\<close> with the replies it gets, when
  no other request is handled between its waits, and what is promised of an execution and of the
  reservations.
\<close>

section \<open>The handler\<close>

text \<open>The replies of the other modules, the times of the clock, and at each poll the clock and the
  time of the last table.\<close>

record exec_world =
  w_begin :: timespec
  w_name :: string
  w_open :: "u8 option"
  w_tune :: bool
  w_services :: "service_info list option"
  w_enable :: bool
  w_enabled_at :: timespec
  w_polls :: "(timespec \<times> timespec) list"
  w_env :: psisi_env
  w_tables :: "eit_table list"
  w_end :: timespec

definition exec_then ::
  "exec_result \<Rightarrow> (exec_locals \<Rightarrow> sched_manager \<Rightarrow> exec_result option) \<Rightarrow> exec_result option" where
  "exec_then r f = (case r of Exec_end b m \<Rightarrow> Some (Exec_end b m) | Exec_go ex m \<Rightarrow> f ex m)"

text \<open>From the poll loop on; \<open>None\<close> is a loop that still runs, or a text that overruns its buffer.\<close>

definition exec_collect ::
  "sched_settings \<Rightarrow> exec_world \<Rightarrow> exec_locals \<Rightarrow> sched_manager \<Rightarrow> exec_result option" where
  "exec_collect cfg w ex m =
    (case exec_polls (timeout_min cfg) (start_time_EIT_sched m)
        (map (\<lambda>(t, u). (is_need_stop m, t, u)) (w_polls w)) of
       None \<Rightarrow> None
     | Some late \<Rightarrow>
         let ex = ex\<lparr>ex_timeouted := late\<rparr>
         in map_option (exec_finish cfg (w_end w) ex) (exec_cache (w_env w) (w_tables w) ex m))"

text \<open>From the physical channel on, and the whole.\<close>

definition exec_opened ::
  "sched_settings \<Rightarrow> exec_world \<Rightarrow> exec_locals \<Rightarrow> sched_manager \<Rightarrow> exec_result option" where
  "exec_opened cfg w ex m =
    exec_then (exec_tune cfg (w_end w) (w_tune w) ex m) (\<lambda>ex m.
    exec_then (exec_services cfg (w_end w) (w_services w) ex m) (\<lambda>ex m.
    exec_then (exec_enable cfg (if w_enable w then w_enabled_at w else w_end w) (w_enable w) ex m)
      (exec_collect cfg w)))"

definition exec_cache_schedule ::
  "sched_settings \<Rightarrow> exec_world \<Rightarrow> u16 \<times> u16 \<times> u16 \<Rightarrow> sched_manager \<Rightarrow> exec_result option" where
  "exec_cache_schedule cfg w k m =
    exec_then (exec_entry (w_begin w) k m) (\<lambda>ex m.
    exec_then (exec_stream_name (w_name w) ex m) (\<lambda>ex m.
    exec_then (exec_open cfg (w_end w) (w_open w) ex m) (exec_opened cfg w)))"

text \<open>\<open>on_cache_schedule\<close> adds the reservations of all channels from now on.\<close>

definition on_cache_schedule :: "timespec \<Rightarrow> channel_t list option \<Rightarrow> sched_manager \<Rightarrow> bool \<times> sched_manager" where
  "on_cache_schedule t chs m = (let r = on_add_reserves t chs m in if fst r then (True, snd r) else (False, snd r))"

section \<open>How an execution ends\<close>

lemma exec_then_cases:
  assumes "exec_then r f = Some res"
  obtains (stop) b m where "r = Exec_end b m" "res = Exec_end b m" | (go) ex m where "r = Exec_go ex m" "f ex m = Some res"
  using assms by (cases r) (auto simp: exec_then_def)

lemma exec_then_total: "(\<And>ex n. \<exists>r. f ex n = Some r) \<Longrightarrow> \<exists>r. exec_then q f = Some r"
  by (cases q) (simp_all add: exec_then_def)

definition tuner_msg :: "sched_msg \<Rightarrow> bool" where
  "tuner_msg x = (case x of Send_tune_stop g \<Rightarrow> True | Send_close g \<Rightarrow> True | _ \<Rightarrow> False)"

abbreviation "tuner_msgs m \<equiv> filter tuner_msg (sched_sent m)"

lemma sent_frame [simp]:
  "tuner_msgs (sched_send msg m) = tuner_msgs m @ (if tuner_msg msg then [msg] else [])"
  "executing_reserve (sched_send msg m) = executing_reserve m"
  by (simp_all add: sched_send_def)

lemma tuner_msg_simps [simp]:
  "tuner_msg (Send_tune_stop g)" "tuner_msg (Send_close g)" "\<not> tuner_msg (Cache_state_notice s)"
  by (simp_all add: tuner_msg_def)

lemma add_frame [simp]:
  "sched_sent (snd (add_sched_reserve r m)) = sched_sent m"
  "executing_reserve (snd (add_sched_reserve r m)) = executing_reserve m"
  "cache_sched_state (snd (add_sched_reserve r m)) = cache_sched_state m"
  by (simp_all add: add_sched_reserve_def)

lemma retries_frame [simp]:
  "sched_sent (add_retries n i rs m) = sched_sent m"
  "executing_reserve (add_retries n i rs m) = executing_reserve m"
  "cache_sched_state (add_retries n i rs m) = cache_sched_state m"
  by (induction n i rs m rule: add_retries.induct) simp_all

lemma retry_frame [simp]:
  "sched_sent (retry_reserve_add m) = sched_sent m"
  "executing_reserve (retry_reserve_add m) = executing_reserve m"
  "cache_sched_state (retry_reserve_add m) = cache_sched_state m"
  by (simp_all add: retry_reserve_add_def split: list.split)

lemma series_frame [simp]:
  "sched_sent (end_of_series t m) = sched_sent m"
  "executing_reserve (end_of_series t m) = executing_reserve m"
  "cache_sched_state (end_of_series t m) = Cache_ready"
  by (simp_all add: end_of_series_def save_schedule_map_def save_histories_def Let_def)

text \<open>What the end gives back.\<close>

definition released :: "exec_locals \<Rightarrow> sched_msg list" where
  "released ex = (if \<not> ex_already_using ex \<and> \<not> ex_force ex
     then [Send_tune_stop (ex_group ex), Send_close (ex_group ex)] else [])"

lemma released_simps [simp]:
  "released (ex\<lparr>ex_infos := ss\<rparr>) = released ex" "released (ex\<lparr>ex_timeouted := b\<rparr>) = released ex"
  by (simp_all add: released_def)

lemma do_exit_released [simp]:
  "tuner_msgs (do_exit t ex m) = tuner_msgs m @ released ex"
  "executing_reserve (do_exit t ex m) = cleared_sched_reserve"
  by (simp_all add: do_exit_def released_def Let_def)

lemma do_error_released [simp]:
  "tuner_msgs (do_error cfg t ex m) = tuner_msgs m @ released ex"
  "executing_reserve (do_error cfg t ex m) = cleared_sched_reserve"
  by (simp_all add: do_error_def Let_def split: prod.split)

lemma exec_cache_keeps:
  assumes "exec_cache env tabs ex m = Some m'"
  shows "\<exists>c st. m' = m\<lparr>container := c, current_history_stream := st\<rparr> \<and>
    ht_name st = ht_name (current_history_stream m)"
  using assms unfolding exec_cache_def
proof (rule run_all_keeps)
  fix s n n'
  assume step: "cache_service env tabs s n = Some n'"
    and n: "\<exists>c st. n = m\<lparr>container := c, current_history_stream := st\<rparr> \<and>
      ht_name st = ht_name (current_history_stream m)"
  from step show "\<exists>c st. n' = m\<lparr>container := c, current_history_stream := st\<rparr> \<and>
      ht_name st = ht_name (current_history_stream m)"
  proof (cases rule: cache_service_cases)
    case nothing
    with n show ?thesis by simp
  next
    case (cached es es')
    obtain c st where "n = m\<lparr>container := c, current_history_stream := st\<rparr>"
      "ht_name st = ht_name (current_history_stream m)" using n by blast
    then show ?thesis unfolding cached(4)
      by (simp split del: if_split) (intro exI conjI, rule refl, simp)
  qed
next
  show "\<exists>c st. m = m\<lparr>container := c, current_history_stream := st\<rparr> \<and>
      ht_name st = ht_name (current_history_stream m)"
    by (intro exI [of _ "container m"] exI [of _ "current_history_stream m"]) simp
qed

text \<open>The polls end at the first turn that decides.\<close>

lemma exec_polls_decides:
  "exec_polls n start ps \<noteq> None \<longleftrightarrow>
    (\<exists>(stop, t, u)\<in>set ps. stop \<or> add_sec 10 u < t \<or> add_min n start < t)"
  by (induction ps) auto

lemma exec_polls_timed_out:
  "exec_polls n start ps = Some True \<Longrightarrow> \<exists>(stop, t, u)\<in>set ps. \<not> stop \<and> t \<le> add_sec 10 u \<and> add_min n start < t"
  by (induction ps) (auto split: if_splits)

lemma exec_collect_cases:
  assumes "exec_collect cfg w ex m = Some r"
  obtains late c st where "exec_polls (timeout_min cfg) (start_time_EIT_sched m)
        (map (\<lambda>(t, u). (is_need_stop m, t, u)) (w_polls w)) = Some late"
    "ht_name st = ht_name (current_history_stream m)"
    "r = exec_finish cfg (w_end w) (ex\<lparr>ex_timeouted := late\<rparr>)
      (m\<lparr>container := c, current_history_stream := st\<rparr>)"
  using assms unfolding exec_collect_def
  by (auto simp: Let_def split: option.splits dest!: exec_cache_keeps)

text \<open>The steps before the poll loop.\<close>

lemmas exec_steps = exec_stream_name_def exec_open_def exec_tune_def exec_services_def exec_enable_def exec_error_def

lemma exec_polls_ok:
  "exec_collect cfg w ex m = Some r \<Longrightarrow> \<exists>b m'. r = Exec_end b m' \<and> executing_reserve m' = cleared_sched_reserve \<and>
    tuner_msgs m' = tuner_msgs m @ released ex"
  by (erule exec_collect_cases) (auto simp: exec_finish_def exec_error_def Let_def)

lemma exec_entry_go:
  obtains ex m' where "exec_entry t k m = Exec_go ex m'" "tuner_msgs m' = tuner_msgs m"
    "ex = \<lparr>ex_key = k, ex_timeouted = False, ex_already_using = False, ex_group = 0xff,
      ex_force = (sr_type (executing_reserve m) AND TYPE_MASK = FORCE), ex_infos = []\<rparr>"
  by (rule that, unfold exec_entry_def Let_def, rule refl) simp_all

lemma exec_opened_ok:
  assumes "exec_opened cfg w ex m = Some r"
  shows "\<exists>b m'. r = Exec_end b m' \<and> executing_reserve m' = cleared_sched_reserve \<and>
    tuner_msgs m' = tuner_msgs m @ released ex"
proof -
  show ?thesis using assms unfolding exec_opened_def
    by (elim exec_then_cases)
      (auto simp: exec_tune_def exec_services_def exec_enable_def exec_error_def
        split: if_splits option.splits dest!: exec_polls_ok)
qed

definition sample_settings :: sched_settings where
  "sample_settings = \<lparr>start_hour = 6, start_min = 0, interval_day = 1, cache_enabled = True,
     retry_interval_min = 60, timeout_min = 15\<rparr>"

definition sample_world :: exec_world where
  "sample_world = \<lparr>w_begin = Timespec 10 0, w_name = ''TS'', w_open = Some 1, w_tune = False,
     w_services = None, w_enable = True, w_enabled_at = Timespec 11 0,
     w_polls = [(Timespec 16 0, Timespec 15 0), (Timespec 1000 0, Timespec 999 0)],
     w_env = sched_env, w_tables = [], w_end = Timespec 12 0\<rparr>"

definition sample_executing :: sched_manager where
  "sample_executing = (new_sched_manager None None)\<lparr>executing_reserve := \<lparr>sr_tsid = 5, sr_nid = 6,
     sr_svc = 7, sr_start = Timespec 9 0, sr_type = NORMAL OR R_FLG\<rparr>\<rparr>"

lemma sample_run:
  "\<exists>m'. exec_cache_schedule sample_settings sample_world (5, 6, 7) sample_executing = Some (Exec_end False m')"
  by (simp add: exec_cache_schedule_def exec_opened_def exec_then_def exec_entry_def exec_steps Let_def
      sample_world_def)

lemma execution_released:
  assumes "exec_cache_schedule cfg w k m = Some r"
  shows "\<exists>b m'. r = Exec_end b m' \<and> executing_reserve m' = cleared_sched_reserve \<and>
    tuner_msgs m' = tuner_msgs m @
      (if sr_type (executing_reserve m) AND TYPE_MASK = FORCE then []
       else case w_open w of None \<Rightarrow> [] | Some g \<Rightarrow> [Send_tune_stop g, Send_close g])"
proof -
  obtain ex m1 where e: "exec_entry (w_begin w) k m = Exec_go ex m1" "tuner_msgs m1 = tuner_msgs m"
    "ex = \<lparr>ex_key = k, ex_timeouted = False, ex_already_using = False, ex_group = 0xff,
      ex_force = (sr_type (executing_reserve m) AND TYPE_MASK = FORCE), ex_infos = []\<rparr>"
    by (rule exec_entry_go)
  have "exec_then (exec_open cfg (w_end w) (w_open w) ex (m1\<lparr>current_history_stream := cleared_stream\<lparr>ht_name := w_name w\<rparr>\<rparr>))
      (exec_opened cfg w) = Some r"
    using assms e(1) by (simp add: exec_cache_schedule_def exec_then_def [of "Exec_go _ _"] exec_stream_name_def)
  then show ?thesis using e(2,3)
    by (elim exec_then_cases)
      (auto simp: exec_open_def exec_error_def released_def split: if_splits option.splits dest!: exec_opened_ok)
qed

text \<open>C28: However an execution ends (no tuner, no channel, no tune, no services, no parser, a timeout,
  a stop or success), the reservation is no longer the executing one, and the tuner that was opened
  for it is stopped and closed once, and no other tuner is.\<close>

theorem execution_releases_the_tuner:
  assumes "exec_cache_schedule cfg w k m = Some r"
  shows "\<exists>b m'. r = Exec_end b m' \<and> executing_reserve m' = cleared_sched_reserve \<and>
    filter tuner_msg (sched_sent m') = filter tuner_msg (sched_sent m) @
      (if sr_type (executing_reserve m) AND TYPE_MASK = FORCE then []
       else case w_open w of None \<Rightarrow> [] | Some g \<Rightarrow> [Send_tune_stop g, Send_close g])"
  using assms by (rule execution_released)

lemma execution_releases_the_tuner_witness:
  "\<exists>m'. exec_cache_schedule sample_settings sample_world (5, 6, 7) sample_executing = Some (Exec_end False m') \<and>
     executing_reserve m' = cleared_sched_reserve \<and>
     filter tuner_msg (sched_sent m') = [Send_tune_stop 1, Send_close 1]"
proof -
  obtain m' where run: "exec_cache_schedule sample_settings sample_world (5, 6, 7) sample_executing
      = Some (Exec_end False m')"
    using sample_run by blast
  show ?thesis
    using execution_releases_the_tuner [OF run] run
    by (simp add: sample_executing_def sample_world_def new_sched_manager_def)
qed

text \<open>What an execution leaves in the histories and the retries, from the state \<open>m\<close> on.\<close>

definition recorded :: "sched_settings \<Rightarrow> timespec \<Rightarrow> u16 \<times> u16 \<times> u16 \<Rightarrow> string \<Rightarrow> sched_manager \<Rightarrow> bool \<Rightarrow>
    sched_manager \<Rightarrow> bool" where
  "recorded cfg t k name m b m' = (\<exists>s. ht_name s = name \<and> (ht_state s = H_complete \<longleftrightarrow> b) \<and>
     hi_streams (current_history m') = hi_streams (current_history m) @ [s] \<and>
     retry_reserves m' = retry_reserves m @
       (if \<not> b \<and> sr_type (executing_reserve m) AND R_FLG \<noteq> 0
        then [case k of (ts, nid, svc) \<Rightarrow> \<lparr>sr_tsid = ts, sr_nid = nid, sr_svc = svc,
          sr_start = add_min (retry_interval_min cfg) t, sr_type = NORMAL\<rparr>] else []) \<and>
     sched_reserves m' = sched_reserves m \<and> histories m' = histories m)"

lemma recorded_frame [simp]:
  "recorded cfg t k name (m\<lparr>current_history_stream := s\<rparr>) b m' = recorded cfg t k name m b m'"
  "recorded cfg t k name (m\<lparr>start_time_EIT_sched := a\<rparr>) b m' = recorded cfg t k name m b m'"
  "recorded cfg t k name (m\<lparr>container := c\<rparr>) b m' = recorded cfg t k name m b m'"
  "recorded cfg t k name (sched_send msg m) b m' = recorded cfg t k name m b m'"
  by (simp_all add: recorded_def sched_send_def)

lemma do_exit_middle:
  assumes "sr_type (executing_reserve m) AND E_FLG = 0"
  shows "current_history (do_exit t ex m) = current_history m" "histories (do_exit t ex m) = histories m"
    "sched_reserves (do_exit t ex m) = sched_reserves m" "retry_reserves (do_exit t ex m) = retry_reserves m"
  using assms by (simp_all add: do_exit_def sched_send_def Let_def)

lemma error_recorded:
  assumes "sr_type (executing_reserve m) AND E_FLG = 0" "ex_key ex = k" "ht_name (current_history_stream m) = name"
  shows "recorded cfg t k name m False (do_error cfg t ex m)"
  using assms by (auto simp: do_error_def recorded_def do_exit_middle history_add_def Let_def split: prod.split)

lemma finish_recorded:
  "\<lbrakk>exec_finish cfg t ex m = Exec_end b m'; sr_type (executing_reserve m) AND E_FLG = 0\<rbrakk>
    \<Longrightarrow> recorded cfg t (ex_key ex) (ht_name (current_history_stream m)) m b m'"
  by (auto simp: exec_finish_def exec_error_def Let_def error_recorded split: if_splits)
    (simp add: recorded_def do_exit_middle history_add_def)

lemma collect_recorded:
  assumes "exec_collect cfg w ex m = Some (Exec_end b m')" "sr_type (executing_reserve m) AND E_FLG = 0"
  shows "recorded cfg (w_end w) (ex_key ex) (ht_name (current_history_stream m)) m b m'"
  using assms(1)
proof (rule exec_collect_cases)
  fix late c st
  assume st: "ht_name st = ht_name (current_history_stream m)"
    and r: "Exec_end b m' = exec_finish cfg (w_end w) (ex\<lparr>ex_timeouted := late\<rparr>)
      (m\<lparr>container := c, current_history_stream := st\<rparr>)"
  show ?thesis using finish_recorded [OF r [symmetric]] assms(2) st by simp
qed

lemma opened_recorded:
  assumes "exec_opened cfg w ex m = Some (Exec_end b m')" "sr_type (executing_reserve m) AND E_FLG = 0"
  shows "recorded cfg (w_end w) (ex_key ex) (ht_name (current_history_stream m)) m b m'"
  using assms unfolding exec_opened_def
  by (elim exec_then_cases)
    (auto simp: exec_tune_def exec_services_def exec_enable_def exec_error_def error_recorded
      split: if_splits option.splits dest!: collect_recorded)

text \<open>The execution of a reservation in the middle of a series adds its stream to the history once,
  as complete exactly when the reply is a success; a stream that fails and is not yet a retry is kept
  to be read again after the interval; the reservations and the finished histories do not change.\<close>

theorem execution_is_in_the_history:
  assumes "exec_cache_schedule cfg w (ts, nid, svc) m = Some (Exec_end b m')"
    and "sr_type (executing_reserve m) AND S_FLG = 0" "sr_type (executing_reserve m) AND E_FLG = 0"
  shows "\<exists>s. ht_name s = w_name w \<and> (ht_state s = H_complete \<longleftrightarrow> b) \<and>
    hi_streams (current_history m') = hi_streams (current_history m) @ [s] \<and>
    retry_reserves m' = retry_reserves m @
      (if \<not> b \<and> sr_type (executing_reserve m) AND R_FLG \<noteq> 0
       then [\<lparr>sr_tsid = ts, sr_nid = nid, sr_svc = svc,
         sr_start = add_min (retry_interval_min cfg) (w_end w), sr_type = NORMAL\<rparr>] else []) \<and>
    sched_reserves m' = sched_reserves m \<and> histories m' = histories m"
proof -
  let ?ex = "\<lparr>ex_key = (ts, nid, svc), ex_timeouted = False, ex_already_using = False, ex_group = 0xff,
    ex_force = (sr_type (executing_reserve m) AND TYPE_MASK = FORCE), ex_infos = []\<rparr>"
  let ?n = "(if sr_type (executing_reserve m) AND N_FLG \<noteq> 0
     then sched_send (Cache_state_notice (cache_sched_state m)) m else m)
       \<lparr>current_history_stream := cleared_stream\<lparr>ht_name := w_name w\<rparr>\<rparr>"
  have "exec_then (exec_open cfg (w_end w) (w_open w) ?ex ?n) (exec_opened cfg w) = Some (Exec_end b m')"
    using assms(1) unfolding exec_cache_schedule_def exec_entry_def Let_def assms(2)
    by (simp only: exec_then_def [of "Exec_go _ _"] exec_stream_name_def exec_result.case simp_thms if_False)
  then have "recorded cfg (w_end w) (ts, nid, svc) (w_name w) ?n b m'" using assms(3)
    by (elim exec_then_cases)
      (auto simp: exec_open_def exec_error_def error_recorded cleared_stream_def
        simp del: recorded_frame split: if_splits option.splits dest!: opened_recorded)
  then have "recorded cfg (w_end w) (ts, nid, svc) (w_name w) m b m'" by (simp split: if_splits)
  then show ?thesis by (simp only: recorded_def prod.case)
qed

lemma execution_is_in_the_history_witness:
  "\<exists>m' s. exec_cache_schedule sample_settings sample_world (5, 6, 7) sample_executing = Some (Exec_end False m') \<and>
     hi_streams (current_history m') = [s] \<and> ht_name s = ''TS'' \<and> ht_state s \<noteq> H_complete \<and>
     retry_reserves m' = [\<lparr>sr_tsid = 5, sr_nid = 6, sr_svc = 7, sr_start = Timespec 3612 0, sr_type = NORMAL\<rparr>]"
proof -
  obtain m' where run: "exec_cache_schedule sample_settings sample_world (5, 6, 7) sample_executing
      = Some (Exec_end False m')"
    using sample_run by blast
  show ?thesis
    using execution_is_in_the_history [OF run] run
    by (auto simp: sample_executing_def sample_world_def sample_settings_def new_sched_manager_def
        cleared_history_def add_min_def)
qed

text \<open>C29: An execution ends, whatever the other modules reply: when the clock passes the time limit at
  some poll, and no text overruns its buffer while the tables are cached, the handler returns.\<close>

theorem execution_ends:
  assumes "\<exists>(t, u)\<in>set (w_polls w). add_min (timeout_min cfg) (w_enabled_at w) < t"
    and "\<And>s m. cache_service (w_env w) (w_tables w) s m \<noteq> None"
  shows "\<exists>b m'. exec_cache_schedule cfg w k m = Some (Exec_end b m')"
proof -
  have cache: "\<exists>m'. run_all (cache_service (w_env w) (w_tables w)) ss n = Some m'" for ss n
    using assms(2) by (induction ss arbitrary: n) (auto split: option.split)
  have "exec_polls (timeout_min cfg) (w_enabled_at w) (map (\<lambda>(t, u). (b, t, u)) (w_polls w)) \<noteq> None" for b
    unfolding exec_polls_decides using assms(1) by fastforce
  then have collect: "\<exists>r. exec_collect cfg w ex (n\<lparr>start_time_EIT_sched := w_enabled_at w\<rparr>) = Some r" for ex n
    using cache by (fastforce simp: exec_collect_def exec_cache_def Let_def split: option.split)
  have opened: "\<exists>r. exec_opened cfg w ex n = Some r" for ex n
    using collect by (simp add: exec_opened_def exec_then_def exec_tune_def exec_services_def exec_enable_def
        exec_error_def split: option.split)
  have "\<exists>r. exec_cache_schedule cfg w k m = Some r"
    unfolding exec_cache_schedule_def by (intro exec_then_total opened)
  then show ?thesis using execution_released by blast
qed

lemma no_tables [simp]: "cache_service env [] s m = Some m"
  by (simp add: cache_service_def cache_schedule_def stable_sort_def)

lemma execution_ends_witness:
  "\<exists>b m'. exec_cache_schedule sample_settings sample_world (5, 6, 7) sample_executing = Some (Exec_end b m')"
  by (rule execution_ends) (simp_all add: sample_world_def sample_settings_def add_min_def timespec_less_iff)

end
