(* ===== verification/Sched_Reserve_Claims.thy ===== *)
theory Sched_Reserve_Claims
  imports Sched_Run
begin

text \<open>
  What is promised of the reservations of the event schedule: the state the manager stays in, the
  series for the channels, which reservation is executed, and where the loop loses one.
\<close>

section \<open>The state\<close>

lemma comp_reserve_start_iff: "comp_reserve_start l r \<longleftrightarrow> sr_start l < sr_start r"
  by (simp add: comp_reserve_start_def)


section \<open>The series for the channels\<close>

lemma add_behind:
  assumes "by_start.in_order (sched_reserves m)" "\<forall>r\<in>set (sched_reserves m). sr_start r < sr_start x"
  shows "snd (add_sched_reserve x m) = m\<lparr>sched_reserves := sched_reserves m @ [x]\<rparr>"
    "by_start.in_order (sched_reserves m @ [x])"
proof -
  show ord: "by_start.in_order (sched_reserves m @ [x])"
    using assms by (auto simp: by_start.in_order_snoc comp_reserve_start_iff)
  have "x \<notin> set (sched_reserves m)" using assms(2) by auto
  then show "snd (add_sched_reserve x m) = m\<lparr>sched_reserves := sched_reserves m @ [x]\<rparr>"
    using by_start.sort_sorted [OF ord] by (simp add: add_sched_reserve_def is_duplicate_sched_reserve_def)
qed

definition channel_reserve :: "nat \<Rightarrow> nat \<Rightarrow> timespec \<Rightarrow> channel_t \<Rightarrow> sched_reserve" where
  "channel_reserve n i t c = \<lparr>sr_tsid = ct_tsid c, sr_nid = ct_nid c,
     sr_svc = (case ct_service_ids c of [] \<Rightarrow> 0 | s # _ \<Rightarrow> s), sr_start = t, sr_type = reserve_type i n\<rparr>"

lemma add_min_simps [simp]: "add_min a (add_min b t) = add_min (b + a) t" "add_min 0 t = t"
  "add_min a t < add_min b t \<longleftrightarrow> a < b"
  by (cases t; simp add: add_min_def timespec_less_iff)+

lemma add_channels_behind:
  assumes "by_start.in_order (sched_reserves m)"
    "\<forall>r\<in>set (sched_reserves m). sr_start r < (if i \<noteq> 0 then add_min 1 base else base)"
  shows "add_channel_reserves n i base cs m = m\<lparr>sched_reserves := sched_reserves m @
    map (\<lambda>j. channel_reserve n (i + j) (add_min (int j) (if i \<noteq> 0 then add_min 1 base else base)) (cs ! j))
      [0..<length cs]\<rparr>"
  using assms
proof (induction cs arbitrary: i base m)
  case (Cons c cs)
  let ?b = "if i \<noteq> 0 then add_min 1 base else base"
  let ?x = "channel_reserve n i ?b c"
  let ?m = "m\<lparr>sched_reserves := sched_reserves m @ [?x]\<rparr>"
  have x: "sr_start ?x = ?b" by (simp add: channel_reserve_def)
  note add = add_behind [OF Cons.prems(1), of ?x, unfolded x, OF Cons.prems(2)]
  have below: "\<forall>r\<in>set (sched_reserves ?m). sr_start r < add_min 1 ?b"
  proof
    fix r
    assume "r \<in> set (sched_reserves ?m)"
    then have "sr_start r \<le> ?b" using Cons.prems(2) x by fastforce
    also have "?b < add_min 1 ?b" by (simp add: add_min_def timespec_less_iff)
    finally show "sr_start r < add_min 1 ?b" .
  qed
  have step: "add_channel_reserves n i base (c # cs) m = add_channel_reserves n (i + 1) ?b cs ?m"
    using add(1) by (simp add: channel_reserve_def Let_def split del: if_split)
  have ih: "add_channel_reserves n (i + 1) ?b cs ?m = ?m\<lparr>sched_reserves := sched_reserves ?m @
      map (\<lambda>j. channel_reserve n (i + 1 + j) (add_min (int j) (add_min 1 ?b)) (cs ! j)) [0..<length cs]\<rparr>"
    using Cons.IH [of ?m "i + 1" ?b] add(2) below by simp
  have map: "map (\<lambda>j. channel_reserve n (i + j) (add_min (int j) ?b) ((c # cs) ! j)) [0..<length (c # cs)]
      = ?x # map (\<lambda>j. channel_reserve n (i + 1 + j) (add_min (int j) (add_min 1 ?b)) (cs ! j)) [0..<length cs]"
    by (simp add: upt_conv_Cons map_Suc_upt [symmetric] del: upt_Suc split del: if_split)
  show ?case unfolding step ih map by simp
qed simp

text \<open>The series that a base time before which all reservations start asks for: one reservation for
  each channel, in the order of the channels and a minute apart, for its first service; the first
  one starts the series and the last one ends it, both with a notice.\<close>

theorem channels_are_reserved:
  assumes "by_start.in_order (sched_reserves m)" "\<forall>r\<in>set (sched_reserves m). sr_start r < base" "cs \<noteq> []"
  shows "on_add_reserves base (Some cs) m = (True, m\<lparr>sched_reserves := sched_reserves m @
      map (\<lambda>i. channel_reserve (length cs) i (add_min (int i) base) (cs ! i)) [0..<length cs]\<rparr>) \<and>
    (\<forall>i<length cs. (reserve_type i (length cs) AND S_FLG \<noteq> 0 \<longleftrightarrow> i = 0) \<and>
      (reserve_type i (length cs) AND E_FLG \<noteq> 0 \<longleftrightarrow> i = length cs - 1) \<and>
      reserve_type i (length cs) AND R_FLG \<noteq> 0)"
  using add_channels_behind [of m 0 base "length cs" cs] assms
  by (simp add: on_add_reserves_def reserve_type_def Let_def)

definition sample_channel :: "u16 \<Rightarrow> u16 \<Rightarrow> channel_t" where
  "sample_channel ts svc = \<lparr>ct_physical_channel = 0x1a, ct_tsid = ts, ct_nid = 4, ct_remote_key = 1, ct_service_ids = [svc], ct_service_num = 1\<rparr>"

lemma channels_are_reserved_witness:
  "on_add_reserves (Timespec 600 0) (Some [sample_channel 1 11, sample_channel 2 22, sample_channel 3 33])
     (new_sched_manager None None) =
   (True, (new_sched_manager None None)\<lparr>sched_reserves :=
     [\<lparr>sr_tsid = 1, sr_nid = 4, sr_svc = 11, sr_start = Timespec 600 0, sr_type = 0x0d01\<rparr>,
      \<lparr>sr_tsid = 2, sr_nid = 4, sr_svc = 22, sr_start = Timespec 660 0, sr_type = 0x0801\<rparr>,
      \<lparr>sr_tsid = 3, sr_nid = 4, sr_svc = 33, sr_start = Timespec 720 0, sr_type = 0x0e01\<rparr>]\<rparr>)"
  using channels_are_reserved [of "new_sched_manager None None" "Timespec 600 0"
      "[sample_channel 1 11, sample_channel 2 22, sample_channel 3 33]"]
  by (simp add: new_sched_manager_def channel_reserve_def sample_channel_def reserve_type_def add_min_def
      upt_rec Let_def)

section \<open>The loop\<close>

lemma due_reserve_head:
  assumes "by_start.in_order rs" "list_all (\<lambda>r. sr_type r AND TYPE_MASK \<noteq> 0) rs"
  shows "due_reserve t rs = (case rs of [] \<Rightarrow> (None, [])
    | r # rs' \<Rightarrow> if t < sr_start r then (None, rs) else (Some (t < add_hour 1 (sr_start r), r), rs'))"
  using assms
proof (induction rs)
  case (Cons r rs)
  show ?case
  proof (cases "t < sr_start r")
    case True
    then have hour: "\<not> add_hour 1 (sr_start r) \<le> t" by (auto simp: timespec_less_iff add_hour_def not_le)
    have later: "t < sr_start q" if "q \<in> set rs" for q
    proof -
      have "\<not> comp_reserve_start q r" using Cons.prems(1) that by simp
      then show ?thesis using True by (simp add: comp_reserve_start_iff)
    qed
    then have "due_reserve t rs = (None, rs)"
      using Cons by (cases rs) auto
    then show ?thesis using True hour Cons.prems(2) by (simp add: not_le)
  next
    case False
    then show ?thesis using Cons.prems(2) by (simp add: not_less not_le)
  qed
qed simp

text \<open>At a turn without an execution, the earliest reservation alone is looked at: it waits when its
  time has not come, is executed when it has come within the last hour, and is dropped when it is
  older.\<close>

theorem earliest_reservation_is_executed:
  assumes "sched_reachable m" "\<not> sched_reserve_valid (executing_reserve m)"
  shows "check2execute_reserves t m =
    (case sched_reserves m of [] \<Rightarrow> m
     | r # rs \<Rightarrow>
         if t < sr_start r then m
         else if t < add_hour 1 (sr_start r)
         then m\<lparr>sched_sent := sched_sent m @ [Send_exec (sr_tsid r, sr_nid r, sr_svc r)],
           executing_reserve := r, sched_reserves := rs\<rparr>
         else m\<lparr>sched_reserves := rs\<rparr>)"
proof -
  have "reserves_ok (sched_reserves m)" using sched_reachable_ok [OF assms(1)] by (simp add: sched_ok_def)
  then have "due_reserve t (sched_reserves m) = (case sched_reserves m of [] \<Rightarrow> (None, [])
    | r # rs' \<Rightarrow> if t < sr_start r then (None, sched_reserves m) else (Some (t < add_hour 1 (sr_start r), r), rs'))"
    by (simp add: reserves_ok_def due_reserve_head)
  then show ?thesis using assms(2)
    by (auto simp: check2execute_reserves_def sched_send_def split: list.split)
qed

lemma sample_reachable:
  "sched_reachable (snd (on_add_reserves (Timespec 600 0) (Some [sample_channel 1 11, sample_channel 2 22])
     (sched_module_up 2 (Timespec 0 0) (new_sched_manager None None))))" (is "sched_reachable ?m")
  by (rule sched_next [OF sched_init step_add])

lemmas sample_evals = sched_module_up_def new_sched_manager_def on_add_reserves_def sample_channel_def
  reserve_type_def add_min_def add_sched_reserve_def is_duplicate_sched_reserve_def stable_sort_def
  comp_reserve_start_iff sched_reserve_eq_def timespec_less_iff Let_def


lemma earliest_reservation_is_executed_witness:
  "\<exists>m. sched_reachable m \<and> check2execute_reserves (Timespec 605 0) m =
     m\<lparr>sched_sent := sched_sent m @ [Send_exec (1, 4, 11)],
       executing_reserve := hd (sched_reserves m), sched_reserves := tl (sched_reserves m)\<rparr>"
proof -
  let ?m = "snd (on_add_reserves (Timespec 600 0) (Some [sample_channel 1 11, sample_channel 2 22])
    (sched_module_up 2 (Timespec 0 0) (new_sched_manager None None)))"
  have "\<not> sched_reserve_valid (executing_reserve ?m)"
    by (simp add: sample_evals sched_reserve_valid_def cleared_sched_reserve_def)
  from earliest_reservation_is_executed [OF sample_reachable this, of "Timespec 605 0"] sample_reachable
  show ?thesis
    by (intro exI [of _ ?m] conjI) (simp_all add: sample_evals add_hour_def)
qed

section \<open>What the loop loses\<close>

definition check_turns :: "sched_settings \<Rightarrow> (timespec \<times> timespec) list \<Rightarrow> sched_manager \<Rightarrow> sched_manager" where
  "check_turns cfg ts m = fold (\<lambda>(today, t). sched_check_turn cfg today t) ts m"

lemma check2execute_frame [simp]:
  "schedule_cache_next_day (check2execute_reserves t m) = schedule_cache_next_day m"
  "cache_sched_state (check2execute_reserves t m) = cache_sched_state m"
  "retry_reserves (check2execute_reserves t m) = retry_reserves m"
  "histories (check2execute_reserves t m) = histories m"
  by (simp_all add: check2execute_reserves_def sched_send_def split: option.split prod.split bool.split)

definition series_msg :: "sched_msg \<Rightarrow> bool" where
  "series_msg x = (case x of Send_add_reserves t \<Rightarrow> True | _ \<Rightarrow> False)"

lemma check2execute_series [simp]:
  "filter series_msg (sched_sent (check2execute_reserves t m)) = filter series_msg (sched_sent m)"
  by (simp add: check2execute_reserves_def sched_send_def series_msg_def split: option.split prod.split bool.split)

text \<open>The day of the next series is compared for equality. Once a day has passed it without a turn (the
  clock was set, or the machine was asleep), no turn on any later day adds a series again.\<close>

theorem missed_day_stops_the_series:
  assumes "\<forall>(today, t)\<in>set turns. schedule_cache_next_day m < today"
  shows "filter series_msg (sched_sent (check_turns cfg turns m)) = filter series_msg (sched_sent m) \<and>
    schedule_cache_next_day (check_turns cfg turns m) = schedule_cache_next_day m"
  using assms
proof (induction turns arbitrary: m)
  case (Cons d turns)
  obtain today t where d: "d = (today, t)" by fastforce
  let ?m = "sched_check_turn cfg today t m"
  have "today \<noteq> schedule_cache_next_day m" using Cons.prems d by auto
  then have "filter series_msg (sched_sent ?m) = filter series_msg (sched_sent m)"
    "schedule_cache_next_day ?m = schedule_cache_next_day m"
    by (simp_all add: sched_check_turn_def Let_def)
  then show ?case using Cons.IH [of ?m] Cons.prems by (simp add: check_turns_def d)
qed (simp add: check_turns_def)

lemma missed_day_stops_the_series_witness:
  "filter series_msg (sched_sent (check_turns sample_settings
      [(Timespec 1717200000 0, Timespec 1717200010 0), (Timespec 1717286400 0, Timespec 1717286410 0)]
      (sched_module_up 2 (Timespec 0 0) (new_sched_manager None None)))) = []"
proof -
  have "filter series_msg (sched_sent (sched_module_up 2 (Timespec 0 0) (new_sched_manager None None))) = []"
    by (simp add: sched_module_up_def new_sched_manager_def)
  then show ?thesis
    by (subst missed_day_stops_the_series [THEN conjunct1])
      (simp_all add: sched_module_up_def new_sched_manager_def timespec_less_iff)
qed

lemma check2execute_empty: "sched_reserves m = [] \<Longrightarrow> check2execute_reserves t m = m"
  by (simp add: check2execute_reserves_def)

text \<open>A reservation that is dropped because it is late takes its flags with it. When the last one of a
  series is dropped, the series never ends: however many turns follow, the state is not ready again,
  no history is finished, and the streams that failed are not read again.\<close>

theorem late_last_reservation_leaves_the_series_open:
  assumes "\<not> sched_reserve_valid (executing_reserve m)" "sched_reserves m = [r]"
    and "sr_type r AND TYPE_MASK \<noteq> 0" "add_hour 1 (sr_start r) \<le> t" "cache_enabled cfg"
  shows "let m' = check_turns cfg ((today, t) # turns) m
    in sched_reserves m' = [] \<and> cache_sched_state m' = cache_sched_state m \<and> histories m' = histories m \<and>
      retry_reserves m' = retry_reserves m"
proof -
  have keep: "sched_reserves (check_turns cfg ts n) = [] \<and> cache_sched_state (check_turns cfg ts n) = cache_sched_state n \<and>
      histories (check_turns cfg ts n) = histories n \<and> retry_reserves (check_turns cfg ts n) = retry_reserves n"
    if "sched_reserves n = []" for ts n
    using that
  proof (induction ts arbitrary: n)
    case (Cons d ts)
    obtain day u where d: "d = (day, u)" by fastforce
    let ?n = "sched_check_turn cfg day u n"
    have "sched_reserves ?n = []" "cache_sched_state ?n = cache_sched_state n" "histories ?n = histories n"
      "retry_reserves ?n = retry_reserves n"
      using Cons.prems
      by (simp_all add: sched_check_turn_def Let_def check2execute_empty sched_send_def)
    then show ?case using Cons.IH [of ?n] by (simp add: check_turns_def d)
  qed (simp add: check_turns_def)
  let ?m = "sched_check_turn cfg today t m"
  have "sched_reserves ?m = []" "cache_sched_state ?m = cache_sched_state m" "histories ?m = histories m"
    "retry_reserves ?m = retry_reserves m"
    using assms by (simp_all add: sched_check_turn_def check2execute_reserves_def sched_send_def Let_def)
  then show ?thesis using keep [of ?m turns] by (simp add: check_turns_def)
qed

definition last_late :: sched_manager where
  "last_late = (new_sched_manager None None)\<lparr>cache_sched_state := Cache_busy, sched_reserves :=
     [\<lparr>sr_tsid = 3, sr_nid = 4, sr_svc = 33, sr_start = Timespec 720 0, sr_type = 0x0e01\<rparr>]\<rparr>"

lemma late_last_reservation_leaves_the_series_open_witness:
  "cache_sched_state (check_turns sample_settings [(Timespec 0 0, Timespec 4400 0), (Timespec 0 0, Timespec 4410 0)]
     last_late) = Cache_busy"
proof -
  have "\<not> sched_reserve_valid (executing_reserve last_late)" "cache_enabled sample_settings"
    "sched_reserves last_late = [\<lparr>sr_tsid = 3, sr_nid = 4, sr_svc = 33, sr_start = Timespec 720 0, sr_type = 0x0e01\<rparr>]"
    by (simp_all add: last_late_def new_sched_manager_def sched_reserve_valid_def cleared_sched_reserve_def
        sample_settings_def)
  from late_last_reservation_leaves_the_series_open [OF this(1,3) _ _ this(2)]
  show ?thesis
    by (simp add: Let_def add_hour_def not_less [symmetric] timespec_less_iff del: not_less)
      (simp add: last_late_def)
qed

text \<open>The time of the last table is not reset when an execution starts. When no table arrives before the
  first poll, five seconds after the parser was enabled, and the last one of an earlier stream is more
  than ten seconds old, the stream counts as completely read: the reply is a success and nothing is
  cached for its services.\<close>

theorem silent_stream_counts_as_complete:
  assumes "w_open w = Some g" "w_tune w" "w_services w = Some infos" "infos \<noteq> []" "w_enable w"
    and "w_polls w = (t, earlier) # later" "add_sec 10 earlier < t" "w_tables w = []" "\<not> is_need_stop m"
  shows "\<exists>m'. exec_cache_schedule cfg w k m = Some (Exec_end True m')"
proof -
  have run: "run_all (cache_service (w_env w) []) ss n = Some n" for ss n by (induction ss) simp_all
  have collect: "\<exists>m'. exec_collect cfg w ex n = Some (Exec_end True m')" if "\<not> is_need_stop n" for ex n
    using assms that by (simp add: exec_collect_def exec_cache_def run exec_finish_def Let_def)
  have opened: "\<exists>m'. exec_opened cfg w ex n = Some (Exec_end True m')" if "\<not> is_need_stop n" for ex n
    using assms that collect
    by (simp add: exec_opened_def exec_then_def exec_tune_def exec_services_def exec_enable_def)
  let ?n = "\<lambda>n. n\<lparr>current_history_stream := cleared_stream\<lparr>ht_name := w_name w\<rparr>\<rparr>"
  obtain ex n where entry: "exec_entry (w_begin w) k m = Exec_go ex n" "\<not> is_need_stop n"
    using assms(9) by (auto simp: exec_entry_def sched_send_def Let_def)
  have go: "\<exists>ex'. exec_open cfg (w_end w) (w_open w) ex (?n n) = Exec_go ex' (?n n)"
    using assms(1) by (simp add: exec_open_def)
  then show ?thesis using entry opened [of "?n n"]
    by (auto simp: exec_cache_schedule_def exec_then_def exec_stream_name_def)
qed

lemma silent_stream_counts_as_complete_witness:
  "\<exists>m'. exec_cache_schedule sample_settings
     (sample_world\<lparr>w_tune := True, w_services := Some [cleared_service],
       w_polls := [(Timespec 16 0, Timespec 3 0)]\<rparr>) (5, 6, 7) sample_executing = Some (Exec_end True m')"
  by (rule silent_stream_counts_as_complete [where infos = "[cleared_service]" and t = "Timespec 16 0"
        and earlier = "Timespec 3 0"])
    (simp_all add: sample_world_def add_sec_def timespec_less_iff sample_executing_def new_sched_manager_def)

end
