(* ===== verification/Tuner_Control.thy ===== *)
theory Tuner_Control
  imports Psisi_Manager
begin

text \<open>
  \<open>tuner_control/tuner_control.cpp\<close> and \<open>tuner_control/tune_thread/tune_thread.cpp\<close>: one tuner. The
  control starts and stops the thread, which reads the stream of a child process and hands it to the
  registered handlers. The two modules run concurrently and share the handlers, the stop flag and
  the state of the thread: what the thread does while the control waits is a list of events for each
  wait.
\<close>

section \<open>State\<close>

datatype thread_state = Th_closed | Th_opened | Th_tune_begined | Th_tuned | Th_tune_ended

datatype tc_msg = Tuner_notice tuner_state | Send_self_stop | Send_force_kill

datatype handler_call = Pre_receive | Received "u8 list" | Post_receive

abbreviation "TS_RECEIVE_HANDLER_REGISTER_NUM_MAX \<equiv> 10 :: nat"

text \<open>A handler is a number, \<open>None\<close> the null pointer; \<open>tt_calls\<close> are the calls the thread has made,
  \<open>tt_child\<close> that the forker has a child.\<close>

record tuner =
  tc_freq :: u32
  tc_state :: tuner_state
  tc_req_stop :: bool
  tc_handlers :: "nat option list"
  tc_sent :: "tc_msg list"
  tt_state :: thread_state
  tt_child :: bool
  tt_calls :: "(nat \<times> handler_call) list"
  tt_total_size :: u64

definition new_tuner :: tuner where
  "new_tuner = \<lparr>tc_freq = 0, tc_state = Tuner_stopped, tc_req_stop = False,
     tc_handlers = replicate TS_RECEIVE_HANDLER_REGISTER_NUM_MAX None, tc_sent = [],
     tt_state = Th_closed, tt_child = False, tt_calls = [], tt_total_size = 0\<rparr>"

definition tc_send :: "tc_msg \<Rightarrow> tuner \<Rightarrow> tuner" where
  "tc_send msg tn = tn\<lparr>tc_sent := tc_sent tn @ [msg]\<rparr>"

text \<open>\<open>set_state\<close> and the notice.\<close>

definition enter_state :: "tuner_state \<Rightarrow> tuner \<Rightarrow> tuner" where
  "enter_state s tn = tc_send (Tuner_notice s) (tn\<lparr>tc_state := s\<rparr>)"

section \<open>Handlers\<close>

fun free_handler :: "nat \<Rightarrow> nat option list \<Rightarrow> nat option" where
  "free_handler i [] = None"
| "free_handler i (h # hs) = (if h = None then Some i else free_handler (i + 1) hs)"

text \<open>\<open>None\<close> is the result -1.\<close>

definition register_ts_receive_handler :: "nat option \<Rightarrow> tuner \<Rightarrow> nat option \<times> tuner" where
  "register_ts_receive_handler p tn =
    (if p = None then (None, tn)
     else case free_handler 0 (tc_handlers tn) of
       None \<Rightarrow> (None, tn)
     | Some i \<Rightarrow> (Some i, tn\<lparr>tc_handlers := (tc_handlers tn)[i := p]\<rparr>))"

definition unregister_ts_receive_handler :: "int \<Rightarrow> tuner \<Rightarrow> tuner" where
  "unregister_ts_receive_handler i tn =
    (if i < 0 \<or> i \<ge> int TS_RECEIVE_HANDLER_REGISTER_NUM_MAX then tn
     else tn\<lparr>tc_handlers := (tc_handlers tn)[nat i := None]\<rparr>)"

text \<open>The loop over the handlers that the thread makes for each call.\<close>

fun call_handlers :: "handler_call \<Rightarrow> nat option list \<Rightarrow> (nat \<times> handler_call) list" where
  "call_handlers c [] = []"
| "call_handlers c (h # hs) =
    (case h of None \<Rightarrow> call_handlers c hs | Some n \<Rightarrow> (n, c) # call_handlers c hs)"

definition call_all :: "handler_call \<Rightarrow> tuner \<Rightarrow> tuner" where
  "call_all c tn = tn\<lparr>tt_calls := tt_calls tn @ call_handlers c (tc_handlers tn)\<rparr>"

section \<open>The thread\<close>

text \<open>\<open>on_tune\<close> of the thread up to its reply; \<open>allocated\<close>: the settings have a command for this
  group, \<open>pipes\<close>, \<open>fork\<close>: what the forker returns.\<close>

definition thread_open :: "bool \<Rightarrow> bool \<Rightarrow> bool \<Rightarrow> tuner \<Rightarrow> bool \<times> tuner" where
  "thread_open allocated pipes fork tn =
    (if tt_state tn \<noteq> Th_closed then (False, tn)
     else if \<not> allocated then (False, tn)
     else if \<not> pipes then (False, tn)
     else if \<not> fork then (False, tn)
     else (True, tn\<lparr>tt_state := Th_opened, tt_child := True\<rparr>))"

text \<open>What \<open>select\<close> and \<open>read\<close> return; a \<open>Read\<close> has at least one byte.\<close>

datatype read_result = Read_error | Read_end | Read "u8 list"

datatype select_result = Select_error | Select_timeout | Select_ready "read_result option" "read_result option"

text \<open>The result says whether the loop ends.\<close>

definition read_stdout :: "read_result \<Rightarrow> tuner \<Rightarrow> bool \<times> tuner" where
  "read_stdout r tn =
    (case r of
       Read_error \<Rightarrow> (True, tn)
     | Read_end \<Rightarrow> (True, tn)
     | Read bs \<Rightarrow>
         let tn = (if tt_state tn = Th_tune_begined then tn\<lparr>tt_state := Th_tuned\<rparr> else tn);
             tn = call_all (Received bs) tn;
             tn = tn\<lparr>tt_total_size := tt_total_size tn + word_of_nat (length bs)\<rparr>
         in (tc_req_stop tn, tn))"

definition read_stderr :: "read_result \<Rightarrow> tuner \<Rightarrow> bool \<times> tuner" where
  "read_stderr r tn =
    (case r of Read_error \<Rightarrow> (True, tn) | Read_end \<Rightarrow> (True, tn) | Read bs \<Rightarrow> (tc_req_stop tn, tn))"

definition select_turn :: "select_result \<Rightarrow> tuner \<Rightarrow> bool \<times> tuner" where
  "select_turn s tn =
    (case s of
       Select_error \<Rightarrow> (False, tn)
     | Select_timeout \<Rightarrow> (tc_req_stop tn, tn)
     | Select_ready out err \<Rightarrow>
         let r = (case out of None \<Rightarrow> (False, tn) | Some x \<Rightarrow> read_stdout x tn)
         in if fst r then r else case err of None \<Rightarrow> r | Some x \<Rightarrow> read_stderr x (snd r))"

text \<open>The events of the thread: it enters the loop, makes one turn, and, when the child has ended
  behind the loop, is closed.\<close>

datatype thread_event = Begin_loop | Turn select_result | Child_ended

definition end_loop :: "tuner \<Rightarrow> tuner" where
  "end_loop tn = call_all Post_receive (tn\<lparr>tt_state := Th_tune_ended\<rparr>)"

definition thread_step :: "thread_event \<Rightarrow> tuner \<Rightarrow> tuner" where
  "thread_step e tn =
    (case e of
       Begin_loop \<Rightarrow>
         if tt_state tn = Th_opened
         then call_all Pre_receive (tn\<lparr>tt_state := Th_tune_begined, tt_total_size := 0\<rparr>) else tn
     | Turn s \<Rightarrow>
         if tt_state tn = Th_tune_begined \<or> tt_state tn = Th_tuned
         then let r = select_turn s tn in if fst r then end_loop (snd r) else snd r
         else tn
     | Child_ended \<Rightarrow>
         if tt_state tn = Th_tune_ended then tn\<lparr>tt_state := Th_closed, tt_child := False\<rparr> else tn)"

definition thread_steps :: "thread_event list \<Rightarrow> tuner \<Rightarrow> tuner" where
  "thread_steps es tn = fold thread_step es tn"

section \<open>The control\<close>

text \<open>\<open>on_tune_start\<close>: its poll loop, at most 41 looks; \<open>None\<close> when it still waits after the given
  waits.\<close>

fun start_loop :: "nat \<Rightarrow> thread_event list list \<Rightarrow> tuner \<Rightarrow> (bool \<times> tuner) option" where
  "start_loop cnt [] tn =
    (if cnt > 40 then Some (False, tn) else if tt_state tn = Th_tuned then Some (True, tn) else None)"
| "start_loop cnt (es # ess) tn =
    (if cnt > 40 then Some (False, tn)
     else if tt_state tn = Th_tuned then Some (True, tn)
     else start_loop (cnt + 1) ess (thread_steps es tn))"

record tune_world =
  tw_allocated :: bool
  tw_pipes :: bool
  tw_fork :: bool
  tw_waits :: "thread_event list list"

definition tune_start_end :: "u32 \<Rightarrow> bool \<Rightarrow> tuner \<Rightarrow> bool \<times> tuner" where
  "tune_start_end f tuned tn =
    (if tuned then (True, (enter_state Tuning_success tn)\<lparr>tc_freq := f\<rparr>)
     else (False, enter_state Tuning_error_stop tn))"

definition on_tune_start :: "tune_world \<Rightarrow> u32 \<Rightarrow> tuner \<Rightarrow> (bool \<times> tuner) option" where
  "on_tune_start w f tn =
    (let tn = enter_state Tuning_begin tn;
         r = thread_open (tw_allocated w) (tw_pipes w) (tw_fork w) tn
     in if fst r
        then map_option (\<lambda>(tuned, tn). tune_start_end f tuned tn) (start_loop 0 (tw_waits w) (snd r))
        else Some (tune_start_end f False (snd r)))"

text \<open>\<open>on_tune_stop\<close>.\<close>

fun stop_loop :: "nat \<Rightarrow> thread_event list list \<Rightarrow> tuner \<Rightarrow> (nat \<times> tuner) option" where
  "stop_loop cnt [] tn = (if cnt < 300 \<and> tt_state tn \<noteq> Th_closed then None else Some (cnt, tn))"
| "stop_loop cnt (es # ess) tn =
    (if \<not> cnt < 300 then Some (cnt, tn)
     else if tt_state tn = Th_closed then Some (cnt, tn)
     else let tn = thread_steps es tn;
              cnt = cnt + 1
          in stop_loop cnt ess (if cnt = 150 then tc_send Send_force_kill tn else tn))"

definition tc_tune_stop :: "thread_event list list \<Rightarrow> tuner \<Rightarrow> (bool \<times> tuner) option" where
  "tc_tune_stop waits tn =
    map_option (\<lambda>(ok, tn). (ok, tn\<lparr>tc_req_stop := False\<rparr>))
      (if tt_state tn = Th_tuned \<or> tt_state tn = Th_tune_begined
       then map_option (\<lambda>(cnt, tn).
              if cnt < 300 then (True, enter_state Tuner_stopped (tn\<lparr>tc_freq := 0\<rparr>)) else (False, tn))
            (stop_loop 0 waits (tn\<lparr>tc_req_stop := True\<rparr>))
       else Some (True, tn\<lparr>tc_state := Tuner_stopped\<rparr>))"

text \<open>\<open>on_tune\<close>: it requests \<open>tune_stop\<close> and \<open>tune_start\<close> from its own module.\<close>

definition tc_tune :: "thread_event list list \<Rightarrow> tune_world \<Rightarrow> u32 \<Rightarrow> tuner \<Rightarrow> (bool \<times> tuner) option" where
  "tc_tune stops w f tn =
    (if tc_freq tn = f then Some (True, tn)
     else case tc_tune_stop stops tn of
       None \<Rightarrow> None
     | Some (False, tn) \<Rightarrow> Some (False, tc_send Send_self_stop tn)
     | Some (True, tn) \<Rightarrow>
         (case on_tune_start w f tn of
            None \<Rightarrow> None
          | Some (False, tn) \<Rightarrow> Some (False, tc_send Send_self_stop tn)
          | Some (True, tn) \<Rightarrow> Some (True, tn)))"

end
