(* ===== verification/Tuner_Control_Claims.thy ===== *)
theory Tuner_Control_Claims
  imports Tuner_Control
begin

text \<open>
  What the handlers of a tuner see of a stream, what a successful tune means, how a tuner is stopped,
  and the tuner whose stream has ended by itself.
\<close>

section \<open>The calls to the handlers\<close>

text \<open>The calls of one stream, each made to every registered handler in the order of the slots.\<close>

definition registered :: "tuner \<Rightarrow> nat list" where
  "registered tn = map the (filter (\<lambda>h. h \<noteq> None) (tc_handlers tn))"

definition broadcast :: "nat list \<Rightarrow> handler_call list \<Rightarrow> (nat \<times> handler_call) list" where
  "broadcast hs cs = concat (map (\<lambda>c. map (\<lambda>h. (h, c)) hs) cs)"

lemma call_handlers_broadcast: "call_handlers c hs = map (\<lambda>h. (h, c)) (map the (filter (\<lambda>h. h \<noteq> None) hs))"
  by (induction hs) (auto split: option.split)

lemma broadcast_simps [simp]:
  "broadcast hs [] = []" "broadcast hs (cs @ ds) = broadcast hs cs @ broadcast hs ds"
  "broadcast hs (c # cs) = map (\<lambda>h. (h, c)) hs @ broadcast hs cs"
  by (simp_all add: broadcast_def)

definition stream_calls :: "thread_state \<Rightarrow> u8 list list \<Rightarrow> handler_call list" where
  "stream_calls st chunks =
    (case st of
       Th_opened \<Rightarrow> []
     | Th_tune_begined \<Rightarrow> [Pre_receive]
     | Th_tuned \<Rightarrow> Pre_receive # map Received chunks
     | _ \<Rightarrow> Pre_receive # map Received chunks @ [Post_receive])"

text \<open>The chunks the thread read from the child.\<close>

fun stdout_of :: "thread_event \<Rightarrow> u8 list list" where
  "stdout_of (Turn (Select_ready (Some (Read bs)) err)) = [bs]"
| "stdout_of e = []"

definition in_stream :: "(nat \<times> handler_call) list \<Rightarrow> nat option list \<Rightarrow> tuner \<Rightarrow> u8 list list \<Rightarrow> bool" where
  "in_stream before hs tn chunks = (tc_handlers tn = hs \<and>
     tt_calls tn = before @ broadcast (registered tn) (stream_calls (tt_state tn) chunks) \<and>
     (tt_state tn = Th_opened \<or> tt_state tn = Th_tune_begined \<longrightarrow> chunks = []))"

lemma call_all_simps [simp]:
  "tc_handlers (call_all c tn) = tc_handlers tn" "tt_state (call_all c tn) = tt_state tn"
  "tc_req_stop (call_all c tn) = tc_req_stop tn" "tc_freq (call_all c tn) = tc_freq tn"
  "tc_state (call_all c tn) = tc_state tn" "tc_sent (call_all c tn) = tc_sent tn"
  "tt_child (call_all c tn) = tt_child tn"
  "tt_calls (call_all c tn) = tt_calls tn @ broadcast (registered tn) [c]"
  by (simp_all add: call_all_def call_handlers_broadcast registered_def)

lemma registered_frame [simp]:
  "registered (tn\<lparr>tt_state := s\<rparr>) = registered tn" "registered (tn\<lparr>tt_total_size := n\<rparr>) = registered tn"
  "registered (call_all c tn) = registered tn" "registered (tn\<lparr>tt_child := b\<rparr>) = registered tn"
  "registered (tn\<lparr>tc_req_stop := b\<rparr>) = registered tn" "registered (tc_send m tn) = registered tn"
  by (simp_all add: registered_def call_all_def tc_send_def)

text \<open>The state in the loop after the reads of a turn.\<close>

lemma select_turn_in_stream:
  assumes "in_stream b hs tn chunks" "tt_state tn = Th_tune_begined \<or> tt_state tn = Th_tuned"
  shows "in_stream b hs (snd (select_turn s tn)) (chunks @ stdout_of (Turn s)) \<and>
    (tt_state (snd (select_turn s tn)) = Th_tune_begined \<or> tt_state (snd (select_turn s tn)) = Th_tuned)"
proof -
  have out: "in_stream b hs (snd (read_stdout (Read bs) tn)) (chunks @ [bs]) \<and> tt_state (snd (read_stdout (Read bs) tn)) = Th_tuned" for bs
    using assms by (auto simp: in_stream_def read_stdout_def stream_calls_def Let_def)
  have err: "snd (read_stderr r n) = n" for r n by (simp add: read_stderr_def split: read_result.split)
  show ?thesis
  proof (cases s)
    case (Select_ready so se)
    show ?thesis
    proof (cases so)
      case None
      then show ?thesis using assms Select_ready by (simp add: select_turn_def Let_def err split: option.split)
    next
      case (Some r)
      show ?thesis
      proof (cases r)
        case (Read bs)
        then show ?thesis using Select_ready Some out [of bs]
          by (simp add: select_turn_def Let_def err split: option.split)
      qed (use Select_ready Some assms in \<open>simp_all add: select_turn_def read_stdout_def Let_def\<close>)
    qed
  qed (use assms in \<open>simp_all add: select_turn_def\<close>)
qed

definition reading :: "tuner \<Rightarrow> bool" where
  "reading tn = (tt_state tn = Th_tune_begined \<or> tt_state tn = Th_tuned)"

lemma not_reading_in_stream: "\<lbrakk>in_stream b hs tn chunks; \<not> reading tn\<rbrakk> \<Longrightarrow> in_stream b hs (thread_step e tn) chunks"
  by (cases e; cases "tt_state tn") (auto simp: thread_step_def in_stream_def stream_calls_def reading_def)

lemma reading_in_stream:
  assumes "in_stream b hs tn chunks" "reading tn"
  shows "in_stream b hs (thread_step e tn) (chunks @ stdout_of e)"
proof (cases e)
  case (Turn s)
  let ?tn = "snd (select_turn s tn)"
  have in_loop: "in_stream b hs ?tn (chunks @ stdout_of e)" "reading ?tn"
    using select_turn_in_stream [OF assms(1), of s] assms(2) Turn by (simp_all add: reading_def)
  then have "in_stream b hs (end_loop ?tn) (chunks @ stdout_of e)"
    by (auto simp: in_stream_def end_loop_def stream_calls_def reading_def)
  with in_loop assms(2) Turn show ?thesis by (simp add: thread_step_def Let_def reading_def)
qed (use assms in \<open>auto simp: thread_step_def reading_def\<close>)

text \<open>The chunks read while the thread is in its loop.\<close>

fun chunks_read :: "thread_event list \<Rightarrow> tuner \<Rightarrow> u8 list list" where
  "chunks_read [] tn = []"
| "chunks_read (e # es) tn = (if reading tn then stdout_of e else []) @ chunks_read es (thread_step e tn)"

lemma thread_steps_in_stream:
  "in_stream b hs tn chunks \<Longrightarrow> in_stream b hs (thread_steps es tn) (chunks @ chunks_read es tn)"
proof (induction es arbitrary: tn chunks)
  case (Cons e es)
  have "in_stream b hs (thread_step e tn) (chunks @ (if reading tn then stdout_of e else []))"
    using Cons.prems by (simp add: reading_in_stream not_reading_in_stream)
  from Cons.IH [OF this] show ?case by (simp add: thread_steps_def)
qed (simp add: thread_steps_def)

text \<open>C7: Whatever the child process and the requests do, the handlers registered when the thread starts
  see the same calls in the order of their slots: the begin of the stream once, then each chunk that
  is read, in order and complete, then the end once, when the thread has left its loop.\<close>

theorem handlers_get_the_stream:
  assumes "tt_state tn = Th_opened"
  shows "let tn' = thread_steps es tn in
    tt_calls tn' = tt_calls tn @ broadcast (registered tn) (stream_calls (tt_state tn') (chunks_read es tn)) \<and>
    tc_handlers tn' = tc_handlers tn"
proof -
  have "in_stream (tt_calls tn) (tc_handlers tn) tn []"
    using assms by (simp add: in_stream_def stream_calls_def)
  from thread_steps_in_stream [OF this, of es] show ?thesis
    by (simp add: in_stream_def registered_def Let_def)
qed

definition two_handlers :: tuner where
  "two_handlers = new_tuner\<lparr>tc_handlers := Some 1 # None # Some 2 # replicate 7 None, tt_state := Th_opened,
     tt_child := True\<rparr>"

lemma handlers_get_the_stream_witness:
  "tt_calls (thread_steps [Begin_loop, Turn Select_timeout, Turn (Select_ready (Some (Read [0x47, 1])) None),
      Turn (Select_ready (Some Read_end) None), Child_ended] two_handlers)
    = [(1, Pre_receive), (2, Pre_receive), (1, Received [0x47, 1]), (2, Received [0x47, 1]),
       (1, Post_receive), (2, Post_receive)]"
proof -
  let ?es = "[Begin_loop, Turn Select_timeout, Turn (Select_ready (Some (Read [0x47, 1])) None),
    Turn (Select_ready (Some Read_end) None), Child_ended]"
  have "tt_state two_handlers = Th_opened" by (simp add: two_handlers_def)
  note handlers_get_the_stream [OF this, of ?es]
  moreover have "tt_state (thread_steps ?es two_handlers) = Th_closed" "chunks_read ?es two_handlers = [[0x47, 1]]"
    "registered two_handlers = [1, 2]" "tt_calls two_handlers = []"
    by code_simp+
  ultimately show ?thesis by (simp add: Let_def stream_calls_def del: chunks_read.simps)
qed

section \<open>Tuning\<close>

lemma read_frame [simp]:
  "snd (read_stderr r tn) = tn"
  "tc_sent (snd (read_stdout r tn)) = tc_sent tn" "tc_freq (snd (read_stdout r tn)) = tc_freq tn"
  "tc_state (snd (read_stdout r tn)) = tc_state tn" "tc_req_stop (snd (read_stdout r tn)) = tc_req_stop tn"
  by (simp_all add: read_stderr_def read_stdout_def Let_def split: read_result.split)

lemma turn_frame [simp]:
  "tc_sent (snd (select_turn s tn)) = tc_sent tn" "tc_freq (snd (select_turn s tn)) = tc_freq tn"
  "tc_state (snd (select_turn s tn)) = tc_state tn" "tc_req_stop (snd (select_turn s tn)) = tc_req_stop tn"
  by (simp_all add: select_turn_def Let_def split: select_result.split option.split)

lemma step_frame [simp]:
  "tc_sent (thread_step e tn) = tc_sent tn" "tc_freq (thread_step e tn) = tc_freq tn"
  "tc_state (thread_step e tn) = tc_state tn" "tc_req_stop (thread_step e tn) = tc_req_stop tn"
  by (simp_all add: thread_step_def end_loop_def Let_def split: thread_event.split)

lemma steps_frame [simp]:
  "tc_sent (thread_steps es tn) = tc_sent tn" "tc_freq (thread_steps es tn) = tc_freq tn"
  "tc_state (thread_steps es tn) = tc_state tn" "tc_req_stop (thread_steps es tn) = tc_req_stop tn"
  by (induction es arbitrary: tn) (simp_all add: thread_steps_def)

lemma send_frame [simp]:
  "tc_sent (tc_send m tn) = tc_sent tn @ [m]" "tc_freq (tc_send m tn) = tc_freq tn"
  "tc_state (tc_send m tn) = tc_state tn" "tc_req_stop (tc_send m tn) = tc_req_stop tn"
  "tt_state (tc_send m tn) = tt_state tn" "tc_handlers (tc_send m tn) = tc_handlers tn"
  by (simp_all add: tc_send_def)

text \<open>The loop of the stop ends below its bound only with a closed thread.\<close>

lemma stop_loop_result:
  "stop_loop cnt ess tn = Some (n, tn') \<Longrightarrow>
    (n < 300 \<longrightarrow> tt_state tn' = Th_closed) \<and> (\<exists>sent. tc_sent tn' = tc_sent tn @ sent) \<and> tc_freq tn' = tc_freq tn"
proof (induction cnt ess tn rule: stop_loop.induct)
  case (2 cnt es ess tn)
  show ?case
  proof (cases "cnt < 300 \<and> tt_state tn \<noteq> Th_closed")
    case True
    then show ?thesis using "2.IH" [OF _ _ refl refl] "2.prems" by (auto simp: Let_def split: if_splits)
  qed (use "2.prems" in \<open>auto split: if_splits\<close>)
qed (auto split: if_splits)

lemma stop_result:
  assumes "tc_tune_stop waits tn = Some (ok, tn')"
  shows "\<not> tc_req_stop tn' \<and> (ok \<longrightarrow> tc_state tn' = Tuner_stopped) \<and>
    (reading tn \<and> ok \<longrightarrow> tc_freq tn' = 0 \<and> tt_state tn' = Th_closed) \<and>
    (\<exists>sent. tc_sent tn' = tc_sent tn @ sent)"
proof (cases "reading tn")
  case True
  then obtain n tn1 where loop: "stop_loop 0 waits (tn\<lparr>tc_req_stop := True\<rparr>) = Some (n, tn1)"
    and res: "(ok, tn') = (if n < 300
        then (True, (enter_state Tuner_stopped (tn1\<lparr>tc_freq := 0\<rparr>))\<lparr>tc_req_stop := False\<rparr>)
        else (False, tn1\<lparr>tc_req_stop := False\<rparr>))"
    using assms by (auto simp: tc_tune_stop_def reading_def split: if_splits)
  from stop_loop_result [OF loop] res show ?thesis
    by (auto simp: enter_state_def split: if_splits)
next
  case False
  then have "ok \<and> tn' = tn\<lparr>tc_state := Tuner_stopped, tc_req_stop := False\<rparr>"
    using assms by (auto simp: tc_tune_stop_def reading_def)
  with False show ?thesis by simp
qed

lemma start_loop_tuned:
  "start_loop cnt ess tn = Some (b, tn') \<Longrightarrow> (b \<longrightarrow> tt_state tn' = Th_tuned) \<and> (\<exists>es. tn' = thread_steps es tn)"
proof (induction cnt ess tn rule: start_loop.induct)
  case (1 cnt tn)
  then show ?case by (auto simp: thread_steps_def split: if_splits intro: exI [of _ "[]"])
next
  case (2 cnt es ess tn)
  have cat: "thread_steps es' (thread_steps es tn) = thread_steps (es @ es') tn" for es'
    by (simp add: thread_steps_def)
  show ?case
  proof (cases "cnt > 40 \<or> tt_state tn = Th_tuned")
    case True
    then have "tn' = tn \<and> (b \<longrightarrow> tt_state tn = Th_tuned)" using "2.prems" by (auto split: if_splits)
    then show ?thesis by (auto simp: thread_steps_def intro: exI [of _ "[]"])
  next
    case False
    then show ?thesis using 2 cat by (auto split: if_splits)
  qed
qed

lemma successful_tune:
  assumes "tc_tune stops w f tn = Some (True, tn')" "tc_freq tn \<noteq> f"
  shows "tc_freq tn' = f \<and> tc_state tn' = Tuning_success \<and> tt_state tn' = Th_tuned \<and>
    (\<exists>sent. tc_sent tn' = tc_sent tn @ sent @ [Tuner_notice Tuning_begin, Tuner_notice Tuning_success])"
proof -
  obtain tn1 where stop: "tc_tune_stop stops tn = Some (True, tn1)" and start: "on_tune_start w f tn1 = Some (True, tn')"
    using assms(1,2) by (auto simp: tc_tune_def split: option.splits prod.splits bool.splits)
  have sent1: "\<exists>sent. tc_sent tn1 = tc_sent tn @ sent" using stop_result [OF stop] by blast
  obtain tn2 where loop: "start_loop 0 (tw_waits w) ((enter_state Tuning_begin tn1)\<lparr>tt_state := Th_opened, tt_child := True\<rparr>)
      = Some (True, tn2)" and tn': "tn' = (enter_state Tuning_success tn2)\<lparr>tc_freq := f\<rparr>"
    using start by (auto simp: on_tune_start_def tune_start_end_def thread_open_def Let_def split: if_splits)
  from start_loop_tuned [OF loop] sent1 show ?thesis
    by (auto simp: tn' enter_state_def tc_send_def)
qed

text \<open>A tune that replies success has either asked for the frequency that is already set, or it left
  the tuner with this frequency in the state of success, with a thread that has delivered the first
  part of the stream, and sent the notice of the begin and of the success last.\<close>

theorem successful_tune_delivers:
  assumes "tc_tune stops w f tn = Some (True, tn')" "tc_freq tn \<noteq> f"
  shows "tc_freq tn' = f \<and> tc_state tn' = Tuning_success \<and> tt_state tn' = Th_tuned \<and>
    (\<exists>sent. tc_sent tn' = tc_sent tn @ sent @ [Tuner_notice Tuning_begin, Tuner_notice Tuning_success])"
  by (rule successful_tune [OF assms])

definition good_world :: tune_world where
  "good_world = \<lparr>tw_allocated = True, tw_pipes = True, tw_fork = True,
     tw_waits = [[], [Begin_loop, Turn (Select_ready (Some (Read [0x47])) None)]]\<rparr>"

lemma new_tuned: "\<exists>tn. tc_tune [] good_world 473143 new_tuner = Some (True, tn)"
  by (simp add: tc_tune_def tc_tune_stop_def new_tuner_def on_tune_start_def good_world_def thread_open_def
      enter_state_def tc_send_def thread_steps_def thread_step_def select_turn_def read_stdout_def
      call_all_def tune_start_end_def Let_def)

lemma successful_tune_delivers_witness:
  "\<exists>tn. tc_tune [] good_world 473143 new_tuner = Some (True, tn) \<and> tc_freq tn = 473143 \<and> tt_state tn = Th_tuned"
proof -
  obtain tn where tune: "tc_tune [] good_world 473143 new_tuner = Some (True, tn)" using new_tuned by blast
  have "tc_freq new_tuner \<noteq> 473143" by (simp add: new_tuner_def)
  from successful_tune_delivers [OF tune this] tune show ?thesis by blast
qed

section \<open>Stopping\<close>

lemma select_turn_stops:
  "\<lbrakk>tc_req_stop tn; s \<noteq> Select_error; s \<noteq> Select_ready None None\<rbrakk> \<Longrightarrow> fst (select_turn s tn)"
  by (cases s)
    (auto simp: select_turn_def read_stdout_def read_stderr_def Let_def split: option.split read_result.split)

lemma stopped_turn:
  assumes "reading tn" "tc_req_stop tn" "s \<noteq> Select_error" "s \<noteq> Select_ready None None"
  shows "tt_state (thread_steps [Turn s, Child_ended] tn) = Th_closed"
  using select_turn_stops [OF assms(2-4)] assms(1)
  by (simp add: thread_steps_def thread_step_def end_loop_def reading_def Let_def)

lemma stop_loop_waits:
  assumes "reading tn" "tc_req_stop tn" "s \<noteq> Select_error" "s \<noteq> Select_ready None None" "cnt + k < 299"
  shows "\<exists>n tn'. stop_loop cnt (replicate k [] @ [Turn s, Child_ended] # rest) tn = Some (n, tn') \<and> n < 300"
  using assms
proof (induction k arbitrary: cnt tn)
  case 0
  have "tt_state (thread_steps [Turn s, Child_ended] tn) = Th_closed" by (rule stopped_turn [OF "0.prems"(1-4)])
  then show ?case using "0.prems" by (cases rest) (auto simp: reading_def Let_def)
next
  case (Suc k)
  let ?tn = "if cnt + 1 = 150 then tc_send Send_force_kill tn else tn"
  have "reading ?tn" "tc_req_stop ?tn" using Suc.prems by (simp_all add: reading_def)
  from Suc.IH [OF this Suc.prems(3,4), of "cnt + 1"] Suc.prems show ?case
    by (auto simp: reading_def Let_def thread_steps_def)
qed

text \<open>A tuner that reads its stream is stopped: when the thread makes one turn within the first 299
  waits and its child ends on the signal, the reply is a success, the thread is closed, no frequency is
  set, and the notice of the stop is sent; in any case the stop request is withdrawn at the end.\<close>

theorem reading_tuner_is_stopped:
  assumes "tt_state tn = Th_tune_begined \<or> tt_state tn = Th_tuned" "k < 299"
    and "s \<noteq> Select_error" "s \<noteq> Select_ready None None"
  shows "\<exists>tn'. tc_tune_stop (replicate k [] @ [Turn s, Child_ended] # rest) tn = Some (True, tn') \<and>
    tt_state tn' = Th_closed \<and> tc_freq tn' = 0 \<and> tc_state tn' = Tuner_stopped \<and> \<not> tc_req_stop tn'"
proof -
  let ?ess = "replicate k [] @ [Turn s, Child_ended] # rest"
  have r: "reading tn" using assms(1) by (simp add: reading_def)
  obtain n tn1 where "stop_loop 0 ?ess (tn\<lparr>tc_req_stop := True\<rparr>) = Some (n, tn1)" "n < 300"
    using stop_loop_waits [of "tn\<lparr>tc_req_stop := True\<rparr>" s 0 k rest] assms r by (auto simp: reading_def)
  then have "\<exists>tn'. tc_tune_stop ?ess tn = Some (True, tn')"
    using assms(1) by (auto simp: tc_tune_stop_def)
  then obtain tn' where stop: "tc_tune_stop ?ess tn = Some (True, tn')" ..
  with stop_result [OF stop] r show ?thesis by blast
qed

lemma reading_tuner_is_stopped_witness:
  "\<exists>tn'. tc_tune_stop [[], [], [Turn Select_timeout, Child_ended]] (two_handlers\<lparr>tt_state := Th_tuned, tc_freq := 473143\<rparr>)
     = Some (True, tn') \<and> tt_state tn' = Th_closed \<and> tc_freq tn' = 0"
  using reading_tuner_is_stopped [of "two_handlers\<lparr>tt_state := Th_tuned, tc_freq := 473143\<rparr>" 2 Select_timeout "[]"]
  by (auto simp: numeral_2_eq_2)

section \<open>A stream that ends by itself\<close>

text \<open>When the child process of a tuned tuner ends by itself, the thread closes, but the frequency stays
  set. From then on a request to tune to this frequency is answered with success, however often the
  tuner is stopped in between: no thread is started, no handler is called and no notice is sent.\<close>

theorem ended_stream_counts_as_tuned:
  assumes "tc_tune stops0 w0 f tn0 = Some (True, tn)" "tc_freq tn0 \<noteq> f"
    and "tn' = thread_steps [Turn (Select_ready (Some Read_end) err), Child_ended] tn"
  shows "tt_state tn' = Th_closed \<and>
    (\<exists>tn''. tc_tune_stop stops tn' = Some (True, tn'') \<and> tc_tune stops' w f tn'' = Some (True, tn'') \<and>
      tt_state tn'' = Th_closed \<and> tt_calls tn'' = tt_calls tn' \<and> tc_sent tn'' = tc_sent tn')"
proof -
  have "tt_state tn = Th_tuned" "tc_freq tn = f" using successful_tune [OF assms(1,2)] by simp_all
  then have closed: "tt_state tn' = Th_closed" "tc_freq tn' = f"
    by (simp_all add: assms(3))
      (simp add: thread_steps_def thread_step_def select_turn_def read_stdout_def end_loop_def Let_def)
  then show ?thesis by (simp add: tc_tune_stop_def tc_tune_def)
qed

lemma ended_stream_counts_as_tuned_witness:
  "\<exists>tn tn''. tc_tune [] good_world 473143 new_tuner = Some (True, tn) \<and>
     tc_tune [] good_world 473143 tn'' = Some (True, tn'') \<and> tt_state tn'' = Th_closed"
proof -
  obtain tn where tune: "tc_tune [] good_world 473143 new_tuner = Some (True, tn)" using new_tuned by blast
  have "tc_freq new_tuner \<noteq> 473143" by (simp add: new_tuner_def)
  from ended_stream_counts_as_tuned [OF tune this refl, of None "[]" "[]" good_world] tune show ?thesis by blast
qed

section \<open>Registration\<close>

lemma free_handler_first:
  "free_handler i hs = (if None \<in> set hs then Some (i + length (takeWhile (\<lambda>h. h \<noteq> None) hs)) else None)"
  by (induction i hs rule: free_handler.induct) auto

text \<open>A handler is registered in the first free slot and every other slot keeps its handler; it is refused
  exactly when the pointer is null or all ten slots are taken; giving the slot back restores the table.\<close>

theorem handler_takes_a_free_slot:
  assumes "length (tc_handlers tn) = TS_RECEIVE_HANDLER_REGISTER_NUM_MAX"
  shows "case register_ts_receive_handler p tn of
      (None, tn') \<Rightarrow> tn' = tn \<and> (p = None \<or> None \<notin> set (tc_handlers tn))
    | (Some i, tn') \<Rightarrow> i < TS_RECEIVE_HANDLER_REGISTER_NUM_MAX \<and> tc_handlers tn ! i = None \<and>
        (\<forall>j<i. tc_handlers tn ! j \<noteq> None) \<and> tc_handlers tn' = (tc_handlers tn)[i := p] \<and>
        unregister_ts_receive_handler (int i) tn' = tn"
proof (cases "p = None \<or> None \<notin> set (tc_handlers tn)")
  case True
  then show ?thesis by (auto simp: register_ts_receive_handler_def free_handler_first)
next
  case False
  let ?hs = "tc_handlers tn"
  let ?i = "length (takeWhile (\<lambda>h. h \<noteq> None) ?hs)"
  have "takeWhile (\<lambda>h. h \<noteq> None) ?hs \<noteq> ?hs" using False by (auto simp: takeWhile_eq_all_conv)
  then have lt: "?i < length ?hs"
    using length_takeWhile_le [of "\<lambda>h. h \<noteq> None" ?hs] takeWhile_eq_take [of "\<lambda>h. h \<noteq> None" ?hs]
    by (metis le_neq_implies_less order_refl take_all)
  then have free: "?hs ! ?i = None" using nth_length_takeWhile [of "\<lambda>h. h \<noteq> None" ?hs] by simp
  have before: "?hs ! j \<noteq> None" if "j < ?i" for j
  proof -
    have "takeWhile (\<lambda>h. h \<noteq> None) ?hs ! j \<noteq> None" using nth_mem [OF that] set_takeWhileD by fastforce
    then show ?thesis using takeWhile_nth [OF that] by simp
  qed
  have "?hs[?i := p, ?i := None] = ?hs" using lt free by (simp add: list_update_same_conv)
  then show ?thesis using False lt free before assms
    by (auto simp: register_ts_receive_handler_def unregister_ts_receive_handler_def free_handler_first)
qed

lemma handler_takes_a_free_slot_witness:
  "fst (register_ts_receive_handler (Some 7) two_handlers) = Some 1 \<and>
   unregister_ts_receive_handler 1 (snd (register_ts_receive_handler (Some 7) two_handlers)) = two_handlers"
proof -
  have "length (tc_handlers two_handlers) = TS_RECEIVE_HANDLER_REGISTER_NUM_MAX"
    "fst (register_ts_receive_handler (Some 7) two_handlers) = Some 1"
    by code_simp+
  with handler_takes_a_free_slot [of two_handlers "Some 7"] show ?thesis
    by (cases "register_ts_receive_handler (Some 7) two_handlers") simp
qed

end
