(* ===== verification/Forker.thy ===== *)
theory Forker
  imports Prelude
begin

text \<open>
  \<open>common/forker.h\<close>: a child process with three pipes. The system calls are parameters: the descriptors
  \<open>pipe\<close> returns, the result of \<open>fork\<close>, and what \<open>waitpid\<close> answers. Of the child's side of \<open>do_fork\<close>,
  which ends in \<open>execv\<close>, nothing is visible to the program.
\<close>

section \<open>Pipes\<close>

text \<open>\<open>pp_open\<close> is \<open>is_opened_\<close>; the descriptors of the process that are open are a set.\<close>

record pipe_end =
  pe_fd :: int
  pe_open :: bool

record fork_pipe =
  fp_reader :: pipe_end
  fp_writer :: pipe_end

definition new_pipe :: fork_pipe where
  "new_pipe = \<lparr>fp_reader = \<lparr>pe_fd = 0, pe_open = False\<rparr>, fp_writer = \<lparr>pe_fd = 0, pe_open = False\<rparr>\<rparr>"

definition close_end :: "pipe_end \<Rightarrow> int set \<Rightarrow> pipe_end \<times> int set" where
  "close_end e fds = (if pe_open e then (e\<lparr>pe_open := False\<rparr>, fds - {pe_fd e}) else (e, fds))"

definition close_reader_fd :: "fork_pipe \<times> int set \<Rightarrow> fork_pipe \<times> int set" where
  "close_reader_fd s = (let (e, fds) = close_end (fp_reader (fst s)) (snd s) in ((fst s)\<lparr>fp_reader := e\<rparr>, fds))"

definition close_writer_fd :: "fork_pipe \<times> int set \<Rightarrow> fork_pipe \<times> int set" where
  "close_writer_fd s = (let (e, fds) = close_end (fp_writer (fst s)) (snd s) in ((fst s)\<lparr>fp_writer := e\<rparr>, fds))"

definition pipe_destroy :: "fork_pipe \<times> int set \<Rightarrow> fork_pipe \<times> int set" where
  "pipe_destroy s = close_writer_fd (close_reader_fd s)"

text \<open>\<open>create\<close>: \<open>fds'\<close> are the two descriptors, \<open>None\<close> an error of \<open>pipe\<close>.\<close>

definition pipe_create :: "(int \<times> int) option \<Rightarrow> fork_pipe \<times> int set \<Rightarrow> bool \<times> fork_pipe \<times> int set" where
  "pipe_create fd s =
    (case fd of
       None \<Rightarrow> (False, s)
     | Some (r, w) \<Rightarrow>
         (True, \<lparr>fp_reader = \<lparr>pe_fd = r, pe_open = True\<rparr>, fp_writer = \<lparr>pe_fd = w, pe_open = True\<rparr>\<rparr>,
            snd s \<union> {r, w}))"

section \<open>The child\<close>

record forker =
  fk_stdin :: fork_pipe
  fk_stdout :: fork_pipe
  fk_stderr :: fork_pipe
  fk_pid :: int
  fk_command :: string
  fk_fds :: "int set"

definition new_forker :: "int set \<Rightarrow> forker" where
  "new_forker fds = \<lparr>fk_stdin = new_pipe, fk_stdout = new_pipe, fk_stderr = new_pipe, fk_pid = 0,
     fk_command = [], fk_fds = fds\<rparr>"

definition on_stdin :: "(fork_pipe \<times> int set \<Rightarrow> fork_pipe \<times> int set) \<Rightarrow> forker \<Rightarrow> forker" where
  "on_stdin g k = (let (p, fds) = g (fk_stdin k, fk_fds k) in k\<lparr>fk_stdin := p, fk_fds := fds\<rparr>)"

definition on_stdout :: "(fork_pipe \<times> int set \<Rightarrow> fork_pipe \<times> int set) \<Rightarrow> forker \<Rightarrow> forker" where
  "on_stdout g k = (let (p, fds) = g (fk_stdout k, fk_fds k) in k\<lparr>fk_stdout := p, fk_fds := fds\<rparr>)"

definition on_stderr :: "(fork_pipe \<times> int set \<Rightarrow> fork_pipe \<times> int set) \<Rightarrow> forker \<Rightarrow> forker" where
  "on_stderr g k = (let (p, fds) = g (fk_stderr k, fk_fds k) in k\<lparr>fk_stderr := p, fk_fds := fds\<rparr>)"

definition destroy_pipes :: "forker \<Rightarrow> forker" where
  "destroy_pipes k = on_stderr pipe_destroy (on_stdout pipe_destroy (on_stdin pipe_destroy k))"

text \<open>\<open>create_pipes\<close>: the three results of \<open>pipe\<close>.\<close>

definition create_pipes ::
  "(int \<times> int) option \<Rightarrow> (int \<times> int) option \<Rightarrow> (int \<times> int) option \<Rightarrow> forker \<Rightarrow> bool \<times> forker" where
  "create_pipes a b c k =
    (if \<not> fst (pipe_create a (fk_stdin k, fk_fds k)) then (False, k)
     else let k = on_stdin (\<lambda>s. snd (pipe_create a s)) k in
       if \<not> fst (pipe_create b (fk_stdout k, fk_fds k)) then (False, on_stdin pipe_destroy k)
       else let k = on_stdout (\<lambda>s. snd (pipe_create b s)) k in
         if \<not> fst (pipe_create c (fk_stderr k, fk_fds k)) then (False, on_stdout pipe_destroy (on_stdin pipe_destroy k))
         else (True, on_stderr (\<lambda>s. snd (pipe_create c s)) k))"

section \<open>The arguments of the command\<close>

text \<open>\<open>std::string::find\<close>.\<close>

definition find_from :: "string \<Rightarrow> string \<Rightarrow> nat \<Rightarrow> nat option" where
  "find_from s sep off = find (\<lambda>i. take (length sep) (drop i s) = sep) [off..<Suc (length s)]"

partial_function (option) split_loop :: "string \<Rightarrow> string \<Rightarrow> nat \<Rightarrow> string list \<Rightarrow> string list option" where
  "split_loop s sep off r =
    (case find_from s sep off of
       None \<Rightarrow> Some (if drop off s = [] then r else r @ [drop off s])
     | Some pos \<Rightarrow>
         if pos = off then split_loop s sep (pos + length sep) r
         else split_loop s sep (pos + length sep) (r @ [take (pos - off) (drop off s)]))"

definition split_words :: "string \<Rightarrow> string \<Rightarrow> string list option" where
  "split_words s sep = (if length sep = 0 then Some [s] else split_loop s sep 0 [])"

text \<open>\<open>do_fork\<close>: the result, the arguments of \<open>execv\<close> (\<open>None\<close> when nothing is started) and the new state;
  \<open>pid\<close> is the result of \<open>fork\<close>.\<close>

definition do_fork :: "int \<Rightarrow> string \<Rightarrow> forker \<Rightarrow> (bool \<times> string list option \<times> forker) option" where
  "do_fork pid command k =
    (if length command = 0 then Some (False, None, k)
     else case split_words command '' '' of
       None \<Rightarrow> None
     | Some args \<Rightarrow>
         let k = k\<lparr>fk_command := command\<rparr> in
         if pid < 0 then Some (False, None, destroy_pipes k)
         else Some (True, Some args,
           on_stderr close_writer_fd (on_stdout close_writer_fd (on_stdin close_reader_fd (k\<lparr>fk_pid := pid\<rparr>)))))"

definition has_child :: "forker \<Rightarrow> bool" where
  "has_child k = (if fk_pid k \<noteq> 0 then True else False)"

section \<open>Waiting\<close>

datatype wait_result = Wait_error | Still_alive | Exited int | Killed

text \<open>\<open>wait_child\<close>: the answers of \<open>waitpid\<close>, one for each turn; the status and the return code, the signals
  that were sent, and the state. \<open>None\<close>: it still waits behind these answers. The signals are numbers,
  -1 is none; SIGKILL is 9.\<close>

fun wait_loop :: "int \<Rightarrow> bool \<Rightarrow> nat \<Rightarrow> wait_result list \<Rightarrow> forker \<Rightarrow> (int \<times> int \<times> int list \<times> forker) option" where
  "wait_loop sig oneshot cnt [] k = None"
| "wait_loop sig oneshot cnt (w # ws) k =
    (case w of
       Wait_error \<Rightarrow> Some (-1, 0, [], k)
     | Exited c \<Rightarrow> Some (1, c, [], k\<lparr>fk_pid := 0, fk_command := []\<rparr>)
     | Killed \<Rightarrow> Some (2, 0, [], k\<lparr>fk_pid := 0, fk_command := []\<rparr>)
     | Still_alive \<Rightarrow>
         let sent = (if sig = -1 then [] else if cnt < 50 then [sig] else [9]) in
         if oneshot then Some (0, 0, sent, k)
         else map_option (\<lambda>(st, c, more, k). (st, c, sent @ more, k)) (wait_loop sig oneshot (cnt + 1) ws k))"

definition wait_child :: "int \<Rightarrow> bool \<Rightarrow> wait_result list \<Rightarrow> forker \<Rightarrow> (int \<times> int \<times> int list \<times> forker) option" where
  "wait_child sig oneshot ws k =
    (if fk_pid k = 0 then Some (-1, 0, [], k) else wait_loop sig oneshot 0 ws k)"

end
