(* ===== verification/Forker_Claims.thy ===== *)
theory Forker_Claims
  imports Forker
begin

text \<open>
  What the forker promises: the arguments of a command, that no descriptor is lost, and the signals a
  child gets until it has ended.
\<close>

section \<open>Arguments\<close>

text \<open>The fields of a string between separators, and the ones that are not empty.\<close>

fun fields :: "char \<Rightarrow> string \<Rightarrow> string list" where
  "fields c [] = [[]]"
| "fields c (d # s) =
    (if d = c then [] # fields c s else case fields c s of [] \<Rightarrow> [[d]] | f # fs \<Rightarrow> (d # f) # fs)"

definition command_words :: "char \<Rightarrow> string \<Rightarrow> string list" where
  "command_words c s = filter (\<lambda>w. w \<noteq> []) (fields c s)"

lemma fields_not_Nil [simp]: "fields c s \<noteq> []"
  by (cases s) (auto split: list.split)

lemma fields_no_sep: "c \<notin> set a \<Longrightarrow> fields c a = [a]"
  by (induction a) auto

lemma fields_sep: "c \<notin> set a \<Longrightarrow> fields c (a @ c # b) = a # fields c b"
  by (induction a) (auto split: list.split)

lemma command_words_no_sep: "c \<notin> set a \<Longrightarrow> command_words c a = (if a = [] then [] else [a])"
  by (simp add: command_words_def fields_no_sep)

lemma command_words_sep:
  "c \<notin> set a \<Longrightarrow> command_words c (a @ c # b) = (if a = [] then [] else [a]) @ command_words c b"
  by (simp add: command_words_def fields_sep)

lemma find_from_None: "find_from s [c] off = None \<Longrightarrow> c \<notin> set (drop off s)"
proof
  assume none: "find_from s [c] off = None" and "c \<in> set (drop off s)"
  then obtain i where "i < length (drop off s)" "drop off s ! i = c" by (auto simp: in_set_conv_nth)
  then have i: "off + i < length s" "s ! (off + i) = c" by auto
  then have "take 1 (drop (off + i) s) = [c]" by (simp add: take_Suc_conv_app_nth [of 0])
  moreover have "off + i \<in> set [off..<Suc (length s)]" using i by simp
  ultimately show False using none unfolding find_from_def find_None_iff by fastforce
qed

lemma find_from_Some:
  assumes "find_from s [c] off = Some pos"
  shows "\<exists>a b. drop off s = a @ c # b \<and> c \<notin> set a \<and> pos = off + length a \<and> drop (pos + 1) s = b \<and> pos < length s"
proof -
  obtain n where n: "n < length [off..<Suc (length s)]" "[off..<Suc (length s)] ! n = pos"
    "take 1 (drop pos s) = [c]" "\<forall>j<n. take 1 (drop ([off..<Suc (length s)] ! j) s) \<noteq> [c]"
    using assms by (auto simp: find_from_def find_Some_iff simp del: upt_Suc)
  have len: "off + n < Suc (length s)" using n(1) by (simp del: upt_Suc)
  then have pos: "pos = off + n" "off + n < Suc (length s)" using n(2) by (simp_all del: upt_Suc)
  have lt: "pos < length s" and at: "s ! pos = c"
    using n(3) by (cases "pos < length s", auto simp: take_Suc_conv_app_nth [of 0])+
  have "drop off s = take n (drop off s) @ drop n (drop off s)" by (rule append_take_drop_id [symmetric])
  also have "drop n (drop off s) = c # drop (pos + 1) s"
    using Cons_nth_drop_Suc [OF lt] at pos(1) by (simp add: add.commute)
  finally have parts: "drop off s = take n (drop off s) @ c # drop (pos + 1) s" .
  have "c \<notin> set (take n (drop off s))"
  proof
    assume "c \<in> set (take n (drop off s))"
    then obtain j where j: "j < n" "off + j < length s" "s ! (off + j) = c" by (auto simp: in_set_conv_nth)
    then have "take 1 (drop (off + j) s) = [c]" by (simp add: take_Suc_conv_app_nth [of 0])
    moreover have "[off..<Suc (length s)] ! j = off + j" using j(1) len by (simp del: upt_Suc)
    ultimately show False using j(1) n(4) by metis
  qed
  with parts pos lt show ?thesis
    by (intro exI [of _ "take n (drop off s)"] exI [of _ "drop (pos + 1) s"]) simp
qed

lemma split_loop_words:
  "off \<le> length s \<Longrightarrow> split_loop s [c] off r = Some (r @ command_words c (drop off s))"
proof (induction "length s - off" arbitrary: off r rule: less_induct)
  case less
  show ?case
  proof (cases "find_from s [c] off")
    case None
    then show ?thesis using command_words_no_sep [OF find_from_None [OF None]]
      by (subst split_loop.simps) simp
  next
    case (Some pos)
    obtain a b where ab: "drop off s = a @ c # b" "c \<notin> set a" "pos = off + length a" "drop (pos + 1) s = b" "pos < length s"
      using find_from_Some [OF Some] by blast
    have rest: "split_loop s [c] (pos + 1) r' = Some (r' @ command_words c b)" for r'
      using less.hyps [of "pos + 1" r'] ab by simp
    have "take (pos - off) (drop off s) = a" using ab(1,3) by simp
    with rest Some show ?thesis
      using ab(2,3) by (subst split_loop.simps) (auto simp: ab(1) command_words_sep)
  qed
qed

text \<open>C13: The command of a child process is cut at its spaces; the arguments are the fields between them,
  without the empty ones, whatever the number and place of the spaces.\<close>

theorem arguments_are_the_words: "split_words s [c] = Some (filter (\<lambda>w. w \<noteq> []) (fields c s))"
  using split_loop_words [of 0 s c "[]"] by (simp add: split_words_def command_words_def)

section \<open>Signals\<close>

text \<open>Waiting for a child with a signal ends as soon as the child has ended, forgets the child, and has
  sent the signal at each of the first fifty turns and SIGKILL at every later one.\<close>

theorem waiting_kills_the_child:
  assumes "fk_pid k \<noteq> 0" "sig \<noteq> -1"
  shows "wait_child sig False (replicate n Still_alive @ Exited c # ws) k =
    Some (1, c, replicate (min n 50) sig @ replicate (n - 50) 9, k\<lparr>fk_pid := 0, fk_command := []\<rparr>)"
proof -
  have "wait_loop sig False cnt (replicate n Still_alive @ Exited c # ws) k =
      Some (1, c, map (\<lambda>i. if i < 50 then sig else 9) [cnt..<cnt + n], k\<lparr>fk_pid := 0, fk_command := []\<rparr>)" for cnt
    using assms(2) by (induction n arbitrary: cnt) (simp_all add: upt_conv_Cons)
  moreover have "map (\<lambda>i. if i < 50 then sig else 9) [0..<n] = replicate (min n 50) sig @ replicate (n - 50) 9"
  proof (cases "n \<le> 50")
    case True
    then show ?thesis by (auto intro: nth_equalityI simp: min_def)
  next
    case False
    then show ?thesis by (intro nth_equalityI) (auto simp: nth_append min_def)
  qed
  ultimately show ?thesis using assms(1) by (simp add: wait_child_def)
qed

lemma waiting_kills_the_child_witness:
  "wait_child 10 False (replicate 52 Still_alive @ [Exited 3]) ((new_forker {})\<lparr>fk_pid := 77\<rparr>) =
    Some (1, 3, replicate 50 10 @ [9, 9], (new_forker {})\<lparr>fk_pid := 0, fk_command := []\<rparr>)"
  using waiting_kills_the_child [of "(new_forker {})\<lparr>fk_pid := 77\<rparr>" 10 52 3 "[]"]
  by (simp add: numeral_2_eq_2)

section \<open>Descriptors\<close>

definition pipes_closed :: "forker \<Rightarrow> bool" where
  "pipes_closed k = list_all (\<lambda>p. \<not> pe_open (fp_reader p) \<and> \<not> pe_open (fp_writer p))
     [fk_stdin k, fk_stdout k, fk_stderr k]"

lemmas pipe_defs = create_pipes_def pipe_create_def on_stdin_def on_stdout_def on_stderr_def pipe_destroy_def
  close_reader_fd_def close_writer_fd_def close_end_def destroy_pipes_def pipes_closed_def Let_def

text \<open>With descriptors that are not in use, creating the pipes, starting the child or failing to, and
  destroying the pipes leaves the descriptors of the process as they were; while the child runs,
  exactly its three ends are open in addition; and when a pipe cannot be created nothing is left open.\<close>

theorem no_descriptor_is_lost:
  assumes "pipes_closed k" "distinct [r1, w1, r2, w2, r3, w3]" "set [r1, w1, r2, w2, r3, w3] \<inter> fk_fds k = {}"
    and "create_pipes (Some (r1, w1)) (Some (r2, w2)) (Some (r3, w3)) k = (True, k')"
    and "do_fork pid command k' = Some (ok, args, k'')"
  shows "fk_fds (destroy_pipes k'') = fk_fds k \<and> (ok \<longrightarrow> fk_fds k'' = fk_fds k \<union> {w1, r2, r3}) \<and>
    fk_fds (snd (create_pipes (Some (r1, w1)) (Some (r2, w2)) None k)) = fk_fds k \<and>
    fk_fds (snd (create_pipes (Some (r1, w1)) None c k)) = fk_fds k"
proof -
  have k': "k' = k\<lparr>fk_stdin := \<lparr>fp_reader = \<lparr>pe_fd = r1, pe_open = True\<rparr>, fp_writer = \<lparr>pe_fd = w1, pe_open = True\<rparr>\<rparr>,
      fk_stdout := \<lparr>fp_reader = \<lparr>pe_fd = r2, pe_open = True\<rparr>, fp_writer = \<lparr>pe_fd = w2, pe_open = True\<rparr>\<rparr>,
      fk_stderr := \<lparr>fp_reader = \<lparr>pe_fd = r3, pe_open = True\<rparr>, fp_writer = \<lparr>pe_fd = w3, pe_open = True\<rparr>\<rparr>,
      fk_fds := fk_fds k \<union> {r1, w1} \<union> {r2, w2} \<union> {r3, w3}\<rparr>"
    using assms(4) by (simp add: pipe_defs)
  consider "command = []" "k'' = k'" "\<not> ok" | "pid < 0" "k'' = destroy_pipes (k'\<lparr>fk_command := command\<rparr>)" "\<not> ok"
    | "k'' = on_stderr close_writer_fd (on_stdout close_writer_fd (on_stdin close_reader_fd
        (k'\<lparr>fk_command := command, fk_pid := pid\<rparr>)))" "ok"
    using assms(5) by (auto simp: do_fork_def Let_def split: if_splits option.splits)
  then have "fk_fds (destroy_pipes k'') = fk_fds k \<and> (ok \<longrightarrow> fk_fds k'' = fk_fds k \<union> {w1, r2, r3})"
    using assms(2,3) by cases (auto simp: k' pipe_defs)
  moreover have "fk_fds (snd (create_pipes (Some (r1, w1)) (Some (r2, w2)) None k)) = fk_fds k"
    "fk_fds (snd (create_pipes (Some (r1, w1)) None c k)) = fk_fds k"
    using assms(2,3) by (auto simp: pipe_defs)
  ultimately show ?thesis by blast
qed

lemma no_descriptor_is_lost_witness:
  "\<exists>k' k''. create_pipes (Some (3, 4)) (Some (5, 6)) (Some (7, 8)) (new_forker {0, 1, 2}) = (True, k') \<and>
     do_fork 77 ''cat a'' k' = Some (True, Some [''cat'', ''a''], k'') \<and> fk_fds k'' = {0, 1, 2, 4, 5, 7} \<and>
     fk_fds (destroy_pipes k'') = {0, 1, 2}"
proof -
  obtain k' where c: "create_pipes (Some (3, 4)) (Some (5, 6)) (Some (7, 8)) (new_forker {0, 1, 2}) = (True, k')"
    by (simp add: pipe_defs)
  have w: "split_words ''cat a'' '' '' = Some [''cat'', ''a'']"
    using split_loop_words [of 0 "''cat a''" "CHR '' ''" "[]"] by (simp add: split_words_def command_words_def)
  then obtain k'' where d: "do_fork 77 ''cat a'' k' = Some (True, Some [''cat'', ''a''], k'')"
    by (simp add: do_fork_def)
  have "pipes_closed (new_forker {0, 1, 2})" by (simp add: pipes_closed_def new_forker_def new_pipe_def)
  from no_descriptor_is_lost [OF this _ _ c d, of None] c d show ?thesis
    by (auto simp: new_forker_def)
qed

end
