(* ===== verification/Buffered_Process.thy ===== *)
theory Buffered_Process
  imports Prelude
begin

text \<open>
  \<open>common/buffered_process.h\<close>, \<open>common/file_buffered_writer.h\<close>, \<open>rec_manager/rec_arib_b25.h\<close> and
  \<open>stream_handler/arib_b25_process.h\<close>: the way of the received stream through a buffer, the
  descrambler and the splitter to a second buffer and a file, or to the standard input of a process.
  The descrambler, the splitter and \<open>fwrite\<close> are not code of the repository: they are parameters.
\<close>

section \<open>The buffer\<close>

text \<open>A process handler reads bytes, changes a state and returns an \<open>int\<close>. Of the buffer, the bytes in
  front of \<open>buffered_pos_\<close>. \<open>None\<close> is a call that does not return.\<close>

type_synonym 's handler = "u8 list \<Rightarrow> 's \<Rightarrow> (int \<times> 's) option"

text \<open>\<open>while (length >= buffer_size_)\<close>: what is left of the argument.\<close>

partial_function (option) put_directly :: "'s handler \<Rightarrow> nat \<Rightarrow> u8 list \<Rightarrow> 's \<Rightarrow> (int \<times> u8 list \<times> 's) option" where
  "put_directly h sz bs s =
    (if length bs \<ge> sz
     then case h (take sz bs) s of
       None \<Rightarrow> None
     | Some (r, s) \<Rightarrow> if r < 0 then Some (r, bs, s) else put_directly h sz (drop sz bs) s
     else Some (0, bs, s))"

definition bp_put :: "'s handler option \<Rightarrow> nat \<Rightarrow> u8 list \<Rightarrow> u8 list \<times> 's \<Rightarrow> (int \<times> u8 list \<times> 's) option" where
  "bp_put process sz bs st =
    (case process of
       None \<Rightarrow> Some (-1, st)
     | Some h \<Rightarrow>
         if length (fst st) + length bs > sz
         then case h (fst st) (snd st) of
           None \<Rightarrow> None
         | Some (r, s) \<Rightarrow>
             if r < 0 then Some (r, fst st, s)
             else (case put_directly h sz bs s of
                None \<Rightarrow> None
              | Some (r, rest, s) \<Rightarrow> if r < 0 then Some (r, [], s) else Some (0, rest, s))
         else Some (0, fst st @ bs, snd st))"

text \<open>\<open>finalize\<close>; the caller does not see the result.\<close>

definition bp_finalize :: "'s handler option \<Rightarrow> u8 list \<times> 's \<Rightarrow> (u8 list \<times> 's) option" where
  "bp_finalize process st =
    (case process of
       None \<Rightarrow> Some st
     | Some h \<Rightarrow>
         if length (fst st) > 0
         then map_option (\<lambda>(r, s). if r < 0 then (fst st, s) else ([], s)) (h (fst st) (snd st))
         else Some st)"

section \<open>The file\<close>

text \<open>\<open>fw n len\<close> is how many of \<open>len\<close> bytes the \<open>n\<close>-th \<open>fwrite\<close> takes; it takes none on an error.
  \<open>of_handler\<close>: the process handler is set.\<close>

record out_file =
  of_open :: bool
  of_handler :: bool
  of_bytes :: "u8 list"
  of_calls :: nat

partial_function (option) fwrite_loop ::
  "(nat \<Rightarrow> nat \<Rightarrow> nat) \<Rightarrow> u8 list \<Rightarrow> nat \<Rightarrow> out_file \<Rightarrow> out_file option" where
  "fwrite_loop fw bs len f =
    (if len > 0
     then let r = min (fw (of_calls f) len) len
          in fwrite_loop fw bs (len - r)
               (f\<lparr>of_bytes := of_bytes f @ take r bs, of_calls := of_calls f + 1\<rparr>)
     else Some f)"

definition writer_process :: "(nat \<Rightarrow> nat \<Rightarrow> nat) \<Rightarrow> out_file handler" where
  "writer_process fw bs f =
    (if \<not> of_open f then Some (-1, f) else map_option (\<lambda>f. (0, f)) (fwrite_loop fw bs (length bs) f))"

abbreviation "WRITER_SIZE \<equiv> 786432 :: nat"

text \<open>The constructor: an empty name or a file that cannot be opened leaves a null pointer, and with a file
  that cannot be opened there is no handler.\<close>

definition new_writer :: "string \<Rightarrow> bool \<Rightarrow> u8 list \<times> out_file" where
  "new_writer name fopen_ok =
    ([], \<lparr>of_open = (name \<noteq> [] \<and> fopen_ok), of_handler = (name = [] \<or> fopen_ok), of_bytes = [], of_calls = 0\<rparr>)"

definition writer_handler :: "(nat \<Rightarrow> nat \<Rightarrow> nat) \<Rightarrow> out_file \<Rightarrow> out_file handler option" where
  "writer_handler fw f = (if of_handler f then Some (writer_process fw) else None)"

definition writer_put :: "(nat \<Rightarrow> nat \<Rightarrow> nat) \<Rightarrow> nat \<Rightarrow> u8 list \<Rightarrow> u8 list \<times> out_file \<Rightarrow>
    (int \<times> u8 list \<times> out_file) option" where
  "writer_put fw sz bs w = bp_put (writer_handler fw (snd w)) sz bs w"

definition writer_flush :: "(nat \<Rightarrow> nat \<Rightarrow> nat) \<Rightarrow> u8 list \<times> out_file \<Rightarrow> (u8 list \<times> out_file) option" where
  "writer_flush fw w = bp_finalize (writer_handler fw (snd w)) w"

section \<open>Descrambler and splitter\<close>

text \<open>\<open>b25\<close>: put and get of the descrambler, \<open>None\<close> when \<open>get\<close> fails; \<open>select\<close> and \<open>split\<close> of the splitter.
  \<open>no_b25\<close>: the descrambler could not be created.\<close>

datatype split_code = TSS_SUCCESS | TSS_ERROR | TSS_NULL

record ('d, 't) b25_env =
  be_b25 :: "u8 list \<Rightarrow> 'd \<Rightarrow> u8 list option \<times> 'd"
  be_select :: "u8 list \<Rightarrow> 't \<Rightarrow> split_code \<times> 't"
  be_split :: "u8 list \<Rightarrow> 't \<Rightarrow> u8 list \<times> 't"
  be_malloc :: bool

record ('d, 't) b25_state =
  bs_b25 :: "'d option"
  bs_use_splitter :: bool
  bs_splitter :: 't
  bs_select :: split_code
  bs_buffer_size :: nat

definition b25_put_get :: "('d, 't) b25_env \<Rightarrow> u8 list \<Rightarrow> ('d, 't) b25_state \<Rightarrow> u8 list \<times> ('d, 't) b25_state" where
  "b25_put_get env bs s =
    (case bs_b25 s of
       None \<Rightarrow> (bs, s)
     | Some d \<Rightarrow> let (out, d) = be_b25 env bs d
         in ((case out of None \<Rightarrow> bs | Some ds \<Rightarrow> ds), s\<lparr>bs_b25 := Some d\<rparr>))"

text \<open>The part with the splitter; \<open>None\<close> is the early return.\<close>

definition split_part :: "('d, 't) b25_env \<Rightarrow> u8 list \<Rightarrow> ('d, 't) b25_state \<Rightarrow> u8 list option \<times> ('d, 't) b25_state" where
  "split_part env bs s =
    (if \<not> bs_use_splitter s then (Some bs, s)
     else if bs_buffer_size s < length bs \<and> \<not> be_malloc env then (None, s\<lparr>bs_buffer_size := 0\<rparr>)
     else let s = (if bs_buffer_size s < length bs then s\<lparr>bs_buffer_size := length bs\<rparr> else s);
              (code, t) = (if bs_select s \<noteq> TSS_SUCCESS then be_select env bs (bs_splitter s)
                           else (bs_select s, bs_splitter s));
              s = s\<lparr>bs_select := code, bs_splitter := t\<rparr>
          in if code \<noteq> TSS_SUCCESS then (None, s)
             else let (out, t) = be_split env bs (bs_splitter s) in (Some out, s\<lparr>bs_splitter := t\<rparr>))"

text \<open>The process handlers of \<open>arib_b25\<close>, which writes to a file, and of \<open>arib_b25_process\<close>, which calls the
  handler it was given (\<open>None\<close>: no handler).\<close>

definition descramble :: "('d, 't) b25_env \<Rightarrow> u8 list \<Rightarrow> ('d, 't) b25_state \<Rightarrow> u8 list option \<times> ('d, 't) b25_state" where
  "descramble env bs s = (let (ds, s) = b25_put_get env bs s in split_part env ds s)"

definition arib_b25_handler ::
  "('d, 't) b25_env \<Rightarrow> (nat \<Rightarrow> nat \<Rightarrow> nat) \<Rightarrow> (('d, 't) b25_state \<times> u8 list \<times> out_file) handler" where
  "arib_b25_handler env fw bs st =
    (if bs = [] then Some (0, st)
     else case descramble env bs (fst st) of
       (None, s) \<Rightarrow> Some (0, s, snd st)
     | (Some ds, s) \<Rightarrow>
         map_option (\<lambda>(r, w). (if r > 0 then r else 0, s, w)) (writer_put fw WRITER_SIZE ds (snd st)))"

definition arib_b25_process_handler ::
  "('d, 't) b25_env \<Rightarrow> (u8 list \<Rightarrow> 's \<Rightarrow> int \<times> 's) option \<Rightarrow> (('d, 't) b25_state \<times> 's) handler" where
  "arib_b25_process_handler env processed bs st =
    (if bs = [] then Some (0, st)
     else case descramble env bs (fst st) of
       (None, s) \<Rightarrow> Some (0, s, snd st)
     | (Some ds, s) \<Rightarrow>
         (case processed of
            None \<Rightarrow> Some (0, s, snd st)
          | Some p \<Rightarrow> let (r, x) = p ds (snd st) in Some (if r < 0 then -1 else 0, s, x)))"

text \<open>The size of the first buffer: at least 512 packets.\<close>

definition b25_buffer_size :: "nat \<Rightarrow> nat" where
  "b25_buffer_size sz = (if sz > 188 * 512 then sz else 188 * 512)"

definition arib_b25_put :: "('d, 't) b25_env \<Rightarrow> (nat \<Rightarrow> nat \<Rightarrow> nat) \<Rightarrow> nat \<Rightarrow> u8 list \<Rightarrow>
    u8 list \<times> ('d, 't) b25_state \<times> u8 list \<times> out_file \<Rightarrow>
    (int \<times> u8 list \<times> ('d, 't) b25_state \<times> u8 list \<times> out_file) option" where
  "arib_b25_put env fw sz bs st = bp_put (Some (arib_b25_handler env fw)) (b25_buffer_size sz) bs st"

definition arib_b25_flush :: "('d, 't) b25_env \<Rightarrow> (nat \<Rightarrow> nat \<Rightarrow> nat) \<Rightarrow>
    u8 list \<times> ('d, 't) b25_state \<times> u8 list \<times> out_file \<Rightarrow>
    (u8 list \<times> ('d, 't) b25_state \<times> u8 list \<times> out_file) option" where
  "arib_b25_flush env fw st =
    (case bp_finalize (Some (arib_b25_handler env fw)) st of
       None \<Rightarrow> None
     | Some (buf, s, w) \<Rightarrow> map_option (\<lambda>w. (buf, s, w)) (writer_flush fw w))"

end
