(* ===== verification/Stream_Handler.thy ===== *)
theory Stream_Handler
  imports Buffered_Process
begin

text \<open>
  \<open>stream_handler/stream_handler.h\<close>: the handler that gives the received stream of a tuner to the
  process that serves a viewing, and the handler that \<open>viewing_manager.cpp\<close> gives it, which writes to
  the standard input of the process.
\<close>

section \<open>Writing to the process\<close>

text \<open>\<open>wr n len\<close> is the result of the \<open>n\<close>-th \<open>write\<close> of \<open>len\<close> bytes; it takes at most \<open>len\<close>. The variable \<open>r\<close>
  of the loop is both the offset and the last result.\<close>

record child_input =
  ci_bytes :: "u8 list"
  ci_calls :: nat

function write_loop :: "(nat \<Rightarrow> nat \<Rightarrow> int) \<Rightarrow> u8 list \<Rightarrow> nat \<Rightarrow> nat \<Rightarrow> child_input \<Rightarrow> int \<times> child_input" where
  "write_loop wr bs r sz c =
    (if sz > 0
     then let n = wr (ci_calls c) sz; c = c\<lparr>ci_calls := ci_calls c + 1\<rparr> in
       if n < 0 then (-1, c)
       else if n = 0 then (0, c)
       else let r' = min (nat n) sz
            in write_loop wr bs r' (sz - r') (c\<lparr>ci_bytes := ci_bytes c @ take r' (drop r bs)\<rparr>)
     else (0, c))"
  by pat_completeness auto
termination by (relation "measure (\<lambda>(wr, bs, r, sz, c). sz)") auto

declare write_loop.simps [simp del]

definition child_write :: "(nat \<Rightarrow> nat \<Rightarrow> int) \<Rightarrow> u8 list \<Rightarrow> child_input \<Rightarrow> int \<times> child_input" where
  "child_write wr bs c = write_loop wr bs 0 (length bs) c"

section \<open>The handler\<close>

datatype stream_progress = SP_init | SP_pre_process | SP_processing | SP_process_end_success
  | SP_process_end_error | SP_post_process | SP_post_process_forcibly

text \<open>\<open>sh_b25\<close> is \<open>b25_\<close> with the input of the process behind it. The notices are sent to the viewing
  manager with the number of the group.\<close>

record ('d, 't) stream_handler =
  sh_progress :: stream_progress
  sh_service_id :: u16
  sh_use_splitter :: bool
  sh_b25 :: "(u8 list \<times> ('d, 't) b25_state \<times> child_input) option"
  sh_notices :: "stream_progress list"

definition new_stream_handler :: "('d, 't) stream_handler" where
  "new_stream_handler = \<lparr>sh_progress = SP_init, sh_service_id = 0, sh_use_splitter = False, sh_b25 = None,
     sh_notices = []\<rparr>"

definition set_stream_next :: "stream_progress \<Rightarrow> ('d, 't) stream_handler \<Rightarrow> ('d, 't) stream_handler" where
  "set_stream_next p sh = sh\<lparr>sh_progress := p\<rparr>"

definition notice_viewing :: "('d, 't) stream_handler \<Rightarrow> ('d, 't) stream_handler" where
  "notice_viewing sh = sh\<lparr>sh_notices := sh_notices sh @ [sh_progress sh]\<rparr>"

definition viewing_put :: "('d, 't) b25_env \<Rightarrow> (nat \<Rightarrow> nat \<Rightarrow> int) \<Rightarrow> u8 list \<Rightarrow>
    u8 list \<times> ('d, 't) b25_state \<times> child_input \<Rightarrow> (int \<times> u8 list \<times> ('d, 't) b25_state \<times> child_input) option" where
  "viewing_put env wr bs st =
    bp_put (Some (arib_b25_process_handler env (Some (child_write wr)))) (b25_buffer_size 8192) bs st"

definition viewing_flush :: "('d, 't) b25_env \<Rightarrow> (nat \<Rightarrow> nat \<Rightarrow> int) \<Rightarrow>
    u8 list \<times> ('d, 't) b25_state \<times> child_input \<Rightarrow> (u8 list \<times> ('d, 't) b25_state \<times> child_input) option" where
  "viewing_flush env wr st = bp_finalize (Some (arib_b25_process_handler env (Some (child_write wr)))) st"

text \<open>The end of the stream: the buffer is flushed to the process, which is told (\<open>served\<close> is what it has
  got in the end), and the descrambler is released.\<close>

definition end_stream :: "('d, 't) b25_env \<Rightarrow> (nat \<Rightarrow> nat \<Rightarrow> int) \<Rightarrow> ('d, 't) stream_handler \<Rightarrow>
    (u8 list \<times> ('d, 't) stream_handler) option" where
  "end_stream env wr sh =
    (case sh_b25 sh of
       None \<Rightarrow> Some ([], sh)
     | Some st \<Rightarrow> map_option (\<lambda>(buf, s, c). (ci_bytes c, sh\<lparr>sh_b25 := None\<rparr>)) (viewing_flush env wr st))"

text \<open>\<open>on_ts_received\<close>; \<open>create\<close> is the descrambler that \<open>arib_b25_process\<close> starts with.\<close>

definition stream_received :: "('d, 't) b25_env \<Rightarrow> (nat \<Rightarrow> nat \<Rightarrow> int) \<Rightarrow> (u16 \<Rightarrow> bool \<Rightarrow> ('d, 't) b25_state) \<Rightarrow>
    u8 list \<Rightarrow> ('d, 't) stream_handler \<Rightarrow> (u8 list \<times> ('d, 't) stream_handler) option" where
  "stream_received env wr create bs sh =
    (case sh_progress sh of
       SP_init \<Rightarrow> Some ([], sh)
     | SP_pre_process \<Rightarrow>
         Some ([], set_stream_next SP_processing (notice_viewing (sh\<lparr>sh_b25 :=
           Some ([], create (sh_service_id sh) (sh_use_splitter sh), \<lparr>ci_bytes = [], ci_calls = 0\<rparr>)\<rparr>)))
     | SP_processing \<Rightarrow>
         (case sh_b25 sh of
            None \<Rightarrow> Some ([], sh)
          | Some st \<Rightarrow> map_option (\<lambda>(r, st). ([], sh\<lparr>sh_b25 := Some st\<rparr>)) (viewing_put env wr bs st))
     | SP_process_end_success \<Rightarrow> Some ([], set_stream_next SP_post_process (notice_viewing sh))
     | SP_process_end_error \<Rightarrow> Some ([], set_stream_next SP_post_process (notice_viewing sh))
     | SP_post_process \<Rightarrow>
         map_option (\<lambda>(bs, sh). (bs, set_stream_next SP_init (notice_viewing sh))) (end_stream env wr sh)
     | SP_post_process_forcibly \<Rightarrow>
         map_option (\<lambda>(bs, sh). (bs, set_stream_next SP_init (notice_viewing sh))) (end_stream env wr sh))"

end
