(* ===== verification/Viewing_Manager.thy ===== *)
theory Viewing_Manager
  imports Stream_Handler Etime
begin

text \<open>
  \<open>viewing_manager/viewing_manager.cpp\<close>: the viewings, one for each tuner, each with the handler of its
  stream and the process that serves it. The replies of the other modules and of the forker are
  arguments; what is sent is recorded. An access outside the arrays is \<open>None\<close>.
\<close>

section \<open>State\<close>

abbreviation "GROUP_NUM \<equiv> 4 :: nat"

record viewing_entry =
  ve_tsid :: u16
  ve_nid :: u16
  ve_svc :: u16
  ve_event_id :: u16
  ve_start :: timespec
  ve_end :: timespec
  ve_title :: string
  ve_name :: string
  ve_auto_stop :: bool
  ve_auto_stop_time :: timespec
  ve_group :: u8
  ve_used :: bool

definition cleared_viewing :: viewing_entry where
  "cleared_viewing = \<lparr>ve_tsid = 0, ve_nid = 0, ve_svc = 0, ve_event_id = 0, ve_start = etime_clear,
     ve_end = etime_clear, ve_title = [], ve_name = [], ve_auto_stop = False, ve_auto_stop_time = etime_clear,
     ve_group = 0xff, ve_used = False\<rparr>"

text \<open>\<open>entry::set\<close>; a null service name leaves the name as it is.\<close>

definition viewing_set :: "u16 \<times> u16 \<times> u16 \<Rightarrow> u16 \<Rightarrow> timespec \<Rightarrow> timespec \<Rightarrow> string \<Rightarrow> string option \<Rightarrow> u8 \<Rightarrow>
    viewing_entry \<Rightarrow> viewing_entry" where
  "viewing_set k ev start end_time title name gr v =
    (case k of (ts, nid, svc) \<Rightarrow>
      v\<lparr>ve_tsid := ts, ve_nid := nid, ve_svc := svc, ve_event_id := ev, ve_start := start, ve_end := end_time,
        ve_title := title, ve_name := (case name of None \<Rightarrow> ve_name v | Some n \<Rightarrow> n),
        ve_group := gr, ve_used := True\<rparr>)"

datatype viewing_msg = Send_stop_viewing u8 | Send_tuner_stop u8 | Send_tuner_close u8 | Send_event_changed u8
  | Clean_dir u8

text \<open>Of the forker of a group, whether it has a child and whether its pipes are open.\<close>

record ('d, 't) viewing_manager =
  vm_viewings :: "viewing_entry list"
  vm_streams :: "('d, 't) stream_handler list"
  vm_child :: "bool list"
  vm_pipes :: "bool list"
  vm_tuners :: int
  vm_sent :: "viewing_msg list"

definition new_viewing_manager :: "int \<Rightarrow> ('d, 't) viewing_manager" where
  "new_viewing_manager tuners = \<lparr>vm_viewings = replicate GROUP_NUM cleared_viewing,
     vm_streams = replicate GROUP_NUM new_stream_handler, vm_child = replicate GROUP_NUM False,
     vm_pipes = replicate GROUP_NUM False, vm_tuners = tuners, vm_sent = []\<rparr>"

definition vm_send :: "viewing_msg list \<Rightarrow> ('d, 't) viewing_manager \<Rightarrow> ('d, 't) viewing_manager" where
  "vm_send ms m = m\<lparr>vm_sent := vm_sent m @ ms\<rparr>"

definition set_viewing :: "nat \<Rightarrow> viewing_entry \<Rightarrow> ('d, 't) viewing_manager \<Rightarrow> ('d, 't) viewing_manager" where
  "set_viewing g v m = m\<lparr>vm_viewings := (vm_viewings m)[g := v]\<rparr>"

definition set_stream_progress :: "nat \<Rightarrow> stream_progress \<Rightarrow> ('d, 't) viewing_manager \<Rightarrow> ('d, 't) viewing_manager" where
  "set_stream_progress g p m = m\<lparr>vm_streams := (vm_streams m)[g := set_stream_next p (vm_streams m ! g)]\<rparr>"

definition set_pipes :: "nat \<Rightarrow> bool \<Rightarrow> ('d, 't) viewing_manager \<Rightarrow> ('d, 't) viewing_manager" where
  "set_pipes g b m = m\<lparr>vm_pipes := (vm_pipes m)[g := b]\<rparr>"

definition set_child :: "nat \<Rightarrow> bool \<Rightarrow> ('d, 't) viewing_manager \<Rightarrow> ('d, 't) viewing_manager" where
  "set_child g b m = m\<lparr>vm_child := (vm_child m)[g := b]\<rparr>"

section \<open>Starting\<close>

record present_info =
  pi_key :: "u16 \<times> u16 \<times> u16"
  pi_event_id :: u16
  pi_start :: timespec
  pi_end :: timespec
  pi_name :: string

datatype start_request = By_physical_channel u16 int | By_service_id "u16 \<times> u16 \<times> u16" | Unexpected_request

text \<open>The replies, in the order of the requests; \<open>None\<close> and \<open>False\<close> are errors.\<close>

record view_answers =
  va_service :: "(u16 \<times> u16 \<times> u16) option"
  va_channel :: "u16 option"
  va_open :: "u8 option"
  va_tune :: bool
  va_present :: "nat \<Rightarrow> present_info option"
  va_name :: "string option"
  va_pipes :: bool
  va_fork :: bool
  va_splitter :: bool

definition start_error :: "u8 \<Rightarrow> ('d, 't) viewing_manager \<Rightarrow> (u8 option \<times> ('d, 't) viewing_manager) option" where
  "start_error gr m =
    Some (None, if unat gr < GROUP_NUM
      then vm_send [Send_tuner_stop gr, Send_tuner_close gr] (set_viewing (unat gr) cleared_viewing m) else m)"

text \<open>The service and the channel of the request.\<close>

definition requested :: "view_answers \<Rightarrow> start_request \<Rightarrow> ((u16 \<times> u16 \<times> u16) \<times> u16) option" where
  "requested a req =
    (case req of
       By_physical_channel ch idx \<Rightarrow> map_option (\<lambda>k. (k, ch)) (va_service a)
     | By_service_id k \<Rightarrow> map_option (\<lambda>ch. (k, ch)) (va_channel a)
     | Unexpected_request \<Rightarrow> None)"

fun ask_present_info :: "(nat \<Rightarrow> present_info option) \<Rightarrow> nat list \<Rightarrow> present_info option" where
  "ask_present_info answer [] = None"
| "ask_present_info answer (retry # rest) =
    (case answer retry of Some e \<Rightarrow> Some e | None \<Rightarrow> ask_present_info answer rest)"

definition start_serving :: "view_answers \<Rightarrow> u16 \<times> u16 \<times> u16 \<Rightarrow> present_info \<Rightarrow> u8 \<Rightarrow> ('d, 't) viewing_manager \<Rightarrow>
    (u8 option \<times> ('d, 't) viewing_manager) option" where
  "start_serving a k e gr m =
    (let g = unat gr;
         m = set_viewing g (viewing_set k (pi_event_id e) (pi_start e) (pi_end e) (pi_name e) (va_name a) gr
           (vm_viewings m ! g)) m
     in if sh_progress (vm_streams m ! g) \<noteq> SP_init then start_error gr m
        else if \<not> va_pipes a then start_error gr (set_pipes g False m)
        else if \<not> va_fork a then start_error gr (set_pipes g False m)
        else
          let m = set_child g True (set_pipes g True m);
              sh = (vm_streams m ! g)\<lparr>sh_service_id := ve_svc (vm_viewings m ! g), sh_use_splitter := va_splitter a\<rparr>
          in Some (Some gr, m\<lparr>vm_streams := (vm_streams m)[g := set_stream_next SP_pre_process sh]\<rparr>))"

definition on_start_viewing :: "view_answers \<Rightarrow> start_request \<Rightarrow> ('d, 't) viewing_manager \<Rightarrow>
    (u8 option \<times> ('d, 't) viewing_manager) option" where
  "on_start_viewing a req m =
    (case requested a req of
       None \<Rightarrow> start_error 0xff m
     | Some (k, ch) \<Rightarrow>
         (case va_open a of
            None \<Rightarrow> start_error 0xff m
          | Some gr \<Rightarrow>
              if \<not> unat gr < GROUP_NUM then None
              else
                let m = (if ve_used (vm_viewings m ! unat gr) then set_viewing (unat gr) cleared_viewing m else m)
                in if \<not> va_tune a then start_error gr m
                   else (case ask_present_info (va_present a) [0..<11] of
                      None \<Rightarrow> start_error gr m
                    | Some e \<Rightarrow> start_serving a k e gr m)))"

section \<open>Running and ending\<close>

definition on_stop_viewing :: "u8 \<Rightarrow> ('d, 't) viewing_manager \<Rightarrow> (bool \<times> ('d, 't) viewing_manager) option" where
  "on_stop_viewing gr m =
    (if uint gr \<ge> vm_tuners m then Some (False, m)
     else if \<not> unat gr < GROUP_NUM then None
     else if ve_used (vm_viewings m ! unat gr)
     then Some (True, set_stream_progress (unat gr) SP_process_end_success m)
     else Some (False, m))"

text \<open>\<open>on_set_option\<close>; \<open>t\<close> is the clock.\<close>

definition on_set_option :: "timespec \<Rightarrow> u8 \<Rightarrow> int \<Rightarrow> ('d, 't) viewing_manager \<Rightarrow> (bool \<times> ('d, 't) viewing_manager) option" where
  "on_set_option t gr sec m =
    (if uint gr \<ge> vm_tuners m then Some (False, m)
     else if \<not> unat gr < GROUP_NUM then None
     else if ve_used (vm_viewings m ! unat gr) \<and> sec > 0
     then Some (True, set_viewing (unat gr) ((vm_viewings m ! unat gr)
            \<lparr>ve_auto_stop := True, ve_auto_stop_time := add_sec sec t\<rparr>) m)
     else Some (True, m))"

text \<open>\<open>on_notice_by_stream_handler\<close>; the group is one of the handlers.\<close>

definition on_notice_by_stream_handler :: "stream_progress \<Rightarrow> u8 \<Rightarrow> ('d, 't) viewing_manager \<Rightarrow> ('d, 't) viewing_manager" where
  "on_notice_by_stream_handler p gr m =
    (if p = SP_post_process \<or> p = SP_post_process_forcibly
     then let g = unat gr;
              m = set_pipes g False (set_child g False m);
              m = set_viewing g cleared_viewing m
          in vm_send [Clean_dir gr, Send_tuner_stop gr, Send_tuner_close gr] m
     else m)"

text \<open>A turn of the loop of \<open>on_check_loop\<close>: the viewings whose time has come, and the children;
  \<open>ended\<close> says for each group whether the child has ended.\<close>

definition check_auto_stop :: "timespec \<Rightarrow> nat \<Rightarrow> ('d, 't) viewing_manager \<Rightarrow> ('d, 't) viewing_manager" where
  "check_auto_stop t i m =
    (let v = vm_viewings m ! i in
     if ve_used v \<and> ve_auto_stop v \<and> etime_le (ve_auto_stop_time v) t
     then vm_send [Send_stop_viewing (ve_group v)] m else m)"

definition check_child :: "(nat \<Rightarrow> bool) \<Rightarrow> nat \<Rightarrow> ('d, 't) viewing_manager \<Rightarrow> ('d, 't) viewing_manager" where
  "check_child ended i m =
    (if \<not> vm_child m ! i then m
     else if ended i then set_stream_progress i SP_post_process_forcibly (set_child i False m)
     else m)"

definition viewing_check_turn :: "timespec \<Rightarrow> (nat \<Rightarrow> bool) \<Rightarrow> ('d, 't) viewing_manager \<Rightarrow> ('d, 't) viewing_manager" where
  "viewing_check_turn t ended m =
    fold (check_child ended) [0..<GROUP_NUM] (fold (check_auto_stop t) [0..<GROUP_NUM] m)"

text \<open>\<open>on_event_changed\<close>: \<open>ask\<close> is the reply of the PSI/SI manager of the group to the service it is asked for.\<close>

definition on_event_changed :: "(u16 \<times> u16 \<times> u16 \<Rightarrow> present_info option) \<Rightarrow> u8 \<Rightarrow> ('d, 't) viewing_manager \<Rightarrow>
    ('d, 't) viewing_manager option" where
  "on_event_changed ask gr m =
    (if \<not> unat gr < GROUP_NUM then None
     else if \<not> ve_used (vm_viewings m ! unat gr) then Some m
     else
       let v0 = vm_viewings m ! 0 in
       case ask (ve_tsid v0, ve_nid v0, ve_svc v0) of
         None \<Rightarrow> Some m
       | Some e \<Rightarrow> Some (set_viewing (unat gr) ((vm_viewings m ! unat gr)
           \<lparr>ve_event_id := pi_event_id e, ve_start := pi_start e, ve_end := pi_end e, ve_title := pi_name e\<rparr>) m))"

text \<open>\<open>on_receive_notify\<close>: the PAT is not found any more in the stream of a group, and the event of a service
  changes. The handler is called with no data.\<close>

definition on_pat_not_detected :: "('d, 't) b25_env \<Rightarrow> (nat \<Rightarrow> nat \<Rightarrow> int) \<Rightarrow> (u16 \<Rightarrow> bool \<Rightarrow> ('d, 't) b25_state) \<Rightarrow>
    nat \<Rightarrow> ('d, 't) viewing_manager \<Rightarrow> ('d, 't) viewing_manager option" where
  "on_pat_not_detected env wr create g m =
    (if ve_used (vm_viewings m ! g)
     then let m = set_stream_progress g SP_post_process_forcibly m in
       map_option (\<lambda>(out, sh). m\<lparr>vm_streams := (vm_streams m)[g := sh]\<rparr>)
         (stream_received env wr create [] (vm_streams m ! g))
     else Some m)"

definition on_event_change_notify :: "u8 \<Rightarrow> ('d, 't) viewing_manager \<Rightarrow> ('d, 't) viewing_manager" where
  "on_event_change_notify gr m = vm_send [Send_event_changed gr] m"

end
