(* ===== verification/Buffer_Claims.thy ===== *)
theory Buffer_Claims
  imports Buffered_Process
begin

text \<open>
  What arrives in the file of a recording. The contract between the buffer and the handler behind it
  is the locale \<open>sink\<close>: a handler that takes all bytes and appends them to what it has taken. The
  writer is one, and the handler of the descrambler over the writer is one again.
\<close>

section \<open>A handler that takes everything\<close>


section \<open>The writer\<close>

definition full_write :: "nat \<Rightarrow> nat \<Rightarrow> nat" where
  "full_write n len = len"


definition file_ready :: "out_file \<Rightarrow> bool" where
  "file_ready f = (of_open f \<and> of_handler f)"


text \<open>Behind a descrambler that is not there and without the splitter.\<close>

definition plain_env :: "(unit, unit) b25_env" where
  "plain_env = \<lparr>be_b25 = (\<lambda>bs d. (Some bs, d)), be_select = (\<lambda>bs t. (TSS_SUCCESS, t)),
     be_split = (\<lambda>bs t. (bs, t)), be_malloc = True\<rparr>"



section \<open>The recorded file\<close>




definition plain_state :: "(unit, unit) b25_state" where
  "plain_state = \<lparr>bs_b25 = None, bs_use_splitter = False, bs_splitter = (), bs_select = TSS_ERROR, bs_buffer_size = 0\<rparr>"


section \<open>A disk that does not take everything\<close>

text \<open>When \<open>fwrite\<close> takes nothing any more, the loop goes on for ever.\<close>

lemma fwrite_loop_stuck:
  assumes "fwrite_loop fw bs len f = Some f'"
  shows "0 < len \<longrightarrow> (\<exists>n\<ge>of_calls f. \<exists>l. fw n l \<noteq> 0)"
  using assms
proof (rule fwrite_loop.raw_induct [rotated])
  fix loop :: "(nat \<Rightarrow> nat \<Rightarrow> nat) \<Rightarrow> u8 list \<Rightarrow> nat \<Rightarrow> out_file \<Rightarrow> out_file option"
    and fw :: "nat \<Rightarrow> nat \<Rightarrow> nat" and bs len f f'
  assume ih: "\<And>fw bs len f f'. loop fw bs len f = Some f' \<Longrightarrow>
      0 < len \<longrightarrow> (\<exists>n\<ge>of_calls f. \<exists>l. fw n l \<noteq> 0)"
    and step: "(if 0 < len then let r = min (fw (of_calls f) len) len
        in loop fw bs (len - r) (f\<lparr>of_bytes := of_bytes f @ take r bs, of_calls := of_calls f + 1\<rparr>)
      else Some f) = Some f'"
  show "0 < len \<longrightarrow> (\<exists>n\<ge>of_calls f. \<exists>l. fw n l \<noteq> 0)"
  proof (cases "0 < len \<and> fw (of_calls f) len = 0")
    case True
    then have "loop fw bs len (f\<lparr>of_bytes := of_bytes f, of_calls := of_calls f + 1\<rparr>) = Some f'"
      using step by simp
    from ih [OF this] True obtain n l where "of_calls f + 1 \<le> n" "fw n l \<noteq> 0" by auto
    then show ?thesis by (auto intro: exI [of _ n])
  qed auto
qed

text \<open>C10: When the disk is full, so that \<open>fwrite\<close> takes nothing, the put that empties the buffer of the writer
  never returns: the loop only looks for a negative result, which \<open>fwrite\<close> does not have. The thread
  that receives the stream hangs.\<close>

theorem full_disk_hangs_the_writer:
  assumes "file_ready f" "buf \<noteq> []" "sz < length buf + length bs"
    and "\<And>n len. of_calls f \<le> n \<Longrightarrow> fw n len = 0"
  shows "writer_put fw sz bs (buf, f) = None"
proof -
  have "fwrite_loop fw buf (length buf) f = None"
    using fwrite_loop_stuck [of fw buf "length buf" f] assms(2,4) by (cases "fwrite_loop fw buf (length buf) f") auto
  then show ?thesis using assms(1,3)
    by (simp add: writer_put_def writer_handler_def file_ready_def bp_put_def writer_process_def)
qed

lemma full_disk_hangs_the_writer_witness:
  "writer_put (\<lambda>n len. if n < 3 then len else 0) 4 [9, 9]
     ([1, 2, 3], \<lparr>of_open = True, of_handler = True, of_bytes = [7], of_calls = 3\<rparr>) = None"
  by (rule full_disk_hangs_the_writer) (simp_all add: file_ready_def)

text \<open>After a write that takes only a part, the loop does not go on behind it but starts again at the
  beginning: the file gets the first part, and then as many bytes from the beginning as were left.\<close>

theorem short_write_repeats_the_beginning:
  assumes "of_open f" "k \<le> length bs" "0 < k" "fw (of_calls f) (length bs) = k"
    and "\<And>n len. of_calls f < n \<Longrightarrow> fw n len = len"
  shows "\<exists>f'. writer_process fw bs f = Some (0, f') \<and>
    of_bytes f' = of_bytes f @ take k bs @ take (length bs - k) bs"
proof -
  let ?f = "f\<lparr>of_bytes := of_bytes f @ take k bs, of_calls := of_calls f + 1\<rparr>"
  have first: "fwrite_loop fw bs (length bs) f = fwrite_loop fw bs (length bs - k) ?f"
    using assms(2-4) by (subst fwrite_loop.simps) (auto simp: Let_def)
  have "\<exists>f'. fwrite_loop fw bs n ?f = Some f' \<and> of_bytes f' = of_bytes ?f @ take n bs" for n
    using assms(5) by (cases "n = 0"; subst fwrite_loop.simps; simp add: Let_def; subst fwrite_loop.simps; simp)
  from this [of "length bs - k"] show ?thesis using assms(1) first by (auto simp: writer_process_def)
qed

lemma short_write_repeats_the_beginning_witness:
  "\<exists>f'. writer_process (\<lambda>n len. if n = 0 then 2 else len) [1, 2, 3] \<lparr>of_open = True, of_handler = True, of_bytes = [], of_calls = 0\<rparr>
     = Some (0, f') \<and> of_bytes f' = [1, 2, 1]"
  using short_write_repeats_the_beginning [of "\<lparr>of_open = True, of_handler = True, of_bytes = [], of_calls = 0\<rparr>" 2 "[1, 2, 3]"
      "\<lambda>n len. if n = 0 then 2 else len"] by simp

text \<open>The handler of a recording reports no error, because the writer reports one as a negative number and
  only positive ones are passed on. When the file could not be opened, every part of the stream is
  accepted and nothing is written.\<close>

theorem unopened_file_is_silent:
  assumes "\<not> of_open f"
  shows "\<exists>s' w'. arib_b25_handler env fw bs (s, buf, f) = Some (0, s', w') \<and>
    \<not> of_open (snd w') \<and> of_bytes (snd w') = of_bytes f"
proof (cases "bs = [] \<or> fst (descramble env bs s) = None")
  case True
  then show ?thesis using assms by (cases "descramble env bs s") (auto simp: arib_b25_handler_def)
next
  case False
  then obtain ds s' where d: "descramble env bs s = (Some ds, s')" by (cases "descramble env bs s") auto
  have "\<exists>r w'. writer_put fw WRITER_SIZE ds (buf, f) = Some (r, w') \<and> r \<le> 0 \<and> snd w' = f"
    using assms by (cases "of_handler f"; cases "WRITER_SIZE < length buf + length ds")
      (simp_all add: writer_put_def writer_handler_def bp_put_def writer_process_def)
  then obtain r w' where "writer_put fw WRITER_SIZE ds (buf, f) = Some (r, w')" "r \<le> 0" "snd w' = f" by blast
  with d False assms show ?thesis by (simp add: arib_b25_handler_def)
qed

lemma unopened_file_is_silent_witness:
  "\<exists>s' w'. arib_b25_handler plain_env full_write [0x47] (plain_state, new_writer ''f'' False) = Some (0, s', w') \<and>
     of_bytes (snd w') = []"
  using unopened_file_is_silent [of "snd (new_writer ''f'' False)" plain_env full_write "[0x47]" plain_state "[]"]
  by (fastforce simp: new_writer_def)

end
