(* ===== verification/Stream_Claims.thy ===== *)
theory Stream_Claims
  imports Stream_Handler Buffer_Claims
begin

text \<open>
  What the process that serves a viewing gets: the stream between the start and the end, and what
  becomes of it when a write takes only a part.
\<close>

section \<open>A process that takes everything\<close>










text \<open>The offset of the third write is the length of the second one, not of both: when the first two
  writes take only a part, the process gets bytes again that it has already got.\<close>

theorem third_write_goes_back:
  assumes "0 < k" "0 < l" "k + l < length bs"
    and "wr (ci_calls c) (length bs) = int k" "wr (ci_calls c + 1) (length bs - k) = int l"
    and "wr (ci_calls c + 2) (length bs - k - l) = int (length bs - k - l)"
  shows "\<exists>c'. child_write wr bs c = (0, c') \<and>
    ci_bytes c' = ci_bytes c @ take (k + l) bs @ take (length bs - (k + l)) (drop l bs)"
proof -
  have parts: "take l (drop k bs) = drop k (take (k + l) bs)" by (simp add: take_drop add.commute)
  have "take k bs @ drop k (take (k + l) bs) = take (k + l) bs"
    by (metis append_take_drop_id le_add1 min.absorb1 take_take)
  moreover obtain m where m: "length bs = k + l + m" "0 < m" using assms(3) by (metis less_imp_add_positive)
  moreover have "wr (ci_calls c) (k + l + m) = int k" "wr (Suc (ci_calls c)) (l + m) = int l"
    "wr (Suc (Suc (ci_calls c))) m = int m"
    using assms(4-6) by (simp_all add: m)
  ultimately show ?thesis using assms(1,2)
    by (subst child_write_def, subst write_loop.simps, subst write_loop.simps, subst write_loop.simps,
        subst write_loop.simps) (simp add: Let_def parts)
qed

lemma third_write_goes_back_witness:
  "\<exists>c'. child_write (\<lambda>n len. if n < 2 then 1 else int len) [1, 2, 3, 4] \<lparr>ci_bytes = [], ci_calls = 0\<rparr> = (0, c') \<and>
     ci_bytes c' = [1, 2, 2, 3]"
  using third_write_goes_back [of 1 1 "[1, 2, 3, 4]" "\<lambda>n len. if n < 2 then 1 else int len" "\<lparr>ci_bytes = [], ci_calls = 0\<rparr>"]
  by (auto simp: numeral_2_eq_2)

end
