(* ===== verification/Viewing_Claims.thy ===== *)
theory Viewing_Claims
  imports Viewing_Manager Stream_Claims
begin

text \<open>
  What is promised of the viewings: the state over all requests, what a failed start and an ended
  viewing give back, which viewings are stopped by the clock, and where the code looks at the wrong
  viewing.
\<close>

section \<open>The state\<close>

definition viewings_ok :: "('d, 't) viewing_manager \<Rightarrow> bool" where
  "viewings_ok m = (length (vm_viewings m) = GROUP_NUM \<and> length (vm_streams m) = GROUP_NUM \<and>
     length (vm_child m) = GROUP_NUM \<and> length (vm_pipes m) = GROUP_NUM \<and>
     (\<forall>g<GROUP_NUM. ve_group (vm_viewings m ! g) = (if ve_used (vm_viewings m ! g) then word_of_nat g else 0xff)))"

definition viewing_fits :: "nat \<Rightarrow> viewing_entry \<Rightarrow> bool" where
  "viewing_fits g v = (ve_group v = (if ve_used v then word_of_nat g else 0xff))"

lemma nth_update_below: "j < length xs \<Longrightarrow> xs[i := x] ! j = (if i = j then x else xs ! j)"
  by (auto simp: nth_list_update)

lemma ok_set_viewing [simp]:
  "\<lbrakk>viewings_ok m; viewing_fits g v\<rbrakk> \<Longrightarrow> viewings_ok (set_viewing g v m)"
  by (simp add: viewings_ok_def set_viewing_def viewing_fits_def nth_update_below)

lemma ok_cleared [simp]: "viewing_fits g cleared_viewing"
  by (simp add: viewing_fits_def cleared_viewing_def)

lemma ok_frames [simp]:
  "viewings_ok (vm_send ms m) = viewings_ok m"
  "viewings_ok (m\<lparr>vm_streams := (vm_streams m)[g := sh]\<rparr>) = viewings_ok m"
  "viewings_ok (set_stream_progress g p m) = viewings_ok m" "viewings_ok (set_child g b m) = viewings_ok m"
  "viewings_ok (set_pipes g b m) = viewings_ok m"
  by (simp_all add: viewings_ok_def vm_send_def set_stream_progress_def set_child_def set_pipes_def)

lemma viewing_simps [simp]:
  "vm_child (set_viewing g v m) = vm_child m" "vm_streams (set_viewing g v m) = vm_streams m"
  "vm_pipes (set_viewing g v m) = vm_pipes m" "vm_sent (set_viewing g v m) = vm_sent m"
  "vm_viewings (set_viewing g v m) = (vm_viewings m)[g := v]"
  "vm_viewings (vm_send ms m) = vm_viewings m" "vm_child (vm_send ms m) = vm_child m"
  "vm_streams (vm_send ms m) = vm_streams m" "vm_sent (vm_send ms m) = vm_sent m @ ms"
  "vm_pipes (vm_send ms m) = vm_pipes m" "vm_tuners (vm_send ms m) = vm_tuners m"
  "vm_viewings (set_pipes g b m) = vm_viewings m" "vm_child (set_pipes g b m) = vm_child m"
  "vm_streams (set_pipes g b m) = vm_streams m" "vm_sent (set_pipes g b m) = vm_sent m"
  "vm_viewings (set_child g b m) = vm_viewings m" "vm_child (set_child g b m) = (vm_child m)[g := b]"
  "vm_streams (set_child g b m) = vm_streams m" "vm_sent (set_child g b m) = vm_sent m"
  "vm_pipes (set_child g b m) = vm_pipes m" "vm_pipes (set_pipes g b m) = (vm_pipes m)[g := b]"
  "vm_viewings (set_stream_progress g p m) = vm_viewings m" "vm_child (set_stream_progress g p m) = vm_child m"
  "vm_sent (set_stream_progress g p m) = vm_sent m" "vm_pipes (set_stream_progress g p m) = vm_pipes m"
  "vm_streams (set_stream_progress g p m) = (vm_streams m)[g := set_stream_next p (vm_streams m ! g)]"
  by (simp_all add: set_viewing_def vm_send_def set_pipes_def set_child_def set_stream_progress_def)

lemma ok_streams [simp]: "\<lbrakk>viewings_ok m; length shs = GROUP_NUM\<rbrakk> \<Longrightarrow> viewings_ok (m\<lparr>vm_streams := shs\<rparr>)"
  by (simp add: viewings_ok_def)

lemma ok_length [simp]: "viewings_ok m \<Longrightarrow> length (vm_streams m) = GROUP_NUM"
  by (simp add: viewings_ok_def)

section \<open>A start that fails\<close>

lemma start_error_result:
  "start_error gr m = Some (r, m') \<longleftrightarrow> r = None \<and> m' = (if unat gr < GROUP_NUM
      then vm_send [Send_tuner_stop gr, Send_tuner_close gr] (set_viewing (unat gr) cleared_viewing m) else m)"
  by (auto simp: start_error_def)

lemma set_viewing_twice [simp]: "set_viewing g v (set_viewing g w m) = set_viewing g v m"
  by (simp add: set_viewing_def)

lemma set_viewing_pipes [simp]: "set_viewing g v (set_pipes h b m) = set_pipes h b (set_viewing g v m)"
  by (simp add: set_viewing_def set_pipes_def)

lemma start_serving_cases:
  assumes "start_serving a k e gr m = Some (r, m')" "unat gr < GROUP_NUM"
  obtains (failed) "r = None" "m' = vm_send [Send_tuner_stop gr, Send_tuner_close gr] (set_viewing (unat gr) cleared_viewing m) \<or>
      m' = set_pipes (unat gr) False (vm_send [Send_tuner_stop gr, Send_tuner_close gr] (set_viewing (unat gr) cleared_viewing m)) \<and>
        sh_progress (vm_streams m ! unat gr) = SP_init"
    | (served) sh where "r = Some gr" "sh_progress (vm_streams m ! unat gr) = SP_init" "sh_progress sh = SP_pre_process"
      "m' = (set_child (unat gr) True (set_pipes (unat gr) True (set_viewing (unat gr)
        (viewing_set k (pi_event_id e) (pi_start e) (pi_end e) (pi_name e) (va_name a) gr (vm_viewings m ! unat gr)) m)))
          \<lparr>vm_streams := (vm_streams m)[unat gr := sh]\<rparr>"
proof -
  have swap: "vm_send ms (set_pipes g b n) = set_pipes g b (vm_send ms n)" for ms g b n
    by (simp add: vm_send_def set_pipes_def)
  show ?thesis
  proof (cases "sh_progress (vm_streams m ! unat gr) \<noteq> SP_init \<or> \<not> va_pipes a \<or> \<not> va_fork a")
    case True
    then show ?thesis using assms
      by (intro failed) (auto simp: start_serving_def start_error_result Let_def swap split: if_splits)
  next
    case False
    let ?v = "viewing_set k (pi_event_id e) (pi_start e) (pi_end e) (pi_name e) (va_name a) gr (vm_viewings m ! unat gr)"
    let ?n = "set_viewing (unat gr) ?v m"
    from False assms(1) show ?thesis
      by (intro served [of "set_stream_next SP_pre_process ((vm_streams ?n ! unat gr)
          \<lparr>sh_service_id := ve_svc (vm_viewings ?n ! unat gr), sh_use_splitter := va_splitter a\<rparr>)"])
        (simp_all add: start_serving_def Let_def set_stream_next_def)
  qed
qed

definition granted_tuner :: "view_answers \<Rightarrow> start_request \<Rightarrow> u8 option" where
  "granted_tuner a req = (if requested a req = None then None else va_open a)"

lemma start_cases:
  assumes "on_start_viewing a req m = Some (r, m')"
  obtains (refused) "granted_tuner a req = None" "r = None" "m' = m"
    | (failed) gr where "granted_tuner a req = Some gr" "unat gr < GROUP_NUM" "r = None"
      "m' = vm_send [Send_tuner_stop gr, Send_tuner_close gr] (set_viewing (unat gr) cleared_viewing m) \<or>
       m' = set_pipes (unat gr) False (vm_send [Send_tuner_stop gr, Send_tuner_close gr] (set_viewing (unat gr) cleared_viewing m)) \<and>
         sh_progress (vm_streams m ! unat gr) = SP_init"
    | (served) gr k ch e v sh where "granted_tuner a req = Some gr" "unat gr < GROUP_NUM" "r = Some gr"
      "requested a req = Some (k, ch)" "ask_present_info (va_present a) [0..<11] = Some e" "va_tune a"
      "sh_progress (vm_streams m ! unat gr) = SP_init" "sh_progress sh = SP_pre_process"
      "m' = (set_child (unat gr) True (set_pipes (unat gr) True (set_viewing (unat gr)
        (viewing_set k (pi_event_id e) (pi_start e) (pi_end e) (pi_name e) (va_name a) gr v) m)))
          \<lparr>vm_streams := (vm_streams m)[unat gr := sh]\<rparr>"
proof (cases "granted_tuner a req")
  case None
  then show ?thesis using assms
    by (intro refused) (auto simp: granted_tuner_def on_start_viewing_def start_error_result split: option.splits if_splits)
next
  case (Some gr)
  then obtain k ch where req: "requested a req = Some (k, ch)" "va_open a = Some gr"
    by (auto simp: granted_tuner_def split: if_splits)
  let ?m = "if ve_used (vm_viewings m ! unat gr) then set_viewing (unat gr) cleared_viewing m else m"
  have lt: "unat gr < GROUP_NUM" using assms req by (simp add: on_start_viewing_def split: if_splits)
  have same: "set_viewing (unat gr) v ?m = set_viewing (unat gr) v m" "vm_streams ?m = vm_streams m" for v by simp_all
  consider "start_error gr ?m = Some (r, m')"
    | e where "va_tune a" "ask_present_info (va_present a) [0..<11] = Some e" "start_serving a k e gr ?m = Some (r, m')"
    using assms req lt by (auto simp: on_start_viewing_def Let_def split: if_splits option.splits)
  then show ?thesis
  proof cases
    case 1
    then show ?thesis using Some lt by (intro failed) (auto simp: start_error_result)
  next
    case (2 e)
    from 2(3) lt show ?thesis
    proof (cases rule: start_serving_cases)
      case failed
      then show ?thesis using Some lt by (intro that(2)) (simp_all only: same)
    next
      case (served sh)
      then show ?thesis using Some lt req 2
        by (intro that(3) [where gr = gr and k = k and ch = ch and e = e and v = "vm_viewings ?m ! unat gr" and sh = sh]) (simp_all only: same)
    qed
  qed
qed

text \<open>A start that fails leaves nothing behind: when no tuner was given to it, nothing has changed; else
  the viewing of the tuner is cleared and the tuner stopped and closed, once, and the processes and
  the streams of all groups are as before.\<close>

theorem failed_start_leaves_nothing:
  assumes "on_start_viewing a req m = Some (None, m')"
  shows "vm_child m' = vm_child m \<and> vm_streams m' = vm_streams m \<and>
    (case granted_tuner a req of
       None \<Rightarrow> m' = m
     | Some gr \<Rightarrow> vm_viewings m' = (vm_viewings m)[unat gr := cleared_viewing] \<and>
         vm_sent m' = vm_sent m @ [Send_tuner_stop gr, Send_tuner_close gr])"
  using assms by (cases rule: start_cases) auto

definition sample_answers :: view_answers where
  "sample_answers = \<lparr>va_service = Some (1, 2, 3), va_channel = Some 27, va_open = Some 1, va_tune = True,
     va_present = (\<lambda>n. if n < 2 then None else Some \<lparr>pi_key = (1, 2, 3), pi_event_id = 9, pi_start = Timespec 10 0,
       pi_end = Timespec 20 0, pi_name = ''news''\<rparr>), va_name = Some ''TV'', va_pipes = True, va_fork = True,
     va_splitter = False\<rparr>"

lemma failed_start_leaves_nothing_witness:
  "\<exists>m'. on_start_viewing (sample_answers\<lparr>va_fork := False\<rparr>) (By_service_id (1, 2, 3))
       (new_viewing_manager 2 :: (unit, unit) viewing_manager) = Some (None, m') \<and>
     vm_sent m' = [Send_tuner_stop 1, Send_tuner_close 1] \<and> vm_child m' = replicate 4 False"
proof -
  let ?m = "new_viewing_manager 2 :: (unit, unit) viewing_manager"
  let ?a = "sample_answers\<lparr>va_fork := False\<rparr>"
  obtain m' where start: "on_start_viewing ?a (By_service_id (1, 2, 3)) ?m = Some (None, m')"
    by (simp add: on_start_viewing_def requested_def sample_answers_def upt_rec start_serving_def start_error_def
        new_viewing_manager_def new_stream_handler_def Let_def)
  from failed_start_leaves_nothing [OF start] start show ?thesis
    by (auto simp: granted_tuner_def requested_def sample_answers_def new_viewing_manager_def)
qed

section \<open>All requests\<close>

inductive viewing_step :: "('d, 't) viewing_manager \<Rightarrow> ('d, 't) viewing_manager \<Rightarrow> bool" where
  v_start: "on_start_viewing a req m = Some (r, m') \<Longrightarrow> viewing_step m m'"
| v_stop: "on_stop_viewing gr m = Some (r, m') \<Longrightarrow> viewing_step m m'"
| v_option: "on_set_option t gr sec m = Some (r, m') \<Longrightarrow> viewing_step m m'"
| v_notice: "viewing_step m (on_notice_by_stream_handler p gr m)"
| v_turn: "viewing_step m (viewing_check_turn t ended m)"
| v_changed: "on_event_changed ask gr m = Some m' \<Longrightarrow> viewing_step m m'"
| v_pat: "on_pat_not_detected env wr create g m = Some m' \<Longrightarrow> viewing_step m m'"
| v_notify: "viewing_step m (on_event_change_notify gr m)"
| v_stream: "viewing_step m (m\<lparr>vm_streams := (vm_streams m)[g := sh]\<rparr>)"

inductive viewing_reachable :: "('d, 't) viewing_manager \<Rightarrow> bool" where
  v_init: "viewing_reachable (new_viewing_manager tuners)"
| v_next: "\<lbrakk>viewing_reachable m; viewing_step m m'\<rbrakk> \<Longrightarrow> viewing_reachable m'"

lemma ok_fits: "\<lbrakk>viewings_ok m; g < GROUP_NUM\<rbrakk> \<Longrightarrow> viewing_fits g (vm_viewings m ! g)"
  unfolding viewings_ok_def viewing_fits_def by blast

lemma fits_update [simp]:
  "viewing_fits g (v\<lparr>ve_event_id := a, ve_start := b, ve_end := c, ve_title := d\<rparr>) = viewing_fits g v"
  "viewing_fits g (v\<lparr>ve_auto_stop := s, ve_auto_stop_time := b\<rparr>) = viewing_fits g v"
  by (simp_all add: viewing_fits_def)

lemma fits_set: "viewing_fits (unat gr) (viewing_set k ev b e title name gr v)"
  by (cases k) (simp add: viewing_fits_def viewing_set_def)

lemma ok_auto_stop [simp]: "viewings_ok (check_auto_stop t i m) = viewings_ok m"
  by (simp add: check_auto_stop_def Let_def)

lemma ok_check_child [simp]: "viewings_ok (check_child ended i m) = viewings_ok m"
  by (simp add: check_child_def)

lemma ok_auto_stops [simp]: "viewings_ok (fold (check_auto_stop t) xs m) = viewings_ok m"
  by (induction xs arbitrary: m) simp_all

lemma ok_children [simp]: "viewings_ok (fold (check_child ended) xs m) = viewings_ok m"
  by (induction xs arbitrary: m) simp_all

lemma ok_turn: "viewings_ok m \<Longrightarrow> viewings_ok (viewing_check_turn t ended m)"
  unfolding viewing_check_turn_def by simp

lemma viewing_step_ok: "\<lbrakk>viewing_step m m'; viewings_ok m\<rbrakk> \<Longrightarrow> viewings_ok m'"
proof (induction rule: viewing_step.induct)
  case (v_start a req m r m')
  from v_start(1) show ?case
    by (cases rule: start_cases) (use v_start(2) in \<open>auto simp: fits_set\<close>)
next
  case (v_turn m t ended)
  then show ?case by (simp add: ok_turn)
qed (auto simp: on_stop_viewing_def on_set_option_def on_notice_by_stream_handler_def on_event_changed_def
    on_pat_not_detected_def on_event_change_notify_def Let_def ok_fits split: if_splits option.splits)

lemma viewing_reachable_ok: "viewing_reachable m \<Longrightarrow> viewings_ok m"
proof (induction rule: viewing_reachable.induct)
  case (v_init tuners)
  show ?case by (simp add: viewings_ok_def new_viewing_manager_def cleared_viewing_def)
qed (blast intro: viewing_step_ok)

section \<open>Stopping\<close>

lemma auto_stops_sent:
  "vm_sent (fold (check_auto_stop t) xs m) = vm_sent m @ map (\<lambda>i. Send_stop_viewing (ve_group (vm_viewings m ! i)))
     (filter (\<lambda>i. ve_used (vm_viewings m ! i) \<and> ve_auto_stop (vm_viewings m ! i) \<and> ve_auto_stop_time (vm_viewings m ! i) \<le> t) xs)"
  by (induction xs arbitrary: m) (auto simp: check_auto_stop_def Let_def)

lemma children_sent [simp]: "vm_sent (fold (check_child ended) xs m) = vm_sent m"
  by (induction xs arbitrary: m) (simp_all add: check_child_def)

text \<open>In every state the viewing manager can reach, a turn of its loop asks to stop exactly the groups
  whose viewing runs with an option to stop and whose time has come, each once, by their own number.\<close>

theorem due_viewings_are_stopped:
  assumes "viewing_reachable m"
  shows "vm_sent (viewing_check_turn t ended m) = vm_sent m @ map (\<lambda>g. Send_stop_viewing (word_of_nat g))
    (filter (\<lambda>g. ve_used (vm_viewings m ! g) \<and> ve_auto_stop (vm_viewings m ! g) \<and>
      ve_auto_stop_time (vm_viewings m ! g) \<le> t) [0..<GROUP_NUM])"
proof -
  have "viewings_ok m" by (rule viewing_reachable_ok [OF assms])
  then have "ve_group (vm_viewings m ! g) = word_of_nat g" if "g < GROUP_NUM" "ve_used (vm_viewings m ! g)" for g
    using that unfolding viewings_ok_def by auto
  then have "map (\<lambda>i. Send_stop_viewing (ve_group (vm_viewings m ! i)))
      (filter (\<lambda>i. ve_used (vm_viewings m ! i) \<and> ve_auto_stop (vm_viewings m ! i) \<and> ve_auto_stop_time (vm_viewings m ! i) \<le> t) [0..<GROUP_NUM])
    = map (\<lambda>g. Send_stop_viewing (word_of_nat g))
      (filter (\<lambda>i. ve_used (vm_viewings m ! i) \<and> ve_auto_stop (vm_viewings m ! i) \<and> ve_auto_stop_time (vm_viewings m ! i) \<le> t) [0..<GROUP_NUM])"
    by (intro map_cong refl) (auto simp del: upt_Suc)
  then show ?thesis by (simp only: viewing_check_turn_def children_sent auto_stops_sent)
qed

definition started :: "(unit, unit) viewing_manager" where
  "started = snd (the (on_start_viewing sample_answers (By_service_id (1, 2, 3)) (new_viewing_manager 2)))"

lemmas start_evals = on_start_viewing_def requested_def sample_answers_def start_serving_def new_viewing_manager_def
  new_stream_handler_def set_child_def set_pipes_def set_viewing_def viewing_set_def cleared_viewing_def
  set_stream_next_def

lemma started_result: "on_start_viewing sample_answers (By_service_id (1, 2, 3)) (new_viewing_manager 2) = Some (Some 1, started)"
  by (simp add: started_def start_evals upt_rec Let_def)

lemma started_reachable: "viewing_reachable started"
  by (rule v_next [OF v_init v_start [OF started_result]])

lemma due_viewings_are_stopped_witness:
  "\<exists>m :: (unit, unit) viewing_manager. viewing_reachable m \<and>
     vm_sent (viewing_check_turn (Timespec 105 0) (\<lambda>g. False) m) = [Send_stop_viewing 1]"
proof -
  let ?v = "(vm_viewings started ! 1)\<lparr>ve_auto_stop := True, ve_auto_stop_time := add_sec 5 (Timespec 100 0)\<rparr>"
  have used: "ve_used (vm_viewings started ! 1)" "vm_tuners started = 2" "vm_sent started = []"
    "length (vm_viewings started) = 4" "\<not> ve_used (vm_viewings started ! 0)"
    "\<not> ve_used (vm_viewings started ! 2)" "\<not> ve_used (vm_viewings started ! 3)"
    by (simp_all add: started_def start_evals upt_rec Let_def)
  then have opt: "on_set_option (Timespec 100 0) 1 5 started = Some (True, set_viewing 1 ?v started)"
    by (simp add: on_set_option_def)
  have r: "viewing_reachable (set_viewing 1 ?v started)" by (rule v_next [OF started_reachable v_option [OF opt]])
  let ?m = "set_viewing 1 ?v started"
  have "add_sec 5 (Timespec 100 0) \<le> Timespec 105 0"
    by (simp add: add_sec_def not_less [symmetric] timespec_less_iff del: not_less)
  then have due: "ve_used (vm_viewings ?m ! 1)" "ve_auto_stop (vm_viewings ?m ! 1)"
    "ve_auto_stop_time (vm_viewings ?m ! 1) \<le> Timespec 105 0"
    using used by simp_all
  have idle: "\<not> ve_used (vm_viewings ?m ! 0)" "\<not> ve_used (vm_viewings ?m ! 2)" "\<not> ve_used (vm_viewings ?m ! 3)"
    using used by simp_all
  have "[0..<GROUP_NUM] = [0, 1, 2, 3]" by (simp add: upt_rec)
  then have "filter (\<lambda>g. ve_used (vm_viewings ?m ! g) \<and> ve_auto_stop (vm_viewings ?m ! g) \<and>
      ve_auto_stop_time (vm_viewings ?m ! g) \<le> Timespec 105 0) [0..<GROUP_NUM] = [1]"
    using due idle by (simp only: filter.simps simp_thms if_True if_False)
  with due_viewings_are_stopped [OF r, of "Timespec 105 0" "\<lambda>g. False"]
  have "vm_sent (viewing_check_turn (Timespec 105 0) (\<lambda>g. False) ?m) = vm_sent ?m @ [Send_stop_viewing (word_of_nat 1)]"
    by (simp only: list.map)
  also have "\<dots> = [Send_stop_viewing 1]" using used(3) by simp
  finally show ?thesis using r by blast
qed

text \<open>C12: A viewing that is started and stopped gives everything back: after the start the reply is the tuner,
  the process runs and the handler waits for the stream; the stop is accepted and reaches the handler;
  and when the handler has told the end, the process and its pipes are gone, the viewing is cleared,
  the other groups are as before, and the tuner is stopped and closed.\<close>

theorem stopped_viewing_gives_everything_back:
  assumes "on_start_viewing a req m = Some (Some gr, m1)" "uint gr < vm_tuners m" "viewings_ok m"
  shows "\<exists>m2. on_stop_viewing gr m1 = Some (True, m2) \<and> vm_child m1 ! unat gr \<and>
    sh_progress (vm_streams m1 ! unat gr) = SP_pre_process \<and>
    sh_progress (vm_streams m2 ! unat gr) = SP_process_end_success \<and>
    (let m3 = on_notice_by_stream_handler SP_post_process gr m2 in
       vm_viewings m3 = (vm_viewings m)[unat gr := cleared_viewing] \<and>
       vm_child m3 = (vm_child m)[unat gr := False] \<and> vm_pipes m3 = (vm_pipes m)[unat gr := False] \<and>
       vm_sent m3 = vm_sent m @ [Clean_dir gr, Send_tuner_stop gr, Send_tuner_close gr])"
  using assms(1)
proof (cases rule: start_cases)
  case (served gr' k ch e v sh)
  have g: "gr' = gr" "unat gr < GROUP_NUM" using served(2,3) by simp_all
  have len: "length (vm_viewings m) = GROUP_NUM" "length (vm_child m) = GROUP_NUM" "length (vm_streams m) = GROUP_NUM"
    using assms(3) unfolding viewings_ok_def by blast+
  let ?v = "viewing_set k (pi_event_id e) (pi_start e) (pi_end e) (pi_name e) (va_name a) gr v"
  have m1: "m1 = (set_child (unat gr) True (set_pipes (unat gr) True (set_viewing (unat gr) ?v m)))
      \<lparr>vm_streams := (vm_streams m)[unat gr := sh]\<rparr>"
    using served(9) g by simp
  have parts: "vm_viewings m1 = (vm_viewings m)[unat gr := ?v]" "vm_child m1 = (vm_child m)[unat gr := True]"
    "vm_pipes m1 = (vm_pipes m)[unat gr := True]" "vm_streams m1 = (vm_streams m)[unat gr := sh]"
    "vm_sent m1 = vm_sent m" "vm_tuners m1 = vm_tuners m"
    unfolding m1 by (simp_all add: set_viewing_def set_child_def set_pipes_def)
  have "ve_used ?v" by (cases k) (simp add: viewing_set_def)
  then have stop: "on_stop_viewing gr m1 = Some (True, set_stream_progress (unat gr) SP_process_end_success m1)"
    using g len assms(2) by (simp add: on_stop_viewing_def parts)
  then show ?thesis using served(8) g len
    by (simp add: parts on_notice_by_stream_handler_def set_stream_next_def Let_def)
qed simp_all

lemma stopped_viewing_gives_everything_back_witness:
  "\<exists>m2. on_stop_viewing 1 started = Some (True, m2) \<and>
     vm_child (on_notice_by_stream_handler SP_post_process 1 m2) = replicate 4 False \<and>
     vm_sent (on_notice_by_stream_handler SP_post_process 1 m2) = [Clean_dir 1, Send_tuner_stop 1, Send_tuner_close 1]"
proof -
  have "viewings_ok (new_viewing_manager 2 :: (unit, unit) viewing_manager)"
    by (rule viewing_reachable_ok [OF v_init])
  from stopped_viewing_gives_everything_back [OF started_result _ this] show ?thesis
    by (auto simp: new_viewing_manager_def Let_def eval_nat_numeral)
qed

section \<open>The wrong viewing\<close>

text \<open>When the event of a service changes, the manager asks for the present event of the service that is
  viewed on tuner 0, whatever group the notice is for. A reply that only knows the service of the group
  itself never renews the title and the times of a viewing on another tuner.\<close>

theorem event_change_asks_for_tuner_0:
  assumes "(ve_tsid v0, ve_nid v0, ve_svc v0) \<noteq> (ve_tsid v, ve_nid v, ve_svc v)" "v0 = vm_viewings m ! 0"
    and "v = vm_viewings m ! unat gr" "unat gr < GROUP_NUM"
    and "\<And>k. k \<noteq> (ve_tsid v, ve_nid v, ve_svc v) \<Longrightarrow> ask k = None"
  shows "on_event_changed ask gr m = Some m"
  using assms by (simp add: on_event_changed_def Let_def)

lemma event_change_asks_for_tuner_0_witness:
  "ve_used (vm_viewings started ! 1) \<and>
   on_event_changed (\<lambda>k. if k = (1, 2, 3) then Some \<lparr>pi_key = (1, 2, 3), pi_event_id = 10, pi_start = Timespec 20 0,
     pi_end = Timespec 30 0, pi_name = ''film''\<rparr> else None) 1 started = Some started"
proof -
  have "vm_viewings started ! 0 = cleared_viewing" "ve_used (vm_viewings started ! 1)"
    "(ve_tsid (vm_viewings started ! 1), ve_nid (vm_viewings started ! 1), ve_svc (vm_viewings started ! 1)) = (1, 2, 3)"
    by (simp_all add: started_def start_evals upt_rec Let_def)
  then show ?thesis
    using event_change_asks_for_tuner_0 [OF _ refl refl, of started 1
        "\<lambda>k. if k = (1, 2, 3) then Some \<lparr>pi_key = (1, 2, 3), pi_event_id = 10, pi_start = Timespec 20 0,
          pi_end = Timespec 30 0, pi_name = ''film''\<rparr> else None"]
    by (auto simp: cleared_viewing_def)
qed

end
