(* ===== verification/Event_Search.thy ===== *)
theory Event_Search
  imports Rec_Handlers Sched_Exec
begin

text \<open>
  \<open>event_search/event_search.cpp\<close>: after the schedule has been read, the events with one of the stored
  keywords are reserved. The module asks the schedule manager and the recording manager, which are the
  models of these modules; the name of a service is what the channel manager has. While the module
  waits for a reply, the other modules do nothing else.
\<close>

section \<open>State\<close>

record search_event =
  he_key :: event_key
  he_start :: timespec
  he_end :: timespec
  he_name :: string

record search_keyword =
  hk_string :: string
  hk_events :: "search_event list"

record search_history =
  hx_keywords :: "search_keyword list"
  hx_timestamp :: timespec

definition cleared_keyword :: search_keyword where
  "cleared_keyword = \<lparr>hk_string = [], hk_events = []\<rparr>"

definition cleared_search_history :: search_history where
  "cleared_search_history = \<lparr>hx_keywords = [], hx_timestamp = etime_clear\<rparr>"

text \<open>The files are what was parsed of them, \<open>None\<close> when one is not found. The names ending in \<open>_ex\<close> are
  those of the extended search.\<close>

record search_manager =
  sm_client_id :: u8
  sm_keywords :: "string list"
  sm_keywords_ex :: "string list"
  sm_histories :: "search_history list"
  sm_histories_ex :: "search_history list"
  keywords_json :: "string list option"
  keywords_json_ex :: "string list option"
  histories_json :: "search_history list option"
  histories_json_ex :: "search_history list option"

definition new_search_manager :: search_manager where
  "new_search_manager = \<lparr>sm_client_id = 0xff, sm_keywords = [], sm_keywords_ex = [], sm_histories = [],
     sm_histories_ex = [], keywords_json = None, keywords_json_ex = None, histories_json = None,
     histories_json_ex = None\<rparr>"

section \<open>Files\<close>

definition load_event_name_keywords :: "search_manager \<Rightarrow> search_manager" where
  "load_event_name_keywords m = (case keywords_json m of None \<Rightarrow> m | Some ks \<Rightarrow> m\<lparr>sm_keywords := ks\<rparr>)"

definition load_extended_event_keywords :: "search_manager \<Rightarrow> search_manager" where
  "load_extended_event_keywords m = (case keywords_json_ex m of None \<Rightarrow> m | Some ks \<Rightarrow> m\<lparr>sm_keywords_ex := ks\<rparr>)"

definition save_event_name_search_histories :: "search_manager \<Rightarrow> search_manager" where
  "save_event_name_search_histories m = m\<lparr>histories_json := Some (sm_histories m)\<rparr>"

definition save_extended_event_search_histories :: "search_manager \<Rightarrow> search_manager" where
  "save_extended_event_search_histories m = m\<lparr>histories_json_ex := Some (sm_histories_ex m)\<rparr>"

definition load_event_name_search_histories :: "search_manager \<Rightarrow> search_manager" where
  "load_event_name_search_histories m =
    (case histories_json m of None \<Rightarrow> m | Some hs \<Rightarrow> m\<lparr>sm_histories := hs\<rparr>)"

definition load_extended_event_search_histories :: "search_manager \<Rightarrow> search_manager" where
  "load_extended_event_search_histories m =
    (case histories_json_ex m of None \<Rightarrow> m | Some hs \<Rightarrow> m\<lparr>sm_histories_ex := hs\<rparr>)"

text \<open>\<open>on_module_up\<close>; \<open>client\<close> is the number of the registered notice, \<open>None\<close> an error.\<close>

definition search_module_up :: "u8 option \<Rightarrow> search_manager \<Rightarrow> bool \<times> search_manager" where
  "search_module_up client m =
    (let m = load_extended_event_search_histories (load_event_name_search_histories m)
     in case client of None \<Rightarrow> (False, m) | Some c \<Rightarrow> (True, m\<lparr>sm_client_id := c\<rparr>))"

section \<open>Histories\<close>

text \<open>\<open>while (histories.size() >= 30) erase\<close>.\<close>

function trim_histories :: "'a list \<Rightarrow> 'a list" where
  "trim_histories hs = (if length hs \<ge> 30 then trim_histories (tl hs) else hs)"
  by auto
termination by (relation "measure length") auto

declare trim_histories.simps [simp del]

definition push_search_history :: "'a \<Rightarrow> 'a list \<Rightarrow> 'a list" where
  "push_search_history h hs = trim_histories hs @ [h]"

section \<open>The search\<close>

definition reply_key :: "event_reply \<Rightarrow> event_key" where
  "reply_key e = (er_tsid e, er_nid e, er_svc e, er_event_id e)"

definition to_event_answer :: "event_reply \<Rightarrow> event_answer" where
  "to_event_answer e = \<lparr>ev_key = reply_key e, ev_start = er_start e, ev_end = er_end e, ev_name = er_name e\<rparr>"

text \<open>The two requests that \<open>add_reserve_event\<close> of the recording manager makes.\<close>

definition event_of_key :: "sched_manager \<Rightarrow> event_key \<Rightarrow> event_answer option" where
  "event_of_key s k = (case k of (ts, nid, svc, ev) \<Rightarrow> map_option to_event_answer (on_get_event ts nid svc ev s))"

definition service_of_key :: "channel_manager \<Rightarrow> event_key \<Rightarrow> string option" where
  "service_of_key c k = (case k of (ts, nid, svc, ev) \<Rightarrow> on_get_service_name ts nid svc c)"

text \<open>One event; \<open>t\<close> is the clock. The state is the events of the history and the recording manager.\<close>

definition reserve_found :: "timespec \<Rightarrow> sched_manager \<Rightarrow> channel_manager \<Rightarrow> event_reply \<Rightarrow>
    search_event list \<times> rec_manager \<Rightarrow> (search_event list \<times> rec_manager) option" where
  "reserve_found t s c e st =
    (if etime_gt t (er_end e) then Some st
     else case on_remove_reserve (reply_key e) False False (snd st) of
       None \<Rightarrow> None
     | Some (ok, m) \<Rightarrow>
         let found = \<lparr>he_key = reply_key e, he_start = er_start e, he_end = er_end e, he_name = er_name e\<rparr>;
             m = snd (on_add_reserve_event Rep_none False (event_of_key s (reply_key e))
               (service_of_key c (reply_key e)) m)
         in Some (fst st @ [found], m))"

fun reserve_all_found :: "timespec \<Rightarrow> sched_manager \<Rightarrow> channel_manager \<Rightarrow> event_reply list \<Rightarrow>
    search_event list \<times> rec_manager \<Rightarrow> (search_event list \<times> rec_manager) option" where
  "reserve_all_found t s c [] st = Some st"
| "reserve_all_found t s c (e # es) st =
    (case reserve_found t s c e st of None \<Rightarrow> None | Some st \<Rightarrow> reserve_all_found t s c es st)"

text \<open>At most 30 events for a keyword.\<close>

definition keyword_events :: "sched_manager \<Rightarrow> bool \<Rightarrow> string \<Rightarrow> event_reply list" where
  "keyword_events s ext k =
    (case on_get_events_keyword_search k 30 ext s of
       None \<Rightarrow> []
     | Some es \<Rightarrow> take (if length es > 30 then 30 else length es) es)"

fun search_keywords :: "timespec \<Rightarrow> sched_manager \<Rightarrow> channel_manager \<Rightarrow> bool \<Rightarrow> string list \<Rightarrow>
    search_history \<times> rec_manager \<Rightarrow> (search_history \<times> rec_manager) option" where
  "search_keywords t s c ext [] st = Some st"
| "search_keywords t s c ext (k # ks) st =
    (case reserve_all_found t s c (keyword_events s ext k) ([], snd st) of
       None \<Rightarrow> None
     | Some (es, m) \<Rightarrow>
         let h = (if ks \<noteq> []
                  then (fst st)\<lparr>hx_keywords := hx_keywords (fst st) @ [cleared_keyword\<lparr>hk_string := k, hk_events := es\<rparr>],
                    hx_timestamp := t\<rparr>
                  else fst st)
         in search_keywords t s c ext ks (h, m))"

definition on_add_rec_reserve_keyword_search :: "timespec \<Rightarrow> sched_manager \<Rightarrow> channel_manager \<Rightarrow> bool \<Rightarrow>
    search_manager \<times> rec_manager \<Rightarrow> (search_manager \<times> rec_manager) option" where
  "on_add_rec_reserve_keyword_search t s c ext st =
    (let m = (if \<not> ext then load_event_name_keywords (fst st) else load_extended_event_keywords (fst st));
         ks = (if \<not> ext then sm_keywords m else sm_keywords_ex m)
     in case search_keywords t s c ext ks (cleared_search_history, snd st) of
       None \<Rightarrow> None
     | Some (h, r) \<Rightarrow>
         Some (if \<not> ext
           then save_event_name_search_histories (m\<lparr>sm_histories := push_search_history h (sm_histories m)\<rparr>)
           else save_extended_event_search_histories (m\<lparr>sm_histories_ex := push_search_history h (sm_histories_ex m)\<rparr>), r))"

text \<open>\<open>on_receive_notify\<close>: the requests it sends to its own module, by the flag of the extended search.\<close>

definition search_notice :: "u8 \<Rightarrow> cache_state \<Rightarrow> search_manager \<Rightarrow> bool list" where
  "search_notice client st m =
    (if client \<noteq> sm_client_id m then []
     else case st of Cache_init \<Rightarrow> [] | Cache_busy \<Rightarrow> [] | Cache_ready \<Rightarrow> [False, True])"

end
