(* ===== verification/Search_Claims.thy ===== *)
theory Search_Claims
  imports Event_Search Rec_Claims
begin

text \<open>
  What a keyword search does to the reservations: the state of the recording manager after the search,
  as an operation on the sequence of the reservations, and what follows from it.
\<close>

section \<open>Removing by key\<close>

lemma filter_distinct_key:
  assumes "distinct (map f us)" "i < length us"
  shows "filter (\<lambda>r. f r \<noteq> f (us ! i)) us = take i us @ drop (Suc i) us"
proof -
  have us: "us = take i us @ us ! i # drop (Suc i) us" using assms(2) by (rule id_take_nth_drop)
  have "distinct (map f (take i us @ us ! i # drop (Suc i) us))" using assms(1) us by simp
  then have "f (us ! i) \<notin> f ` set (take i us)" "f (us ! i) \<notin> f ` set (drop (Suc i) us)" by auto
  then have "filter (\<lambda>r. f r \<noteq> f (us ! i)) (take i us) = take i us"
    "filter (\<lambda>r. f r \<noteq> f (us ! i)) (drop (Suc i) us) = drop (Suc i) us"
    by (simp_all add: filter_id_conv image_iff) metis+
  then show ?thesis by (subst us) simp
qed

lemma no_index:
  assumes "slots_ok m" "key \<notin> key_of ` set (plan m)"
  shows "get_reserve_index key m = -1"
proof -
  have "\<not> (\<exists>r\<in>set (reserves m). is_used r \<and> key_of r = key)" using assms(2) by (auto simp: plan_def)
  then have "first_index (\<lambda>r. is_used r \<and> key_of r = key) (reserves m) = length (reserves m)"
    by (rule first_index_none)
  then have "first_index (\<lambda>r. is_used r \<and> key_of r = key) (reserves m) = RESERVE_NUM_MAX"
    using length_reserves [OF assms(1)] by simp
  then show ?thesis by (simp add: get_reserve_index_def reserve_eq_key Let_def)
qed

lemma remove_by_key:
  assumes "slots_ok m"
  obtains ok m' where "on_remove_reserve key False False m = Some (ok, m')" "slots_ok m'"
    "plan m' = filter (\<lambda>r. key_of r \<noteq> key) (plan m)" "recordings m' = recordings m" "history m' = history m"
proof (cases "key \<in> key_of ` set (plan m)")
  case False
  then have "filter (\<lambda>r. key_of r \<noteq> key) (plan m) = plan m" by (auto simp: filter_id_conv)
  with False show ?thesis using no_index [OF assms False] assms
    by (intro that [of False m]) (simp_all add: on_remove_reserve_def)
next
  case True
  then obtain i where i: "i < length (plan m)" "key = key_of (plan m ! i)" by (auto simp: in_set_conv_nth)
  obtain ok m' where rm: "remove_reserve (int i) False False m = Some (ok, m')"
    using remove_reserve_used [OF assms i(1)] unfolding Let_def by blast
  have "distinct (map key_of (plan m))" using assms by (simp add: slots_ok_def)
  then show ?thesis
    using remove_reserve_plan [OF assms i(1) rm] index_of_key [OF assms i(1)] rm
      filter_distinct_key [of key_of "plan m" i] i
    by (intro that [of ok m']) (simp_all add: on_remove_reserve_def)
qed

section \<open>The search as an operation on the plan\<close>

definition current_keywords :: "bool \<Rightarrow> search_manager \<Rightarrow> string list" where
  "current_keywords ext m =
    (if ext then case keywords_json_ex m of None \<Rightarrow> sm_keywords_ex m | Some ks \<Rightarrow> ks
     else case keywords_json m of None \<Rightarrow> sm_keywords m | Some ks \<Rightarrow> ks)"

definition wanted :: "timespec \<Rightarrow> sched_manager \<Rightarrow> bool \<Rightarrow> string list \<Rightarrow> event_reply list" where
  "wanted t s ext ks = filter (\<lambda>e. \<not> etime_gt t (er_end e)) (concat (map (keyword_events s ext) ks))"

definition found_reserve :: "sched_manager \<Rightarrow> channel_manager \<Rightarrow> event_key \<Rightarrow> reserve option" where
  "found_reserve s c k = map_option (\<lambda>a. new_reserve (ev_key a) (ev_start a) (ev_end a) (Some (ev_name a))
     (service_of_key c k) True Rep_none False) (event_of_key s k)"

definition reserve_again :: "sched_manager \<Rightarrow> channel_manager \<Rightarrow> event_key set \<Rightarrow> event_reply \<Rightarrow>
    reserve list \<Rightarrow> reserve list" where
  "reserve_again s c busy e us =
    (let us = filter (\<lambda>r. key_of r \<noteq> reply_key e) us
     in case found_reserve s c (reply_key e) of
          Some r \<Rightarrow> if start_time r < end_time r \<and> length us < RESERVE_NUM_MAX \<and> reply_key e \<notin> busy
            then insert_by_start r us else us
        | None \<Rightarrow> us)"

definition busy_keys :: "rec_manager \<Rightarrow> event_key set" where
  "busy_keys m = key_of ` set (filter is_used (recordings m))"

lemma event_of_key_key:
  assumes "event_of_key s k = Some a"
  shows "ev_key a = k"
proof -
  obtain ts nid svc ev where k: "k = (ts, nid, svc, ev)" by (cases k) auto
  then obtain e where e: "get_event (mk_key ts nid svc) ev (container s) = Some e" "a = to_event_answer (to_event_reply e)"
    using assms by (auto simp: event_of_key_def on_get_event_def)
  then obtain es where "find_event_id (mk_key ts nid svc) ev es = Some e"
    by (auto simp: get_event_def split: if_splits option.splits)
  then have "se_tsid e = ts \<and> se_nid e = nid \<and> se_svc e = svc \<and> se_event_id e = ev"
    by (induction es) (auto simp: mk_key_def split: if_splits)
  with k e(2) show ?thesis by (simp add: to_event_answer_def to_event_reply_def reply_key_def)
qed

lemma found_reserve_sel:
  assumes "found_reserve s c k = Some r"
  shows "key_of r = k" "rsv_repeat r = Rep_none" "is_used r"
  using assms event_of_key_key [of s k] by (auto simp: found_reserve_def)

lemma reserve_found_plan:
  assumes "slots_ok m" "\<not> etime_gt t (er_end e)"
  obtains h m' where "reserve_found t s c e (hs, m) = Some (hs @ [h], m')" "slots_ok m'"
    "plan m' = reserve_again s c (busy_keys m) e (plan m)" "recordings m' = recordings m" "history m' = history m"
proof -
  let ?k = "reply_key e"
  obtain ok m1 where m1: "on_remove_reserve ?k False False m = Some (ok, m1)" "slots_ok m1"
    "plan m1 = filter (\<lambda>r. key_of r \<noteq> ?k) (plan m)" "recordings m1 = recordings m" "history m1 = history m"
    using remove_by_key [OF assms(1)] by metis
  let ?m2 = "snd (on_add_reserve_event Rep_none False (event_of_key s ?k) (service_of_key c ?k) m1)"
  have hist: "history ?m2 = history m1" "recordings ?m2 = recordings m1"
    by (auto simp: on_add_reserve_event_def history_def split: option.split)
  have "slots_ok ?m2 \<and> plan ?m2 = reserve_again s c (busy_keys m) e (plan m)"
  proof (cases "event_of_key s ?k")
    case None
    with m1 show ?thesis by (simp add: on_add_reserve_event_def reserve_again_def found_reserve_def)
  next
    case (Some a)
    have key: "ev_key a = ?k" by (rule event_of_key_key [OF Some])
    have acc: "acceptable ?k (ev_start a) (ev_end a) False m1 \<longleftrightarrow> ev_start a < ev_end a \<and>
        length (filter (\<lambda>r. key_of r \<noteq> ?k) (plan m)) < RESERVE_NUM_MAX \<and> ?k \<notin> busy_keys m"
      using m1(3,4) by (auto simp: acceptable_def busy_keys_def image_iff)
    show ?thesis
    proof (cases "acceptable ?k (ev_start a) (ev_end a) False m1")
      case True
      from add_reserve_plan [OF m1(2) this refl] show ?thesis
        using True Some key acc m1(3)
        by (simp add: on_add_reserve_event_def reserve_again_def found_reserve_def Let_def)
    next
      case False
      with add_reserve_refuses [OF m1(2)] show ?thesis
        using Some key acc m1(2,3)
        by (auto simp: on_add_reserve_event_def reserve_again_def found_reserve_def Let_def)
    qed
  qed
  with m1 hist assms(2) show ?thesis
    by (intro that [of "\<lparr>he_key = ?k, he_start = er_start e, he_end = er_end e, he_name = er_name e\<rparr>" ?m2])
      (simp_all add: reserve_found_def Let_def)
qed

lemma reserve_all_plan:
  assumes "slots_ok m"
  shows "\<exists>hs' m'. reserve_all_found t s c es (hs, m) = Some (hs', m') \<and> slots_ok m' \<and>
    plan m' = fold (reserve_again s c (busy_keys m)) (filter (\<lambda>e. \<not> etime_gt t (er_end e)) es) (plan m) \<and>
    recordings m' = recordings m \<and> history m' = history m"
  using assms
proof (induction es arbitrary: hs m)
  case (Cons e es)
  show ?case
  proof (cases "etime_gt t (er_end e)")
    case True
    with Cons.IH [OF Cons.prems] show ?thesis by (simp add: reserve_found_def)
  next
    case False
    obtain h m1 where m1: "reserve_found t s c e (hs, m) = Some (hs @ [h], m1)" "slots_ok m1"
      "plan m1 = reserve_again s c (busy_keys m) e (plan m)" "recordings m1 = recordings m" "history m1 = history m"
      using reserve_found_plan [OF Cons.prems False] by metis
    have "busy_keys m1 = busy_keys m" using m1(4) by (simp add: busy_keys_def)
    with Cons.IH [OF m1(2), of "hs @ [h]"] m1 False show ?thesis by simp
  qed
qed simp

lemma search_keywords_plan:
  assumes "slots_ok m"
  shows "\<exists>h' m'. search_keywords t s c ext ks (h, m) = Some (h', m') \<and> slots_ok m' \<and>
    plan m' = fold (reserve_again s c (busy_keys m)) (wanted t s ext ks) (plan m) \<and>
    recordings m' = recordings m \<and> history m' = history m \<and>
    map hk_string (hx_keywords h') = map hk_string (hx_keywords h) @ butlast ks"
  using assms
proof (induction ks arbitrary: h m)
  case (Cons k ks)
  obtain es m1 where m1: "reserve_all_found t s c (keyword_events s ext k) ([], m) = Some (es, m1)" "slots_ok m1"
    "plan m1 = fold (reserve_again s c (busy_keys m)) (filter (\<lambda>e. \<not> etime_gt t (er_end e)) (keyword_events s ext k)) (plan m)"
    "recordings m1 = recordings m" "history m1 = history m"
    using reserve_all_plan [OF Cons.prems, of t s c "keyword_events s ext k" "[]"] by blast
  have "busy_keys m1 = busy_keys m" using m1(4) by (simp add: busy_keys_def)
  then show ?case
    using Cons.IH [OF m1(2), of "if ks \<noteq> [] then h\<lparr>hx_keywords := hx_keywords h @ [cleared_keyword\<lparr>hk_string := k, hk_events := es\<rparr>],
        hx_timestamp := t\<rparr> else h"] m1
    by (cases "ks = []") (auto simp: wanted_def)
qed (simp add: wanted_def)

lemma trim_length: "length (trim_histories hs) \<le> 29"
  by (induction hs rule: trim_histories.induct) (subst trim_histories.simps, auto)

lemma trim_short: "length hs < 30 \<Longrightarrow> trim_histories hs = hs"
  by (simp add: trim_histories.simps)


definition search_histories :: "bool \<Rightarrow> search_manager \<Rightarrow> search_history list" where
  "search_histories ext m = (if ext then sm_histories_ex m else sm_histories m)"

definition stored_histories :: "bool \<Rightarrow> search_manager \<Rightarrow> search_history list option" where
  "stored_histories ext m = (if ext then histories_json_ex m else histories_json m)"

lemma search_result:
  assumes "slots_ok m"
  obtains sm' m' h where "on_add_rec_reserve_keyword_search t s c ext (sm, m) = Some (sm', m')" "slots_ok m'"
    "plan m' = fold (reserve_again s c (busy_keys m)) (wanted t s ext (current_keywords ext sm)) (plan m)"
    "recordings m' = recordings m" "history m' = history m"
    "search_histories ext sm' = push_search_history h (search_histories ext sm)"
    "stored_histories ext sm' = Some (search_histories ext sm')"
    "map hk_string (hx_keywords h) = butlast (current_keywords ext sm)"
proof -
  obtain h m' where run: "search_keywords t s c ext (current_keywords ext sm) (cleared_search_history, m) = Some (h, m')"
    "slots_ok m'" "plan m' = fold (reserve_again s c (busy_keys m)) (wanted t s ext (current_keywords ext sm)) (plan m)"
    "recordings m' = recordings m" "history m' = history m" "map hk_string (hx_keywords h) = butlast (current_keywords ext sm)"
    using search_keywords_plan [OF assms, of t s c ext "current_keywords ext sm" cleared_search_history]
    by (auto simp: cleared_search_history_def)
  have load: "sm_keywords (load_event_name_keywords sm) = current_keywords False sm"
    "sm_keywords_ex (load_extended_event_keywords sm) = current_keywords True sm"
    "sm_histories (load_event_name_keywords sm) = sm_histories sm"
    "sm_histories_ex (load_extended_event_keywords sm) = sm_histories_ex sm"
    by (simp_all add: load_event_name_keywords_def load_extended_event_keywords_def current_keywords_def
        split: option.split)
  show ?thesis
  proof (cases ext)
    case False
    then show ?thesis using run load
      by (intro that [of "save_event_name_search_histories ((load_event_name_keywords sm)
            \<lparr>sm_histories := push_search_history h (sm_histories sm)\<rparr>)" m' h])
        (simp_all add: on_add_rec_reserve_keyword_search_def save_event_name_search_histories_def
          search_histories_def stored_histories_def)
  next
    case True
    then show ?thesis using run load
      by (intro that [of "save_extended_event_search_histories ((load_extended_event_keywords sm)
            \<lparr>sm_histories_ex := push_search_history h (sm_histories_ex sm)\<rparr>)" m' h])
        (simp_all add: on_add_rec_reserve_keyword_search_def save_extended_event_search_histories_def
          search_histories_def stored_histories_def)
  qed
qed

text \<open>C24: A keyword search is an operation on the sequence of the reservations: for each found event that
  has not ended, in the order they are found, the reservation with its identifiers is taken out, and
  put in again with the times of the schedule, by its start, when the event is in the schedule, there
  is room, and the event is not being recorded. Recordings and results stay, and the search always ends.\<close>

theorem keyword_search_is_reservation:
  assumes "slots_ok m"
  shows "\<exists>sm' m'. on_add_rec_reserve_keyword_search t s c ext (sm, m) = Some (sm', m') \<and> slots_ok m' \<and>
    plan m' = fold (reserve_again s c (busy_keys m)) (wanted t s ext (current_keywords ext sm)) (plan m) \<and>
    recordings m' = recordings m \<and> history m' = history m"
  by (rule search_result [OF assms]) blast

definition news_event :: sched_event where
  "news_event = cleared_event\<lparr>se_tsid := 1, se_nid := 2, se_svc := 3, se_event_id := 4,
     se_start := Timespec 10 0, se_end := Timespec 20 0, se_name := ''news''\<rparr>"

definition news_schedule :: sched_manager where
  "news_schedule = (new_sched_manager None None)\<lparr>container := [(mk_key 1 2 3, [news_event])]\<rparr>"

definition news_search :: search_manager where
  "news_search = new_search_manager\<lparr>keywords_json := Some [''ew'', ''film'']\<rparr>"

definition no_channels :: channel_manager where
  "no_channels = new_channel_manager None"

lemma news_wanted: "wanted (Timespec 5 0) news_schedule False (current_keywords False news_search) = [to_event_reply news_event]"
proof -
  have "keyword_events news_schedule False ''ew'' = [to_event_reply news_event]" "keyword_events news_schedule False ''film'' = []"
    by (simp_all add: keyword_events_def on_get_events_keyword_search_def get_events_def news_schedule_def event_match_def
        news_event_def)
  then show ?thesis
    by (simp add: wanted_def news_search_def current_keywords_def to_event_reply_def news_event_def timespec_less_iff)
qed

lemma news_found: "event_of_key news_schedule (1, 2, 3, 4)
    = Some \<lparr>ev_key = (1, 2, 3, 4), ev_start = Timespec 10 0, ev_end = Timespec 20 0, ev_name = ''news''\<rparr>"
  by (simp add: event_of_key_def on_get_event_def get_event_def has_schedule_map_def news_schedule_def mk_key_def
      key_less_def news_event_def to_event_answer_def to_event_reply_def reply_key_def)

lemma news_key: "reply_key (to_event_reply news_event) = (1, 2, 3, 4)"
  by (simp add: reply_key_def to_event_reply_def news_event_def)

lemma new_busy: "busy_keys new_rec_manager = {}"
  by (simp add: busy_keys_def new_rec_manager_def)

lemma keyword_search_is_reservation_witness:
  "\<exists>sm' m'. on_add_rec_reserve_keyword_search (Timespec 5 0) news_schedule no_channels False (news_search, new_rec_manager)
      = Some (sm', m') \<and> map key_of (plan m') = [(1, 2, 3, 4)]"
proof -
  have "slots_ok new_rec_manager" "plan new_rec_manager = []" using new_manager_ok by blast+
  from keyword_search_is_reservation [OF this(1), of "Timespec 5 0" news_schedule no_channels False news_search] this(2)
  obtain sm' m' where "on_add_rec_reserve_keyword_search (Timespec 5 0) news_schedule no_channels False (news_search, new_rec_manager)
      = Some (sm', m')" "plan m' = reserve_again news_schedule no_channels {} (to_event_reply news_event) []"
    by (auto simp: news_wanted new_busy)
  then show ?thesis
    by (auto simp: reserve_again_def found_reserve_def news_key news_found timespec_less_iff insert_by_start_def)
qed

section \<open>What follows for the reservations\<close>

lemma filter_insert_other: "\<not> P r \<Longrightarrow> filter P (insert_by_start r us) = filter P us"
  unfolding insert_by_start_def filter_append filter.simps
  by (simp add: filter_append [symmetric] del: filter_append)

lemma reserve_again_others:
  "reply_key e \<in> K \<Longrightarrow> filter (\<lambda>r. key_of r \<notin> K) (reserve_again s c b e us) = filter (\<lambda>r. key_of r \<notin> K) us"
proof -
  assume K: "reply_key e \<in> K"
  have "filter (\<lambda>r. key_of r \<notin> K) (filter (\<lambda>r. key_of r \<noteq> reply_key e) us) = filter (\<lambda>r. key_of r \<notin> K) us"
    using K by (auto intro: filter_cong)
  moreover have "\<not> key_of r \<notin> K" if "found_reserve s c (reply_key e) = Some r" for r
    using found_reserve_sel(1) [OF that] K by simp
  ultimately show ?thesis
    by (auto simp: reserve_again_def Let_def filter_insert_other split: option.split)
qed

lemma fold_again_others:
  "reply_key ` set es \<subseteq> K \<Longrightarrow>
   filter (\<lambda>r. key_of r \<notin> K) (fold (reserve_again s c b) es us) = filter (\<lambda>r. key_of r \<notin> K) us"
  by (induction es arbitrary: us) (simp_all add: reserve_again_others)

lemma reserve_again_member:
  "r \<in> set (reserve_again s c b e us) \<Longrightarrow> r \<in> set us \<and> key_of r \<noteq> reply_key e \<or> found_reserve s c (reply_key e) = Some r"
  by (auto simp: reserve_again_def Let_def split: option.splits if_splits)

lemma fold_again_member:
  "r \<in> set (fold (reserve_again s c b) es us) \<Longrightarrow>
   r \<in> set us \<and> key_of r \<notin> reply_key ` set es \<or> (\<exists>e\<in>set es. found_reserve s c (reply_key e) = Some r)"
proof (induction es arbitrary: us)
  case (Cons e es)
  then show ?case using Cons.IH [of "reserve_again s c b e us"] reserve_again_member [of r s c b e us] by auto
qed simp

text \<open>C26: The reservations of all other events, and their order, are as before a keyword search; of the found
  events no reservation repeats after it, even when it did before.\<close>

theorem other_reservations_stay:
  assumes "slots_ok m" "on_add_rec_reserve_keyword_search t s c ext (sm, m) = Some (sm', m')"
    and "K = reply_key ` set (wanted t s ext (current_keywords ext sm))"
  shows "filter (\<lambda>r. key_of r \<notin> K) (plan m') = filter (\<lambda>r. key_of r \<notin> K) (plan m) \<and>
    list_all (\<lambda>r. key_of r \<in> K \<longrightarrow> rsv_repeat r = Rep_none) (plan m')"
proof -
  have m': "plan m' = fold (reserve_again s c (busy_keys m)) (wanted t s ext (current_keywords ext sm)) (plan m)"
    by (rule search_result [OF assms(1), of t s c ext sm]) (use assms(2) in simp)
  show ?thesis unfolding m' list_all_iff
    using fold_again_others [of _ K] fold_again_member found_reserve_sel(2) assms(3) by blast
qed

definition news_series :: rec_manager where
  "news_series = snd (add_reserve (1, 2, 3, 4) (Some (Timespec 10 0)) (Some (Timespec 20 0)) None None True Rep_auto False new_rec_manager)"

lemma news_series_plan: "slots_ok news_series"
    "plan news_series = [new_reserve (1, 2, 3, 4) (Timespec 10 0) (Timespec 20 0) None None True Rep_auto False]"
  using add_reserve_plan [of new_rec_manager "(1, 2, 3, 4)" "Timespec 10 0" "Timespec 20 0" False news_series None None True Rep_auto]
    new_manager_ok
  by (simp_all add: news_series_def acceptable_def new_rec_manager_def timespec_less_iff insert_by_start_def)

lemma other_reservations_stay_witness:
  "\<exists>sm' m'. on_add_rec_reserve_keyword_search (Timespec 5 0) news_schedule no_channels False (news_search, news_series)
      = Some (sm', m') \<and> map rsv_repeat (plan news_series) = [Rep_auto] \<and> Rep_auto \<notin> rsv_repeat ` set (plan m')"
proof -
  obtain sm' m' where run: "on_add_rec_reserve_keyword_search (Timespec 5 0) news_schedule no_channels False (news_search, news_series)
      = Some (sm', m')"
    by (rule search_result [OF news_series_plan(1)])
  have "[] = filter (\<lambda>r. key_of r \<notin> {(1, 2, 3, 4)}) (plan m') \<and>
      list_all (\<lambda>r. key_of r \<in> {(1, 2, 3, 4)} \<longrightarrow> rsv_repeat r = Rep_none) (plan m')"
    using other_reservations_stay [OF news_series_plan(1) run refl] by (simp add: news_wanted news_key news_series_plan(2))
  then have "\<forall>r\<in>set (plan m'). rsv_repeat r = Rep_none"
    by (metis (mono_tags, lifting) empty_filter_conv list_all_iff)
  with run show ?thesis by (auto simp: news_series_plan(2))
qed

lemma reserve_again_length: "length (reserve_again s c b e us) \<le> Suc (length us)"
  by (auto simp: reserve_again_def Let_def le_SucI split: option.split)

lemma filter_shorter: "length us < n \<Longrightarrow> length (filter P us) < n"
  by (rule le_less_trans [OF length_filter_le])

lemma reserve_again_keeps:
  "\<lbrakk>found_reserve s c k = Some r; r \<in> set us; start_time r < end_time r; k \<notin> b; length us < RESERVE_NUM_MAX\<rbrakk> \<Longrightarrow>
   r \<in> set (reserve_again s c b e us)"
  using found_reserve_sel(1) [of s c k r] filter_shorter [of us RESERVE_NUM_MAX "\<lambda>r. key_of r \<noteq> reply_key e"]
  by (cases "reply_key e = k") (auto simp: reserve_again_def Let_def split: option.split)

lemma fold_again_keeps:
  "\<lbrakk>found_reserve s c k = Some r; r \<in> set us; start_time r < end_time r; k \<notin> b;
    length us + length es \<le> RESERVE_NUM_MAX\<rbrakk> \<Longrightarrow> r \<in> set (fold (reserve_again s c b) es us)"
proof (induction es arbitrary: us)
  case (Cons e es)
  have "r \<in> set (reserve_again s c b e us)" using Cons.prems by (intro reserve_again_keeps) auto
  moreover have "length (reserve_again s c b e us) + length es \<le> RESERVE_NUM_MAX"
    using Cons.prems reserve_again_length [of s c b e us] by simp
  ultimately show ?case using Cons.IH Cons.prems by simp
qed simp

lemma fold_again_reserves:
  "\<lbrakk>e \<in> set es; found_reserve s c (reply_key e) = Some r; start_time r < end_time r; reply_key e \<notin> b;
    length us + length es \<le> RESERVE_NUM_MAX\<rbrakk> \<Longrightarrow> r \<in> set (fold (reserve_again s c b) es us)"
proof (induction es arbitrary: us)
  case (Cons e' es)
  have len: "length (reserve_again s c b e' us) + length es \<le> RESERVE_NUM_MAX"
    using Cons.prems reserve_again_length [of s c b e' us] by simp
  show ?case
  proof (cases "e = e'")
    case True
    have "r \<in> set (reserve_again s c b e' us)"
      using Cons.prems True filter_shorter [of us RESERVE_NUM_MAX "\<lambda>r. key_of r \<noteq> reply_key e'"]
      by (simp add: reserve_again_def Let_def)
    from fold_again_keeps [OF Cons.prems(2) this Cons.prems(3,4) len] show ?thesis by simp
  next
    case False
    then show ?thesis using Cons.IH [OF _ Cons.prems(2-4) len] Cons.prems(1) by simp
  qed
qed simp

lemma only_key: "\<lbrakk>distinct (map f us); x \<in> set us\<rbrakk> \<Longrightarrow> filter (\<lambda>r. f r = f x) us = [x]"
proof (induction us)
  case (Cons u us)
  show ?case
  proof (cases "x = u")
    case True
    then have "\<forall>r\<in>set us. f r \<noteq> f x" using Cons.prems(1) by (auto simp: image_iff)
    with True show ?thesis by (simp add: filter_empty_conv)
  next
    case False
    then have "f u \<noteq> f x" using Cons.prems by auto
    with False Cons show ?thesis by simp
  qed
qed simp

text \<open>C25: An event that a keyword finds, that has not ended and is not being recorded is reserved after the
  search, once, with the times it has in the schedule, when there is room for all that is found.\<close>

theorem found_events_are_reserved:
  assumes "slots_ok m" "on_add_rec_reserve_keyword_search t s c ext (sm, m) = Some (sm', m')"
    and "e \<in> set (wanted t s ext (current_keywords ext sm))" "event_of_key s (reply_key e) = Some a"
    and "ev_start a < ev_end a" "reply_key e \<notin> busy_keys m"
    and "length (plan m) + length (wanted t s ext (current_keywords ext sm)) \<le> RESERVE_NUM_MAX"
  shows "filter (\<lambda>r. key_of r = reply_key e) (plan m') =
    [new_reserve (reply_key e) (ev_start a) (ev_end a) (Some (ev_name a)) (service_of_key c (reply_key e)) True Rep_none False]"
proof -
  let ?r = "new_reserve (reply_key e) (ev_start a) (ev_end a) (Some (ev_name a)) (service_of_key c (reply_key e)) True Rep_none False"
  have m': "slots_ok m'" "plan m' = fold (reserve_again s c (busy_keys m)) (wanted t s ext (current_keywords ext sm)) (plan m)"
    by (rule search_result [OF assms(1), of t s c ext sm], use assms(2) in simp)+
  have "found_reserve s c (reply_key e) = Some ?r"
    using assms(4) event_of_key_key [OF assms(4)] by (simp add: found_reserve_def)
  then have mem: "?r \<in> set (plan m')"
    unfolding m'(2) using assms(3,5-7) by (intro fold_again_reserves [of e]) simp_all
  have "distinct (map key_of (plan m'))" using m'(1) by (simp add: slots_ok_def)
  from only_key [OF this mem] show ?thesis by simp
qed

lemma found_events_are_reserved_witness:
  "\<exists>sm' m'. on_add_rec_reserve_keyword_search (Timespec 5 0) news_schedule no_channels False (news_search, news_series)
      = Some (sm', m') \<and> map start_time (filter (\<lambda>r. key_of r = (1, 2, 3, 4)) (plan m')) = [Timespec 10 0]"
proof -
  obtain sm' m' where run: "on_add_rec_reserve_keyword_search (Timespec 5 0) news_schedule no_channels False (news_search, news_series)
      = Some (sm', m')"
    by (rule search_result [OF news_series_plan(1)])
  have "recordings news_series = recordings new_rec_manager" unfolding news_series_def by simp
  then have "busy_keys news_series = {}" using new_busy by (simp add: busy_keys_def)
  then show ?thesis
    using found_events_are_reserved [OF news_series_plan(1) run, of "to_event_reply news_event"] run
    by (auto simp: news_wanted news_key news_found news_series_plan(2) timespec_less_iff)
qed

text \<open>The history of the searches keeps the last thirty, is stored, and ends with this search; but the
  last keyword, or the only one, is never in it.\<close>

theorem last_keyword_is_not_in_the_history:
  assumes "slots_ok m" "on_add_rec_reserve_keyword_search t s c ext (sm, m) = Some (sm', m')"
  shows "length (search_histories ext sm') \<le> 30 \<and> stored_histories ext sm' = Some (search_histories ext sm') \<and>
    map hk_string (hx_keywords (last (search_histories ext sm'))) = butlast (current_keywords ext sm)"
  by (rule search_result [OF assms(1), of t s c ext sm])
    (use assms(2) trim_length [of "search_histories ext sm"] in \<open>auto simp: push_search_history_def\<close>)

lemma last_keyword_is_not_in_the_history_witness:
  "\<exists>sm' m'. on_add_rec_reserve_keyword_search (Timespec 5 0) news_schedule no_channels False (news_search, news_series)
      = Some (sm', m') \<and> map hk_string (hx_keywords (last (search_histories False sm'))) = [''ew'']"
proof -
  obtain sm' m' where run: "on_add_rec_reserve_keyword_search (Timespec 5 0) news_schedule no_channels False (news_search, news_series)
      = Some (sm', m')"
    by (rule search_result [OF news_series_plan(1)])
  with last_keyword_is_not_in_the_history [OF news_series_plan(1) run] show ?thesis
    by (auto simp: current_keywords_def news_search_def)
qed

end
