(* ===== verification/Strings_Util.thy ===== *)
theory Strings_Util
  imports Prelude
begin

text \<open>
  The functions of \<open>common/utils.cpp\<close> on C strings, \<open>recv_data\<close> and \<open>makedir\<close>, and \<open>common/stack.h\<close>.
  A C string is the list of the characters in front of its NUL; a pointer into it is a suffix.
\<close>

section \<open>Searching and cutting\<close>

text \<open>\<open>strstr\<close>: where the first occurrence starts.\<close>

fun str_find :: "string \<Rightarrow> string \<Rightarrow> nat option" where
  "str_find d [] = (if d = [] then Some 0 else None)"
| "str_find d (c # s) = (if take (length d) (c # s) = d then Some 0 else map_option Suc (str_find d s))"

lemma str_find_bound: "str_find d s = Some i \<Longrightarrow> i + length d \<le> length s"
proof (induction d s arbitrary: i rule: str_find.induct)
  case (2 d c s)
  show ?case
  proof (cases "take (length d) (c # s) = d")
    case True
    then have "length d \<le> length (c # s)" by (metis length_take min.cobounded1)
    with 2 True show ?thesis by simp
  next
    case False
    with 2 show ?thesis by fastforce
  qed
qed (auto split: if_splits)

text \<open>\<open>strtok_r_impl\<close>: the token, \<open>saveptr\<close> and the flag of the delimiter at the end. The delimiter is
  overwritten, so the token ends there.\<close>

definition strtok_r_impl :: "string option \<Rightarrow> string \<Rightarrow> string \<Rightarrow> bool \<Rightarrow> string option \<times> string \<times> bool" where
  "strtok_r_impl str delim saveptr tail =
    (if length delim = 0 then (None, saveptr, tail)
     else case str of
       Some s \<Rightarrow>
         (case str_find delim s of
            None \<Rightarrow> (None, saveptr, tail)
          | Some i \<Rightarrow> (Some (take i s), drop (i + length delim) s,
              if length (drop i s) = length delim then True else tail))
     | None \<Rightarrow>
         (case str_find delim saveptr of
            None \<Rightarrow> if length saveptr > 0 then (Some saveptr, [], tail) else (None, saveptr, tail)
          | Some i \<Rightarrow> (Some (take i saveptr), drop (i + length delim) saveptr,
              if length (drop i saveptr) = length delim then True else tail)))"

section \<open>Trimming\<close>

fun lf_loop :: "string \<Rightarrow> nat \<Rightarrow> string" where
  "lf_loop p 0 = p"
| "lf_loop p (Suc len) =
    (if p ! len = CHR 0x0a \<or> p ! len = CHR 0x0d then lf_loop (take len p) len else p)"

definition delete_lf :: "string \<Rightarrow> string" where
  "delete_lf p = (if length p = 0 then p else lf_loop p (length p))"

fun head_sp_loop :: "string \<Rightarrow> string" where
  "head_sp_loop [] = []"
| "head_sp_loop (c # s) =
    (if c = CHR '' '' then if length (c # s) > 1 then head_sp_loop s else [] else c # s)"

definition delete_head_sp :: "string \<Rightarrow> string" where
  "delete_head_sp p = (if length p = 0 then p else head_sp_loop p)"

fun tail_sp_loop :: "string \<Rightarrow> nat \<Rightarrow> string" where
  "tail_sp_loop p 0 = p"
| "tail_sp_loop p (Suc n) = (if p ! n = CHR '' '' then tail_sp_loop (take n p) n else p)"

definition delete_tail_sp :: "string \<Rightarrow> string" where
  "delete_tail_sp p = (if length p = 0 then p else tail_sp_loop p (length p))"

section \<open>Receiving\<close>

text \<open>The answers of the socket: an error, the end, or bytes, after which \<open>select\<close> fails or says whether
  there are more. The result and the bytes; \<open>None\<close>: no answer yet. At most \<open>room\<close> bytes are taken.\<close>

datatype select_answer = Select_error | Ready | Not_ready
datatype recv_answer = Recv_error | Recv_end | Recv_bytes string select_answer

fun recv_data_loop :: "recv_answer list \<Rightarrow> nat \<Rightarrow> string \<Rightarrow> (int \<times> string) option" where
  "recv_data_loop as room got =
    (if room = 0 then Some (-2, got)
     else case as of
       [] \<Rightarrow> None
     | Recv_error # as \<Rightarrow> Some (-1, got)
     | Recv_end # as \<Rightarrow> Some (int (length got), got)
     | Recv_bytes bs sel # as \<Rightarrow>
         let bs = take room bs; got = got @ bs in
         (case sel of
            Select_error \<Rightarrow> Some (-3, got)
          | Not_ready \<Rightarrow> Some (int (length got), got)
          | Ready \<Rightarrow> recv_data_loop as (room - length bs) got))"

declare recv_data_loop.simps [simp del]

definition recv_data :: "recv_answer list \<Rightarrow> int \<Rightarrow> (int \<times> string) option" where
  "recv_data as buff_size = (if buff_size \<le> 0 then Some (-1, []) else recv_data_loop as (nat buff_size) [])"

section \<open>Directories\<close>

text \<open>\<open>makedir\<close>: \<open>mk\<close> says whether \<open>mkdir\<close> of a path succeeds or finds it there. The result and the paths,
  in order.\<close>

definition next_slash :: "string \<Rightarrow> nat \<Rightarrow> nat option" where
  "next_slash p from = find (\<lambda>i. p ! i = CHR ''/'') [from..<length p]"

function makedir_loop :: "(string \<Rightarrow> bool) \<Rightarrow> string \<Rightarrow> bool \<Rightarrow> nat option \<Rightarrow> int \<times> string list" where
  "makedir_loop mk path base p =
    (case p of
       None \<Rightarrow> (0, [])
     | Some i \<Rightarrow>
         if \<not> mk (take i path) then (-1, [take i path])
         else
           let q = next_slash path (i + 1) in
           if q = None \<and> \<not> base
           then (if mk path then (0, [take i path, path]) else (-1, [take i path, path]))
           else let (r, ds) = makedir_loop mk path base q in (r, take i path # ds))"
  by auto
termination
  by (relation "measure (\<lambda>(mk, path, base, p). case p of None \<Rightarrow> 0 | Some i \<Rightarrow> Suc (length path - i))")
    (auto simp: next_slash_def find_Some_iff split: option.splits)

declare makedir_loop.simps [simp del]

definition makedir :: "(string \<Rightarrow> bool) \<Rightarrow> string \<Rightarrow> bool \<Rightarrow> int \<times> string list" where
  "makedir mk path base =
    (if length path = 0 then (-1, [])
     else
       let p = next_slash path 1 in
       if p = None \<and> \<not> base then (if mk path then (0, [path]) else (-1, [path]))
       else makedir_loop mk path base p)"

section \<open>The stack\<close>

text \<open>The cells below \<open>sp_\<close>, the top last; the others are null.\<close>

abbreviation "STACK_DEPTH \<equiv> 16 :: nat"

definition stack_push :: "'a \<Rightarrow> 'a list \<Rightarrow> 'a list" where
  "stack_push x st = (if length st = STACK_DEPTH then st else st @ [x])"

definition stack_pop :: "'a list \<Rightarrow> 'a option \<times> 'a list" where
  "stack_pop st = (if length st = 0 then (None, st) else (Some (st ! (length st - 1)), take (length st - 1) st))"

definition stack_peep :: "'a list \<Rightarrow> 'a option" where
  "stack_peep st = (if length st = 0 then None else Some (st ! (length st - 1)))"

section \<open>Lemmas\<close>

lemma delete_head_sp_dropWhile [simp]: "delete_head_sp p = dropWhile (\<lambda>c. c = CHR '' '') p"
proof -
  have "head_sp_loop p = dropWhile (\<lambda>c. c = CHR '' '') p"
    by (induction p) auto
  then show ?thesis by (simp add: delete_head_sp_def)
qed

lemma tail_loop_rev:
  assumes "length p = n" and step: "\<And>p n. loop p (Suc n) = (if P (p ! n) then loop (take n p) n else p)" and zero: "\<And>p. loop p 0 = p"
  shows "loop p n = rev (dropWhile P (rev p))"
  using assms(1)
proof (induction n arbitrary: p)
  case (Suc n)
  then obtain q c where p: "p = q @ [c]" "length q = n" by (metis length_Suc_conv_rev)
  have "p ! n = c" "take n p = q" using p by (simp_all add: nth_append)
  then show ?case using Suc.IH [OF p(2)] by (simp add: step p(1))
qed (simp add: zero)

lemma delete_tail_sp_rev [simp]: "delete_tail_sp p = rev (dropWhile (\<lambda>c. c = CHR '' '') (rev p))"
  using tail_loop_rev [of p "length p" tail_sp_loop "\<lambda>c. c = CHR '' ''"] by (auto simp: delete_tail_sp_def)

lemma delete_lf_rev [simp]: "delete_lf p = rev (dropWhile (\<lambda>c. c = CHR 0x0a \<or> c = CHR 0x0d) (rev p))"
  using tail_loop_rev [of p "length p" lf_loop "\<lambda>c. c = CHR 0x0a \<or> c = CHR 0x0d"] by (auto simp: delete_lf_def)

lemma stack_push_length: "length st \<le> STACK_DEPTH \<Longrightarrow> length (stack_push x st) \<le> STACK_DEPTH"
  by (simp add: stack_push_def)

lemma stack_pop_last: "stack_pop st = (if st = [] then (None, []) else (Some (last st), butlast st))"
  by (auto simp: stack_pop_def last_conv_nth butlast_conv_take)

lemma stack_peep_last: "stack_peep st = (if st = [] then None else Some (last st))"
  by (simp add: stack_peep_def last_conv_nth)

section \<open>Making directories\<close>

definition slashes :: "string \<Rightarrow> nat \<Rightarrow> nat list" where
  "slashes p k = filter (\<lambda>i. p ! i = CHR ''/'') [k..<length p]"

text \<open>All are made up to the first that fails.\<close>

definition make_all :: "(string \<Rightarrow> bool) \<Rightarrow> string list \<Rightarrow> int \<times> string list" where
  "make_all mk ds = (case dropWhile mk ds of [] \<Rightarrow> (0, ds) | d # r \<Rightarrow> (-1, takeWhile mk ds @ [d]))"

lemma make_all_Cons: "make_all mk (d # ds) = (if mk d then case make_all mk ds of (r, xs) \<Rightarrow> (r, d # xs) else (-1, [d]))"
  by (cases "dropWhile mk ds") (simp_all add: make_all_def del: dropWhile_eq_Nil_conv)

lemma find_filter: "find P xs = (case filter P xs of [] \<Rightarrow> None | x # r \<Rightarrow> Some x)"
  by (induction xs) auto

lemma slashes_next: "next_slash p k = (case slashes p k of [] \<Rightarrow> None | i # r \<Rightarrow> Some i)"
  by (simp add: next_slash_def slashes_def find_filter)

lemma filter_upt_Cons: "filter P [k..<n] = i # r \<Longrightarrow> r = filter P [Suc i..<n]"
proof (induction "n - k" arbitrary: k)
  case (Suc m)
  then have "[k..<n] = k # [Suc k..<n]" by (simp add: upt_conv_Cons)
  moreover have "m = n - Suc k" using Suc(2) by simp
  ultimately show ?case using Suc(1) [of "Suc k"] Suc(3) by (cases "P k") auto
qed simp

lemma slashes_rest: "slashes p k = i # r \<Longrightarrow> slashes p (i + 1) = r"
  using filter_upt_Cons by (fastforce simp: slashes_def)

lemma makedir_loop_all:
  "slashes p k = i # r \<Longrightarrow>
   makedir_loop mk p base (Some i) = make_all mk (map (\<lambda>j. take j p) (i # r) @ (if base then [] else [p]))"
proof (induction r arbitrary: i k)
  case Nil
  have last: "makedir_loop mk p base None = (0, [])" by (subst makedir_loop.simps) simp
  show ?case using slashes_rest [OF Nil] last
    by (subst makedir_loop.simps) (cases base; simp add: slashes_next make_all_def Let_def)
next
  case (Cons j r)
  show ?case using slashes_rest [OF Cons.prems] Cons.IH [OF slashes_rest [OF Cons.prems]]
    by (subst makedir_loop.simps) (simp add: slashes_next make_all_Cons Let_def)
qed

text \<open>\<open>makedir\<close> asks for every directory on the way, from the outermost, and, unless the last part is the
  name of a file, for the path itself; it stops at the first that can neither be made nor is there.\<close>

theorem makedir_makes_the_parents:
  assumes "path \<noteq> []"
  shows "makedir mk path base = (case dropWhile mk (map (\<lambda>j. take j path) (slashes path 1) @ (if base then [] else [path])) of
      [] \<Rightarrow> (0, map (\<lambda>j. take j path) (slashes path 1) @ (if base then [] else [path]))
    | d # r \<Rightarrow> (-1, takeWhile mk (map (\<lambda>j. take j path) (slashes path 1) @ (if base then [] else [path])) @ [d]))"
proof -
  have "makedir mk path base = make_all mk (map (\<lambda>j. take j path) (slashes path 1) @ (if base then [] else [path]))"
  proof (cases "slashes path 1")
    case Nil
    with assms show ?thesis
      by (simp add: makedir_def slashes_next makedir_loop.simps make_all_def Let_def)
  next
    case (Cons i r)
    with assms makedir_loop_all [OF Cons] show ?thesis by (simp add: makedir_def slashes_next Let_def)
  qed
  then show ?thesis by (simp only: make_all_def)
qed

lemma makedir_makes_the_parents_witness:
  "makedir (\<lambda>d. d \<noteq> ''/a/b'') ''/a/b/c'' True = (-1, [''/a'', ''/a/b''])"
  by (subst makedir_makes_the_parents) (simp_all add: slashes_def upt_rec)

end
