(* ===== verification/Command_Server.thy ===== *)
theory Command_Server
  imports Strings_Util
begin

text \<open>
  \<open>command_server/command_server.cpp\<close> and \<open>command_tables.cpp\<close>: the lines of a connection and the tables
  of commands. A pointer to a table is a number, the tables are a function from the numbers, and the
  root table is 0. What is printed is recorded; the callbacks of the commands are other modules.
\<close>

section \<open>Lines\<close>

text \<open>The callbacks of a line: an empty one, or a command with its arguments.\<close>

datatype line_event = Line_through | Line_available string "string list"

text \<open>\<open>strtok_r (str, " ", &saveptr)\<close> until it returns null.\<close>

function space_tokens :: "string \<Rightarrow> string list" where
  "space_tokens s =
    (let s = dropWhile (\<lambda>c. c = CHR '' '') s
     in if s = [] then [] else takeWhile (\<lambda>c. c \<noteq> CHR '' '') s # space_tokens (dropWhile (\<lambda>c. c \<noteq> CHR '' '') s))"
  by auto
termination
proof (relation "measure length", simp)
  fix s x :: string
  assume x: "x = dropWhile (\<lambda>c. c = CHR '' '') s" "x \<noteq> []"
  have "hd x \<noteq> CHR '' ''" using hd_dropWhile [of "\<lambda>c. c = CHR '' ''" s] x by simp
  with x(2) obtain c xs where cons: "x = c # xs" "c \<noteq> CHR '' ''" by (cases x) simp_all
  have "length (dropWhile (\<lambda>c. c \<noteq> CHR '' '') x) \<le> length xs" using cons by (simp add: length_dropWhile_le)
  also have "\<dots> < length x" using cons by simp
  also have "\<dots> \<le> length s" unfolding x(1) by (rule length_dropWhile_le)
  finally show "(dropWhile (\<lambda>c. c \<noteq> CHR '' '') x, s) \<in> measure length" by simp
qed

declare space_tokens.simps [simp del]

text \<open>\<open>parse_command\<close>; the arguments are counted in a copy of 128 bytes.\<close>

definition parse_command :: "string \<Rightarrow> line_event list" where
  "parse_command s =
    (if length s = 0 then []
     else let n = length (space_tokens (take 128 s)) in
       if n = 0 then []
       else if n = 1 then [Line_available s []]
       else let ts = space_tokens s in [Line_available (hd ts) (tl ts)])"

text \<open>The loop of \<open>parse_delimiter\<close>: the callbacks, \<open>is_remain\<close>, and the line that is copied to the beginning of
  the buffer.\<close>

function delimiter_loop :: "string \<Rightarrow> string option \<Rightarrow> string \<Rightarrow> bool \<Rightarrow> nat \<Rightarrow> bool \<Rightarrow> string option \<Rightarrow>
    line_event list \<times> bool \<times> string option" where
  "delimiter_loop delim str saveptr tail n remain copied =
    (case strtok_r_impl str delim saveptr tail of
       (None, saveptr, tail) \<Rightarrow> ([], if n = 0 then True else remain, copied)
     | (Some token, saveptr, tail) \<Rightarrow>
         let trimmed = delete_tail_sp (delete_head_sp token) in
         if length token = 0
         then let (es, r) = delimiter_loop delim None saveptr tail (n + 1) remain copied in (Line_through # es, r)
         else if length saveptr > 0 \<or> tail
         then let (es, r) = delimiter_loop delim None saveptr tail (n + 1) remain copied in (parse_command trimmed @ es, r)
         else delimiter_loop delim None saveptr tail (n + 1) True (Some token))"
  by pat_completeness auto
termination
  by (relation "measure (\<lambda>(delim, str, saveptr, tail, n, remain, copied).
      case str of None \<Rightarrow> length saveptr | Some s \<Rightarrow> Suc (length s))")
    (auto simp: strtok_r_impl_def split: if_splits option.splits)

declare delimiter_loop.simps [simp del]

definition parse_delimiter :: "string \<Rightarrow> string \<Rightarrow> line_event list \<times> bool \<times> string option" where
  "parse_delimiter s delim =
    (if length s = 0 then ([], False, None)
     else if length delim = 0 then ([], False, None)
     else delimiter_loop delim (Some s) [] False 0 False None)"

section \<open>Connections\<close>

text \<open>The buffer with all its bytes; \<open>c_string\<close> is \<open>None\<close> when there is no NUL in it.\<close>

definition c_string :: "string \<Rightarrow> string option" where
  "c_string buf = (if CHR 0x00 \<in> set buf then Some (takeWhile (\<lambda>c. c \<noteq> CHR 0x00) buf) else None)"

definition c_copy :: "nat \<Rightarrow> string \<Rightarrow> string" where
  "c_copy n s = take n s @ replicate (n - length s) (CHR 0x00)"

record line_buffer =
  lb_buf :: string
  lb_remain :: bool

definition new_line_buffer :: "nat \<Rightarrow> line_buffer" where
  "new_line_buffer n = \<lparr>lb_buf = replicate n (CHR 0x00), lb_remain = False\<rparr>"

text \<open>One turn of the loop of \<open>recv_parse_delimiter\<close> with something to receive: the callbacks and the size,
  0 or negative when the function returns. \<open>None\<close>: the buffer is read behind its end, or nothing has
  come yet.\<close>

definition recv_turn :: "string \<Rightarrow> recv_answer list \<Rightarrow> line_buffer \<Rightarrow> (line_event list \<times> int \<times> line_buffer) option" where
  "recv_turn delim as b =
    (let n = length (lb_buf b);
         buf = (if lb_remain b then lb_buf b else replicate n (CHR 0x00)) in
     case (if lb_remain b then map_option length (c_string buf) else Some 0) of
       None \<Rightarrow> None
     | Some off \<Rightarrow>
         (case recv_data as (int n - int off) of
            None \<Rightarrow> None
          | Some (r, bs) \<Rightarrow>
              let buf = take off buf @ bs @ drop (off + length bs) buf in
              if r < 0 then Some ([], -1, b\<lparr>lb_buf := buf\<rparr>)
              else if r = 0 then Some ([], 0, b\<lparr>lb_buf := buf\<rparr>)
              else (case c_string buf of
                 None \<Rightarrow> None
               | Some s \<Rightarrow>
                   let (es, remain, copied) = parse_delimiter s delim;
                       buf = (case copied of None \<Rightarrow> buf | Some t \<Rightarrow> c_copy n t)
                   in Some (es, r, \<lparr>lb_buf = buf, lb_remain = remain\<rparr>))))"

section \<open>Tables\<close>

record 'c command_info =
  ci_command :: string
  ci_desc :: string
  ci_cb :: "'c option"
  ci_next :: "nat option"

text \<open>What is printed: the list of a table with its path and a prompt, the prompt, a message. A command that
  is called gets its arguments.\<close>

datatype 'c command_output = Show_list string "string list" | Prompt "string list" | Invalid_arguments
  | Invalid_table | Invalid_command | Call 'c "string list"

record 'c command_server =
  cs_current :: nat
  cs_stack :: "nat list"
  cs_stack_sub :: "'c command_info list"
  cs_out :: "'c command_output list"

definition print_sub_tables :: "'c command_server \<Rightarrow> string list" where
  "print_sub_tables m = (if length (cs_stack_sub m) < 1 then [] else map ci_desc (cs_stack_sub m))"

definition cs_print :: "'c command_output \<Rightarrow> 'c command_server \<Rightarrow> 'c command_server" where
  "cs_print x m = m\<lparr>cs_out := cs_out m @ [x]\<rparr>"

definition show_list :: "string \<Rightarrow> 'c command_server \<Rightarrow> 'c command_server" where
  "show_list desc m = cs_print (Show_list desc (print_sub_tables m)) m"

text \<open>The table that is shown after a move: the root, or the one on top of the stack, which may be null.\<close>

definition show_current :: "'c command_server \<Rightarrow> 'c command_server option" where
  "show_current m =
    (if cs_current m = 0 then Some (show_list ''root tables'' m)
     else map_option (\<lambda>p. show_list (ci_desc p) m) (stack_peep (cs_stack_sub m)))"

fun find_entry :: "string \<Rightarrow> 'c command_info list \<Rightarrow> 'c command_info option" where
  "find_entry c [] = None"
| "find_entry c (p # ps) = (if ci_command p = c then Some p else find_entry c ps)"

definition find_command :: "(nat \<Rightarrow> 'c command_info list) \<Rightarrow> string \<Rightarrow> string list \<Rightarrow> 'c command_server \<Rightarrow>
    'c command_server option" where
  "find_command tables command args m =
    (if command = ''..'' then
       if length args > 0 then Some (cs_print Invalid_arguments m)
       else
         let (p, st) = stack_pop (cs_stack m);
             m = m\<lparr>cs_stack := st, cs_stack_sub := snd (stack_pop (cs_stack_sub m))\<rparr>
         in (case p of None \<Rightarrow> Some m | Some t \<Rightarrow> show_current (m\<lparr>cs_current := t\<rparr>))
     else if command = ''.'' then
       if length args > 0 then Some (cs_print Invalid_arguments m)
       else show_current m
     else
       (case find_entry command (tables (cs_current m)) of
          None \<Rightarrow> Some (cs_print Invalid_command m)
        | Some p \<Rightarrow>
            (case ci_cb p of
               Some cb \<Rightarrow> Some (cs_print (Call cb args) m)
             | None \<Rightarrow>
                 (case ci_next p of
                    None \<Rightarrow> Some (cs_print Invalid_table m)
                  | Some t \<Rightarrow>
                      if length args > 0 then Some (cs_print Invalid_arguments m)
                      else Some (show_list (ci_desc p) (m\<lparr>cs_stack := stack_push (cs_current m) (cs_stack m),
                        cs_stack_sub := stack_push p (cs_stack_sub m), cs_current := t\<rparr>))))))"

definition on_command_wait_begin :: "'c command_server \<Rightarrow> 'c command_server" where
  "on_command_wait_begin m = show_list ''root tables'' (m\<lparr>cs_stack := [], cs_stack_sub := [], cs_current := 0\<rparr>)"

definition on_command_line_through :: "'c command_server \<Rightarrow> 'c command_server" where
  "on_command_line_through m = cs_print (Prompt (print_sub_tables m)) m"

definition on_command_wait_end :: "'c command_server \<Rightarrow> 'c command_server" where
  "on_command_wait_end m = m\<lparr>cs_stack := [], cs_stack_sub := []\<rparr>"

definition line_callback :: "(nat \<Rightarrow> 'c command_info list) \<Rightarrow> line_event \<Rightarrow> 'c command_server \<Rightarrow> 'c command_server option" where
  "line_callback tables e m =
    (case e of Line_through \<Rightarrow> Some (on_command_line_through m) | Line_available c args \<Rightarrow> find_command tables c args m)"

fun line_callbacks :: "(nat \<Rightarrow> 'c command_info list) \<Rightarrow> line_event list \<Rightarrow> 'c command_server \<Rightarrow> 'c command_server option" where
  "line_callbacks tables [] m = Some m"
| "line_callbacks tables (e # es) m =
    (case line_callback tables e m of None \<Rightarrow> None | Some m \<Rightarrow> line_callbacks tables es m)"

section \<open>The loop of a connection\<close>

datatype system_command = Cb_echo | Cb_close | Cb_status_dump | Cb_log_level

text \<open>A turn of the loop: \<open>select\<close> fails, nothing comes for a second (with the request to end the program, or
  without), or there is something to receive.\<close>

datatype turn = Turn_error | Turn_timeout bool | Turn_receive "recv_answer list"

text \<open>The command \<open>cl\<close> was called: \<open>is_connection_close_\<close> is set.\<close>

definition close_called :: "(system_command + 'c) command_server \<Rightarrow> (system_command + 'c) command_server \<Rightarrow> bool" where
  "close_called m m' =
    list_ex (\<lambda>x. case x of Call (Inl Cb_close) args \<Rightarrow> True | _ \<Rightarrow> False) (drop (length (cs_out m)) (cs_out m'))"

fun recv_parse_delimiter :: "(nat \<Rightarrow> (system_command + 'c) command_info list) \<Rightarrow> string \<Rightarrow> turn list \<Rightarrow> int \<Rightarrow>
    line_buffer \<Rightarrow> bool \<times> (system_command + 'c) command_server \<Rightarrow>
    (int \<times> bool \<times> (system_command + 'c) command_server) option" where
  "recv_parse_delimiter tables delim [] got b st = None"
| "recv_parse_delimiter tables delim (t # ts) got b (close, m) =
    (case t of
       Turn_error \<Rightarrow> recv_parse_delimiter tables delim ts got b (close, m)
     | Turn_timeout destroy \<Rightarrow>
         if close then Some (0, False, m)
         else if destroy then Some (got, close, m)
         else recv_parse_delimiter tables delim ts got b (close, m)
     | Turn_receive as \<Rightarrow>
         (case recv_turn delim as b of
            None \<Rightarrow> None
          | Some (es, r, b) \<Rightarrow>
              if r \<le> 0 then Some (r, close, m)
              else (case line_callbacks tables es m of
                 None \<Rightarrow> None
               | Some m' \<Rightarrow> recv_parse_delimiter tables delim ts (got + r) b (close \<or> close_called m m', m'))))"

text \<open>The part of \<open>server_loop\<close> for a connection; \<open>calls\<close> are the turns of each call.\<close>

fun serve_calls :: "(nat \<Rightarrow> (system_command + 'c) command_info list) \<Rightarrow> turn list list \<Rightarrow>
    bool \<times> (system_command + 'c) command_server \<Rightarrow> (bool \<times> (system_command + 'c) command_server) option" where
  "serve_calls tables [] st = None"
| "serve_calls tables (ts # calls) st =
    (case recv_parse_delimiter tables [CHR 0x0d, CHR 0x0a] ts 0 (new_line_buffer 128) st of
       None \<Rightarrow> None
     | Some (r, st) \<Rightarrow> if r \<le> 0 then Some st else serve_calls tables calls st)"

definition serve_connection :: "(nat \<Rightarrow> (system_command + 'c) command_info list) \<Rightarrow> turn list list \<Rightarrow>
    bool \<times> (system_command + 'c) command_server \<Rightarrow> (bool \<times> (system_command + 'c) command_server) option" where
  "serve_connection tables calls st =
    map_option (\<lambda>(close, m). (close, on_command_wait_end m))
      (serve_calls tables calls (fst st, on_command_wait_begin (snd st)))"

section \<open>The system commands\<close>

definition sys_entry :: "string \<Rightarrow> string \<Rightarrow> system_command \<Rightarrow> (system_command + 'c) command_info" where
  "sys_entry c d cb = \<lparr>ci_command = c, ci_desc = d, ci_cb = Some (Inl cb), ci_next = None\<rparr>"

definition g_system_commands :: "(system_command + 'c) command_info list" where
  "g_system_commands =
    [sys_entry ''e'' ''echo from commandServer'' Cb_echo, sys_entry ''cl'' ''close connection'' Cb_close,
     sys_entry ''ts'' ''threadmgr status dump'' Cb_status_dump,
     sys_entry ''lv'' ''log level (usage: lv {0|1|2|3|4})'' Cb_log_level]"

definition sub_table :: "string \<Rightarrow> string \<Rightarrow> nat \<Rightarrow> 'c command_info" where
  "sub_table c d t = \<lparr>ci_command = c, ci_desc = d, ci_cb = None, ci_next = Some t\<rparr>"

definition g_root_command_table :: "'c command_info list" where
  "g_root_command_table =
    [sub_table ''s'' ''system commands'' 1, sub_table ''tc'' ''tuner control'' 2,
     sub_table ''pm'' ''psisi manager'' 3, sub_table ''ts'' ''tuner service'' 4, sub_table ''rec'' ''rec manager'' 5,
     sub_table ''cm'' ''channel manager'' 6, sub_table ''em'' ''event schedule manager'' 7,
     sub_table ''es'' ''event search'' 8, sub_table ''vm'' ''viewing manager'' 9]"

text \<open>\<open>mods\<close> are the tables of the modules.\<close>

definition command_tables :: "(nat \<Rightarrow> (system_command + 'c) command_info list) \<Rightarrow> nat \<Rightarrow> (system_command + 'c) command_info list" where
  "command_tables mods t = (if t = 0 then g_root_command_table else if t = 1 then g_system_commands else mods t)"

text \<open>\<open>_log_level\<close>: the level that is set.\<close>

definition log_level_command :: "string list \<Rightarrow> nat option" where
  "log_level_command args =
    (case args of
       [a] \<Rightarrow> if length a = 1 \<and> (48::nat) \<le> of_char (hd a) \<and> of_char (hd a) \<le> (52::nat)
         then Some (of_char (hd a) - 48) else None
     | _ \<Rightarrow> None)"

end
