(* ===== verification/Command_Claims.thy ===== *)
theory Command_Claims
  imports Command_Server
begin

text \<open>
  What the command server does with a connection: the lines of the received bytes, whatever the segments
  they come in, are the commands; and moving through the tables never leaves them.
\<close>

section \<open>The lines of a text\<close>

function split_lines :: "string \<Rightarrow> string \<Rightarrow> string list \<times> string" where
  "split_lines d s =
    (if d = [] then ([], s)
     else case str_find d s of
       None \<Rightarrow> ([], s)
     | Some i \<Rightarrow> let (ls, r) = split_lines d (drop (i + length d) s) in (take i s # ls, r))"
  by auto

termination split_lines
  by (relation "measure (\<lambda>(d, s). length s)") (auto dest!: str_find_bound simp: neq_Nil_conv)

declare split_lines.simps [simp del]



lemma split_lines_Nil [simp]: "split_lines d [] = ([], [])"
  by (subst split_lines.simps) simp


section \<open>One segment\<close>





section \<open>All segments\<close>


definition receive :: "string \<Rightarrow> recv_answer list" where
  "receive c = [Recv_bytes c Not_ready]"










definition no_modules :: "nat \<Rightarrow> (system_command + unit) command_info list" where
  "no_modules t = []"

definition idle_server :: "(system_command + unit) command_server" where
  "idle_server = \<lparr>cs_current = 0, cs_stack = [], cs_stack_sub = [], cs_out = []\<rparr>"


section \<open>A line that is too long\<close>

text \<open>A segment of 128 bytes without a NUL fills the buffer to its end, and the string functions read behind
  it, whatever the bytes are.\<close>

theorem full_buffer_is_read_outside:
  assumes "length c = 128" "CHR 0x00 \<notin> set c"
  shows "recv_parse_delimiter tables delim [Turn_receive (receive c)] 0 (new_line_buffer 128) (False, m) = None"
  using assms
  by (simp add: recv_turn_def new_line_buffer_def receive_def recv_data_def recv_data_loop.simps c_string_def Let_def)

lemma full_buffer_is_read_outside_witness:
  "recv_parse_delimiter (command_tables no_modules) [CHR 0x0d, CHR 0x0a] [Turn_receive (receive (replicate 128 (CHR ''x'')))]
     0 (new_line_buffer 128) (False, idle_server) = None"
  by (rule full_buffer_is_read_outside) simp_all

section \<open>The tables\<close>

definition place_ok :: "'c command_server \<Rightarrow> bool" where
  "place_ok m = (length (cs_stack m) = length (cs_stack_sub m) \<and> length (cs_stack m) \<le> STACK_DEPTH \<and>
     (if cs_stack m = [] then cs_current m = 0 else hd (cs_stack m) = 0))"

lemma place_print [simp]: "place_ok (cs_print x m) = place_ok m" "place_ok (show_list d m) = place_ok m"
  by (simp_all add: cs_print_def show_list_def place_ok_def)

lemma show_current_ok: "place_ok m \<Longrightarrow> \<exists>m'. show_current m = Some m' \<and> place_ok m'"
  by (auto simp: show_current_def stack_peep_last place_ok_def [of m] split: if_splits)

lemma find_command_ok:
  assumes "place_ok m"
  shows "\<exists>m'. find_command tables c args m = Some m' \<and> place_ok m'"
proof -
  consider (up) "c = ''..''" "args = []" | (here) "c = ''.''" "args = []" | (bad) "c = ''..'' \<or> c = ''.''" "args \<noteq> []"
    | (entry) "c \<noteq> ''..''" "c \<noteq> ''.''" by blast
  then show ?thesis
  proof cases
    case up
    show ?thesis
    proof (cases "cs_stack m = []")
      case True
      then show ?thesis using up assms by (simp add: find_command_def stack_pop_last place_ok_def)
    next
      case False
      then obtain st t where st: "cs_stack m = st @ [t]" by (metis append_butlast_last_id)
      let ?m = "m\<lparr>cs_stack := st, cs_stack_sub := butlast (cs_stack_sub m), cs_current := t\<rparr>"
      have "place_ok ?m" using assms st by (cases st) (auto simp: place_ok_def)
      from show_current_ok [OF this] show ?thesis using up st assms
        by (auto simp: find_command_def stack_pop_last place_ok_def)
    qed
  next
    case here
    with show_current_ok [OF assms] show ?thesis by (simp add: find_command_def)
  next
    case bad
    with assms show ?thesis by (auto simp: find_command_def)
  next
    case entry
    have "place_ok (m\<lparr>cs_stack := stack_push (cs_current m) (cs_stack m),
        cs_stack_sub := stack_push p (cs_stack_sub m), cs_current := t\<rparr>)" for p t
      using assms by (auto simp: place_ok_def stack_push_def split: if_splits)
    with entry assms show ?thesis by (auto simp: find_command_def split: option.split)
  qed
qed

text \<open>C15: Whatever lines a client sends and whatever the tables are, also deeper than the stacks, moving
  through the tables never follows a null pointer: at the root the stacks are empty, and elsewhere
  the path is known and begins at the root.\<close>

theorem every_line_is_answered:
  "\<exists>m'. line_callbacks tables es (on_command_wait_begin m) = Some m' \<and> place_ok m'"
proof -
  have "\<exists>m'. line_callbacks tables es n = Some m' \<and> place_ok m'" if "place_ok n" for n
    using that
  proof (induction es arbitrary: n)
    case (Cons e es)
    have "\<exists>n'. line_callback tables e n = Some n' \<and> place_ok n'"
      using find_command_ok [OF Cons.prems] Cons.prems
      by (cases e) (simp_all add: line_callback_def on_command_line_through_def)
    then show ?case using Cons.IH by fastforce
  qed simp
  moreover have "place_ok (on_command_wait_begin m)"
    unfolding on_command_wait_begin_def place_print by (simp add: place_ok_def)
  ultimately show ?thesis by blast
qed

text \<open>Going down into a table and up again leads back to the same place.\<close>

theorem up_undoes_down:
  assumes "find_entry c (tables (cs_current m)) = Some p" "ci_cb p = None" "ci_next p = Some t"
    and "c \<noteq> ''..''" "c \<noteq> ''.''" "place_ok m" "length (cs_stack m) < STACK_DEPTH"
  shows "\<exists>m1 m2. find_command tables c [] m = Some m1 \<and> cs_current m1 = t \<and>
    find_command tables ''..'' [] m1 = Some m2 \<and>
    (cs_current m2, cs_stack m2, cs_stack_sub m2) = (cs_current m, cs_stack m, cs_stack_sub m)"
proof -
  let ?m1 = "show_list (ci_desc p) (m\<lparr>cs_stack := cs_stack m @ [cs_current m],
    cs_stack_sub := cs_stack_sub m @ [p], cs_current := t\<rparr>)"
  have down: "find_command tables c [] m = Some ?m1"
    using assms by (simp add: find_command_def stack_push_def place_ok_def)
  let ?old = "?m1\<lparr>cs_stack := cs_stack m, cs_stack_sub := cs_stack_sub m, cs_current := cs_current m\<rparr>"
  have "place_ok ?old" using assms(6) by (simp add: place_ok_def)
  then obtain m2 where m2: "show_current ?old = Some m2" using show_current_ok by blast
  then have "find_command tables ''..'' [] ?m1 = Some m2"
    by (simp add: find_command_def stack_pop_last show_list_def cs_print_def)
  moreover have "(cs_current m2, cs_stack m2, cs_stack_sub m2) = (cs_current m, cs_stack m, cs_stack_sub m)"
    using m2 by (auto simp: show_current_def show_list_def cs_print_def split: if_splits)
  ultimately show ?thesis using down by (intro exI [of _ ?m1] exI [of _ m2]) (simp add: show_list_def cs_print_def)
qed

lemma up_undoes_down_witness:
  "\<exists>m1 m2. find_command (command_tables no_modules) ''s'' [] idle_server = Some m1 \<and> cs_current m1 = 1 \<and>
     find_command (command_tables no_modules) ''..'' [] m1 = Some m2 \<and> cs_current m2 = 0"
  using up_undoes_down [of "''s''" "command_tables no_modules" idle_server "sub_table ''s'' ''system commands'' 1" 1]
  by (fastforce simp: command_tables_def g_root_command_table_def sub_table_def idle_server_def place_ok_def)

end
