(* ===== verification/Dsmcc.thy ===== *)
theory Dsmcc
  imports Table_Claims
begin

text \<open>
  The DSM-CC section parser (src/src/parser/dsmcc): \<open>parse_dii\<close> and \<open>parse_ddb\<close> of the two
  download messages, the class as a listener of the section parser, and \<open>dsmcc_descriptor\<close>.
  Arrays of a fixed size are byte lists of this length, zero where nothing was copied.
\<close>

section \<open>The messages\<close>

record dsmcc_adaptation_header =
  adaptation_type :: u8
  adaptation_data_byte :: "u8 list"

definition no_adaptation :: dsmcc_adaptation_header where
  "no_adaptation = \<lparr>adaptation_type = 0, adaptation_data_byte = fill 255 []\<rparr>"

record dsmcc_message_header =
  mh_protocol_discriminator :: u8
  mh_dsmcc_type :: u8
  mh_message_id :: u16
  mh_transaction_id :: u32
  mh_reserved :: u8
  mh_adaptation_length :: u8
  mh_message_length :: u16
  mh_adaptation_header :: dsmcc_adaptation_header

record dii_module =
  module_id :: u16
  module_size :: u32
  module_version :: u8
  module_info_length :: u8
  module_info_byte :: "u8 list"

record download_info_indication =
  message_header :: dsmcc_message_header
  dii_download_id :: u32
  block_size :: u16
  window_size :: u8
  ack_period :: u8
  tc_download_window :: u32
  tc_download_scenario :: u32
  number_of_modules :: u16
  dii_modules :: "dii_module list"
  private_data_length :: u16
  private_data_byte :: "u8 list"

text \<open>\<open>dsmcc_download_data_header\<close> has the same fields; its \<open>download_id\<close> stands where the
  other header has the \<open>transaction_id\<close>.\<close>

record download_data_block =
  download_data_header :: dsmcc_message_header
  ddb_module_id :: u16
  ddb_module_version :: u8
  ddb_reserved :: u8
  block_number :: u16
  block_data_byte :: "u8 list"
  m_blockDataByteLen :: int

record dii =
  dii_header :: section_header
  dii_body :: download_info_indication

record ddb =
  ddb_header :: section_header
  ddb_body :: download_data_block

definition DDB_FIX_LEN :: int where "DDB_FIX_LEN = 6"

section \<open>Parsing\<close>

definition be32 :: "u8 list \<Rightarrow> nat \<Rightarrow> u32" where
  "be32 b i = push_bit 24 (ucast (b ! i)) OR push_bit 16 (ucast (b ! (i + 1)))
     OR push_bit 8 (ucast (b ! (i + 2))) OR ucast (b ! (i + 3))"

definition parse_adaptation :: "u8 list \<Rightarrow> nat \<Rightarrow> nat \<Rightarrow> (dsmcc_adaptation_header \<times> nat) parse" where
  "parse_adaptation m p adapt_len =
     (if adapt_len = 0 then Parsed (no_adaptation, p)
      else bindp (get_bytes m p adapt_len) (\<lambda>b.
        Parsed (\<lparr>adaptation_type = b ! 0, adaptation_data_byte = fill 255 (drop 1 b)\<rparr>, p + adapt_len)))"

text \<open>The header that both messages start with, and where it ends.\<close>

definition parse_message_header :: "u8 list \<Rightarrow> nat \<Rightarrow> (dsmcc_message_header \<times> nat) parse" where
  "parse_message_header m p =
     bindp (get_bytes m p 12) (\<lambda>b. bindp (parse_adaptation m (p + 12) (unat (b ! 9))) (\<lambda>(ad, q).
       Parsed (\<lparr>mh_protocol_discriminator = b ! 0, mh_dsmcc_type = b ! 1,
                mh_message_id = be16 (b ! 2) (b ! 3), mh_transaction_id = be32 b 4,
                mh_reserved = b ! 8, mh_adaptation_length = b ! 9,
                mh_message_length = be16 (b ! 10) (b ! 11), mh_adaptation_header = ad\<rparr>, q)))"

definition parse_module :: "u8 list \<Rightarrow> nat \<Rightarrow> (dii_module \<times> nat) parse" where
  "parse_module m p =
     bindp (get_bytes m p 8) (\<lambda>b. bindp (get_bytes m (p + 8) (unat (b ! 7))) (\<lambda>info.
       Parsed (\<lparr>module_id = be16 (b ! 0) (b ! 1), module_size = be32 b 2, module_version = b ! 6,
                module_info_length = b ! 7, module_info_byte = fill 255 info\<rparr>,
               p + 8 + unat (b ! 7))))"

fun parse_modules :: "u8 list \<Rightarrow> nat \<Rightarrow> nat \<Rightarrow> (dii_module list \<times> nat) parse" where
  "parse_modules m 0 p = Parsed ([], p)"
| "parse_modules m (Suc n) p =
     bindp (parse_module m p) (\<lambda>(x, q). bindp (parse_modules m n q) (\<lambda>(xs, r). Parsed (x # xs, r)))"

text \<open>Behind the fixed part of a download info indication stands the compatibility descriptor,
  of which only the length is read.\<close>

definition skip_compatibility :: "u16 \<Rightarrow> nat" where
  "skip_compatibility cd_len = (if 0 < cd_len then 2 + unat cd_len else 4)"

definition parse_dii :: "u8 list \<Rightarrow> section_info \<Rightarrow> dii parse" where
  "parse_dii m s =
     bindp (data_off s) (\<lambda>d. bindp (parse_message_header m d) (\<lambda>(mh, p).
     bindp (get_bytes m p 18) (\<lambda>b.
       let p = p + 16 + skip_compatibility (be16 (b ! 16) (b ! 17)) in
       bindp (get16 m p) (\<lambda>module_num.
       bindp (parse_modules m (unat module_num) (p + 2)) (\<lambda>(ms, p).
       bindp (get16 m p) (\<lambda>plen.
       bindp (get_bytes m (p + 2) (unat plen)) (\<lambda>priv.
         let total_len = int (p + 2 + unat plen) - int d in
         if total_len \<noteq> uint (get_data_part_len s) then Rejected
         else Parsed \<lparr>dii_header = sect_hdr s, dii_body =
           \<lparr>message_header = mh, dii_download_id = be32 b 0, block_size = be16 (b ! 4) (b ! 5),
            window_size = b ! 6, ack_period = b ! 7, tc_download_window = be32 b 8,
            tc_download_scenario = be32 b 12, number_of_modules = module_num, dii_modules = ms,
            private_data_length = plen, private_data_byte = fill 65535 priv\<rparr>\<rparr>)))))))"

definition parse_ddb :: "u8 list \<Rightarrow> section_info \<Rightarrow> ddb parse" where
  "parse_ddb m s =
     bindp (data_off s) (\<lambda>d. bindp (parse_message_header m d) (\<lambda>(mh, p).
     bindp (get_bytes m p 6) (\<lambda>b.
       let len = uint (mh_message_length mh) - uint (mh_adaptation_length mh) - DDB_FIX_LEN in
       if len < 0 then Rejected
       else bindp (get_bytes m (p + 6) (nat len)) (\<lambda>blk.
         let total_len = int (p + 6 + nat len) - int d in
         if total_len \<noteq> uint (get_data_part_len s) then Rejected
         else Parsed \<lparr>ddb_header = sect_hdr s, ddb_body =
           \<lparr>download_data_header = mh, ddb_module_id = be16 (b ! 0) (b ! 1), ddb_module_version = b ! 2,
            ddb_reserved = b ! 3, block_number = be16 (b ! 4) (b ! 5),
            block_data_byte = fill 65535 blk, m_blockDataByteLen = len\<rparr>\<rparr>))))"

section \<open>The listener\<close>

record dsmcc_store =
  diis :: "dii list"
  ddbs :: "ddb list"
  dsmcc_wild_read :: bool

definition dsmcc_started :: "section_info \<Rightarrow> bool" where
  "dsmcc_started s \<longleftrightarrow> table_id (sect_hdr s) = 0x3b \<or> table_id (sect_hdr s) = 0x3c"

definition dsmcc_completed ::
  "nat \<Rightarrow> section_parser \<times> dsmcc_store \<Rightarrow> section_parser \<times> dsmcc_store" where
  "dsmcc_completed a st =
     (let (sp, c) = st; s = sect_at sp a in
      if table_id (sect_hdr s) = 0x3b then
        (case parse_dii (pool sp) s of
           Parsed x \<Rightarrow> (sp, c\<lparr>diis := diis c @ [x]\<rparr>)
         | Rejected \<Rightarrow> (detach_section_list a sp, c)
         | Overrun \<Rightarrow> (sp, c\<lparr>dsmcc_wild_read := True\<rparr>))
      else if table_id (sect_hdr s) = 0x3c then
        (case parse_ddb (pool sp) s of
           Parsed x \<Rightarrow> (sp, c\<lparr>ddbs := ddbs c @ [x]\<rparr>)
         | Rejected \<Rightarrow> (detach_section_list a sp, c)
         | Overrun \<Rightarrow> (sp, c\<lparr>dsmcc_wild_read := True\<rparr>))
      else (detach_section_list a sp, c))"

definition dsmcc_listener :: "dsmcc_store listener" where
  "dsmcc_listener = \<lparr>on_started = dsmcc_started, on_completed = dsmcc_completed\<rparr>"

definition new_dsmcc :: "nat \<Rightarrow> section_parser \<times> dsmcc_store" where
  "new_dsmcc size_of_pool =
     (new_parser size_of_pool 0 T_DSMCC, \<lparr>diis = [], ddbs = [], dsmcc_wild_read = False\<rparr>)"

definition release_diis :: "dsmcc_store \<Rightarrow> dsmcc_store" where
  "release_diis c = c\<lparr>diis := []\<rparr>"

definition release_ddbs :: "dsmcc_store \<Rightarrow> dsmcc_store" where
  "release_ddbs c = c\<lparr>ddbs := []\<rparr>"

definition dsmcc_clear :: "section_parser \<times> dsmcc_store \<Rightarrow> section_parser \<times> dsmcc_store" where
  "dsmcc_clear st = (detach_all_section_list (fst st), release_diis (release_ddbs (snd st)))"

lemma dsmcc_completed_cases:
  "dsmcc_completed a (sp, c) = (sp', c') \<Longrightarrow> sp' = sp \<or> sp' = detach_section_list a sp"
  by (auto simp: dsmcc_completed_def Let_def split: parse.splits if_splits)

interpretation dsmcc: section_listener dsmcc_listener
  by unfold_locales
    (rule listener_contract, assumption+, simp add: dsmcc_listener_def dsmcc_completed_cases)

section \<open>The descriptor\<close>

record dsmcc_descriptor =
  dd_tag :: u8
  dd_length :: u8
  dd_data :: "u8 list"
  dd_is_valid :: bool

text \<open>The constructor: a descriptor without data is invalid and keeps tag and length 0; its
  array is not initialised, which \<open>before\<close> stands for.\<close>

definition new_dsmcc_descriptor :: "u8 list \<Rightarrow> u8 list \<Rightarrow> nat \<Rightarrow> dsmcc_descriptor parse" where
  "new_dsmcc_descriptor before m p =
     bindp (get8 m (p + 1)) (\<lambda>len.
       if len = 0 then Parsed \<lparr>dd_tag = 0, dd_length = 0, dd_data = before, dd_is_valid = False\<rparr>
       else bindp (get_bytes m (p + 2) (unat len)) (\<lambda>bs.
         Parsed \<lparr>dd_tag = m ! p, dd_length = len, dd_data = fill 255 bs, dd_is_valid = True\<rparr>))"

definition copy_dsmcc_descriptor :: "dsmcc_descriptor \<Rightarrow> dsmcc_descriptor" where
  "copy_dsmcc_descriptor obj =
     \<lparr>dd_tag = dd_tag obj, dd_length = dd_length obj,
      dd_data = fill 255 (take (unat (dd_length obj)) (dd_data obj)), dd_is_valid = dd_is_valid obj\<rparr>"

end
