(* ===== verification/Dsmcc_Claims.thy ===== *)
theory Dsmcc_Claims
  imports Dsmcc
begin

text \<open>
  The theorems about the DSM-CC parser: both messages are read back from their encoding, the
  copies fit the fixed arrays, and the inputs that are refused or misread.
\<close>

section \<open>Encoders\<close>

definition be16_bytes :: "u16 \<Rightarrow> u8 list" where
  "be16_bytes v = [ucast (drop_bit 8 v), ucast v]"

lemma length_be16_bytes [simp]: "length (be16_bytes v) = 2"
  by (simp add: be16_bytes_def)

definition enc_adaptation :: "u8 \<Rightarrow> dsmcc_adaptation_header \<Rightarrow> u8 list" where
  "enc_adaptation n a =
     (if n = 0 then [] else adaptation_type a # take (unat n - 1) (adaptation_data_byte a))"

definition wf_adaptation :: "u8 \<Rightarrow> dsmcc_adaptation_header \<Rightarrow> bool" where
  "wf_adaptation n a \<longleftrightarrow>
     (if n = 0 then a = no_adaptation
      else adaptation_data_byte a = fill 255 (take (unat n - 1) (adaptation_data_byte a)))"

definition enc_message_header :: "dsmcc_message_header \<Rightarrow> u8 list" where
  "enc_message_header h =
     [mh_protocol_discriminator h, mh_dsmcc_type h] @ be16_bytes (mh_message_id h)
     @ be32_bytes (mh_transaction_id h) @ [mh_reserved h, mh_adaptation_length h]
     @ be16_bytes (mh_message_length h) @ enc_adaptation (mh_adaptation_length h) (mh_adaptation_header h)"

definition wf_message_header :: "dsmcc_message_header \<Rightarrow> bool" where
  "wf_message_header h \<longleftrightarrow> wf_adaptation (mh_adaptation_length h) (mh_adaptation_header h)"

definition enc_module :: "dii_module \<Rightarrow> u8 list" where
  "enc_module x = be16_bytes (module_id x) @ be32_bytes (module_size x)
     @ [module_version x, module_info_length x] @ take (unat (module_info_length x)) (module_info_byte x)"

definition wf_module :: "dii_module \<Rightarrow> bool" where
  "wf_module x \<longleftrightarrow>
     module_info_byte x = fill 255 (take (unat (module_info_length x)) (module_info_byte x))"

text \<open>A download info indication with the compatibility descriptor \<open>cd\<close>.\<close>

definition enc_dii :: "download_info_indication \<Rightarrow> u8 list \<Rightarrow> u8 list" where
  "enc_dii d cd =
     enc_message_header (message_header d) @ be32_bytes (dii_download_id d) @ be16_bytes (block_size d)
     @ [window_size d, ack_period d] @ be32_bytes (tc_download_window d)
     @ be32_bytes (tc_download_scenario d) @ be16_bytes (word_of_nat (length cd)) @ cd
     @ be16_bytes (number_of_modules d) @ concat (map enc_module (dii_modules d))
     @ be16_bytes (private_data_length d) @ take (unat (private_data_length d)) (private_data_byte d)"

definition wf_dii :: "download_info_indication \<Rightarrow> bool" where
  "wf_dii d \<longleftrightarrow> wf_message_header (message_header d) \<and>
     unat (number_of_modules d) = length (dii_modules d) \<and> list_all wf_module (dii_modules d) \<and>
     unat (private_data_length d) \<le> length (private_data_byte d) \<and>
     private_data_byte d = fill 65535 (take (unat (private_data_length d)) (private_data_byte d))"

definition enc_ddb :: "download_data_block \<Rightarrow> u8 list" where
  "enc_ddb b = enc_message_header (download_data_header b) @ be16_bytes (ddb_module_id b)
     @ [ddb_module_version b, ddb_reserved b] @ be16_bytes (block_number b)
     @ take (nat (m_blockDataByteLen b)) (block_data_byte b)"

definition wf_ddb :: "download_data_block \<Rightarrow> bool" where
  "wf_ddb b \<longleftrightarrow> wf_message_header (download_data_header b) \<and> 0 \<le> m_blockDataByteLen b \<and>
     uint (mh_message_length (download_data_header b))
       = uint (mh_adaptation_length (download_data_header b)) + 6 + m_blockDataByteLen b \<and>
     block_data_byte b = fill 65535 (take (nat (m_blockDataByteLen b)) (block_data_byte b))"

text \<open>A completed section of the DSM-CC parser whose data part holds \<open>body\<close>.\<close>

definition dsmcc_section :: "u8 list \<Rightarrow> section_info \<Rightarrow> u8 list \<Rightarrow> bool" where
  "dsmcc_section m s body \<longleftrightarrow> (\<exists>d. data s = Off d \<and> at m d body) \<and>
     uint (get_data_part_len s) = int (length body)"

section \<open>Reading back\<close>

lemma be32_split:
  "push_bit 24 (ucast (ucast (drop_bit 24 w) :: u8)) OR push_bit 16 (ucast (ucast (drop_bit 16 w) :: u8))
     OR push_bit 8 (ucast (ucast (drop_bit 8 w) :: u8)) OR ucast (ucast w :: u8) = (w :: u32)"
proof (rule bit_word_eqI)
  fix n :: nat
  assume "n < LENGTH(32)"
  then have "n < 8 \<or> (8 \<le> n \<and> n < 16) \<or> (16 \<le> n \<and> n < 24) \<or> (24 \<le> n \<and> n < 32)" by (simp, linarith)
  then consider "n < 8" | k where "n = 8 + k" "k < 8" | k where "n = 16 + k" "k < 8" | k where "n = 24 + k" "k < 8"
    by (auto dest!: le_Suc_ex)
  then show "bit (push_bit 24 (ucast (ucast (drop_bit 24 w) :: u8)) OR push_bit 16 (ucast (ucast (drop_bit 16 w) :: u8))
     OR push_bit 8 (ucast (ucast (drop_bit 8 w) :: u8)) OR ucast (ucast w :: u8) :: u32) n = bit w n"
    by cases (auto simp: bit_simps add.commute)
qed

lemma length_fill_take [simp]: "length (fill n bs) = length bs + (n - length bs)"
  by (simp add: fill_def)

lemma u8_bound: "unat (n :: u8) \<le> 255"
proof -
  have "unat n < 2 ^ LENGTH(8)" by (rule unsigned_less)
  then show ?thesis by simp
qed

lemma u16_bound: "unat (n :: u16) \<le> 65535"
proof -
  have "unat n < 2 ^ LENGTH(16)" by (rule unsigned_less)
  then show ?thesis by simp
qed

lemma take_filled:
  assumes "bs = fill n (take k bs)" "k \<le> n"
  shows "length (take k bs) = k"
  using arg_cong [OF assms(1), of length] assms(2) by simp

lemma adaptation_at:
  assumes "wf_adaptation n a" "at m p (enc_adaptation n a @ rest)"
  shows "parse_adaptation m p (unat n) = Parsed (a, p + length (enc_adaptation n a))"
    and "length (enc_adaptation n a) = unat n"
proof -
  show len: "length (enc_adaptation n a) = unat n"
  proof (cases "n = 0")
    case False
    then have "0 < unat n" by (simp add: unat_gt_0)
    moreover have "length (take (unat n - 1) (adaptation_data_byte a)) = unat n - 1"
      using assms(1) False u8_bound [of n]
      by (intro take_filled [of _ 255]) (auto simp: wf_adaptation_def intro: diff_le_self [THEN le_trans])
    ultimately show ?thesis using False by (simp add: enc_adaptation_def)
  qed (simp add: enc_adaptation_def)
  show "parse_adaptation m p (unat n) = Parsed (a, p + length (enc_adaptation n a))"
  proof (cases "n = 0")
    case True
    then show ?thesis using assms(1) by (simp add: parse_adaptation_def enc_adaptation_def wf_adaptation_def)
  next
    case False
    have "get_bytes m p (unat n) = Parsed (enc_adaptation n a)"
      by (rule get_bytes_at [OF assms(2)]) (simp add: len)
    moreover have "enc_adaptation n a ! 0 = adaptation_type a"
      "fill 255 (drop 1 (enc_adaptation n a)) = adaptation_data_byte a"
      using assms(1) False by (simp_all add: enc_adaptation_def wf_adaptation_def)
    ultimately show ?thesis using False
      by (simp add: parse_adaptation_def len unat_eq_0)
  qed
qed

lemma length_enc_message_header:
  "wf_message_header h \<Longrightarrow> length (enc_message_header h) = 12 + unat (mh_adaptation_length h)"
  using adaptation_at(2) [of "mh_adaptation_length h" "mh_adaptation_header h", OF _ at_whole [of "_ @ _"]]
  by (simp add: enc_message_header_def wf_message_header_def)

lemma message_header_at:
  assumes "wf_message_header h" "at m p (enc_message_header h @ rest)"
  shows "parse_message_header m p = Parsed (h, p + length (enc_message_header h))"
proof -
  let ?ad = "enc_adaptation (mh_adaptation_length h) (mh_adaptation_header h)"
  let ?fix = "[mh_protocol_discriminator h, mh_dsmcc_type h] @ be16_bytes (mh_message_id h)
     @ be32_bytes (mh_transaction_id h) @ [mh_reserved h, mh_adaptation_length h]
     @ be16_bytes (mh_message_length h)"
  have m: "at m p (?fix @ ?ad @ rest)" using assms(2) by (simp add: enc_message_header_def)
  have b: "get_bytes m p 12 = Parsed ?fix" by (rule get_bytes_at [OF m]) simp
  have "at m (p + 12) (?ad @ rest)" by (rule at_skip [OF m]) simp
  then have "parse_adaptation m (p + 12) (unat (mh_adaptation_length h))
      = Parsed (mh_adaptation_header h, p + 12 + length ?ad)"
    using assms(1) by (intro adaptation_at(1)) (simp_all add: wf_message_header_def)
  then show ?thesis
    using b by (simp add: parse_message_header_def enc_message_header_def be16_bytes_def be32_bytes_def
        be32_def be32_split be16_split)
qed

lemma module_at:
  assumes "wf_module x" "at m p (enc_module x @ rest)"
  shows "parse_module m p = Parsed (x, p + length (enc_module x))"
proof -
  let ?info = "take (unat (module_info_length x)) (module_info_byte x)"
  let ?fix = "be16_bytes (module_id x) @ be32_bytes (module_size x) @ [module_version x, module_info_length x]"
  have m: "at m p (?fix @ ?info @ rest)" using assms(2) by (simp add: enc_module_def)
  have b: "get_bytes m p 8 = Parsed ?fix" by (rule get_bytes_at [OF m]) simp
  have len: "length ?info = unat (module_info_length x)"
    using assms(1) u8_bound by (intro take_filled [of _ 255]) (auto simp: wf_module_def)
  have "at m (p + 8) (?info @ rest)" by (rule at_skip [OF m]) simp
  then have "get_bytes m (p + 8) (unat (module_info_length x)) = Parsed ?info"
    by (rule get_bytes_at) (simp only: len)
  moreover have "fill 255 ?info = module_info_byte x" using assms(1) by (simp add: wf_module_def)
  ultimately show ?thesis
    using b len by (simp add: parse_module_def enc_module_def be16_bytes_def be32_bytes_def
        be32_def be32_split be16_split)
qed

lemma modules_at:
  "\<lbrakk>list_all wf_module xs; at m p (concat (map enc_module xs) @ rest)\<rbrakk> \<Longrightarrow>
   parse_modules m (length xs) p = Parsed (xs, p + length (concat (map enc_module xs)))"
proof (induction xs arbitrary: p)
  case (Cons x xs)
  have m: "at m p (enc_module x @ concat (map enc_module xs) @ rest)" using Cons.prems(2) by simp
  have "at m (p + length (enc_module x)) (concat (map enc_module xs) @ rest)"
    by (rule at_skip [OF m refl])
  then show ?case using Cons module_at [OF _ m] by (simp add: add.assoc)
qed simp

lemma get16_at: "at m p (be16_bytes v @ rest) \<Longrightarrow> get16 m p = Parsed v"
  by (auto simp: at_Cons get16_def be16_bytes_def be16_split)

lemma data_off_at: "dsmcc_section m s body \<Longrightarrow> \<exists>d. data_off s = Parsed d \<and> at m d body"
  by (auto simp: dsmcc_section_def data_off_def)

section \<open>Properties\<close>

text \<open>C34: a download info indication is read back from its encoding, whatever non-empty compatibility
  descriptor it carries.\<close>

theorem dii_roundtrip:
  assumes wf: "wf_dii d" and cd: "cd \<noteq> []" "length cd < 65536"
    and s: "dsmcc_section m s (enc_dii d cd)"
  shows "parse_dii m s = Parsed \<lparr>dii_header = sect_hdr s, dii_body = d\<rparr>"
proof -
  let ?mh = "enc_message_header (message_header d)" and ?n = "word_of_nat (length cd) :: u16"
  let ?fix = "be32_bytes (dii_download_id d) @ be16_bytes (block_size d) @ [window_size d, ack_period d]
     @ be32_bytes (tc_download_window d) @ be32_bytes (tc_download_scenario d) @ be16_bytes ?n"
  let ?ms = "concat (map enc_module (dii_modules d))" and ?pl = "private_data_length d"
  let ?priv = "take (unat ?pl) (private_data_byte d)"
  obtain p where p: "data_off s = Parsed p" "at m p (enc_dii d cd)" using data_off_at [OF s] by blast
  have n: "unat ?n = length cd" using cd(2) by (simp add: unat_of_nat take_bit_nat_eq_self)
  then have n0: "0 < ?n" using cd(1) by (simp add: word_gt_0 unat_eq_0 [symmetric])
  define q where "q = p + length ?mh"
  define q2 where "q2 = q + 18 + length cd"
  define q3 where "q3 = q2 + 2 + length ?ms"
  have m: "at m p (?mh @ ?fix @ cd @ be16_bytes (number_of_modules d) @ ?ms @ be16_bytes ?pl @ ?priv)"
    using p(2) by (simp add: enc_dii_def)
  have mh: "parse_message_header m p = Parsed (message_header d, q)"
    unfolding q_def by (rule message_header_at [OF _ m]) (use wf in \<open>simp add: wf_dii_def\<close>)
  have m1: "at m q (?fix @ cd @ be16_bytes (number_of_modules d) @ ?ms @ be16_bytes ?pl @ ?priv)"
    unfolding q_def by (rule at_skip [OF m refl])
  have b: "get_bytes m q 18 = Parsed ?fix" by (rule get_bytes_at [OF m1]) simp
  have m2: "at m q2 (be16_bytes (number_of_modules d) @ ?ms @ be16_bytes ?pl @ ?priv)"
    unfolding q2_def add.assoc by (rule at_skip [where xs = "?fix @ cd"]) (use m1 in simp_all)
  have m3: "at m (q2 + 2) (?ms @ be16_bytes ?pl @ ?priv)" by (rule at_skip [OF m2]) simp
  have ms: "parse_modules m (unat (number_of_modules d)) (q2 + 2) = Parsed (dii_modules d, q3)"
    unfolding q3_def using modules_at [OF _ m3] wf by (simp add: wf_dii_def)
  have m4: "at m q3 (be16_bytes ?pl @ ?priv)" unfolding q3_def by (rule at_skip [OF m3 refl])
  have m5: "at m (q3 + 2) (?priv @ [])" by (rule at_skip [where xs = "be16_bytes ?pl"]) (use m4 in simp_all)
  have len: "length ?priv = unat ?pl" using wf by (simp add: wf_dii_def)
  have priv: "get_bytes m (q3 + 2) (unat ?pl) = Parsed ?priv"
    by (rule get_bytes_at [OF m5]) (simp only: len)
  have total: "int (q3 + 2 + unat ?pl) - int p = uint (get_data_part_len s)"
    using s len by (simp add: dsmcc_section_def enc_dii_def q_def q2_def q3_def)
  have skip: "q + 16 + skip_compatibility ?n = q2"
    using n n0 by (simp add: skip_compatibility_def q2_def)
  have filled: "fill 65535 ?priv = private_data_byte d" using wf by (simp add: wf_dii_def)
  have fields: "be16 (?fix ! 16) (?fix ! 17) = ?n" "be32 ?fix 0 = dii_download_id d"
    "be16 (?fix ! 4) (?fix ! 5) = block_size d" "?fix ! 6 = window_size d" "?fix ! 7 = ack_period d"
    "be32 ?fix 8 = tc_download_window d" "be32 ?fix 12 = tc_download_scenario d"
    by (simp_all add: be16_bytes_def be32_bytes_def be32_def be32_split be16_split)
  show ?thesis
    unfolding parse_dii_def p(1) bindp_simps mh b Let_def prod.case fields skip get16_at [OF m2] ms
      get16_at [OF m4] priv total filled
    by simp
qed

definition sample_header :: "u8 \<Rightarrow> u16 \<Rightarrow> dsmcc_message_header" where
  "sample_header ad len = \<lparr>mh_protocol_discriminator = 0x11, mh_dsmcc_type = 3, mh_message_id = 0x1002,
     mh_transaction_id = 0x80000002, mh_reserved = 0xff, mh_adaptation_length = ad, mh_message_length = len,
     mh_adaptation_header = (if ad = 0 then no_adaptation
       else \<lparr>adaptation_type = 7, adaptation_data_byte = fill 255 [1]\<rparr>)\<rparr>"

definition sample_dii :: "dii_module list \<Rightarrow> u8 list \<Rightarrow> download_info_indication" where
  "sample_dii ms priv = \<lparr>message_header = sample_header 2 60, dii_download_id = 0x01020304,
     block_size = 4066, window_size = 0, ack_period = 0, tc_download_window = 0, tc_download_scenario = 7,
     number_of_modules = of_nat (length ms), dii_modules = ms,
     private_data_length = of_nat (length priv), private_data_byte = fill 65535 priv\<rparr>"

definition sample_module :: dii_module where
  "sample_module = \<lparr>module_id = 3, module_size = 70000, module_version = 1, module_info_length = 2,
     module_info_byte = fill 255 [0xaa, 0xbb]\<rparr>"

definition sample_dsmcc_section :: "nat \<Rightarrow> section_info" where
  "sample_dsmcc_section n = (sample_section n)\<lparr>stype := T_DSMCC\<rparr>"

lemma sample_dsmcc_section:
  assumes "length body < 1000" shows "dsmcc_section body (sample_dsmcc_section (length body)) body"
proof -
  have "section_length (sect_hdr (sample_dsmcc_section (length body))) = of_nat (length body + 9)"
    by (simp add: sample_dsmcc_section_def sample_section_def)
  then have "get_data_part_len (sample_dsmcc_section (length body)) = of_nat (length body)"
    by (simp add: get_data_part_len_def sample_dsmcc_section_def)
  moreover have "uint (of_nat (length body) :: u16) = int (length body)"
    using assms by (simp add: unsigned_of_nat take_bit_nat_eq_self)
  ultimately show ?thesis
    by (simp add: dsmcc_section_def sample_dsmcc_section_def sample_section_def at_whole)
qed

lemma sample_dii_wf:
  "wf_dii (sample_dii [sample_module] [9])" "wf_dii (sample_dii [] [])"
  by (simp_all add: wf_dii_def sample_dii_def sample_module_def wf_message_header_def sample_header_def
      wf_adaptation_def wf_module_def fill_def)

theorem dii_roundtrip_witness:
  "parse_dii (enc_dii (sample_dii [sample_module] [9]) [0, 1])
      (sample_dsmcc_section (length (enc_dii (sample_dii [sample_module] [9]) [0, 1])))
    = Parsed \<lparr>dii_header = sect_hdr (sample_dsmcc_section (length (enc_dii (sample_dii [sample_module] [9]) [0, 1]))),
        dii_body = sample_dii [sample_module] [9]\<rparr>"
  by (rule dii_roundtrip [OF sample_dii_wf(1) _ _ sample_dsmcc_section])
    (simp_all add: enc_dii_def sample_dii_def sample_module_def enc_module_def fill_def
      enc_message_header_def enc_adaptation_def sample_header_def)

text \<open>A download data block is read back from its encoding.\<close>

theorem ddb_roundtrip:
  assumes wf: "wf_ddb b" and s: "dsmcc_section m s (enc_ddb b)"
  shows "parse_ddb m s = Parsed \<lparr>ddb_header = sect_hdr s, ddb_body = b\<rparr>"
proof -
  let ?h = "download_data_header b" and ?len = "m_blockDataByteLen b"
  let ?mh = "enc_message_header ?h" and ?blk = "take (nat ?len) (block_data_byte b)"
  let ?fix = "be16_bytes (ddb_module_id b) @ [ddb_module_version b, ddb_reserved b] @ be16_bytes (block_number b)"
  obtain p where p: "data_off s = Parsed p" "at m p (enc_ddb b)" using data_off_at [OF s] by blast
  define q where "q = p + length ?mh"
  have m: "at m p (?mh @ ?fix @ ?blk)" using p(2) by (simp add: enc_ddb_def)
  have mh: "parse_message_header m p = Parsed (?h, q)"
    unfolding q_def by (rule message_header_at [OF _ m]) (use wf in \<open>simp add: wf_ddb_def\<close>)
  have m1: "at m q (?fix @ ?blk)" unfolding q_def by (rule at_skip [OF m refl])
  have f: "get_bytes m q 6 = Parsed ?fix" by (rule get_bytes_at [OF m1]) simp
  have lenI: "uint (mh_message_length ?h) - uint (mh_adaptation_length ?h) - DDB_FIX_LEN = ?len"
    "\<not> ?len < 0" using wf by (simp_all add: wf_ddb_def DDB_FIX_LEN_def)
  have "uint (mh_message_length ?h) < 2 ^ LENGTH(16)" by (rule unsigned_less)
  then have "uint (mh_message_length ?h) < 65536" by simp
  moreover have "0 \<le> uint (mh_adaptation_length ?h)" by simp
  ultimately have "?len \<le> 65535" using lenI(1) [unfolded DDB_FIX_LEN_def] by linarith
  then have len: "length ?blk = nat ?len"
    using wf by (intro take_filled [of _ 65535]) (auto simp: wf_ddb_def)
  have m2: "at m (q + 6) (?blk @ [])" by (rule at_skip [where xs = "?fix"]) (use m1 in simp_all)
  have blk: "get_bytes m (q + 6) (nat ?len) = Parsed ?blk" by (rule get_bytes_at [OF m2]) (simp only: len)
  have total: "int (q + 6 + nat ?len) - int p = uint (get_data_part_len s)"
    using s len by (simp add: dsmcc_section_def enc_ddb_def q_def)
  have filled: "fill 65535 ?blk = block_data_byte b" using wf by (simp add: wf_ddb_def)
  have fields: "be16 (?fix ! 0) (?fix ! 1) = ddb_module_id b" "?fix ! 2 = ddb_module_version b"
    "?fix ! 3 = ddb_reserved b" "be16 (?fix ! 4) (?fix ! 5) = block_number b"
    by (simp_all add: be16_bytes_def be16_split)
  show ?thesis
    unfolding parse_ddb_def p(1) bindp_simps mh f Let_def prod.case lenI blk total filled fields
    by (simp add: lenI)
qed

definition sample_ddb :: "u8 list \<Rightarrow> download_data_block" where
  "sample_ddb blk = \<lparr>download_data_header = sample_header 0 (of_nat (length blk + 6)), ddb_module_id = 3,
     ddb_module_version = 1, ddb_reserved = 0xff, block_number = 2, block_data_byte = fill 65535 blk,
     m_blockDataByteLen = int (length blk)\<rparr>"

lemma sample_ddb_wf: "wf_ddb (sample_ddb [1, 2, 3])"
  by (simp add: wf_ddb_def sample_ddb_def wf_message_header_def sample_header_def wf_adaptation_def fill_def)

theorem ddb_roundtrip_witness:
  "parse_ddb (enc_ddb (sample_ddb [1, 2, 3])) (sample_dsmcc_section (length (enc_ddb (sample_ddb [1, 2, 3]))))
    = Parsed \<lparr>ddb_header = sect_hdr (sample_dsmcc_section (length (enc_ddb (sample_ddb [1, 2, 3])))),
        ddb_body = sample_ddb [1, 2, 3]\<rparr>"
  by (rule ddb_roundtrip [OF sample_ddb_wf sample_dsmcc_section])
    (simp add: enc_ddb_def sample_ddb_def fill_def enc_message_header_def enc_adaptation_def sample_header_def)

text \<open>The fixed arrays hold what is copied into them: whatever the bytes are, an accepted
  message has copied at most 254 bytes of an adaptation header, 255 of a module's information,
  65535 of private data and 65529 of a block.\<close>

definition message_fits :: "dsmcc_message_header \<Rightarrow> bool" where
  "message_fits h \<longleftrightarrow> length (adaptation_data_byte (mh_adaptation_header h)) = 255"

lemma adaptation_fits:
  assumes "parse_adaptation m p n = Parsed (a, q)" "n \<le> 255"
  shows "length (adaptation_data_byte a) = 255"
proof (cases "n = 0")
  case False
  then have "length (adaptation_data_byte a) = (n - 1) + (255 - (n - 1))"
    using assms(1) by (auto simp: parse_adaptation_def get_bytes_def length_slice split: if_splits)
  then show ?thesis using assms(2) by simp
qed (use assms in \<open>auto simp: parse_adaptation_def no_adaptation_def\<close>)

lemma header_fits: "parse_message_header m p = Parsed (h, q) \<Longrightarrow> message_fits h"
  using adaptation_fits [OF _ u8_bound]
  by (auto simp: parse_message_header_def message_fits_def bindp_Parsed_iff)

lemma modules_fit:
  "parse_modules m n p = Parsed (xs, q) \<Longrightarrow> list_all (\<lambda>x. length (module_info_byte x) = 255) xs \<and> length xs = n"
  using u8_bound
  by (induction n arbitrary: p xs q)
    (auto simp: bindp_Parsed_iff parse_module_def get_bytes_def length_slice split: if_splits)

lemma modules_forward: "parse_modules m n p = Parsed (xs, q) \<Longrightarrow> p \<le> q"
  by (induction n arbitrary: p xs q) (fastforce simp: bindp_Parsed_iff parse_module_def)+

theorem ddb_copies_fit:
  assumes "parse_ddb m s = Parsed t"
  shows "message_fits (download_data_header (ddb_body t)) \<and>
    length (block_data_byte (ddb_body t)) = 65535 \<and>
    0 \<le> m_blockDataByteLen (ddb_body t) \<and> m_blockDataByteLen (ddb_body t) \<le> 65529"
proof -
  obtain d h p where h: "parse_message_header m d = Parsed (h, p)"
    and t: "download_data_header (ddb_body t) = h"
    and len: "m_blockDataByteLen (ddb_body t) = uint (mh_message_length h) - uint (mh_adaptation_length h) - 6"
      "0 \<le> m_blockDataByteLen (ddb_body t)"
    and b: "length (block_data_byte (ddb_body t))
      = nat (m_blockDataByteLen (ddb_body t)) + (65535 - nat (m_blockDataByteLen (ddb_body t)))"
    using assms by (auto simp: parse_ddb_def bindp_Parsed_iff DDB_FIX_LEN_def Let_def get_bytes_def
        length_slice split: if_splits)
  have "uint (mh_message_length h) < 2 ^ LENGTH(16)" by (rule unsigned_less)
  then have "uint (mh_message_length h) < 65536" by simp
  moreover have "0 \<le> uint (mh_adaptation_length h)" by simp
  ultimately have "m_blockDataByteLen (ddb_body t) \<le> 65529" using len(1) by linarith
  then show ?thesis using header_fits [OF h] t len(2) b by simp
qed

theorem dii_copies_fit:
  assumes "parse_dii m s = Parsed t"
  shows "message_fits (message_header (dii_body t)) \<and>
    list_all (\<lambda>x. length (module_info_byte x) = 255) (dii_modules (dii_body t)) \<and>
    length (dii_modules (dii_body t)) = unat (number_of_modules (dii_body t)) \<and>
    length (private_data_byte (dii_body t)) = 65535"
  using assms u16_bound header_fits modules_fit
  by (auto simp: parse_dii_def bindp_Parsed_iff Let_def get_bytes_def length_slice split: if_splits)

text \<open>A data block whose announced message is shorter than its own header fields is refused, and
  the section is taken out of the list.\<close>

theorem short_ddb_is_refused:
  assumes "data s = Off d" "parse_message_header m d = Parsed (h, p)" "p + 6 \<le> length m"
    and "uint (mh_message_length h) < uint (mh_adaptation_length h) + 6"
  shows "parse_ddb m s = Rejected"
  using assms by (simp add: parse_ddb_def data_off_def get_bytes_def DDB_FIX_LEN_def Let_def)

text \<open>A compatibility descriptor of length 0 is only its length field, but four bytes are skipped
  for it: such an indication with neither modules nor private data is never accepted.\<close>

theorem empty_compatibility_is_refused:
  assumes wf: "wf_dii d" and none: "dii_modules d = []" "private_data_length d = 0"
    and s: "dsmcc_section m s (enc_dii d [])"
  shows "parse_dii m s \<noteq> Parsed t"
proof
  assume "parse_dii m s = Parsed t"
  let ?mh = "enc_message_header (message_header d)"
  let ?fix = "be32_bytes (dii_download_id d) @ be16_bytes (block_size d) @ [window_size d, ack_period d]
     @ be32_bytes (tc_download_window d) @ be32_bytes (tc_download_scenario d) @ be16_bytes 0"
  obtain p where p: "data_off s = Parsed p" "at m p (enc_dii d [])" using data_off_at [OF s] by blast
  define q where "q = p + length ?mh"
  have n0: "number_of_modules d = 0" using wf none by (simp add: wf_dii_def unat_eq_0)
  have m: "at m p (?mh @ ?fix @ be16_bytes 0 @ be16_bytes 0)"
    using p(2) none n0 by (simp add: enc_dii_def)
  have mh: "parse_message_header m p = Parsed (message_header d, q)"
    unfolding q_def by (rule message_header_at [OF _ m]) (use wf in \<open>simp add: wf_dii_def\<close>)
  have m1: "at m q (?fix @ be16_bytes 0 @ be16_bytes 0)" unfolding q_def by (rule at_skip [OF m refl])
  have b: "get_bytes m q 18 = Parsed ?fix" by (rule get_bytes_at [OF m1]) simp
  have z: "be16 (?fix ! 16) (?fix ! 17) = 0" by (simp add: be16_bytes_def be32_bytes_def be16_def)
  have total: "uint (get_data_part_len s) = int (q + 22) - int p"
    using s none n0 by (simp add: dsmcc_section_def enc_dii_def q_def)
  obtain n ms r k where ms: "parse_modules m (unat (n :: u16)) (q + 22) = Parsed (ms, r)"
    and len: "int (r + 2 + unat (k :: u16)) - int p = uint (get_data_part_len s)"
    using \<open>parse_dii m s = Parsed t\<close>
    unfolding parse_dii_def p(1) bindp_simps mh b Let_def prod.case z
    by (auto simp: skip_compatibility_def bindp_Parsed_iff add.commute split: if_splits)
  have "q + 22 \<le> r + 2 + unat k \<and> r + 2 + unat k = q + 22"
    using modules_forward [OF ms] total len by linarith
  moreover have "q + 24 \<le> r + 2 + unat k" using modules_forward [OF ms] by simp
  ultimately show False by simp
qed

theorem dii_copies_fit_witness:
  "length (private_data_byte (sample_dii [sample_module] [9])) = 65535"
  using dii_copies_fit [OF dii_roundtrip [OF sample_dii_wf(1), of "[0, 1]" _ "sample_dsmcc_section
      (length (enc_dii (sample_dii [sample_module] [9]) [0, 1]))", OF _ _ sample_dsmcc_section]]
  by (simp add: enc_dii_def sample_dii_def sample_module_def enc_module_def fill_def
      enc_message_header_def enc_adaptation_def sample_header_def)

theorem ddb_copies_fit_witness:
  "length (block_data_byte (sample_ddb [1, 2, 3])) = 65535"
  using ddb_copies_fit [OF ddb_roundtrip [OF sample_ddb_wf sample_dsmcc_section]]
  by (simp add: enc_ddb_def sample_ddb_def fill_def enc_message_header_def enc_adaptation_def
      sample_header_def)

theorem short_ddb_is_refused_witness:
  "parse_ddb ([0x11, 3, 0x10, 3, 0, 0, 0, 1, 0xff, 0, 0, 5] @ replicate 6 0) (sample_dsmcc_section 18) = Rejected"
proof (rule short_ddb_is_refused [of _ 0])
  show "parse_message_header ([0x11, 3, 0x10, 3, 0, 0, 0, 1, 0xff, 0, 0, 5] @ replicate 6 0) 0
      = Parsed ((sample_header 0 5)\<lparr>mh_message_id := 0x1003, mh_transaction_id := 1\<rparr>, 12)"
    by code_simp
qed (simp_all add: sample_dsmcc_section_def sample_section_def sample_header_def)

theorem empty_compatibility_is_refused_witness:
  "\<nexists>t. parse_dii (enc_dii (sample_dii [] []) [])
      (sample_dsmcc_section (length (enc_dii (sample_dii [] []) []))) = Parsed t"
  using empty_compatibility_is_refused [OF sample_dii_wf(2) _ _ sample_dsmcc_section]
  by (simp add: enc_dii_def sample_dii_def fill_def enc_message_header_def enc_adaptation_def sample_header_def)

end
