(* ===== verification/Time_Offset_Table.thy ===== *)
theory Time_Offset_Table
  imports Table_Claims Arib_Common
begin

text \<open>
  \<open>time_offset_table\<close> (src/src/parser/psisi/time_offset_table.cpp): the date, the weekday and the time
  that are printed for a time offset table. The date is computed by another formula than the
  one of \<open>ts_arib_common\<close>; both agree on every day of the broadcast calendar.
\<close>

text \<open>All operands are positive, so that \<open>/\<close> and \<open>%\<close> of C are \<open>div\<close> and \<open>mod\<close>.\<close>

definition tot_month_day :: "int \<Rightarrow> int \<times> int" where
  "tot_month_day jds =
    (jds div 153 * 5 + jds mod 153 div 61 * 2 + jds mod 153 mod 61 div 31 + 3,
     jds mod 153 mod 61 mod 31 + 1)"

definition tot_date :: "int \<Rightarrow> int \<times> int \<times> int" where
  "tot_date mjd =
    (let jdd = mjd + 678576;
         jdd = jdd - 1 - 31 - 28 + 365;
         jds = jdd mod 146097 mod 36524 mod 1461 mod 365 + jdd mod 146097 div 36524 div 4 * 365
           + jdd mod 146097 mod 36524 mod 1461 div 365 div 4 * 365;
         jdy = jdd div 146097 * 400 + jdd mod 146097 div 36524 * 100 - jdd mod 146097 div 36524 div 4
           + jdd mod 146097 mod 36524 div 1461 * 4 + jdd mod 146097 mod 36524 mod 1461 div 365
           - jdd mod 146097 mod 36524 mod 1461 div 365 div 4;
         (jdm, jdd) = tot_month_day jds
     in if jdm > 12 then (jdy + 1, jdm - 12, jdd) else (jdy, jdm, jdd))"

definition tot_weekday :: "int \<Rightarrow> string" where
  "tot_weekday mjd =
    [''Sun'', ''Mon'', ''Tue'', ''Wed'', ''Thu'', ''Fri'', ''Sat''] ! nat ((mjd + 678576) mod 7)"

definition two_digits :: "u8 \<Rightarrow> int" where
  "two_digits b = uint (drop_bit 4 (b AND 0xf0)) * 10 + uint (b AND 0x0f)"

text \<open>What \<open>dump\<close> prints: year, month, day, weekday, hour, minute, second; five bytes are read.\<close>

type_synonym tot_line = "int \<times> int \<times> int \<times> string \<times> int \<times> int \<times> int"

definition tot_dump :: "u8 list \<Rightarrow> section_info \<Rightarrow> tot_line parse" where
  "tot_dump m s =
    bindp (data_off s) (\<lambda>p. bindp (get_bytes m p 5) (\<lambda>b.
      let mjd = uint (push_bit 8 (ucast (b ! 0)) OR ucast (b ! 1) :: u16) in
      case tot_date mjd of (y, m, d) \<Rightarrow>
        Parsed (y, m, d, tot_weekday mjd, two_digits (b ! 2), two_digits (b ! 3), two_digits (b ! 4))))"

text \<open>The listener prints and leaves the section in the list.\<close>

record tot_store =
  tot_lines :: "tot_line list"
  tot_wild_read :: bool

definition tot_completed :: "nat \<Rightarrow> section_parser \<times> tot_store \<Rightarrow> section_parser \<times> tot_store" where
  "tot_completed a st =
    (let (sp, c) = st in
     case tot_dump (pool sp) (sect_at sp a) of
       Parsed l \<Rightarrow> (sp, c\<lparr>tot_lines := tot_lines c @ [l]\<rparr>)
     | Rejected \<Rightarrow> (sp, c)
     | Overrun \<Rightarrow> (sp, c\<lparr>tot_wild_read := True\<rparr>))"

definition tot_listener :: "tot_store listener" where
  "tot_listener = \<lparr>on_started = (\<lambda>s. True), on_completed = tot_completed\<rparr>"

text \<open>\<open>dump (void)\<close>: the latest complete section, if there is one.\<close>

definition tot_dump_latest :: "section_parser \<Rightarrow> tot_line parse option" where
  "tot_dump_latest sp = map_option (tot_dump (pool sp)) (get_latest_complete_section sp)"

lemma tot_completed_cases:
  "tot_completed a (sp, c) = (sp', c') \<Longrightarrow> sp' = sp \<or> sp' = detach_section_list a sp"
  by (auto simp: tot_completed_def split: parse.splits)

interpretation tot: section_listener tot_listener
  by unfold_locales (rule listener_contract, assumption+, simp add: tot_listener_def tot_completed_cases)

section \<open>The calendar\<close>

lemma divmod_unique:
  assumes "0 \<le> r" "r < b" shows "(b * q + r) div b = q" "(b * q + r) mod b = (r :: int)"
  using assms by (simp_all add: div_mult_self4 add.commute)

text \<open>The months from March on: the day of such a year with day \<open>d\<close> of month \<open>M\<close>.\<close>

definition year_day :: "int \<Rightarrow> int \<Rightarrow> int" where
  "year_day M d = d + (306001 * (M + 1)) div 10000 - 123"

lemma month_table:
  "list_all (\<lambda>M. list_all (\<lambda>d. d \<le> (if M = 4 \<or> M = 6 \<or> M = 9 \<or> M = 11 then 30 else if M = 14 then 29 else 31) \<longrightarrow>
      tot_month_day (year_day M d) = (M, d) \<and> 0 \<le> year_day M d \<and> year_day M d \<le> 365 \<and>
      (year_day M d = 365 \<longleftrightarrow> M = 14 \<and> d = 29)) [1..31]) [3..14]"
  by code_simp

lemma month_day:
  assumes "3 \<le> M" "M \<le> 14" "1 \<le> d"
    and "d \<le> (if M = 4 \<or> M = 6 \<or> M = 9 \<or> M = 11 then 30 else if M = 14 then 29 else 31)"
  shows "tot_month_day (year_day M d) = (M, d)" "0 \<le> year_day M d" "year_day M d \<le> 365"
    "year_day M d = 365 \<longleftrightarrow> M = 14 \<and> d = 29"
proof -
  have "M \<in> set [3..14]" "d \<in> set [1..31]"
    using assms unfolding set_upto atLeastAtMost_iff by (auto split: if_splits)
  then show "tot_month_day (year_day M d) = (M, d)" "0 \<le> year_day M d" "year_day M d \<le> 365"
    "year_day M d = 365 \<longleftrightarrow> M = 14 \<and> d = 29"
    using month_table assms(4) unfolding list_all_iff by blast+
qed

text \<open>The year and the day of the year, counted from March: \<open>c\<close> centuries, \<open>q\<close> leap cycles and
  \<open>s\<close> years after a multiple of 400.\<close>

abbreviation (input) "cycle_day n \<equiv> n mod 146097 mod 36524 mod 1461 mod 365 + n mod 146097 div 36524 div 4 * 365
  + n mod 146097 mod 36524 mod 1461 div 365 div 4 * (365 :: int)"

abbreviation (input) "cycle_year n \<equiv> n div 146097 * 400 + n mod 146097 div 36524 * 100 - n mod 146097 div 36524 div 4
  + n mod 146097 mod 36524 div 1461 * 4 + n mod 146097 mod 36524 mod 1461 div 365
  - n mod 146097 mod 36524 mod 1461 div 365 div (4 :: int)"

lemma cycle:
  assumes n: "n = 146097 * a + (36524 * c + (1461 * q + t))" and t: "t = 365 * s + k"
    and c: "0 \<le> c" "c \<le> 3" and q: "0 \<le> q" and s: "0 \<le> s" "s \<le> 3" and k: "0 \<le> k" "k \<le> 365" "k = 365 \<longrightarrow> s = 3"
    and r: "1461 * q + t < 36524"
  shows "cycle_day n = k" "cycle_year n = 400 * a + 100 * c + 4 * q + s"
proof -
  have t0: "0 \<le> t" "t < 1461" using t s k by auto
  have 1: "n div 146097 = a" "n mod 146097 = 36524 * c + (1461 * q + t)"
    unfolding n using c q t0 r by (intro divmod_unique; linarith)+
  have 2: "(36524 * c + (1461 * q + t)) div 36524 = c" "(36524 * c + (1461 * q + t)) mod 36524 = 1461 * q + t"
    using q t0 r by (intro divmod_unique; linarith)+
  have 3: "(1461 * q + t) div 1461 = q" "(1461 * q + t) mod 1461 = t"
    using divmod_unique [OF t0] by blast+
  have c4: "c div 4 = 0" using c by (intro div_pos_pos_trivial) auto
  have day: "t mod 365 + t div 365 div 4 * 365 = k \<and> t div 365 - t div 365 div 4 = s"
  proof (cases "k = 365")
    case True
    then show ?thesis using t k(3) by simp
  next
    case False
    then have "t div 365 = s" "t mod 365 = k" unfolding t using k by (intro divmod_unique; linarith)+
    moreover have "s div 4 = 0" using s by (intro div_pos_pos_trivial) auto
    ultimately show ?thesis by simp
  qed
  show "cycle_day n = k" unfolding 1 2 3 c4 using day by simp
  show "cycle_year n = 400 * a + 100 * c + 4 * q + s" unfolding 1 2 3 c4 using day by linarith
qed

lemma tot_year:
  assumes Y: "0 \<le> Y" "Y < 200" and k: "0 \<le> k" "k \<le> 365" "k = 365 \<longrightarrow> Y mod 4 = 3 \<and> Y < 199"
    and n: "n = 693960 + (1461 * Y) div 4 + k"
  shows "cycle_day n = k" "cycle_year n = 1900 + Y"
proof -
  define q s where "q = Y div 4" and "s = Y mod 4"
  have Yq: "Y = 4 * q + s" and s: "s \<in> {0, 1, 2, 3}" by (auto simp: q_def s_def)
  have y: "(1461 * Y) div 4 = 1461 * q + 365 * s" using s unfolding Yq by auto
  have s03: "0 \<le> s" "s \<le> 3" using s by auto
  have ks: "k = 365 \<longrightarrow> s = 3" using k(3) by (simp add: s_def)
  have "cycle_day n = k \<and> cycle_year n = 1900 + Y"
  proof (cases "Y < 100")
    case True
    then have q: "0 \<le> q" "q \<le> 24" using Y Yq s03 by linarith+
    show ?thesis
    proof (cases "1461 * q + (365 * s + k) = 36524")
      case False
      moreover have "1461 * q + (365 * s + k) \<le> 36524" using q s03 k by linarith
      ultimately have r: "1461 * q + (365 * s + k) < 36524" by linarith
      have "n = 146097 * 4 + (36524 * 3 + (1461 * q + (365 * s + k)))" unfolding n y by simp
      note c = cycle [OF this refl _ _ q(1) s03 k(1,2) ks r]
      have "400 * 4 + 100 * 3 + 4 * q + s = 1900 + Y" using Yq by simp
      moreover have "cycle_day n = k" by (rule c(1)) simp_all
      moreover have "cycle_year n = 400 * 4 + 100 * 3 + 4 * q + s" by (rule c(2)) simp_all
      ultimately show ?thesis by metis
    next
      case True
      have "k = 365" "s = 3" "q = 24" using True q s03 k by linarith+
      then have "n = 730484" "Y = 99" using n y Yq by simp_all
      then show ?thesis using \<open>k = 365\<close> by simp
    qed
  next
    case False
    then have q: "25 \<le> q" "q \<le> 49" using Y Yq s03 False by linarith+
    have "1461 * (q - 25) + (365 * s + k) \<noteq> 36524"
    proof
      assume e: "1461 * (q - 25) + (365 * s + k) = 36524"
      define u where "u = q - 25"
      have "36524 \<le> 1461 * u + 365 * s + k" using e by (simp add: u_def)
      then have "24 \<le> u" using s03(2) k(2) by linarith
      then have q49: "q = 49" using q(2) by (simp add: u_def)
      have "1460 \<le> 365 * s + k" using e unfolding q49 by simp
      then have "3 \<le> s" using k(2) by linarith
      then have s3: "s = 3" using s03(2) by simp
      have "k = 365" using e unfolding q49 s3 by simp
      note q49 s3 this
      then show False using k(3) Yq by simp
    qed
    moreover have "1461 * (q - 25) \<le> 1461 * 24" using q(2) by simp
    then have "1461 * (q - 25) + (365 * s + k) \<le> 36524" using s03(2) k(2) by simp
    ultimately have r: "1461 * (q - 25) + (365 * s + k) < 36524" by linarith
    have "n = 146097 * 5 + (36524 * 0 + (1461 * (q - 25) + (365 * s + k)))" unfolding n y by simp
    note c = cycle [OF this refl _ _ _ s03 k(1,2) ks r]
    have "400 * 5 + 100 * 0 + 4 * (q - 25) + s = 1900 + Y" using Yq by simp
    moreover have "cycle_day n = k" by (rule c(1)) (use q in simp_all)
    moreover have "cycle_year n = 400 * 5 + 100 * 0 + 4 * (q - 25) + s" by (rule c(2)) (use q in simp_all)
    ultimately show ?thesis by metis
  qed
  then show "cycle_day n = k" "cycle_year n = 1900 + Y" by (rule conjunct1, rule conjunct2)
qed

text \<open>The date of every day from March 1900 to the end of February 2100.\<close>

theorem tot_date_is_the_calendar:
  assumes "valid_date y m d"
  shows "tot_date (day_number y m d) = (1900 + y, m, d)"
proof -
  define Y where "Y = (if m \<le> 2 then y - 1 else y)"
  define M where "M = (if m \<le> 2 then m + 12 else m)"
  define k where "k = year_day M d"
  define n where "n = day_number y m d + 678576 - 1 - 31 - 28 + 365"
  have Y: "0 \<le> Y" "Y < 200" and M: "3 \<le> M" "M \<le> 14" "1 \<le> d"
    "d \<le> (if M = 4 \<or> M = 6 \<or> M = 9 \<or> M = 11 then 30 else if M = 14 then 29 else 31)"
    using assms by (auto simp: valid_date_def days_in_month_def Y_def M_def split: if_splits)
  note md = month_day [OF M, folded k_def]
  have "k = 365 \<Longrightarrow> Y mod 4 = 3 \<and> Y < 199"
  proof -
    assume "k = 365"
    then have "m = 2" "d = 29" using md(4) assms by (auto simp: M_def valid_date_def split: if_splits)
    then have "y mod 4 = 0" "y < 200" "Y = y - 1"
      using assms by (auto simp: valid_date_def days_in_month_def Y_def split: if_splits)
    then show ?thesis by presburger
  qed
  moreover have "n = 693960 + (1461 * Y) div 4 + k"
    by (simp add: n_def k_def year_day_def day_number_def Let_def Y_def M_def)
  ultimately have c: "cycle_day n = k" "cycle_year n = 1900 + Y"
    using tot_year [OF Y md(2,3)] by blast+
  have "tot_date (day_number y m d)
      = (if M > 12 then (cycle_year n + 1, M - 12, d) else (cycle_year n, M, d))"
    unfolding tot_date_def Let_def n_def [symmetric] c(1) md(1) prod.case by simp
  then show ?thesis unfolding c(2) using assms by (auto simp: Y_def M_def valid_date_def)
qed

theorem tot_date_is_the_calendar_witness: "tot_date (day_number 126 2 28) = (1900 + 126, 2, 28)"
  by (rule tot_date_is_the_calendar) (simp add: valid_date_def days_in_month_def)

text \<open>C35: both date formulas of the program agree on every day of this calendar, in the order of the
  fields they use.\<close>

theorem date_formulas_agree:
  assumes "valid_date y m d"
  shows "tot_date (day_number y m d)
    = (case mjd_date (day_number y m d) of (y, m, d) \<Rightarrow> (1900 + y, m, d))"
  using tot_date_is_the_calendar [OF assms] mjd_date_day_number [OF assms] by simp

theorem date_formulas_agree_witness:
  "tot_date (day_number 200 2 28 - 36525) = (case mjd_date (day_number 100 2 28) of (y, m, d) \<Rightarrow> (1900 + y, m, d))"
proof -
  have "day_number 200 2 28 - 36525 = day_number 100 2 28" by (simp add: day_number_def Let_def)
  then show ?thesis using date_formulas_agree [of 100 2 28] by (simp add: valid_date_def days_in_month_def)
qed

end
