(* ===== verification/C_Text.thy ===== *)
theory C_Text
  imports Prelude
begin

text \<open>
  Numbers as text, the way the commands and the HTTP server read and print them: \<open>atoi\<close> and
  \<open>strtol\<close> on texts that a regular expression has let through, \<open>%d\<close> and \<open>%0nx\<close>. \<open>strtol\<close> keeps to
  the range of \<open>long\<close>; the results are cut down to the width of the variable.
\<close>

section \<open>Reading\<close>

definition is_digit :: "char \<Rightarrow> bool" where
  "is_digit c \<longleftrightarrow> c \<in> set ''0123456789''"

definition is_xdigit :: "char \<Rightarrow> bool" where
  "is_xdigit c \<longleftrightarrow> is_digit c \<or> c \<in> set ''abcdef'' \<or> c \<in> set ''ABCDEF''"

text \<open>The regular expressions \<open>^[0-9]+$\<close> and \<open>^0x([0-9]|[a-f]|[A-F])+$\<close>, matched with the whole text.\<close>

definition is_dec :: "string \<Rightarrow> bool" where
  "is_dec s \<longleftrightarrow> s \<noteq> [] \<and> list_all is_digit s"

definition is_hex :: "string \<Rightarrow> bool" where
  "is_hex s \<longleftrightarrow> take 2 s = ''0x'' \<and> drop 2 s \<noteq> [] \<and> list_all is_xdigit (drop 2 s)"

definition digit_value :: "char \<Rightarrow> nat" where
  "digit_value c =
     (if is_digit c then of_char c - 48 else if c \<in> set ''abcdef'' then of_char c - 87 else of_char c - 55)"

definition number :: "nat \<Rightarrow> string \<Rightarrow> nat" where
  "number base s = foldl (\<lambda>n c. n * base + digit_value c) 0 s"

definition LONG_MAX :: nat where "LONG_MAX = 2 ^ 63 - 1"

text \<open>\<open>strtol (s, NULL, base)\<close> on digits without a sign, and \<open>atoi\<close>, which is its lower half.\<close>

definition strtol :: "nat \<Rightarrow> string \<Rightarrow> nat" where
  "strtol base s = min (number base s) LONG_MAX"

definition c_atoi :: "string \<Rightarrow> 32 word" where
  "c_atoi s = of_nat (strtol 10 s)"

definition atoi_u8 :: "string \<Rightarrow> u8" where "atoi_u8 s = ucast (c_atoi s)"
definition atoi_u16 :: "string \<Rightarrow> u16" where "atoi_u16 s = ucast (c_atoi s)"
definition atoi_int :: "string \<Rightarrow> int" where "atoi_int s = sint (c_atoi s)"

section \<open>Printing\<close>

definition digit_char :: "nat \<Rightarrow> char" where
  "digit_char n = (if n < 10 then char_of (48 + n) else char_of (87 + n))"

fun digits :: "nat \<Rightarrow> nat \<Rightarrow> string" where
  "digits base n =
     (if base < 2 \<or> n < base then [digit_char n] else digits base (n div base) @ [digit_char (n mod base)])"

declare digits.simps [simp del]

definition dec :: "int \<Rightarrow> string" where
  "dec n = (if n < 0 then ''-'' @ digits 10 (nat (- n)) else digits 10 (nat n))"

definition pad_left :: "nat \<Rightarrow> char \<Rightarrow> string \<Rightarrow> string" where
  "pad_left w c s = replicate (w - length s) c @ s"

text \<open>\<open>%04x\<close>, \<open>%02x\<close> and \<open>%2d\<close>.\<close>

definition hex4 :: "u16 \<Rightarrow> string" where "hex4 v = pad_left 4 (CHR ''0'') (digits 16 (unat v))"
definition hex2 :: "u8 \<Rightarrow> string" where "hex2 v = pad_left 2 (CHR ''0'') (digits 16 (unat v))"
definition dec2 :: "int \<Rightarrow> string" where "dec2 n = pad_left 2 (CHR '' '') (dec n)"

definition lf :: string where "lf = [CHR 0x0A]"

section \<open>Lemmas\<close>

lemma number_append: "number b (s @ [c]) = number b s * b + digit_value c"
  by (simp add: number_def)

lemma number_zeros: "digit_value z = 0 \<Longrightarrow> number b (replicate n z @ s) = number b s"
  by (induction n) (simp_all add: number_def)

lemma digit_char_table:
  "list_all (\<lambda>n. digit_value (digit_char n) = n \<and> is_xdigit (digit_char n) \<and> (n < 10 \<longrightarrow> is_digit (digit_char n))) [0..<16]"
  by code_simp

lemma digit_char:
  assumes "n < 16"
  shows "digit_value (digit_char n) = n" "is_xdigit (digit_char n)" "n < 10 \<Longrightarrow> is_digit (digit_char n)"
  using digit_char_table assms by (auto simp: list_all_iff)

lemma number_digits: "\<lbrakk>2 \<le> b; b \<le> 16\<rbrakk> \<Longrightarrow> number b (digits b n) = n"
proof (induction b n rule: digits.induct)
  case (1 b n)
  show ?case
  proof (cases "n < b")
    case True
    then show ?thesis using 1 digit_char(1) [of n] by (simp add: digits.simps [of b n] number_def)
  next
    case False
    then show ?thesis using 1 digit_char(1) [of "n mod b"] mod_less_divisor [of b n]
      by (simp add: digits.simps [of b n] number_append del: mod_less_divisor)
  qed
qed

lemma digits_ne: "digits b n \<noteq> []"
  by (subst digits.simps) simp

lemma length_digits: "\<lbrakk>n < 10 ^ k; 0 < k\<rbrakk> \<Longrightarrow> length (digits 10 n) \<le> k"
proof (induction k arbitrary: n)
  case 0
  then show ?case by simp
next
  case (Suc k)
  show ?case
  proof (cases "n < 10")
    case True
    then show ?thesis by (simp add: digits.simps [of 10 n])
  next
    case False
    with Suc.prems have "n div 10 < 10 ^ k" "0 < k"
      by (auto simp: less_mult_imp_div_less mult.commute intro: gr0I)
    with False Suc.IH [of "n div 10"] show ?thesis by (simp add: digits.simps [of 10 n])
  qed
qed

lemma digits_dec: "list_all is_digit (digits 10 n)"
proof (induction "10 :: nat" n rule: digits.induct)
  case (1 n)
  then show ?case
    using digit_char(3) [of n] digit_char(3) [of "n mod 10"] by (subst digits.simps) simp
qed

lemma digits_hex: "list_all is_xdigit (digits 16 n)"
proof (induction "16 :: nat" n rule: digits.induct)
  case (1 n)
  then show ?case
    using digit_char(2) [of n] digit_char(2) [of "n mod 16"] by (subst digits.simps) simp
qed

lemma u16_cut [simp]: "ucast (ucast (v :: u16) :: 32 word) = v"
  by (rule bit_word_eqI) (auto simp: bit_simps)

lemma u8_cut [simp]: "ucast (ucast (v :: u8) :: 32 word) = v"
  by (rule bit_word_eqI) (auto simp: bit_simps)

lemma u16_small: "unat (v :: u16) < LONG_MAX"
proof -
  have "unat v < 2 ^ LENGTH(16)" by (rule unsigned_less)
  then show ?thesis by (simp add: LONG_MAX_def)
qed

lemma u8_small: "unat (v :: u8) < LONG_MAX"
proof -
  have "unat v < 2 ^ LENGTH(8)" by (rule unsigned_less)
  then show ?thesis by (simp add: LONG_MAX_def)
qed

lemma is_dec_digits: "is_dec (digits 10 n)"
  by (simp add: is_dec_def digits_ne digits_dec)

lemma atoi_u16_digits: "atoi_u16 (digits 10 (unat v)) = v"
  using u16_small [of v] by (simp add: atoi_u16_def c_atoi_def strtol_def number_digits u16_cut)

lemma atoi_u8_digits: "atoi_u8 (digits 10 (unat v)) = v"
  using u8_small [of v] by (simp add: atoi_u8_def c_atoi_def strtol_def number_digits u8_cut)

lemma is_hex_hex4: "is_hex (''0x'' @ hex4 v)"
  by (auto simp: is_hex_def hex4_def pad_left_def digits_ne digits_hex is_xdigit_def is_digit_def list_all_iff
      dest: bspec [OF digits_hex [unfolded list_all_iff]])

lemma strtol_hex4: "strtol 16 (hex4 v) = unat v"
proof -
  have z: "digit_value (CHR ''0'') = 0" by code_simp
  show ?thesis using u16_small [of v]
    by (simp add: strtol_def hex4_def pad_left_def number_zeros [OF z] number_digits)
qed

end
