(* ===== verification/Logger.thy ===== *)
theory Logger
  imports C_Text Strings_Util Arib_Common
begin

unbundle bit_operations_syntax

text \<open>
  The log (src/src/common/logger.h and syslog_util.h): the filter by level, the lines that are written to
  the handlers and the datagrams that are sent to syslog. A text is what \<open>vsnprintf\<close> makes of the
  format and its arguments, before it is cut down to the buffer; the clock, the name of the thread and
  the text of \<open>errno\<close> are a parameter.
\<close>

section \<open>Lines\<close>

text \<open>\<open>split\<close>: the pieces between the separators, without the empty ones at the end. These are erased at
  \<open>it.base ()\<close> of the last reverse iterator, which is \<open>end ()\<close>: the standard leaves that undefined; with
  \<open>pops\<close> the library takes the last piece away, as the one of GNU does.\<close>

function split_pieces :: "string \<Rightarrow> string \<Rightarrow> string list" where
  "split_pieces sep s =
    (if sep = [] then [s]
     else case str_find sep s of
       None \<Rightarrow> [s]
     | Some i \<Rightarrow> take i s # split_pieces sep (drop (i + length sep) s))"
  by auto

termination split_pieces
  by (relation "measure (\<lambda>(d, s). length s)") (auto dest!: str_find_bound simp: neq_Nil_conv)

declare split_pieces.simps [simp del]

function erase_tail :: "bool \<Rightarrow> string list \<Rightarrow> string list option" where
  "erase_tail pops v =
    (if length v \<le> 1 then Some v
     else if last v = [] then if pops then erase_tail pops (butlast v) else None
     else Some v)"
  by auto

termination erase_tail
  by (relation "measure (\<lambda>(p, v). length v)") auto

declare erase_tail.simps [simp del]

definition split :: "bool \<Rightarrow> string \<Rightarrow> string \<Rightarrow> string list option" where
  "split pops s sep = erase_tail pops (split_pieces sep s)"

text \<open>The lines of a buffer.\<close>

definition buffer_lines :: "bool \<Rightarrow> string \<Rightarrow> string list option" where
  "buffer_lines pops buff = (if str_find lf buff = None then Some [buff] else split pops buff lf)"

section \<open>The state and its surroundings\<close>

datatype level = L_debug | L_info | L_warning | L_error | L_perror

definition level_no :: "level \<Rightarrow> nat" where
  "level_no l = (case l of L_debug \<Rightarrow> 0 | L_info \<Rightarrow> 1 | L_warning \<Rightarrow> 2 | L_error \<Rightarrow> 3 | L_perror \<Rightarrow> 4)"

record syslog_util =
  su_facility :: int
  su_tag :: string
  su_with_pid :: bool

text \<open>A handler is a \<open>FILE *\<close>, \<open>None\<close> the null pointer.\<close>

record logger =
  handlers :: "nat option list"
  log_level :: level
  syslog :: "syslog_util option"

definition new_logger :: logger where
  "new_logger = \<lparr>handlers = [], log_level = L_debug, syslog = None\<rparr>"

definition append_handler :: "nat option \<Rightarrow> logger \<Rightarrow> logger" where
  "append_handler fp lg = lg\<lparr>handlers := handlers lg @ [fp]\<rparr>"

definition remove_handler :: "nat option \<Rightarrow> logger \<Rightarrow> logger" where
  "remove_handler fp lg = lg\<lparr>handlers := remove1 fp (handlers lg)\<rparr>"

definition set_syslog :: "syslog_util option \<Rightarrow> logger \<Rightarrow> logger" where
  "set_syslog s lg = (if s \<noteq> None then lg\<lparr>syslog := s\<rparr> else lg)"

definition set_log_level :: "level \<Rightarrow> logger \<Rightarrow> logger" where
  "set_log_level l lg = lg\<lparr>log_level := l\<rparr>"

text \<open>The name of the thread, the local time, the text of \<open>errno\<close>, the time of syslog and the process; and
  how the program was built: with colours, and with which library.\<close>

record log_now =
  now_thread :: string
  now_tm :: tm
  now_msec :: int
  now_errno :: string
  now_stamp :: string
  now_pid :: int
  now_color :: bool
  now_pops :: bool

definition dec02 :: "nat \<Rightarrow> int \<Rightarrow> string" where "dec02 w n = pad_left w (CHR ''0'') (dec n)"

lemma length_dec02: "\<lbrakk>0 \<le> n; n < 10 ^ w; 0 < w\<rbrakk> \<Longrightarrow> length (dec02 w n) = w"
  using length_digits [of "nat n" w] by (simp add: dec02_def pad_left_def dec_def nat_less_iff)

definition SYSTIME_MS_STRING_SIZE :: nat where "SYSTIME_MS_STRING_SIZE = 19"
definition THREAD_NAME_STRING_SIZE :: nat where "THREAD_NAME_STRING_SIZE = 11"
definition LOG_STRING_SIZE :: nat where "LOG_STRING_SIZE = 1024"

definition systime_text :: "log_now \<Rightarrow> string" where
  "systime_text now =
    (let t = now_tm now in
     dec02 2 (tm_mon t + 1) @ ''/'' @ dec02 2 (tm_mday t) @ '' '' @ dec02 2 (tm_hour t) @ '':''
       @ dec02 2 (tm_min t) @ '':'' @ dec02 2 (tm_sec t) @ ''.'' @ dec02 3 (now_msec now))"

definition get_systime_ms :: "log_now \<Rightarrow> string" where
  "get_systime_ms now = take (SYSTIME_MS_STRING_SIZE - 1) (systime_text now)"

definition get_thread_name :: "log_now \<Rightarrow> string" where
  "get_thread_name now =
    (let b = take (THREAD_NAME_STRING_SIZE - 1) (now_thread now)
     in b @ replicate (THREAD_NAME_STRING_SIZE - 1 - length b) (CHR '' ''))"

definition log_buffer :: "string \<Rightarrow> string" where
  "log_buffer text = take (LOG_STRING_SIZE - 1) text"

section \<open>Syslog\<close>

text \<open>\<open>put\<close>: the messages that are handed to \<open>_send\<close>; \<open>None\<close> is undefined behaviour: a header that fills
  the buffer, or \<open>split\<close>.\<close>

definition syslog_priority :: "int \<Rightarrow> int \<Rightarrow> int" where
  "syslog_priority facility severity = facility OR severity"

definition get_header :: "log_now \<Rightarrow> syslog_util \<Rightarrow> string" where
  "get_header now su =
    now_stamp now @ '' '' @ su_tag su @ (if su_with_pid su then ''['' @ dec (now_pid now) @ '']'' else [])"

definition syslog_split :: "bool \<Rightarrow> string \<Rightarrow> string list option" where
  "syslog_split pops s = (case split pops s lf of None \<Rightarrow> None | Some v \<Rightarrow> erase_tail pops v)"

definition syslog_put :: "log_now \<Rightarrow> syslog_util \<Rightarrow> int \<Rightarrow> string \<Rightarrow> string list option" where
  "syslog_put now su severity text =
    (let head = ''<'' @ dec (syslog_priority (su_facility su) severity) @ ''>'' @ get_header now su @ '': '' in
     if length head \<ge> 1024 then None
     else
       let body = take (1023 - length head) text in
       if str_find lf (head @ body) = None then Some [head @ body]
       else map_option (map ((@) head)) (syslog_split (now_pops now) body))"

text \<open>\<open>_send\<close> over the answers of \<open>sendto\<close>: the parts that were sent and the result, \<open>None\<close> when
  the answers are used up.\<close>

fun unix_send_loop :: "int list \<Rightarrow> string \<Rightarrow> (string list \<times> bool) option" where
  "unix_send_loop as p =
    (if p = [] then Some ([], True)
     else case as of
       [] \<Rightarrow> None
     | n # as \<Rightarrow>
         if n < 0 then Some ([], False)
         else map_option (\<lambda>(ps, ok). (take (nat n) p # ps, ok)) (unix_send_loop as (drop (nat n) p)))"

declare unix_send_loop.simps [simp del]

definition unix_send :: "bool \<Rightarrow> int list \<Rightarrow> string \<Rightarrow> (string list \<times> bool) option" where
  "unix_send opened as p = (if \<not> opened then Some ([], False) else unix_send_loop as p)"

section \<open>Writing\<close>

datatype log_output = Wrote nat string | Datagram string

datatype log_end = Log_returns | Log_throws | Log_undefined

type_synonym logged = "log_output list \<times> log_end"

definition log_then :: "logged \<Rightarrow> logged \<Rightarrow> logged" where
  "log_then a b = (if snd a = Log_returns then (fst a @ fst b, snd b) else a)"

fun log_all :: "('a \<Rightarrow> logged) \<Rightarrow> 'a list \<Rightarrow> logged" where
  "log_all f [] = ([], Log_returns)"
| "log_all f (x # xs) = log_then (f x) (log_all f xs)"

definition severity :: "level \<Rightarrow> int" where
  "severity l = (case l of L_debug \<Rightarrow> 7 | L_info \<Rightarrow> 6 | L_warning \<Rightarrow> 4 | L_error \<Rightarrow> 3 | L_perror \<Rightarrow> 2)"

definition type_letter :: "level \<Rightarrow> string" where
  "type_letter l =
    (case l of L_debug \<Rightarrow> ''D'' | L_info \<Rightarrow> ''I'' | L_warning \<Rightarrow> ''W'' | L_error \<Rightarrow> ''E'' | L_perror \<Rightarrow> ''E'')"

definition attr :: "string \<Rightarrow> string" where "attr s = CHR 0x1B # ''['' @ s @ ''m''"

definition color_on :: "bool \<Rightarrow> level \<Rightarrow> string" where
  "color_on color l =
    (if \<not> color then [] else case l of
       L_warning \<Rightarrow> attr ''1'' @ attr ''33''
     | L_error \<Rightarrow> attr ''4'' @ attr ''1'' @ attr ''31''
     | L_perror \<Rightarrow> attr ''7'' @ attr ''1'' @ attr ''35''
     | _ \<Rightarrow> [])"

definition color_off :: "bool \<Rightarrow> string" where "color_off color = (if color then attr ''0'' else [])"

text \<open>One line; \<open>where\<close> is the file, the function and the line of a call of \<open>puts\<close>. \<open>strerror_r\<close> has
  a buffer of 32 bytes, but returns a text of its own.\<close>

type_synonym log_place = "string \<times> string \<times> int"

definition log_line_l :: "log_now \<Rightarrow> level \<Rightarrow> string \<Rightarrow> string" where
  "log_line_l now l s =
    ''['' @ get_thread_name now @ ''] '' @ type_letter l @ '' '' @ get_systime_ms now @ ''  '' @ s
      @ (if l = L_perror then '': '' @ now_errno now else [])"

definition log_line :: "log_now \<Rightarrow> level \<Rightarrow> log_place \<Rightarrow> string \<Rightarrow> string" where
  "log_line now l at s =
    (case at of (f, fn, n) \<Rightarrow>
       log_line_l now l s @ ''   src=['' @ f @ '' '' @ fn @ ''()] line=['' @ dec n @ '']'')"

definition puts_fprintf :: "log_now \<Rightarrow> level \<Rightarrow> log_place \<Rightarrow> string \<Rightarrow> string" where
  "puts_fprintf now l at s = log_line now l at s @ lf"

definition puts_fprintf_l :: "log_now \<Rightarrow> level \<Rightarrow> string \<Rightarrow> string" where
  "puts_fprintf_l now l s = log_line_l now l s @ lf"

definition put_lines :: "log_now \<Rightarrow> nat \<Rightarrow> level \<Rightarrow> (string \<Rightarrow> string) \<Rightarrow> string \<Rightarrow> logged" where
  "put_lines now f l show text =
    (case buffer_lines (now_pops now) (log_buffer text) of
       None \<Rightarrow> ([Wrote f (color_on (now_color now) l)], Log_undefined)
     | Some ls \<Rightarrow> ([Wrote f (color_on (now_color now) l @ concat (map show ls)
         @ color_off (now_color now))], Log_returns))"

definition puts_log :: "log_now \<Rightarrow> level \<Rightarrow> log_place \<Rightarrow> string \<Rightarrow> nat option \<Rightarrow> logged" where
  "puts_log now l at text fp =
    (case fp of None \<Rightarrow> ([], Log_returns) | Some f \<Rightarrow> put_lines now f l (puts_fprintf now l at) text)"

definition puts_log_l :: "log_now \<Rightarrow> level \<Rightarrow> string \<Rightarrow> nat option \<Rightarrow> logged" where
  "puts_log_l now l text fp =
    (case fp of None \<Rightarrow> ([], Log_returns) | Some f \<Rightarrow> put_lines now f l (puts_fprintf_l now l) text)"

text \<open>Each line to syslog. In \<open>puts_syslog\<close> the function for the level \<open>perror\<close> is assigned to \<open>_f\<close>, but the
  empty \<open>_f_perror\<close> is called, which throws.\<close>

definition send_line :: "log_now \<Rightarrow> syslog_util \<Rightarrow> level \<Rightarrow> string \<Rightarrow> logged" where
  "send_line now su l s =
    (case syslog_put now su (severity l) s of
       None \<Rightarrow> ([], Log_undefined) | Some ms \<Rightarrow> (map Datagram ms, Log_returns))"

definition send_lines :: "log_now \<Rightarrow> syslog_util \<Rightarrow> level \<Rightarrow> (string \<Rightarrow> string) \<Rightarrow> string \<Rightarrow> logged" where
  "send_lines now su l show text =
    (case buffer_lines (now_pops now) (log_buffer text) of
       None \<Rightarrow> ([], Log_undefined)
     | Some ls \<Rightarrow> log_all (\<lambda>s. send_line now su l (show s)) ls)"

definition puts_syslog :: "log_now \<Rightarrow> level \<Rightarrow> log_place \<Rightarrow> string \<Rightarrow> syslog_util option \<Rightarrow> logged" where
  "puts_syslog now l at text s =
    (case s of None \<Rightarrow> ([], Log_returns)
     | Some su \<Rightarrow>
         if l = L_perror then
           (case buffer_lines (now_pops now) (log_buffer text) of
              None \<Rightarrow> ([], Log_undefined) | Some ls \<Rightarrow> ([], Log_throws))
         else send_lines now su l (log_line now l at) text)"

definition puts_syslog_l :: "log_now \<Rightarrow> level \<Rightarrow> string \<Rightarrow> syslog_util option \<Rightarrow> logged" where
  "puts_syslog_l now l text s =
    (case s of None \<Rightarrow> ([], Log_returns) | Some su \<Rightarrow> send_lines now su l (log_line_l now l) text)"

section \<open>The calls\<close>

definition log_puts :: "log_now \<Rightarrow> level \<Rightarrow> log_place \<Rightarrow> string \<Rightarrow> logger \<Rightarrow> logged" where
  "log_puts now l at text lg =
    (if level_no (log_level lg) > level_no l then ([], Log_returns)
     else log_then (log_all (puts_log now l at text) (handlers lg)) (puts_syslog now l at text (syslog lg)))"

definition log_puts_l :: "log_now \<Rightarrow> level \<Rightarrow> string \<Rightarrow> logger \<Rightarrow> logged" where
  "log_puts_l now l text lg =
    (if level_no (log_level lg) > level_no l then ([], Log_returns)
     else log_then (log_all (puts_log_l now l text) (handlers lg)) (puts_syslog_l now l text (syslog lg)))"

text \<open>Without a header the buffer itself is the format of \<open>info\<close>: \<open>%%\<close> becomes \<open>%\<close>, any other \<open>%\<close> reads
  an argument that is not there.\<close>

fun printf_alone :: "string \<Rightarrow> string option" where
  "printf_alone [] = Some []"
| "printf_alone (c # s) =
    (if c = CHR ''%'' then (case s of d # t \<Rightarrow> if d = CHR ''%'' then map_option ((#) c) (printf_alone t) else None | [] \<Rightarrow> None)
     else map_option ((#) c) (printf_alone s))"

definition puts_log_without_header :: "string \<Rightarrow> nat option \<Rightarrow> logged" where
  "puts_log_without_header text fp =
    (case fp of None \<Rightarrow> ([], Log_undefined) | Some f \<Rightarrow> ([Wrote f (log_buffer text)], Log_returns))"

definition puts_syslog_without_header :: "log_now \<Rightarrow> string \<Rightarrow> syslog_util option \<Rightarrow> logged" where
  "puts_syslog_without_header now text s =
    (case s of None \<Rightarrow> ([], Log_returns)
     | Some su \<Rightarrow>
         (case printf_alone (log_buffer text) of
            None \<Rightarrow> ([], Log_undefined) | Some t \<Rightarrow> send_line now su L_info t))"

definition puts_without_header :: "log_now \<Rightarrow> string \<Rightarrow> logger \<Rightarrow> logged" where
  "puts_without_header now text lg =
    log_then (log_all (puts_log_without_header text) (handlers lg))
      (puts_syslog_without_header now text (syslog lg))"

end
