(* ===== verification/Logger_Claims.thy ===== *)
theory Logger_Claims
  imports Logger
begin

text \<open>
  The theorems about the log: a text is written line by line, each datagram fits the buffer of syslog,
  and the calls that the two writers to syslog do not survive.
\<close>

section \<open>Lines\<close>

abbreviation (input) LF :: char where "LF \<equiv> CHR 0x0A"

definition join :: "string list \<Rightarrow> string" where
  "join ls = concat (map (\<lambda>l. l @ lf) (butlast ls)) @ last ls"

lemma find_lf_None: "str_find lf s = None \<longleftrightarrow> LF \<notin> set s"
  by (induction s) (auto simp: lf_def)

lemma find_lf_Some:
  "str_find lf s = Some i \<Longrightarrow> s = take i s @ LF # drop (i + 1) s \<and> LF \<notin> set (take i s)"
proof (induction s arbitrary: i)
  case Nil
  then show ?case by (simp add: lf_def)
next
  case (Cons c s)
  show ?case
  proof (cases "c = LF")
    case True
    with Cons.prems show ?thesis by (simp add: lf_def)
  next
    case False
    with Cons.prems obtain j where j: "str_find lf s = Some j" "i = Suc j" by (auto simp: lf_def)
    with Cons.IH [OF j(1)] False show ?thesis by auto
  qed
qed

lemma join_Cons: "ls \<noteq> [] \<Longrightarrow> join (l # ls) = l @ lf @ join ls"
  by (simp add: join_def)

lemma join_snoc: "ls \<noteq> [] \<Longrightarrow> join (ls @ [l]) = join ls @ lf @ l"
  by (cases ls rule: rev_cases) (simp_all add: join_def butlast_append)

lemma pieces_lf:
  "split_pieces lf s \<noteq> [] \<and> join (split_pieces lf s) = s \<and> (\<forall>l \<in> set (split_pieces lf s). LF \<notin> set l)"
proof (induction "length s" arbitrary: s rule: less_induct)
  case less
  have ne: "lf \<noteq> []" by (simp add: lf_def)
  show ?case
  proof (cases "str_find lf s")
    case None
    then show ?thesis using ne find_lf_None [of s] by (simp add: split_pieces.simps [of lf s] join_def)
  next
    case (Some i)
    note f = find_lf_Some [OF Some]
    let ?r = "drop (i + 1) s"
    have l: "length lf = 1" by (simp add: lf_def)
    have e: "split_pieces lf s = take i s # split_pieces lf ?r"
      using Some ne l by (simp add: split_pieces.simps [of lf s])
    have s: "s = take i s @ lf @ ?r" using f by (simp add: lf_def)
    have "length ?r < length s" by (subst (2) s) (simp add: l)
    from less [OF this] have r: "split_pieces lf ?r \<noteq> []" "join (split_pieces lf ?r) = ?r"
      "\<forall>l \<in> set (split_pieces lf ?r). LF \<notin> set l" by blast+
    have "join (split_pieces lf s) = s" by (simp only: e join_Cons [OF r(1)] r(2) s [symmetric])
    with e r(3) f show ?thesis by simp
  qed
qed

lemma erase_tail_pops:
  "\<exists>ls k. erase_tail True v = Some ls \<and> v = ls @ replicate k [] \<and> (v \<noteq> [] \<longrightarrow> ls \<noteq> []) \<and>
     (length ls \<le> 1 \<or> last ls \<noteq> [])"
proof (induction "length v" arbitrary: v rule: less_induct)
  case less
  show ?case
  proof (cases "length v \<le> 1 \<or> last v \<noteq> []")
    case True
    then show ?thesis by (intro exI [of _ v] exI [of _ 0]) (auto simp: erase_tail.simps [of True v])
  next
    case False
    then have v: "v \<noteq> []" "last v = []" "length v > 1" by auto
    then obtain ls k where b: "erase_tail True (butlast v) = Some ls" "butlast v = ls @ replicate k []"
        "butlast v \<noteq> [] \<longrightarrow> ls \<noteq> []" "length ls \<le> 1 \<or> last ls \<noteq> []"
      using less [of "butlast v"] by auto
    have "v = butlast v @ [[]]" using v append_butlast_last_id [of v] by simp
    then have "v = ls @ replicate (Suc k) []" by (simp add: b(2) replicate_append_same)
    moreover have "butlast v \<noteq> []" using v(3) by (cases v rule: rev_cases) auto
    moreover have "erase_tail True v = erase_tail True (butlast v)"
      using v by (simp add: erase_tail.simps [of True v])
    ultimately show ?thesis
      using b by (intro exI [of _ ls] exI [of _ "Suc k"]) simp
  qed
qed

lemma join_blank: "ls \<noteq> [] \<Longrightarrow> join (ls @ replicate k []) = join ls @ replicate k LF"
proof (induction k)
  case 0
  then show ?case by simp
next
  case (Suc k)
  have "join (ls @ replicate (Suc k) []) = join ((ls @ replicate k []) @ [[]])"
    by (simp add: replicate_append_same)
  also have "\<dots> = join (ls @ replicate k []) @ lf"
    using Suc.prems by (subst join_snoc) simp_all
  finally show ?case using Suc by (simp add: lf_def replicate_append_same)
qed

text \<open>The pieces are the lines of the text, without the empty ones at the end: joined by line feeds they
  are the text again, but for line feeds at its end.\<close>

theorem split_gives_the_lines:
  "\<exists>ls k. split True s lf = Some ls \<and> s = join ls @ replicate k LF \<and>
     (\<forall>l \<in> set ls. LF \<notin> set l) \<and> ls \<noteq> [] \<and> (length ls = 1 \<or> last ls \<noteq> [])"
proof -
  note p = pieces_lf [of s]
  obtain ls k where e: "erase_tail True (split_pieces lf s) = Some ls" "split_pieces lf s = ls @ replicate k []"
      "ls \<noteq> []" "length ls \<le> 1 \<or> last ls \<noteq> []"
    using erase_tail_pops [of "split_pieces lf s"] p by blast
  have "s = join ls @ replicate k LF" using p join_blank [OF e(3), of k] by (simp add: e(2))
  moreover have "\<forall>l \<in> set ls. LF \<notin> set l" using p by (simp add: e(2))
  moreover have "length ls = 1 \<or> last ls \<noteq> []" using e(3,4) by (cases ls) auto
  ultimately show ?thesis using e(1,3) by (auto simp: split_def)
qed

text \<open>By the standard a text that ends with a line feed is not split at all: the last piece is erased at
  \<open>end ()\<close>.\<close>

lemma last_piece:
  "last (split_pieces lf s) = [] \<and> length (split_pieces lf s) > 1 \<longleftrightarrow> s \<noteq> [] \<and> last s = LF"
proof -
  let ?p = "split_pieces lf s"
  note p = pieces_lf [of s]
  show ?thesis
  proof (cases "length ?p > 1")
    case True
    then obtain q l where q: "?p = q @ [l]" "q \<noteq> []" by (cases ?p rule: rev_cases) auto
    then have s: "s = join q @ lf @ l" using p join_snoc [of q l] by simp
    have "LF \<notin> set l" using p by (simp add: q(1))
    then have "s \<noteq> [] \<and> last s = LF \<longleftrightarrow> l = []"
      unfolding s by (cases l rule: rev_cases) (auto simp: lf_def)
    moreover have "last ?p = l" by (simp add: q(1))
    ultimately show ?thesis using True by simp
  next
    case False
    then obtain l where l: "?p = [l]" using p by (cases ?p) auto
    then have "LF \<notin> set s" using p by (auto simp: join_def)
    moreover have "last s \<in> set s" if "s \<noteq> []" using that by simp
    ultimately show ?thesis using False by metis
  qed
qed

theorem trailing_line_feed_erases_at_the_end:
  "split False s lf = None \<longleftrightarrow> s \<noteq> [] \<and> last s = LF"
  using last_piece [of s] by (auto simp: split_def erase_tail.simps [of False])

section \<open>Writing\<close>

lemma buffer_lines_pops:
  "\<exists>ls k. buffer_lines True s = Some ls \<and> s = join ls @ replicate k LF \<and>
     (\<forall>l \<in> set ls. LF \<notin> set l) \<and> ls \<noteq> [] \<and> (length ls = 1 \<or> last ls \<noteq> [])"
proof (cases "str_find lf s")
  case None
  then show ?thesis
    using find_lf_None [of s] by (intro exI [of _ "[s]"] exI [of _ 0]) (simp add: buffer_lines_def join_def)
next
  case (Some i)
  then show ?thesis using split_gives_the_lines [of s] by (simp add: buffer_lines_def)
qed



section \<open>Syslog\<close>

lemma join_mem_length: "l \<in> set ls \<Longrightarrow> length l \<le> length (join ls)"
proof (induction ls)
  case Nil
  then show ?case by simp
next
  case (Cons x ls)
  then show ?case by (cases "ls = []") (auto simp: join_Cons join_def [of "[x]"])
qed

lemma split_piece_length:
  assumes "split pops s lf = Some ls" "l \<in> set ls"
  shows "length l \<le> length s"
proof -
  have "\<exists>k. split_pieces lf s = ls @ replicate k []"
  proof (cases pops)
    case True
    then show ?thesis using assms(1) erase_tail_pops [of "split_pieces lf s"] by (auto simp: split_def)
  next
    case False
    then have "split_pieces lf s = ls"
      using assms(1) by (simp add: split_def erase_tail.simps [of False] split: if_splits)
    then show ?thesis by (intro exI [of _ 0]) simp
  qed
  then have "l \<in> set (split_pieces lf s)" using assms(2) by auto
  from join_mem_length [OF this] pieces_lf [of s] show ?thesis by simp
qed

lemma erase_tail_mem: "\<lbrakk>erase_tail pops v = Some ls; l \<in> set ls\<rbrakk> \<Longrightarrow> l \<in> set v"
proof (induction pops v rule: erase_tail.induct)
  case (1 pops v)
  then show ?case
    by (subst (asm) (2) erase_tail.simps) (auto split: if_splits dest: in_set_butlastD)
qed

definition syslog_head :: "log_now \<Rightarrow> syslog_util \<Rightarrow> int \<Rightarrow> string" where
  "syslog_head now su sev =
    ''<'' @ dec (syslog_priority (su_facility su) sev) @ ''>'' @ get_header now su @ '': ''"

text \<open>C39: every datagram has at most 1023 bytes and begins with the priority and the header.\<close>

theorem datagrams_are_bounded:
  assumes "syslog_put now su sev text = Some ms" "m \<in> set ms"
  shows "length m \<le> 1023 \<and> (\<exists>body. m = syslog_head now su sev @ body)"
proof -
  let ?h = "syslog_head now su sev"
  let ?b = "take (1023 - length ?h) text"
  have h: "length ?h < 1024" using assms(1) by (simp add: syslog_put_def syslog_head_def Let_def split: if_splits)
  have put: "syslog_put now su sev text = (if str_find lf (?h @ ?b) = None then Some [?h @ ?b]
      else map_option (map ((@) ?h)) (syslog_split (now_pops now) ?b))"
    using h by (simp add: syslog_put_def syslog_head_def Let_def)
  show ?thesis
  proof (cases "str_find lf (?h @ ?b) = None")
    case True
    then have "m = ?h @ ?b" using assms by (auto simp: put)
    then show ?thesis using h by auto
  next
    case False
    then obtain ls where ls: "syslog_split (now_pops now) ?b = Some ls" "ms = map ((@) ?h) ls"
      using assms(1) by (auto simp: put)
    then obtain l where l: "l \<in> set ls" "m = ?h @ l" using assms(2) by auto
    obtain v where "split (now_pops now) ?b lf = Some v" "erase_tail (now_pops now) v = Some ls"
      using ls(1) by (auto simp: syslog_split_def split: option.splits)
    then have "length l \<le> length ?b" using split_piece_length erase_tail_mem l(1) by blast
    then show ?thesis using h l(2) by auto
  qed
qed

text \<open>A call with the level \<open>perror\<close> throws when there is a syslog, after it has written to the handlers.\<close>

theorem perror_to_syslog_throws:
  assumes "syslog lg = Some su" "now_pops now"
  shows "snd (log_puts now L_perror at text lg) = Log_throws"
proof -
  obtain ls where b: "buffer_lines True (log_buffer text) = Some ls"
    using buffer_lines_pops [of "log_buffer text"] by blast
  have f: "snd (log_all (puts_log now L_perror at text) fps) = Log_returns" for fps
    using b assms(2) by (induction fps) (auto simp: puts_log_def put_lines_def log_then_def split: option.splits)
  have "level_no (log_level lg) \<le> 4" by (simp add: level_no_def split: level.splits)
  then show ?thesis
    using assms b f [of "handlers lg"] by (simp add: log_puts_def log_then_def puts_syslog_def level_no_def)
qed

text \<open>What the commands print goes to syslog as a format: without a percent sign it arrives as it is, with
  one that is not doubled arguments are read that are not there.\<close>

lemma printf_plain: "CHR ''%'' \<notin> set s \<Longrightarrow> printf_alone s = Some s"
  by (induction s) auto

lemma printf_percent: "\<lbrakk>CHR ''%'' \<notin> set s; c \<noteq> CHR ''%''\<rbrakk> \<Longrightarrow> printf_alone (s @ CHR ''%'' # c # t) = None"
  by (induction s) auto

lemma without_header_files:
  "list_all (\<lambda>fp. fp \<noteq> None) fps \<Longrightarrow>
   log_all (puts_log_without_header text) fps = (map (\<lambda>fp. Wrote (the fp) (log_buffer text)) fps, Log_returns)"
  by (induction fps) (auto simp: puts_log_without_header_def log_then_def)

theorem percent_sign_is_a_format:
  assumes "list_all (\<lambda>fp. fp \<noteq> None) (handlers lg)" "syslog lg = Some su" "length (s @ CHR ''%'' # c # t) \<le> 1023"
    "CHR ''%'' \<notin> set s" "c \<noteq> CHR ''%''"
  shows "snd (puts_without_header now (s @ CHR ''%'' # c # t) lg) = Log_undefined \<and>
    puts_without_header now s lg = log_then (map (\<lambda>fp. Wrote (the fp) s) (handlers lg), Log_returns)
      (send_line now su L_info s)"
proof -
  have "log_buffer (s @ CHR ''%'' # c # t) = s @ CHR ''%'' # c # t" "log_buffer s = s"
    using assms(3) by (simp_all add: log_buffer_def LOG_STRING_SIZE_def)
  then show ?thesis
    using assms by (simp add: puts_without_header_def without_header_files log_then_def
        puts_syslog_without_header_def printf_plain printf_percent)
qed

section \<open>The clock\<close>

text \<open>The time fits its buffer: nothing of it is cut off.\<close>

theorem time_fits_its_buffer:
  assumes "0 \<le> tm_mon (now_tm now)" "tm_mon (now_tm now) \<le> 11" "1 \<le> tm_mday (now_tm now)" "tm_mday (now_tm now) \<le> 31"
    "0 \<le> tm_hour (now_tm now)" "tm_hour (now_tm now) \<le> 23" "0 \<le> tm_min (now_tm now)" "tm_min (now_tm now) \<le> 59"
    "0 \<le> tm_sec (now_tm now)" "tm_sec (now_tm now) \<le> 60" "0 \<le> now_msec now" "now_msec now \<le> 999"
  shows "get_systime_ms now = systime_text now \<and> length (get_thread_name now) = 10"
proof -
  have "length (systime_text now) = 18"
    using assms by (simp add: systime_text_def Let_def length_dec02)
  then show ?thesis
    by (simp add: get_systime_ms_def SYSTIME_MS_STRING_SIZE_def get_thread_name_def THREAD_NAME_STRING_SIZE_def Let_def)
qed

section \<open>Examples\<close>

definition example_now :: log_now where
  "example_now = \<lparr>now_thread = ''RecManager'', now_tm = \<lparr>tm_year = 124, tm_mon = 0, tm_mday = 9, tm_hour = 8,
     tm_min = 7, tm_sec = 6\<rparr>, now_msec = 5, now_errno = ''Success'', now_stamp = ''Jan  9 08:07:06'', now_pid = 42,
     now_color = False, now_pops = True\<rparr>"

definition example_syslog :: syslog_util where
  "example_syslog = \<lparr>su_facility = 8, su_tag = ''auto_rec_mini'', su_with_pid = True\<rparr>"

definition example_logger :: logger where
  "example_logger = set_syslog (Some example_syslog) (append_handler (Some 1) (set_log_level L_info new_logger))"


theorem datagrams_are_bounded_witness:
  "length (syslog_head example_now example_syslog 6 @ ''up'') \<le> 1023 \<and>
   (\<exists>body. syslog_head example_now example_syslog 6 @ ''up'' = syslog_head example_now example_syslog 6 @ body)"
proof (rule datagrams_are_bounded)
  show "syslog_put example_now example_syslog 6 ''up'' = Some [syslog_head example_now example_syslog 6 @ ''up'']"
    by code_simp
qed simp

theorem perror_to_syslog_throws_witness:
  "snd (log_puts example_now L_perror (''main.cpp'', ''main'', 1) ''open'' example_logger) = Log_throws"
  by (rule perror_to_syslog_throws) (simp_all add: example_logger_def set_syslog_def example_now_def)

theorem percent_sign_is_a_format_witness:
  "snd (puts_without_header example_now (''100'' @ CHR ''%'' # CHR ''s'' # ''ure'') example_logger) = Log_undefined \<and>
    puts_without_header example_now ''100'' example_logger =
      log_then (map (\<lambda>fp. Wrote (the fp) ''100'') (handlers example_logger), Log_returns)
        (send_line example_now example_syslog L_info ''100'')"
  by (rule percent_sign_is_a_format)
    (simp_all add: example_logger_def set_syslog_def append_handler_def set_log_level_def new_logger_def)

theorem time_fits_its_buffer_witness:
  "get_systime_ms example_now = systime_text example_now \<and> length (get_thread_name example_now) = 10"
  by (rule time_fits_its_buffer) (simp_all add: example_now_def)

end
