(* ===== verification/Client_If.thy ===== *)
theory Client_If
  imports C_Text Reserves Channel_Manager Sched_Exec
begin

text \<open>
  How the modules are addressed (src/src/modules.cpp, client_if.h, group.h and the \<open>client_iface\<close>
  classes of the \<open>*_if.h\<close> files): the numbers of the modules and of their sequences, the tables of
  handlers that the constructors of the modules register, and one function per request. What
  the library \<open>coseq\<close> does with a call is a parameter of the functions that use it.
\<close>

section \<open>Modules\<close>

fun position :: "string \<Rightarrow> string list \<Rightarrow> nat" where
  "position x [] = 0"
| "position x (y # ys) = (if x = y then 0 else Suc (position x ys))"

text \<open>The enumerators of \<open>module_id\<close>; the unnumbered ones stand for group 0.\<close>

definition module_ids :: "string list" where
  "module_ids =
    [''tune_thread'', ''tune_thread_1'', ''tune_thread_2'', ''tune_thread_3'',
     ''tuner_control'', ''tuner_control_1'', ''tuner_control_2'', ''tuner_control_3'',
     ''psisi_manager'', ''psisi_manager_1'', ''psisi_manager_2'', ''psisi_manager_3'',
     ''tuner_service'', ''rec_manager'', ''channel_manager'', ''event_schedule_manager'',
     ''event_search'', ''viewing_manager'', ''command_server'']"

definition module_no :: "string \<Rightarrow> u8" where
  "module_no x = of_nat (position x module_ids)"

text \<open>\<open>arec::group\<close>: a number that is no group becomes 0.\<close>

definition GROUP_MAX :: u8 where "GROUP_MAX = 4"

definition group :: "u8 \<Rightarrow> u8" where
  "group i = (if i \<ge> GROUP_MAX then 0 else i)"

section \<open>Messages and calls\<close>

type_synonym service_key = "u16 \<times> u16 \<times> u16"

text \<open>The parameters of the requests. \<open>ap_evt\<close> is \<open>None\<close> when nothing
  was assigned to the field; the times of an event reservation are cleared ones.\<close>

record add_reserve_param =
  ap_tsid :: u16
  ap_nid :: u16
  ap_svc :: u16
  ap_evt :: "u16 option"
  ap_start :: timespec
  ap_end :: timespec
  ap_repeat :: repeatability

record helper_param =
  hp_index :: int
  hp_repeat :: repeatability

datatype 'k arg = By_key 'k | By_index int | By_keyword string

record remove_reserve_param =
  rp_arg :: "event_key arg"
  rp_consider_repeatability :: bool
  rp_apply_result :: bool

record event_param =
  ep_arg :: "event_key arg"
  ep_array_max :: int

record tune_param =
  tp_physical_channel :: u16
  tp_tuner_id :: u8

datatype payload = No_msg | Msg_u8 u8 | Msg_u32 u32 | Msg_int int | Msg_pointer nat | Msg_array int
  | Msg_tune tune_param | Msg_add_reserve add_reserve_param | Msg_helper helper_param
  | Msg_remove remove_reserve_param | Msg_service service_key | Msg_remote_key "u16 \<times> u16 \<times> u8"
  | Msg_physical u16 int | Msg_option u8 int | Msg_event event_param | Msg_stream_infos u16 int int

record coseq_call =
  call_module :: u8
  call_sequence :: u8
  call_msg :: payload

datatype client_call = Sync coseq_call | Async coseq_call

definition to_module :: "u8 \<Rightarrow> string list \<Rightarrow> string \<Rightarrow> payload \<Rightarrow> coseq_call" where
  "to_module m seqs x msg =
     \<lparr>call_module = m, call_sequence = of_nat (position x seqs), call_msg = msg\<rparr>"

text \<open>The replies: \<open>client_reply\<close> holds the source of a reply, or only whether a call was posted.
  The contents are what the handlers put into the message, and, where the message of the call
  has a pointer to an array, what they wrote there.\<close>

datatype coseq_result = R_ignore | R_success | R_error | R_request_timeout | R_sequence_timeout

datatype reply_content = Empty | C_u8 u8 | C_int int | C_state nat | C_text string
  | C_reserves "reserve list" | C_events "event_reply list" | C_channels "channel_t list"

datatype client_reply = Replied coseq_result reply_content | Posted bool

definition get_result :: "client_reply \<Rightarrow> coseq_result" where
  "get_result r =
     (case r of Replied x c \<Rightarrow> x | Posted ok \<Rightarrow> if ok then R_success else R_error)"

definition reply_ok :: "client_reply \<Rightarrow> bool" where
  "reply_ok r = (case r of Replied x c \<Rightarrow> x = R_success | Posted ok \<Rightarrow> ok)"

definition get_message :: "client_reply \<Rightarrow> reply_content" where
  "get_message r = (case r of Replied x c \<Rightarrow> c | Posted ok \<Rightarrow> Empty)"

text \<open>\<open>request_sync\<close> and \<open>request_async\<close>: \<open>world\<close> runs the called sequence; a call that was refused
  for a null pointer returns \<open>false\<close>.\<close>

type_synonym 'w world = "coseq_call \<Rightarrow> 'w \<Rightarrow> coseq_result \<times> reply_content \<times> 'w"

definition issue :: "'w world \<Rightarrow> client_call option \<Rightarrow> 'w \<Rightarrow> client_reply \<times> 'w" where
  "issue world call w =
     (case call of
        None \<Rightarrow> (Posted False, w)
      | Some (Sync c) \<Rightarrow> (case world c w of (r, m, w') \<Rightarrow> (Replied r m, w'))
      | Some (Async c) \<Rightarrow> (case world c w of (r, m, w') \<Rightarrow> (Posted True, w')))"

section \<open>Requests\<close>

subsection \<open>Tuner control\<close>

definition tc_sequences :: "string list" where
  "tc_sequences =
    [''module_up'', ''module_down'', ''tune'', ''tune_start'', ''tune_stop'', ''reg_tuner_notify'',
     ''unreg_tuner_notify'', ''reg_ts_receive_handler'', ''unreg_ts_receive_handler'',
     ''get_state'']"

definition tc_handlers :: "string list" where
  "tc_handlers =
    [''on_module_up'', ''on_module_down'', ''on_tune'', ''on_tune_start'', ''on_tune_stop'',
     ''on_register_tuner_notify'', ''on_unregister_tuner_notify'',
     ''on_register_ts_receive_handler'', ''on_unregister_ts_receive_handler'', ''on_get_state'']"

definition tc_request_module_up :: "u8 \<Rightarrow> client_call option" where
  "tc_request_module_up gr =
    Some (Sync (to_module (module_no ''tuner_control'' + group gr) tc_sequences ''module_up'' No_msg))"

definition tc_request_module_down :: "u8 \<Rightarrow> client_call option" where
  "tc_request_module_down gr =
    Some (Async (to_module (module_no ''tuner_control'' + group gr) tc_sequences ''module_down'' No_msg))"

definition tc_request_tune :: "u8 \<Rightarrow> u32 \<Rightarrow> client_call option" where
  "tc_request_tune gr f =
    Some (Async (to_module (module_no ''tuner_control'' + group gr) tc_sequences ''tune'' (Msg_u32 f)))"

definition tc_request_tune_sync :: "u8 \<Rightarrow> u32 \<Rightarrow> client_call option" where
  "tc_request_tune_sync gr f =
    Some (Sync (to_module (module_no ''tuner_control'' + group gr) tc_sequences ''tune'' (Msg_u32 f)))"

definition tc_request_tune_stop :: "u8 \<Rightarrow> client_call option" where
  "tc_request_tune_stop gr =
    Some (Async (to_module (module_no ''tuner_control'' + group gr) tc_sequences ''tune_stop'' No_msg))"

definition tc_request_tune_stop_sync :: "u8 \<Rightarrow> client_call option" where
  "tc_request_tune_stop_sync gr =
    Some (Sync (to_module (module_no ''tuner_control'' + group gr) tc_sequences ''tune_stop'' No_msg))"

definition tc_request_register_tuner_notify :: "u8 \<Rightarrow> client_call option" where
  "tc_request_register_tuner_notify gr =
    Some (Async (to_module (module_no ''tuner_control'' + group gr) tc_sequences
      ''reg_tuner_notify'' No_msg))"

definition tc_request_unregister_tuner_notify :: "u8 \<Rightarrow> int \<Rightarrow> client_call option" where
  "tc_request_unregister_tuner_notify gr i =
    Some (Async (to_module (module_no ''tuner_control'' + group gr) tc_sequences
      ''unreg_tuner_notify'' (Msg_int i)))"

definition tc_request_register_ts_receive_handler :: "u8 \<Rightarrow> nat \<Rightarrow> client_call option" where
  "tc_request_register_ts_receive_handler gr h =
    Some (Async (to_module (module_no ''tuner_control'' + group gr) tc_sequences
      ''reg_ts_receive_handler'' (Msg_pointer h)))"

definition tc_request_unregister_ts_receive_handler :: "u8 \<Rightarrow> int \<Rightarrow> client_call option" where
  "tc_request_unregister_ts_receive_handler gr i =
    Some (Async (to_module (module_no ''tuner_control'' + group gr) tc_sequences
      ''unreg_ts_receive_handler'' (Msg_int i)))"

definition tc_request_get_state :: "u8 \<Rightarrow> client_call option" where
  "tc_request_get_state gr =
    Some (Async (to_module (module_no ''tuner_control'' + group gr) tc_sequences ''get_state'' No_msg))"

definition tc_request_get_state_sync :: "u8 \<Rightarrow> client_call option" where
  "tc_request_get_state_sync gr =
    Some (Sync (to_module (module_no ''tuner_control'' + group gr) tc_sequences ''get_state'' No_msg))"

subsection \<open>Psisi manager\<close>

definition pm_sequences :: "string list" where
  "pm_sequences =
    [''module_up'', ''module_down'', ''get_state'', ''check_loop'', ''parser_notice'',
     ''stabilization_after_tuning'', ''reg_pat_detect_notify'', ''unreg_pat_detect_notify'',
     ''reg_event_change_notify'', ''unreg_event_change_notify'', ''reg_psisi_state_notify'',
     ''unreg_psisi_state_notify'', ''get_pat_detect_state'', ''get_stream_infos'',
     ''get_current_service_infos'', ''get_present_event_info'', ''get_follow_event_info'',
     ''get_current_network_info'', ''enable_parse_eit_sched'', ''disable_parse_eit_sched'',
     ''dump_caches'', ''dump_tables'']"

definition pm_handlers :: "string list" where
  "pm_handlers =
    [''on_module_up'', ''on_module_down'', ''on_get_state'', ''on_check_loop'',
     ''on_parser_notice'', ''on_stabilization_after_tuning'', ''on_register_pat_detect_notify'',
     ''on_unregister_pat_detect_notify'', ''on_register_event_change_notify'',
     ''on_unregister_event_change_notify'', ''on_register_psisi_state_notify'',
     ''on_unregister_psisi_state_notify'', ''on_get_pat_detect_state'', ''on_get_stream_infos'',
     ''on_get_current_service_infos'', ''on_get_present_event_info'', ''on_get_follow_event_info'',
     ''on_get_current_network_info'', ''on_enable_parse_eit_sched'',
     ''on_disable_parse_eit_sched'', ''on_dump_caches'', ''on_dump_tables'']"

definition pm_request_module_up :: "u8 \<Rightarrow> client_call option" where
  "pm_request_module_up gr =
    Some (Sync (to_module (module_no ''psisi_manager'' + group gr) pm_sequences ''module_up'' No_msg))"

definition pm_request_module_down :: "u8 \<Rightarrow> client_call option" where
  "pm_request_module_down gr =
    Some (Async (to_module (module_no ''psisi_manager'' + group gr) pm_sequences ''module_down'' No_msg))"

definition pm_request_get_state :: "u8 \<Rightarrow> client_call option" where
  "pm_request_get_state gr =
    Some (Async (to_module (module_no ''psisi_manager'' + group gr) pm_sequences ''get_state'' No_msg))"

definition pm_request_get_state_sync :: "u8 \<Rightarrow> client_call option" where
  "pm_request_get_state_sync gr =
    Some (Sync (to_module (module_no ''psisi_manager'' + group gr) pm_sequences ''get_state'' No_msg))"

definition pm_request_register_pat_detect_notify :: "u8 \<Rightarrow> client_call option" where
  "pm_request_register_pat_detect_notify gr =
    Some (Async (to_module (module_no ''psisi_manager'' + group gr) pm_sequences
      ''reg_pat_detect_notify'' No_msg))"

definition pm_request_unregister_pat_detect_notify :: "u8 \<Rightarrow> int \<Rightarrow> client_call option" where
  "pm_request_unregister_pat_detect_notify gr i =
    Some (Async (to_module (module_no ''psisi_manager'' + group gr) pm_sequences
      ''unreg_pat_detect_notify'' (Msg_int i)))"

definition pm_request_register_event_change_notify :: "u8 \<Rightarrow> client_call option" where
  "pm_request_register_event_change_notify gr =
    Some (Async (to_module (module_no ''psisi_manager'' + group gr) pm_sequences
      ''reg_event_change_notify'' No_msg))"

definition pm_request_unregister_event_change_notify :: "u8 \<Rightarrow> int \<Rightarrow> client_call option" where
  "pm_request_unregister_event_change_notify gr i =
    Some (Async (to_module (module_no ''psisi_manager'' + group gr) pm_sequences
      ''unreg_event_change_notify'' (Msg_int i)))"

definition pm_request_register_psisi_state_notify :: "u8 \<Rightarrow> client_call option" where
  "pm_request_register_psisi_state_notify gr =
    Some (Async (to_module (module_no ''psisi_manager'' + group gr) pm_sequences
      ''reg_psisi_state_notify'' No_msg))"

definition pm_request_unregister_psisi_state_notify :: "u8 \<Rightarrow> int \<Rightarrow> client_call option" where
  "pm_request_unregister_psisi_state_notify gr i =
    Some (Async (to_module (module_no ''psisi_manager'' + group gr) pm_sequences
      ''unreg_psisi_state_notify'' (Msg_int i)))"

definition pm_request_get_pat_detect_state :: "u8 \<Rightarrow> client_call option" where
  "pm_request_get_pat_detect_state gr =
    Some (Async (to_module (module_no ''psisi_manager'' + group gr) pm_sequences
      ''get_pat_detect_state'' No_msg))"

definition pm_request_get_stream_infos :: "u8 \<Rightarrow> u16 \<Rightarrow> int \<Rightarrow> nat option \<Rightarrow> int \<Rightarrow> client_call option" where
  "pm_request_get_stream_infos gr prog ty p n =
    (if p = None \<or> n = 0 then None
     else Some (Async (to_module (module_no ''psisi_manager'' + group gr) pm_sequences
      ''get_stream_infos'' (Msg_stream_infos prog ty n))))"

definition pm_request_get_stream_infos_sync :: "u8 \<Rightarrow> u16 \<Rightarrow> int \<Rightarrow> nat option \<Rightarrow> int \<Rightarrow> client_call option" where
  "pm_request_get_stream_infos_sync gr prog ty p n =
    (if p = None \<or> n = 0 then None
     else Some (Sync (to_module (module_no ''psisi_manager'' + group gr) pm_sequences
      ''get_stream_infos'' (Msg_stream_infos prog ty n))))"

definition pm_request_get_current_service_infos :: "u8 \<Rightarrow> nat option \<Rightarrow> int \<Rightarrow> client_call option" where
  "pm_request_get_current_service_infos gr p n =
    (if p = None \<or> n = 0 then None else Some (Async (to_module (module_no ''psisi_manager'' + group gr) pm_sequences
      ''get_current_service_infos'' (Msg_array n))))"

definition pm_request_get_present_event_info :: "u8 \<Rightarrow> service_key option \<Rightarrow> nat option \<Rightarrow> client_call option" where
  "pm_request_get_present_event_info gr key p =
    (case key of None \<Rightarrow> None
     | Some k \<Rightarrow> if p = None then None else Some (Async (to_module (module_no ''psisi_manager'' + group gr) pm_sequences
      ''get_present_event_info'' (Msg_service k))))"

definition pm_request_get_present_event_info_sync :: "u8 \<Rightarrow> service_key option \<Rightarrow> nat option \<Rightarrow> client_call option" where
  "pm_request_get_present_event_info_sync gr key p =
    (case key of None \<Rightarrow> None
     | Some k \<Rightarrow> if p = None then None else Some (Sync (to_module (module_no ''psisi_manager'' + group gr) pm_sequences
      ''get_present_event_info'' (Msg_service k))))"

definition pm_request_get_follow_event_info :: "u8 \<Rightarrow> service_key option \<Rightarrow> nat option \<Rightarrow> client_call option" where
  "pm_request_get_follow_event_info gr key p =
    (case key of None \<Rightarrow> None
     | Some k \<Rightarrow> if p = None then None else Some (Async (to_module (module_no ''psisi_manager'' + group gr) pm_sequences
      ''get_follow_event_info'' (Msg_service k))))"

definition pm_request_get_follow_event_info_sync :: "u8 \<Rightarrow> service_key option \<Rightarrow> nat option \<Rightarrow> client_call option" where
  "pm_request_get_follow_event_info_sync gr key p =
    (case key of None \<Rightarrow> None
     | Some k \<Rightarrow> if p = None then None else Some (Sync (to_module (module_no ''psisi_manager'' + group gr) pm_sequences
      ''get_follow_event_info'' (Msg_service k))))"

definition pm_request_get_current_network_info :: "u8 \<Rightarrow> nat option \<Rightarrow> client_call option" where
  "pm_request_get_current_network_info gr p =
    (if p = None then None else Some (Async (to_module (module_no ''psisi_manager'' + group gr) pm_sequences
      ''get_current_network_info'' No_msg)))"

definition pm_request_enable_parse_eit_sched :: "u8 \<Rightarrow> client_call option" where
  "pm_request_enable_parse_eit_sched gr =
    Some (Async (to_module (module_no ''psisi_manager'' + group gr) pm_sequences
      ''enable_parse_eit_sched'' No_msg))"

definition pm_request_disable_parse_eit_sched :: "u8 \<Rightarrow> client_call option" where
  "pm_request_disable_parse_eit_sched gr =
    Some (Async (to_module (module_no ''psisi_manager'' + group gr) pm_sequences
      ''disable_parse_eit_sched'' No_msg))"

definition pm_request_dump_caches :: "u8 \<Rightarrow> int \<Rightarrow> client_call option" where
  "pm_request_dump_caches gr t =
    Some (Async (to_module (module_no ''psisi_manager'' + group gr) pm_sequences
      ''dump_caches'' (Msg_int t)))"

definition pm_request_dump_tables :: "u8 \<Rightarrow> nat \<Rightarrow> client_call option" where
  "pm_request_dump_tables gr t =
    Some (Async (to_module (module_no ''psisi_manager'' + group gr) pm_sequences
      ''dump_tables'' (Msg_int (int t))))"

subsection \<open>Tuner service\<close>

definition ts_sequences :: "string list" where
  "ts_sequences =
    [''module_up'', ''module_down'', ''open'', ''close'', ''tune'', ''tune_with_retry'',
     ''tune_stop'', ''dump_allocates'']"

definition ts_handlers :: "string list" where
  "ts_handlers =
    [''on_module_up'', ''on_module_down'', ''on_open'', ''on_close'', ''on_tune'',
     ''on_tune_with_retry'', ''on_tune_stop'', ''on_dump_allocates'']"

definition ts_request_module_up :: "client_call option" where
  "ts_request_module_up =
    Some (Sync (to_module (module_no ''tuner_service'') ts_sequences ''module_up'' No_msg))"

definition ts_request_module_down :: "client_call option" where
  "ts_request_module_down =
    Some (Async (to_module (module_no ''tuner_service'') ts_sequences ''module_down'' No_msg))"

definition ts_request_open :: "client_call option" where
  "ts_request_open =
    Some (Async (to_module (module_no ''tuner_service'') ts_sequences ''open'' No_msg))"

definition ts_request_open_sync :: "client_call option" where
  "ts_request_open_sync =
    Some (Sync (to_module (module_no ''tuner_service'') ts_sequences ''open'' No_msg))"

definition ts_request_close :: "u8 \<Rightarrow> client_call option" where
  "ts_request_close t =
    Some (Async (to_module (module_no ''tuner_service'') ts_sequences ''close'' (Msg_u8 t)))"

definition ts_request_close_sync :: "u8 \<Rightarrow> client_call option" where
  "ts_request_close_sync t =
    Some (Sync (to_module (module_no ''tuner_service'') ts_sequences ''close'' (Msg_u8 t)))"

definition ts_request_tune :: "tune_param option \<Rightarrow> client_call option" where
  "ts_request_tune p =
    map_option (\<lambda>p. Async (to_module (module_no ''tuner_service'') ts_sequences
      ''tune'' (Msg_tune p))) p"

definition ts_request_tune_with_retry :: "tune_param option \<Rightarrow> client_call option" where
  "ts_request_tune_with_retry p =
    map_option (\<lambda>p. Async (to_module (module_no ''tuner_service'') ts_sequences
      ''tune_with_retry'' (Msg_tune p))) p"

definition ts_request_tune_stop :: "u8 \<Rightarrow> client_call option" where
  "ts_request_tune_stop t =
    Some (Async (to_module (module_no ''tuner_service'') ts_sequences ''tune_stop'' (Msg_u8 t)))"

definition ts_request_tune_stop_sync :: "u8 \<Rightarrow> client_call option" where
  "ts_request_tune_stop_sync t =
    Some (Sync (to_module (module_no ''tuner_service'') ts_sequences ''tune_stop'' (Msg_u8 t)))"

definition ts_request_dump_allocates :: "client_call option" where
  "ts_request_dump_allocates =
    Some (Async (to_module (module_no ''tuner_service'') ts_sequences ''dump_allocates'' No_msg))"

subsection \<open>Rec manager\<close>

definition rec_sequences :: "string list" where
  "rec_sequences =
    [''module_up'', ''module_up_by_groupid'', ''module_down'', ''check_loop'',
     ''check_reserves_event_loop'', ''check_recordings_event_loop'', ''recording_notice'',
     ''start_recording'', ''add_reserve_current_event'', ''add_reserve_event'',
     ''add_reserve_event_helper'', ''add_reserve_manual'', ''remove_reserve'',
     ''remove_reserve_by_index'', ''get_reserves'', ''stop_recording'', ''dump_reserves'']"

definition rec_handlers :: "string list" where
  "rec_handlers =
    [''on_module_up'', ''on_module_up_by_group_id'', ''on_module_down'', ''on_check_loop'',
     ''on_check_reserves_event_loop'', ''on_check_recordings_event_loop'', ''on_recording_notice'',
     ''on_start_recording'', ''on_add_reserve_current_event'', ''on_add_reserve_event'',
     ''on_add_reserve_event_helper'', ''on_add_reserve_manual'', ''on_remove_reserve'',
     ''on_remove_reserve_by_index'', ''on_get_reserves'', ''on_stop_recording'',
     ''on_dump_reserves'']"

definition rec_request_module_up :: "client_call option" where
  "rec_request_module_up =
    Some (Sync (to_module (module_no ''rec_manager'') rec_sequences ''module_up'' No_msg))"

definition rec_request_module_down :: "client_call option" where
  "rec_request_module_down =
    Some (Async (to_module (module_no ''rec_manager'') rec_sequences ''module_down'' No_msg))"

definition rec_request_add_reserve_current_event :: "u8 \<Rightarrow> client_call option" where
  "rec_request_add_reserve_current_event g =
    Some (Async (to_module (module_no ''rec_manager'') rec_sequences
      ''add_reserve_current_event'' (Msg_u8 g)))"

definition rec_request_add_reserve_event :: "add_reserve_param option \<Rightarrow> client_call option" where
  "rec_request_add_reserve_event p =
    map_option (\<lambda>p. Async (to_module (module_no ''rec_manager'') rec_sequences
      ''add_reserve_event'' (Msg_add_reserve p))) p"

definition rec_request_add_reserve_event_helper :: "helper_param option \<Rightarrow> client_call option" where
  "rec_request_add_reserve_event_helper p =
    map_option (\<lambda>p. Async (to_module (module_no ''rec_manager'') rec_sequences
      ''add_reserve_event_helper'' (Msg_helper p))) p"

definition rec_request_add_reserve_manual :: "add_reserve_param option \<Rightarrow> client_call option" where
  "rec_request_add_reserve_manual p =
    map_option (\<lambda>p. Async (to_module (module_no ''rec_manager'') rec_sequences
      ''add_reserve_manual'' (Msg_add_reserve p))) p"

definition rec_request_remove_reserve :: "remove_reserve_param option \<Rightarrow> client_call option" where
  "rec_request_remove_reserve p =
    map_option (\<lambda>p. Async (to_module (module_no ''rec_manager'') rec_sequences
      ''remove_reserve'' (Msg_remove p))) p"

definition rec_request_remove_reserve_by_index :: "remove_reserve_param option \<Rightarrow> client_call option" where
  "rec_request_remove_reserve_by_index p =
    map_option (\<lambda>p. Async (to_module (module_no ''rec_manager'') rec_sequences
      ''remove_reserve_by_index'' (Msg_remove p))) p"

definition rec_request_get_reserves :: "int option \<Rightarrow> client_call option" where
  "rec_request_get_reserves p =
    map_option (\<lambda>p. Async (to_module (module_no ''rec_manager'') rec_sequences
      ''get_reserves'' (Msg_array p))) p"

definition rec_request_get_reserves_sync :: "int option \<Rightarrow> client_call option" where
  "rec_request_get_reserves_sync p =
    map_option (\<lambda>p. Sync (to_module (module_no ''rec_manager'') rec_sequences
      ''get_reserves'' (Msg_array p))) p"

definition rec_request_stop_recording :: "u8 \<Rightarrow> client_call option" where
  "rec_request_stop_recording g =
    Some (Async (to_module (module_no ''rec_manager'') rec_sequences ''stop_recording'' (Msg_u8 g)))"

definition rec_request_dump_reserves :: "int \<Rightarrow> client_call option" where
  "rec_request_dump_reserves t =
    Some (Async (to_module (module_no ''rec_manager'') rec_sequences ''dump_reserves'' (Msg_int t)))"

subsection \<open>Channel manager\<close>

definition cm_sequences :: "string list" where
  "cm_sequences =
    [''module_up'', ''module_down'', ''channel_scan'', ''get_physical_channel_by_service_id'',
     ''get_physical_channel_by_remote_control_key_id'', ''get_service_id_by_physical_channel'',
     ''get_channels'', ''get_original_network_name'', ''get_transport_stream_name'',
     ''get_service_name'', ''dump_scan_results'']"

definition cm_handlers :: "string list" where
  "cm_handlers =
    [''on_module_up'', ''on_module_down'', ''on_channel_scan'',
     ''on_get_physical_channel_by_service_id'',
     ''on_get_physical_channel_by_remote_control_key_id'',
     ''on_get_service_id_by_physical_channel'', ''on_get_channels'',
     ''on_get_original_network_name'', ''on_get_transport_stream_name'', ''on_get_service_name'',
     ''on_dump_channels'']"

definition cm_request_module_up :: "client_call option" where
  "cm_request_module_up =
    Some (Sync (to_module (module_no ''channel_manager'') cm_sequences ''module_up'' No_msg))"

definition cm_request_module_down :: "client_call option" where
  "cm_request_module_down =
    Some (Async (to_module (module_no ''channel_manager'') cm_sequences ''module_down'' No_msg))"

definition cm_request_channel_scan :: "client_call option" where
  "cm_request_channel_scan =
    Some (Async (to_module (module_no ''channel_manager'') cm_sequences ''channel_scan'' No_msg))"

definition cm_request_get_physical_channel_by_service_id :: "service_key option \<Rightarrow> client_call option" where
  "cm_request_get_physical_channel_by_service_id p =
    map_option (\<lambda>p. Async (to_module (module_no ''channel_manager'') cm_sequences
      ''get_physical_channel_by_service_id'' (Msg_service p))) p"

definition cm_request_get_physical_channel_by_remote_control_key_id :: "(u16 \<times> u16 \<times> u8) option \<Rightarrow> client_call option" where
  "cm_request_get_physical_channel_by_remote_control_key_id p =
    map_option (\<lambda>p. Async (to_module (module_no ''channel_manager'') cm_sequences
      ''get_physical_channel_by_remote_control_key_id'' (Msg_remote_key p))) p"

definition cm_request_get_service_id_by_physical_channel :: "(u16 \<times> int) \<Rightarrow> client_call option" where
  "cm_request_get_service_id_by_physical_channel p =
    Some (Async (to_module (module_no ''channel_manager'') cm_sequences
      ''get_service_id_by_physical_channel'' (Msg_physical (fst p) (snd p))))"

definition cm_request_get_channels :: "int option \<Rightarrow> client_call option" where
  "cm_request_get_channels p =
    map_option (\<lambda>p. Async (to_module (module_no ''channel_manager'') cm_sequences
      ''get_channels'' (Msg_array p))) p"

definition cm_request_get_channels_sync :: "int option \<Rightarrow> client_call option" where
  "cm_request_get_channels_sync p =
    map_option (\<lambda>p. Sync (to_module (module_no ''channel_manager'') cm_sequences
      ''get_channels'' (Msg_array p))) p"

definition cm_request_get_original_network_name :: "service_key option \<Rightarrow> client_call option" where
  "cm_request_get_original_network_name p =
    map_option (\<lambda>p. Async (to_module (module_no ''channel_manager'') cm_sequences
      ''get_original_network_name'' (Msg_service p))) p"

definition cm_request_get_original_network_name_sync :: "service_key option \<Rightarrow> client_call option" where
  "cm_request_get_original_network_name_sync p =
    map_option (\<lambda>p. Sync (to_module (module_no ''channel_manager'') cm_sequences
      ''get_original_network_name'' (Msg_service p))) p"

definition cm_request_get_transport_stream_name :: "service_key option \<Rightarrow> client_call option" where
  "cm_request_get_transport_stream_name p =
    map_option (\<lambda>p. Async (to_module (module_no ''channel_manager'') cm_sequences
      ''get_transport_stream_name'' (Msg_service p))) p"

definition cm_request_get_transport_stream_name_sync :: "service_key option \<Rightarrow> client_call option" where
  "cm_request_get_transport_stream_name_sync p =
    map_option (\<lambda>p. Sync (to_module (module_no ''channel_manager'') cm_sequences
      ''get_transport_stream_name'' (Msg_service p))) p"

definition cm_request_get_service_name :: "service_key option \<Rightarrow> client_call option" where
  "cm_request_get_service_name p =
    map_option (\<lambda>p. Async (to_module (module_no ''channel_manager'') cm_sequences
      ''get_service_name'' (Msg_service p))) p"

definition cm_request_get_service_name_sync :: "service_key option \<Rightarrow> client_call option" where
  "cm_request_get_service_name_sync p =
    map_option (\<lambda>p. Sync (to_module (module_no ''channel_manager'') cm_sequences
      ''get_service_name'' (Msg_service p))) p"

definition cm_request_dump_channels :: "client_call option" where
  "cm_request_dump_channels =
    Some (Async (to_module (module_no ''channel_manager'') cm_sequences ''dump_scan_results'' No_msg))"

subsection \<open>Event schedule manager\<close>

definition em_sequences :: "string list" where
  "em_sequences =
    [''module_up'', ''module_down'', ''reg_cache_schedule_state_notify'',
     ''unreg_cache_schedule_state_notify'', ''get_cache_schedule_state'', ''check_loop'',
     ''parser_notice'', ''exec_cache_schedule'', ''cache_schedule'',
     ''cache_schedule_force_current_service'', ''stop_cache_schedule'', ''get_event'',
     ''get_event__latest_dumped_schedule'', ''dump_event__latest_dumped_schedule'',
     ''get_events__keyword_search'', ''get_events__keyword_search_ex'', ''add_reserves'',
     ''dump_schedule_map'', ''dump_schedule'', ''dump_reserves'', ''dump_histories'']"

definition em_handlers :: "string list" where
  "em_handlers =
    [''on_module_up'', ''on_module_down'', ''on_register_cache_schedule_state_notify'',
     ''on_unregister_cache_schedule_state_notify'', ''on_get_cache_schedule_state'',
     ''on_check_loop'', ''on_parser_notice'', ''on_exec_cache_schedule'', ''on_cache_schedule'',
     ''on_cache_schedule_force_current_service'', ''on_stop_cache_schedule'', ''on_get_event'',
     ''on_get_event_latest_dumped_schedule'', ''on_dump_event_latest_dumped_schedule'',
     ''on_get_events_keyword_search'', ''on_get_events_keyword_search'', ''on_add_reserves'',
     ''on_dump_schedule_map'', ''on_dump_schedule'', ''on_dump_reserves'', ''on_dump_histories'']"

definition em_request_module_up :: "client_call option" where
  "em_request_module_up =
    Some (Sync (to_module (module_no ''event_schedule_manager'') em_sequences ''module_up'' No_msg))"

definition em_request_module_down :: "client_call option" where
  "em_request_module_down =
    Some (Async (to_module (module_no ''event_schedule_manager'') em_sequences ''module_down'' No_msg))"

definition em_request_register_cache_schedule_state_notify :: "client_call option" where
  "em_request_register_cache_schedule_state_notify =
    Some (Async (to_module (module_no ''event_schedule_manager'') em_sequences
      ''reg_cache_schedule_state_notify'' No_msg))"

definition em_request_unregister_cache_schedule_state_notify :: "int \<Rightarrow> client_call option" where
  "em_request_unregister_cache_schedule_state_notify i =
    Some (Async (to_module (module_no ''event_schedule_manager'') em_sequences
      ''unreg_cache_schedule_state_notify'' (Msg_int i)))"

definition em_request_get_cache_schedule_state :: "client_call option" where
  "em_request_get_cache_schedule_state =
    Some (Async (to_module (module_no ''event_schedule_manager'') em_sequences
      ''get_cache_schedule_state'' No_msg))"

definition em_request_get_cache_schedule_state_sync :: "client_call option" where
  "em_request_get_cache_schedule_state_sync =
    Some (Sync (to_module (module_no ''event_schedule_manager'') em_sequences
      ''get_cache_schedule_state'' No_msg))"

definition em_request_cache_schedule :: "client_call option" where
  "em_request_cache_schedule =
    Some (Async (to_module (module_no ''event_schedule_manager'') em_sequences ''cache_schedule'' No_msg))"

definition em_request_cache_schedule_force_current_service :: "u8 \<Rightarrow> client_call option" where
  "em_request_cache_schedule_force_current_service g =
    Some (Async (to_module (module_no ''event_schedule_manager'') em_sequences
      ''cache_schedule_force_current_service'' (Msg_u8 g)))"

definition em_request_stop_cache_schedule :: "client_call option" where
  "em_request_stop_cache_schedule =
    Some (Async (to_module (module_no ''event_schedule_manager'') em_sequences
      ''stop_cache_schedule'' No_msg))"

definition em_request_stop_cache_schedule_sync :: "client_call option" where
  "em_request_stop_cache_schedule_sync =
    Some (Sync (to_module (module_no ''event_schedule_manager'') em_sequences
      ''stop_cache_schedule'' No_msg))"

definition em_request_get_event :: "event_param option \<Rightarrow> client_call option" where
  "em_request_get_event p =
    map_option (\<lambda>p. Async (to_module (module_no ''event_schedule_manager'') em_sequences
      ''get_event'' (Msg_event p))) p"

definition em_request_get_event_sync :: "event_param option \<Rightarrow> client_call option" where
  "em_request_get_event_sync p =
    map_option (\<lambda>p. Sync (to_module (module_no ''event_schedule_manager'') em_sequences
      ''get_event'' (Msg_event p))) p"

definition em_request_get_event_latest_dumped_schedule :: "event_param option \<Rightarrow> client_call option" where
  "em_request_get_event_latest_dumped_schedule p =
    map_option (\<lambda>p. Async (to_module (module_no ''event_schedule_manager'') em_sequences
      ''get_event__latest_dumped_schedule'' (Msg_event p))) p"

definition em_request_get_event_latest_dumped_schedule_sync :: "event_param option \<Rightarrow> client_call option" where
  "em_request_get_event_latest_dumped_schedule_sync p =
    map_option (\<lambda>p. Sync (to_module (module_no ''event_schedule_manager'') em_sequences
      ''get_event__latest_dumped_schedule'' (Msg_event p))) p"

definition em_request_dump_event_latest_dumped_schedule :: "event_param option \<Rightarrow> client_call option" where
  "em_request_dump_event_latest_dumped_schedule p =
    map_option (\<lambda>p. Async (to_module (module_no ''event_schedule_manager'') em_sequences
      ''dump_event__latest_dumped_schedule'' (Msg_event p))) p"

definition em_request_get_events_keyword :: "event_param option \<Rightarrow> client_call option" where
  "em_request_get_events_keyword p =
    map_option (\<lambda>p. Async (to_module (module_no ''event_schedule_manager'') em_sequences
      ''get_events__keyword_search'' (Msg_event p))) p"

definition em_request_get_events_keyword_sync :: "event_param option \<Rightarrow> client_call option" where
  "em_request_get_events_keyword_sync p =
    map_option (\<lambda>p. Sync (to_module (module_no ''event_schedule_manager'') em_sequences
      ''get_events__keyword_search'' (Msg_event p))) p"

definition em_request_get_events_keyword_ex :: "event_param option \<Rightarrow> client_call option" where
  "em_request_get_events_keyword_ex p =
    map_option (\<lambda>p. Async (to_module (module_no ''event_schedule_manager'') em_sequences
      ''get_events__keyword_search_ex'' (Msg_event p))) p"

definition em_request_get_events_keyword_ex_sync :: "event_param option \<Rightarrow> client_call option" where
  "em_request_get_events_keyword_ex_sync p =
    map_option (\<lambda>p. Sync (to_module (module_no ''event_schedule_manager'') em_sequences
      ''get_events__keyword_search_ex'' (Msg_event p))) p"

definition em_request_dump_schedule_map :: "client_call option" where
  "em_request_dump_schedule_map =
    Some (Async (to_module (module_no ''event_schedule_manager'') em_sequences
      ''dump_schedule_map'' No_msg))"

definition em_request_dump_schedule :: "service_key option \<Rightarrow> client_call option" where
  "em_request_dump_schedule p =
    map_option (\<lambda>p. Async (to_module (module_no ''event_schedule_manager'') em_sequences
      ''dump_schedule'' (Msg_service p))) p"

definition em_request_dump_reserves :: "client_call option" where
  "em_request_dump_reserves =
    Some (Async (to_module (module_no ''event_schedule_manager'') em_sequences ''dump_reserves'' No_msg))"

definition em_request_dump_histories :: "client_call option" where
  "em_request_dump_histories =
    Some (Async (to_module (module_no ''event_schedule_manager'') em_sequences ''dump_histories'' No_msg))"

subsection \<open>Event search\<close>

definition es_sequences :: "string list" where
  "es_sequences =
    [''module_up'', ''module_down'', ''add_rec_reserve_keyword_search'',
     ''add_rec_reserve_keyword_search_ex'', ''dump_histories'', ''dump_histories_ex'']"

definition es_handlers :: "string list" where
  "es_handlers =
    [''on_module_up'', ''on_module_down'', ''on_add_rec_reserve_keyword_search'',
     ''on_add_rec_reserve_keyword_search'', ''on_dump_histories'', ''on_dump_histories'']"

definition es_request_module_up :: "client_call option" where
  "es_request_module_up =
    Some (Sync (to_module (module_no ''event_search'') es_sequences ''module_up'' No_msg))"

definition es_request_module_down :: "client_call option" where
  "es_request_module_down =
    Some (Async (to_module (module_no ''event_search'') es_sequences ''module_down'' No_msg))"

definition es_request_add_rec_reserve_keyword_search :: "client_call option" where
  "es_request_add_rec_reserve_keyword_search =
    Some (Async (to_module (module_no ''event_search'') es_sequences
      ''add_rec_reserve_keyword_search'' No_msg))"

definition es_request_add_rec_reserve_keyword_search_ex :: "client_call option" where
  "es_request_add_rec_reserve_keyword_search_ex =
    Some (Async (to_module (module_no ''event_search'') es_sequences
      ''add_rec_reserve_keyword_search_ex'' No_msg))"

definition es_request_dump_histories :: "client_call option" where
  "es_request_dump_histories =
    Some (Async (to_module (module_no ''event_search'') es_sequences ''dump_histories'' No_msg))"

definition es_request_dump_histories_ex :: "client_call option" where
  "es_request_dump_histories_ex =
    Some (Async (to_module (module_no ''event_search'') es_sequences ''dump_histories_ex'' No_msg))"

subsection \<open>Viewing manager\<close>

definition vm_sequences :: "string list" where
  "vm_sequences =
    [''module_up'', ''module_up_by_groupid'', ''module_down'', ''check_loop'',
     ''notice_by_stream_handler'', ''start_viewing_by_physical_channel'',
     ''start_viewing_by_service_id'', ''stop_viewing'', ''get_viewing'', ''set_option'',
     ''dump_viewing'', ''event_changed'']"

definition vm_handlers :: "string list" where
  "vm_handlers =
    [''on_module_up'', ''on_module_up_by_group_id'', ''on_module_down'', ''on_check_loop'',
     ''on_notice_by_stream_handler'', ''on_start_viewing'', ''on_start_viewing'',
     ''on_stop_viewing'', ''on_get_viewing'', ''on_set_option'', ''on_dump_viewing'',
     ''on_event_changed'']"

definition vm_request_module_up :: "client_call option" where
  "vm_request_module_up =
    Some (Sync (to_module (module_no ''viewing_manager'') vm_sequences ''module_up'' No_msg))"

definition vm_request_module_down :: "client_call option" where
  "vm_request_module_down =
    Some (Async (to_module (module_no ''viewing_manager'') vm_sequences ''module_down'' No_msg))"

definition vm_request_start_viewing_by_physical_channel :: "(u16 \<times> int) \<Rightarrow> bool \<Rightarrow> client_call option" where
  "vm_request_start_viewing_by_physical_channel p asy =
    Some (if asy then Async (to_module (module_no ''viewing_manager'') vm_sequences
      ''start_viewing_by_physical_channel'' (Msg_physical (fst p) (snd p)))
      else Sync (to_module (module_no ''viewing_manager'') vm_sequences
      ''start_viewing_by_physical_channel'' (Msg_physical (fst p) (snd p))))"

definition vm_request_start_viewing_by_service_id :: "service_key \<Rightarrow> bool \<Rightarrow> client_call option" where
  "vm_request_start_viewing_by_service_id p asy =
    Some (if asy then Async (to_module (module_no ''viewing_manager'') vm_sequences
      ''start_viewing_by_service_id'' (Msg_service p))
      else Sync (to_module (module_no ''viewing_manager'') vm_sequences
      ''start_viewing_by_service_id'' (Msg_service p)))"

definition vm_request_stop_viewing :: "u8 \<Rightarrow> bool \<Rightarrow> client_call option" where
  "vm_request_stop_viewing g asy =
    Some (if asy then Async (to_module (module_no ''viewing_manager'') vm_sequences
      ''stop_viewing'' (Msg_u8 g))
      else Sync (to_module (module_no ''viewing_manager'') vm_sequences ''stop_viewing'' (Msg_u8 g)))"

definition vm_request_set_option :: "(u8 \<times> int) \<Rightarrow> bool \<Rightarrow> client_call option" where
  "vm_request_set_option p asy =
    Some (if asy then Async (to_module (module_no ''viewing_manager'') vm_sequences
      ''set_option'' (Msg_option (fst p) (snd p)))
      else Sync (to_module (module_no ''viewing_manager'') vm_sequences
      ''set_option'' (Msg_option (fst p) (snd p))))"

section \<open>The registered modules\<close>

definition tt_handlers :: "string list" where
  "tt_handlers = [''on_module_up'', ''on_module_down'', ''on_tune'', ''on_force_kill'']"

definition cs_handlers :: "string list" where
  "cs_handlers = [''on_module_up'', ''on_module_down'', ''on_server_loop'']"

text \<open>The modules in the order they are registered; \<open>coseq\<close> calls the handler at the number of the
  sequence.\<close>

definition module_handlers :: "string list list" where
  "module_handlers = replicate 4 tt_handlers @ replicate 4 tc_handlers @ replicate 4 pm_handlers @
     [ts_handlers, rec_handlers, cm_handlers, em_handlers, es_handlers, vm_handlers, cs_handlers]"

definition target :: "nat \<Rightarrow> nat \<Rightarrow> (string \<times> string) option" where
  "target m i =
     (if m < length module_handlers \<and> i < length (module_handlers ! m)
      then Some (module_ids ! m, module_handlers ! m ! i) else None)"

definition reaches :: "client_call option \<Rightarrow> (string \<times> string) option" where
  "reaches call =
     (case call of None \<Rightarrow> None
      | Some (Sync c) \<Rightarrow> target (unat (call_module c)) (unat (call_sequence c))
      | Some (Async c) \<Rightarrow> target (unat (call_module c)) (unat (call_sequence c)))"

end
