(* ===== verification/Module_Commands.thy ===== *)
theory Module_Commands
  imports Client_If Command_Server Psisi_Manager
begin

text \<open>
  The commands of the modules (the \<open>*_commands.cpp\<close> files): the checks of the arguments, the requests
  to the modules, what is printed for the replies, and the tables. The modules behind the requests
  are the parameter \<open>world\<close>. \<open>mktime\<close> and the text of a time are parameters, too.
\<close>

section \<open>Sessions\<close>

text \<open>The modules, the printed texts, the static \<open>s_tuner_id\<close>, and what the calls of \<open>recv_data\<close> of
  an interactive command will get.\<close>

record 'w session =
  ss_world :: 'w
  ss_out :: "string list"
  ss_tuner :: u8
  ss_typed :: "recv_answer list list"

text \<open>A command returns, it is still waiting for input when there is no more, or it reads outside
  an array or a reply.\<close>

datatype 'w cmd_result = Finished "'w session" | Waiting "'w session" | Undefined

type_synonym 'w command = "'w world \<Rightarrow> string list \<Rightarrow> 'w session \<Rightarrow> 'w cmd_result"

definition say :: "string \<Rightarrow> 'w session \<Rightarrow> 'w session" where
  "say t st = st\<lparr>ss_out := ss_out st @ [t @ lf]\<rparr>"

definition ask :: "'w world \<Rightarrow> client_call option \<Rightarrow> 'w session \<Rightarrow> client_reply \<times> 'w session" where
  "ask world call st =
     (case issue world call (ss_world st) of (r, w) \<Rightarrow> (r, st\<lparr>ss_world := w\<rparr>))"

definition tell :: "'w world \<Rightarrow> client_call option \<Rightarrow> 'w session \<Rightarrow> 'w cmd_result" where
  "tell world call st = Finished (snd (ask world call st))"

text \<open>Commands without arguments only remark that they ignore them.\<close>

definition ignore_args :: "string list \<Rightarrow> 'w session \<Rightarrow> 'w session" where
  "ignore_args args st = (if args \<noteq> [] then say ''ignore arguments.'' st else st)"

definition invalid :: "string \<Rightarrow> 'w session \<Rightarrow> 'w cmd_result" where
  "invalid what st = Finished (say (''invalid arguments.'' @ what) st)"

section \<open>Arguments\<close>

text \<open>Identifiers are decimal or hexadecimal, cut down to 16 bits.\<close>

definition id_arg :: "string \<Rightarrow> u16 option" where
  "id_arg s =
     (if \<not> is_dec s then if \<not> is_hex s then None else Some (of_nat (strtol 16 (drop 2 s)))
      else Some (atoi_u16 s))"

definition with_id :: "string \<Rightarrow> string \<Rightarrow> (u16 \<Rightarrow> 'w cmd_result) \<Rightarrow> 'w session \<Rightarrow> 'w cmd_result" where
  "with_id what s k st =
     (case id_arg s of None \<Rightarrow> invalid ('' ('' @ what @ '')'') st | Some v \<Rightarrow> k v)"

text \<open>The regular expressions \<open>^[0-1]$\<close>, \<open>^[0-2]$\<close> and \<open>^[0-9]{14}$\<close>.\<close>

definition one_of :: "string \<Rightarrow> string \<Rightarrow> bool" where
  "one_of cs s \<longleftrightarrow> length s = 1 \<and> list_all (\<lambda>c. c \<in> set cs) s"

definition is_date :: "string \<Rightarrow> bool" where
  "is_date s \<longleftrightarrow> length s = 14 \<and> list_all is_digit s"

text \<open>\<open>dateString2epoch\<close>; \<open>mk\<close> is \<open>mktime\<close>, with whatever \<open>tm_isdst\<close> holds.\<close>

definition date_tm :: "string \<Rightarrow> tm" where
  "date_tm s =
     \<lparr>tm_year = atoi_int (take 4 s) - 1900, tm_mon = atoi_int (take 2 (drop 4 s)) - 1,
      tm_mday = atoi_int (take 2 (drop 6 s)), tm_hour = atoi_int (take 2 (drop 8 s)),
      tm_min = atoi_int (take 2 (drop 10 s)), tm_sec = atoi_int (take 2 (drop 12 s))\<rparr>"

definition dateString2epoch :: "(tm \<Rightarrow> int) \<Rightarrow> string \<Rightarrow> int" where
  "dateString2epoch mk s = (if \<not> is_date s then 0 else mk (date_tm s))"

section \<open>The recording manager\<close>

definition rec_cmd_add_reserve_current_event :: "'w command" where
  "rec_cmd_add_reserve_current_event world args st =
     (case args of
        [a] \<Rightarrow> if \<not> is_dec a then invalid '' (group_id)'' st
          else tell world (rec_request_add_reserve_current_event (atoi_u8 a)) st
      | _ \<Rightarrow> invalid '' (usage: ce {group_id})'' st)"

definition rec_cmd_add_reserve_manual :: "(tm \<Rightarrow> int) \<Rightarrow> 'w command" where
  "rec_cmd_add_reserve_manual mk world args st =
     (case args of
        [a0, a1, a2, a3, a4, a5] \<Rightarrow>
          with_id ''tsid'' a0 (\<lambda>ts. with_id ''org_nid'' a1 (\<lambda>nid. with_id ''svc_id'' a2 (\<lambda>svc.
            if \<not> is_date a3 then invalid '' (start_time)'' st
            else if \<not> is_date a4 then invalid '' (end_time)'' st
            else if dateString2epoch mk a3 = 0 then invalid '' (start_time:dateString2epoch)'' st
            else if dateString2epoch mk a4 = 0 then invalid '' (end_time:dateString2epoch)'' st
            else if dateString2epoch mk a3 \<ge> dateString2epoch mk a4
              then invalid '' (start_time >= end_time)'' st
            else if \<not> one_of ''012'' a5 then invalid '' (repeat)'' st
            else tell world (rec_request_add_reserve_manual (Some
              \<lparr>ap_tsid = ts, ap_nid = nid, ap_svc = svc, ap_evt = None,
               ap_start = Timespec (dateString2epoch mk a3) 0,
               ap_end = Timespec (dateString2epoch mk a4) 0,
               ap_repeat = [Rep_none, Rep_daily, Rep_weekly] ! nat (atoi_int a5)\<rparr>)) st) st) st) st
      | _ \<Rightarrow> invalid [] st)"

definition rec_cmd_add_reserve_event :: "'w command" where
  "rec_cmd_add_reserve_event world args st =
     (case args of
        [a0, a1, a2, a3, a4] \<Rightarrow>
          with_id ''tsid'' a0 (\<lambda>ts. with_id ''org_nid'' a1 (\<lambda>nid. with_id ''svc_id'' a2 (\<lambda>svc.
          with_id ''evt_id'' a3 (\<lambda>evt.
            if \<not> one_of ''01'' a4 then invalid '' (repeat)'' st
            else tell world (rec_request_add_reserve_event (Some
              \<lparr>ap_tsid = ts, ap_nid = nid, ap_svc = svc, ap_evt = Some evt,
               ap_start = etime_clear, ap_end = etime_clear,
               ap_repeat = (if atoi_int a4 = 0 then Rep_none else Rep_auto)\<rparr>)) st) st) st) st) st
      | _ \<Rightarrow> invalid [] st)"

definition rec_cmd_add_reserve_event_helper :: "'w command" where
  "rec_cmd_add_reserve_event_helper world args st =
     (case args of
        [a0, a1] \<Rightarrow>
          if \<not> is_dec a0 then invalid '' (index)'' st
          else if \<not> one_of ''01'' a1 then invalid '' (repeat)'' st
          else tell world (rec_request_add_reserve_event_helper (Some
            \<lparr>hp_index = uint (atoi_u16 a0),
             hp_repeat = (if atoi_int a1 = 0 then Rep_none else Rep_auto)\<rparr>)) st
      | _ \<Rightarrow> invalid [] st)"

definition rec_cmd_remove_reserve :: "'w command" where
  "rec_cmd_remove_reserve world args st =
     (case args of
        [a0, a1, a2, a3, a4] \<Rightarrow>
          with_id ''tsid'' a0 (\<lambda>ts. with_id ''org_nid'' a1 (\<lambda>nid. with_id ''svc_id'' a2 (\<lambda>svc.
          with_id ''evt_id'' a3 (\<lambda>evt.
            if \<not> one_of ''01'' a4 then invalid '' (consider repeatability)'' st
            else tell world (rec_request_remove_reserve (Some
              \<lparr>rp_arg = By_key (ts, nid, svc, evt), rp_consider_repeatability = (atoi_int a4 \<noteq> 0),
               rp_apply_result = True\<rparr>)) st) st) st) st) st
      | _ \<Rightarrow> invalid [] st)"

definition rec_cmd_remove_reserve_by_index :: "'w command" where
  "rec_cmd_remove_reserve_by_index world args st =
     (case args of
        [a0, a1] \<Rightarrow>
          if \<not> is_dec a0 then invalid '' (index)'' st
          else if \<not> one_of ''01'' a1 then invalid '' (consider repeatability)'' st
          else tell world (rec_request_remove_reserve_by_index (Some
            \<lparr>rp_arg = By_index (atoi_int a0), rp_consider_repeatability = (atoi_int a1 \<noteq> 0),
             rp_apply_result = True\<rparr>)) st
      | _ \<Rightarrow> invalid [] st)"

text \<open>The identifiers of a reservation or an event in the lists that are printed.\<close>

definition ids_line :: "nat \<Rightarrow> event_key \<Rightarrow> string" where
  "ids_line i key =
     (case key of (ts, nid, svc, evt) \<Rightarrow>
        dec (int i) @ '': tsid:[0x'' @ hex4 ts @ ''] org_nid:[0x'' @ hex4 nid @ ''] svcid:[0x'' @ hex4 svc
          @ ''] evtid:[0x'' @ hex4 evt @ '']'')"

definition print_reserve :: "(timespec \<Rightarrow> string) \<Rightarrow> nat \<times> reserve \<Rightarrow> 'w session \<Rightarrow> 'w session" where
  "print_reserve show_time ir st =
     (let (i, r) = ir in
      say (''    is_event_type:['' @ dec (if is_event_type r then 1 else 0) @ ''] repeatability:[''
          @ dec (case rsv_repeat r of Rep_none \<Rightarrow> 0 | Rep_daily \<Rightarrow> 1 | Rep_weekly \<Rightarrow> 2 | Rep_auto \<Rightarrow> 3) @ '']'')
        (say (''    ['' @ show_time (start_time r) @ '' - '' @ show_time (end_time r) @ '']['' @ service_name r
            @ '']['' @ title_name r @ '']'')
          (say (ids_line i (key_of r)) st)))"

definition rec_cmd_get_reserves :: "(timespec \<Rightarrow> string) \<Rightarrow> 'w command" where
  "rec_cmd_get_reserves show_time world args st =
     (let (r, st) = ask world (rec_request_get_reserves_sync (Some 50)) (ignore_args args st) in
      if get_result r = R_success then
        (case get_message r of
           C_reserves rs \<Rightarrow>
             Finished (fold (print_reserve show_time) (List.enumerate 0 rs)
               (say (''num of reserves is ['' @ dec (int (length rs)) @ '']'')
                 (say ''syncGetReserves success'' st)))
         | _ \<Rightarrow> Undefined)
      else Finished (say ''syncGetReserves error'' st))"

definition rec_cmd_stop :: "'w command" where
  "rec_cmd_stop world args st =
     (case args of
        [a] \<Rightarrow> if \<not> is_dec a then invalid '' (group_id)'' st
          else tell world (rec_request_stop_recording (atoi_u8 a)) st
      | _ \<Rightarrow> invalid '' (usage: stop {group_id})'' st)"

definition rec_cmd_dump_reserves :: "'w command" where
  "rec_cmd_dump_reserves world args st = tell world (rec_request_dump_reserves 0) (ignore_args args st)"

definition rec_cmd_dump_results :: "'w command" where
  "rec_cmd_dump_results world args st = tell world (rec_request_dump_reserves 1) (ignore_args args st)"

definition rec_cmd_dump_recording :: "'w command" where
  "rec_cmd_dump_recording world args st = tell world (rec_request_dump_reserves 2) (ignore_args args st)"

section \<open>Tuner control and tuner service\<close>

text \<open>The result of a request is printed in one of two texts.\<close>

definition said_result :: "client_reply \<times> 'w session \<Rightarrow> string \<Rightarrow> string \<Rightarrow> 'w session" where
  "said_result rs good bad =
     (if get_result (fst rs) = R_success then say good (snd rs) else say bad (snd rs))"

definition tc_cmd_tune :: "'w command" where
  "tc_cmd_tune world args st =
     (let usage = '' (usage: t {frequesncy[kHz]} {tuner id})'' in
      case args of
        [a0, a1] \<Rightarrow>
          if \<not> is_dec a0 then invalid usage st
          else if \<not> is_dec a1 then invalid usage st
          else
            let freq = c_atoi a0; i = atoi_u8 a1;
                st = say (''freq=['' @ dec (sint freq) @ '']kHz id=['' @ dec (uint i) @ '']'') st
            in Finished (said_result (ask world (tc_request_tune_sync i freq) st) ''tune success'' ''tune error'')
      | _ \<Rightarrow> invalid usage st)"

definition tc_cmd_ch_tune :: "'w command" where
  "tc_cmd_ch_tune world args st =
     (let usage = '' (usage: ch {physical channel} {tuner id})'' in
      case args of
        [a0, a1] \<Rightarrow>
          if \<not> is_dec a0 then invalid usage st
          else if \<not> is_dec a1 then invalid usage st
          else
            let ch = atoi_u16 a0 in
            if unat ch < UHF_PHYSICAL_CHANNEL_MIN \<or> unat ch > UHF_PHYSICAL_CHANNEL_MAX
            then Finished (say ''out of range. (physical channel is 13~62)'' st)
            else
              let i = atoi_u8 a1;
                  st = say (''ch=['' @ dec (uint ch) @ ''] id=['' @ dec (uint i) @ '']'') st;
                  freq = physical_ch2freq_khz ch;
                  st = say (''freq=['' @ dec (sint freq) @ '']kHz'') st
              in Finished (said_result (ask world (tc_request_tune_sync i freq) st) ''tune success'' ''tune error'')
      | _ \<Rightarrow> invalid usage st)"

definition tc_cmd_tune_stop :: "'w command" where
  "tc_cmd_tune_stop world args st =
     (let usage = '' (usage: stop {tuner id})'' in
      case args of
        [a] \<Rightarrow>
          if \<not> is_dec a then invalid usage st
          else
            let i = atoi_u8 a; st = say (''id=['' @ dec (uint i) @ '']'') st
            in Finished (said_result (ask world (tc_request_tune_stop_sync i) st)
              ''tune stop success'' ''tune stop error'')
      | _ \<Rightarrow> invalid usage st)"

text \<open>\<open>get_state\<close> asks the tuners one after the other; the first error ends it.\<close>

definition tuner_state_text :: "nat \<Rightarrow> string option" where
  "tuner_state_text n =
     (if n < 4 then Some (''  arec::tuner_control::client_iface::tuner_state::''
        @ ([''tuning_begin'', ''tuning_success'', ''tuning_error_stop'', ''tune_stop''] ! n)) else None)"

fun print_states :: "'w world \<Rightarrow> u8 list \<Rightarrow> 'w session \<Rightarrow> 'w cmd_result" where
  "print_states world [] st = Finished st"
| "print_states world (i # is') st =
     (let (r, st) = ask world (tc_request_get_state_sync i) (say (''tuner id=['' @ dec (uint i) @ '']'') st) in
      if get_result r \<noteq> R_success then Finished (say ''  get state error'' st)
      else
        let st = say ''  get state success'' st in
        (case get_message r of
           C_state n \<Rightarrow>
             print_states world is' (case tuner_state_text n of None \<Rightarrow> st | Some t \<Rightarrow> say t st)
         | _ \<Rightarrow> Undefined))"

definition tc_cmd_get_state :: "'w command" where
  "tc_cmd_get_state world args st = print_states world [0, 1, 2, 3] (ignore_args args st)"

definition ts_cmd_open :: "'w command" where
  "ts_cmd_open world args st =
     (let (r, st) = ask world ts_request_open_sync (ignore_args args st) in
      if get_result r = R_success then
        (case get_message r of
           C_u8 t \<Rightarrow> Finished (say (''open: tuner_id=['' @ dec (uint t) @ '']'') st)
         | _ \<Rightarrow> Undefined)
      else Finished (say ''open: failure.'' st))"

definition ts_cmd_close :: "'w command" where
  "ts_cmd_close world args st =
     (case args of
        [a] \<Rightarrow>
          if \<not> is_dec a then invalid '' (tuner_id)'' st
          else Finished (said_result (ask world (ts_request_close_sync (atoi_u8 a)) st)
            ''close: success.'' ''close: error.'')
      | _ \<Rightarrow> invalid '' (usage: cl {tuner_id})'' st)"

definition ts_cmd_tune :: "'w command" where
  "ts_cmd_tune world args st =
     (case args of
        [a0, a1] \<Rightarrow>
          if \<not> is_dec a0 then invalid '' (physical channel)'' st
          else if \<not> is_dec a1 then invalid '' (tuner id)'' st
          else tell world (ts_request_tune_with_retry (Some
            \<lparr>tp_physical_channel = atoi_u16 a0, tp_tuner_id = atoi_u8 a1\<rparr>)) st
      | _ \<Rightarrow> invalid '' (usage: t {physical channel} {tuner id})'' st)"

definition ts_cmd_tune_stop :: "'w command" where
  "ts_cmd_tune_stop world args st =
     (case args of
        [a] \<Rightarrow>
          if \<not> is_dec a then invalid '' (tuner_id)'' st
          else Finished (said_result (ask world (ts_request_tune_stop_sync (atoi_u8 a)) st)
            ''tune stop success'' ''tune stop error'')
      | _ \<Rightarrow> invalid '' (usage: stop {tuner_id})'' st)"

definition ts_cmd_dump :: "'w command" where
  "ts_cmd_dump world args st = tell world ts_request_dump_allocates (ignore_args args st)"

section \<open>PSI/SI manager\<close>

definition target_lines :: "'w session \<Rightarrow> 'w session" where
  "target_lines st =
     say ''--------------------'' (say (''target tuner id=['' @ dec (uint (ss_tuner st)) @ '']'')
       (say ''--------------------'' st))"

definition pm_cmd_set_target :: "'w command" where
  "pm_cmd_set_target world args st =
     (let usage = '' (usage: st {tuner id})'' in
      case args of
        [a] \<Rightarrow>
          if \<not> is_dec a then invalid usage st
          else
            let i = atoi_u8 a;
                st = (if i \<ge> GROUP_MAX
                  then (say (''invalid id:['' @ dec (uint i) @ '']  -> force tuner id=0'') st)\<lparr>ss_tuner := 0\<rparr>
                  else st\<lparr>ss_tuner := i\<rparr>)
            in Finished (target_lines st)
      | _ \<Rightarrow> invalid usage st)"

text \<open>The four commands for the caches and the thirteen for the tables.\<close>

definition pm_cmd_dump_caches :: "int \<Rightarrow> 'w command" where
  "pm_cmd_dump_caches t world args st =
     (let st = target_lines (ignore_args args st)
      in tell world (pm_request_dump_caches (ss_tuner st) t) st)"

definition pm_cmd_dump_table :: "string \<Rightarrow> 'w command" where
  "pm_cmd_dump_table t world args st =
     (let st = target_lines (ignore_args args st)
      in tell world (pm_request_dump_tables (ss_tuner st) (position t
        [''PAT'', ''PMT'', ''EIT_H'', ''EIT_M'', ''EIT_L'', ''NIT'', ''SDT'', ''RST'', ''BIT'', ''CAT'', ''CDT'',
         ''EIT_H_PF'', ''EIT_H_PF_simple'', ''EIT_H_SCHED'', ''EIT_H_SCHED_event'', ''EIT_H_SCHED_simple''])) st)"

section \<open>Event search and viewing\<close>

definition es_cmd_add_rec_reserve_keyword_search :: "'w command" where
  "es_cmd_add_rec_reserve_keyword_search world args st =
     tell world es_request_add_rec_reserve_keyword_search (ignore_args args st)"

definition es_cmd_add_rec_reserve_keyword_search_ex :: "'w command" where
  "es_cmd_add_rec_reserve_keyword_search_ex world args st =
     tell world es_request_add_rec_reserve_keyword_search_ex (ignore_args args st)"

definition es_cmd_dump_histories :: "'w command" where
  "es_cmd_dump_histories world args st = tell world es_request_dump_histories (ignore_args args st)"

definition es_cmd_dump_histories_ex :: "'w command" where
  "es_cmd_dump_histories_ex world args st = tell world es_request_dump_histories_ex (ignore_args args st)"

definition view_started :: "client_reply \<times> 'w session \<Rightarrow> 'w cmd_result" where
  "view_started rs =
     (let (r, st) = rs in
      if get_result r = R_success then
        (case get_message r of
           C_u8 g \<Rightarrow> Finished (say (''success -> group '' @ dec (uint g)) st)
         | _ \<Rightarrow> Undefined)
      else Finished st)"

definition vm_cmd_start_by_phy_ch :: "'w command" where
  "vm_cmd_start_by_phy_ch world args st =
     (case args of
        [a0, a1] \<Rightarrow>
          if \<not> is_dec a0 then invalid '' (physical_channel)'' st
          else if \<not> is_dec a1 then invalid '' (service_idx)'' st
          else
            let st = say (''service_idx '' @ a1) (say (''physical_channel '' @ a0) st)
            in view_started (ask world
              (vm_request_start_viewing_by_physical_channel (atoi_u16 a0, atoi_int a1) False) st)
      | _ \<Rightarrow> invalid '' (usage: ch {physical_channel, service_idx})'' st)"

definition vm_cmd_start_by_svc_id :: "'w command" where
  "vm_cmd_start_by_svc_id world args st =
     (case args of
        [a0, a1, a2] \<Rightarrow>
          with_id ''tsid'' a0 (\<lambda>ts. with_id ''org_nid'' a1 (\<lambda>nid. with_id ''svc_id'' a2 (\<lambda>svc.
            let st = say (''svcid '' @ a2) (say (''org_nid '' @ a1) (say (''tsid '' @ a0) st))
            in view_started (ask world (vm_request_start_viewing_by_service_id (ts, nid, svc) False) st)) st) st) st
      | _ \<Rightarrow> invalid '' (usage: svc {tsid} {org_nid} {svcid})'' st)"

definition vm_cmd_stop :: "'w command" where
  "vm_cmd_stop world args st =
     (case args of
        [a] \<Rightarrow> if \<not> is_dec a then invalid '' (group_id)'' st
          else tell world (vm_request_stop_viewing (atoi_u8 a) True) st
      | _ \<Rightarrow> invalid '' (usage: stop {group_id})'' st)"

definition vm_cmd_option :: "'w command" where
  "vm_cmd_option world args st =
     (case args of
        [a0, a1] \<Rightarrow>
          if \<not> is_dec a0 then invalid '' (group_id)'' st
          else if \<not> is_dec a1 then invalid '' (auto_stop_grace_period_sec)'' st
          else tell world (vm_request_set_option (atoi_u8 a0, atoi_int a1) True) st
      | _ \<Rightarrow> invalid '' (usage: opt {group_id} {auto_stop_grace_period_sec})'' st)"

definition vm_cmd_dump :: "'w command" where
  "vm_cmd_dump world args st =
     tell world (Some (Async (to_module (module_no ''viewing_manager'') vm_sequences ''dump_viewing'' No_msg)))
       (ignore_args args st)"

section \<open>Interactive selection\<close>

definition prompt :: "string \<Rightarrow> 'w session \<Rightarrow> 'w session" where
  "prompt t st = st\<lparr>ss_out := ss_out st @ [t]\<rparr>"

text \<open>The loop that waits for a number below \<open>num\<close> or for a \<open>q\<close>. The buffer has 32 bytes; when a
  line fills all of them there is no NUL and the text is read behind the buffer.\<close>

datatype selection = Sel_quit | Sel_number int | Sel_waiting | Sel_outside

fun select_loop :: "string \<Rightarrow> int \<Rightarrow> recv_answer list list \<Rightarrow> 'w session \<Rightarrow> selection \<times> 'w session" where
  "select_loop what num [] st =
     (Sel_waiting, (prompt (''select '' @ what @ ''. # '') st)\<lparr>ss_typed := []\<rparr>)"
| "select_loop what num (as # rest) st =
     (let st = prompt (''select '' @ what @ ''. # '') st in
      case recv_data as 32 of
        None \<Rightarrow> (Sel_waiting, st\<lparr>ss_typed := rest\<rparr>)
      | Some (r, bs) \<Rightarrow>
          if r \<le> 0 then select_loop what num rest st
          else (case c_string (bs @ replicate (32 - length bs) (CHR 0x00)) of
             None \<Rightarrow> (Sel_outside, st\<lparr>ss_typed := rest\<rparr>)
           | Some s \<Rightarrow>
               let s = delete_tail_sp (delete_head_sp (delete_lf s)) in
               if s = ''q'' then (Sel_quit, st\<lparr>ss_typed := rest\<rparr>)
               else if \<not> is_dec s then select_loop what num rest st
               else if atoi_int s < num then (Sel_number (atoi_int s), st\<lparr>ss_typed := rest\<rparr>)
               else select_loop what num rest st))"

text \<open>A list of names, each one asked for; \<open>None\<close> reads a reply that is no text.\<close>

fun list_names :: "'w world \<Rightarrow> (nat \<times> client_call option) list \<Rightarrow> 'w session \<Rightarrow> 'w session option" where
  "list_names world [] st = Some st"
| "list_names world ((i, call) # cs) st =
     (let (r, st) = ask world call st in
      if get_result r = R_error then list_names world cs st
      else (case get_message r of
          C_text t \<Rightarrow> list_names world cs (say (''  '' @ dec2 (int i) @ '': ['' @ t @ '']'') st)
        | _ \<Rightarrow> None))"

definition quit_line :: string where
  "quit_line = ''  '' @ [CHR 0x27] @ ''q'' @ [CHR 0x27] @ '': exit''"

definition zero_channel_t :: channel_t where
  "zero_channel_t = \<lparr>ct_physical_channel = 0, ct_tsid = 0, ct_nid = 0, ct_remote_key = 0,
     ct_service_ids = replicate 10 0, ct_service_num = 0\<rparr>"

text \<open>The selection of a transport stream and of one of its services. The array holds 20 channels,
  of which \<open>cs\<close> are filled.\<close>

datatype 'w choice = Picked channel_t int "'w session" | Quit "'w session" | Pick_waiting "'w session" | Pick_outside

definition pick_service :: "'w world \<Rightarrow> channel_t list \<Rightarrow> 'w session \<Rightarrow> 'w choice" where
  "pick_service world cs st =
     (let chs = cs @ replicate (20 - length cs) zero_channel_t in
      case list_names world (map (\<lambda>(i, c). (i, cm_request_get_transport_stream_name_sync
          (Some (ct_tsid c, ct_nid c, 0)))) (List.enumerate 0 chs)) st of
        None \<Rightarrow> Pick_outside
      | Some st \<Rightarrow>
          let st = say quit_line st in
          (case select_loop ''channel'' (int (length cs)) (ss_typed st) st of
             (Sel_quit, st) \<Rightarrow> Quit st
           | (Sel_waiting, st) \<Rightarrow> Pick_waiting st
           | (Sel_outside, st) \<Rightarrow> Pick_outside
           | (Sel_number n, st) \<Rightarrow>
               if n < 0 then Pick_outside
               else
                 let c = chs ! nat n in
                 (case list_names world (map (\<lambda>i. (i, cm_request_get_service_name_sync
                     (Some (ct_tsid c, ct_nid c, ct_service_ids c ! i)))) [0..<nat (ct_service_num c)]) st of
                    None \<Rightarrow> Pick_outside
                  | Some st \<Rightarrow>
                      let st = say quit_line st in
                      (case select_loop ''service'' (ct_service_num c) (ss_typed st) st of
                         (Sel_quit, st) \<Rightarrow> Quit st
                       | (Sel_waiting, st) \<Rightarrow> Pick_waiting st
                       | (Sel_outside, st) \<Rightarrow> Pick_outside
                       | (Sel_number k, st) \<Rightarrow> if k < 0 then Pick_outside else Picked c k st))))"

section \<open>Channel manager\<close>

definition cm_cmd_scan :: "'w command" where
  "cm_cmd_scan world args st = tell world cm_request_channel_scan (ignore_args args st)"

definition cm_cmd_tune_interactive :: "'w command" where
  "cm_cmd_tune_interactive world args st =
     (let (r, st) = ask world ts_request_open_sync (ignore_args args st) in
      if get_result r \<noteq> R_success then Finished (say ''open: failure.'' st)
      else (case get_message r of
          C_u8 g \<Rightarrow>
            let st = say (''open: group_id=['' @ dec (uint g) @ '']'') st;
                (r, st) = ask world (cm_request_get_channels_sync (Some 20)) st in
            if get_result r = R_error then Finished (say ''request_get_channels_sync is failure.'' st)
            else (case get_message r of
                C_channels cs \<Rightarrow>
                  let st = say (''request_get_channels_sync ch_num:['' @ dec (int (length cs)) @ '']'') st in
                  if length cs = 0 then Finished (say ''request_get_channels_sync is 0'' st)
                  else (case pick_service world cs st of
                      Quit st \<Rightarrow> tell world (ts_request_close_sync g) st
                    | Pick_waiting st \<Rightarrow> Waiting st
                    | Pick_outside \<Rightarrow> Undefined
                    | Picked c k st \<Rightarrow> tell world (ts_request_tune (Some
                        \<lparr>tp_physical_channel = ct_physical_channel c, tp_tuner_id = g\<rparr>)) st)
              | _ \<Rightarrow> Undefined)
        | _ \<Rightarrow> Undefined))"

definition cm_cmd_tune_stop :: "'w command" where
  "cm_cmd_tune_stop world args st =
     (case args of
        [a] \<Rightarrow>
          if \<not> is_dec a then invalid '' (group_id)'' st
          else
            let g = atoi_u8 a;
                st = said_result (ask world (ts_request_tune_stop_sync g) st) ''tune stop success'' ''tune stop error''
            in Finished (said_result (ask world (ts_request_close_sync g) st) ''close success'' ''close error'')
      | _ \<Rightarrow> invalid '' (usage: stop {group_id})'' st)"

definition cm_cmd_dump_channels :: "'w command" where
  "cm_cmd_dump_channels world args st = tell world cm_request_dump_channels (ignore_args args st)"

section \<open>Event schedule manager\<close>

definition em_cmd_cache_schedule :: "'w command" where
  "em_cmd_cache_schedule world args st = tell world em_request_cache_schedule (ignore_args args st)"

definition em_cmd_cache_schedule_force_current_service :: "'w command" where
  "em_cmd_cache_schedule_force_current_service world args st =
     (case args of
        [a] \<Rightarrow> if \<not> is_dec a then invalid '' (group_id)'' st
          else tell world (em_request_cache_schedule_force_current_service (atoi_u8 a)) st
      | _ \<Rightarrow> invalid '' (usage: csc {group_id})'' st)"

definition em_cmd_stop_cache_schedule :: "'w command" where
  "em_cmd_stop_cache_schedule world args st =
     Finished (said_result (ask world em_request_stop_cache_schedule_sync (ignore_args args st))
       ''sync_stop_cache_schedule is success.'' ''sync_stop_cache_schedule is failure.'')"

definition em_cmd_dump_schedule_map :: "'w command" where
  "em_cmd_dump_schedule_map world args st = tell world em_request_dump_schedule_map (ignore_args args st)"

definition em_cmd_dump_schedule :: "'w command" where
  "em_cmd_dump_schedule world args st =
     (case args of
        [a0, a1, a2] \<Rightarrow>
          with_id ''tsid'' a0 (\<lambda>ts. with_id ''org_nid'' a1 (\<lambda>nid. with_id ''svc_id'' a2 (\<lambda>svc.
            tell world (em_request_dump_schedule (Some (ts, nid, svc))) st) st) st) st
      | _ \<Rightarrow> invalid [] st)"

definition em_cmd_dump_schedule_interactive :: "'w command" where
  "em_cmd_dump_schedule_interactive world args st =
     (let (r, st) = ask world (cm_request_get_channels_sync (Some 20)) (ignore_args args st) in
      if get_result r = R_error then Finished (say ''syncGetChannels is failure.'' st)
      else (case get_message r of
          C_channels cs \<Rightarrow>
            let st = say (''syncGetChannels ch_num:['' @ dec (int (length cs)) @ '']'') st in
            if length cs = 0 then Finished (say ''syncGetChannels is 0'' st)
            else (case pick_service world cs st of
                Quit st \<Rightarrow> Finished st
              | Pick_waiting st \<Rightarrow> Waiting st
              | Pick_outside \<Rightarrow> Undefined
              | Picked c k st \<Rightarrow> tell world (em_request_dump_schedule (Some
                  (ct_tsid c, ct_nid c, ct_service_ids c ! nat k))) st)
        | _ \<Rightarrow> Undefined))"

definition em_cmd_dump_event_detail :: "'w command" where
  "em_cmd_dump_event_detail world args st =
     (case args of
        [a] \<Rightarrow> if \<not> is_dec a then invalid '' (index)'' st
          else tell world (em_request_dump_event_latest_dumped_schedule (Some
            \<lparr>ep_arg = By_index (uint (atoi_u16 a)), ep_array_max = 0\<rparr>)) st
      | _ \<Rightarrow> invalid [] st)"

definition print_event :: "(timespec \<Rightarrow> string) \<Rightarrow> nat \<times> event_reply \<Rightarrow> 'w session \<Rightarrow> 'w session" where
  "print_event show_time ie st =
     (let (i, e) = ie in
      say (''    ['' @ show_time (er_start e) @ '' - '' @ show_time (er_end e) @ '']['' @ er_name e @ '']'')
        (say (ids_line i (er_tsid e, er_nid e, er_svc e, er_event_id e)) st))"

text \<open>\<open>grep\<close> and \<open>grepx\<close> differ in the request and in the name they print.\<close>

definition print_search :: "(timespec \<Rightarrow> string) \<Rightarrow> string \<Rightarrow> client_reply \<times> 'w session \<Rightarrow> 'w cmd_result" where
  "print_search show_time what rs =
     (let (r, st) = rs in
      if get_result r = R_success then
        (case get_message r of
           C_events es \<Rightarrow>
             Finished (fold (print_event show_time) (List.enumerate 0 es)
               (say (''num of searches is ['' @ dec (int (length es)) @ '']'')
                 (say (what @ '' success'') st)))
         | _ \<Rightarrow> Undefined)
      else Finished (say (what @ '' error'') st))"

definition em_cmd_get_events_keyword_search :: "(timespec \<Rightarrow> string) \<Rightarrow> 'w command" where
  "em_cmd_get_events_keyword_search show_time world args st =
     (case args of
        [a] \<Rightarrow> print_search show_time ''sync_get_events_keyword'' (ask world
          (em_request_get_events_keyword_sync (Some \<lparr>ep_arg = By_keyword a, ep_array_max = 50\<rparr>)) st)
      | _ \<Rightarrow> invalid [] st)"

definition em_cmd_get_events_keyword_search_ex :: "(timespec \<Rightarrow> string) \<Rightarrow> 'w command" where
  "em_cmd_get_events_keyword_search_ex show_time world args st =
     (case args of
        [a] \<Rightarrow> print_search show_time ''sync_get_events_keyword_ex'' (ask world
          (em_request_get_events_keyword_ex_sync (Some \<lparr>ep_arg = By_keyword a, ep_array_max = 50\<rparr>)) st)
      | _ \<Rightarrow> invalid [] st)"

definition em_cmd_dump_reserves :: "'w command" where
  "em_cmd_dump_reserves world args st = tell world em_request_dump_reserves (ignore_args args st)"

definition em_cmd_dump_histories :: "'w command" where
  "em_cmd_dump_histories world args st = tell world em_request_dump_histories (ignore_args args st)"

end
