(* ===== verification/Command_Run.thy ===== *)
theory Command_Run
  imports Module_Commands Event_Search Tuner_Service
begin

text \<open>
  The tables of the modules' commands, the call of a command from the command server, and the
  modules the commands act on: the tuner service, the channel manager, the schedule manager
  and the recording manager, behind the dispatch of the calls. The requests whose handlers
  depend on other devices, or only write to the log, are a parameter.
\<close>

section \<open>Tables\<close>

definition cmd_entry :: "string \<Rightarrow> string \<Rightarrow> 'w command \<Rightarrow> (system_command + 'w command) command_info" where
  "cmd_entry c d cb = \<lparr>ci_command = c, ci_desc = d, ci_cb = Some (Inr cb), ci_next = None\<rparr>"

definition tab :: "nat \<Rightarrow> string" where "tab n = replicate n (CHR '' '')"

definition g_tuner_control_commands :: "(system_command + 'w command) command_info list" where
  "g_tuner_control_commands =
    [cmd_entry ''t'' ''tune by frequency (usage: t {frequesncy[kHz]} {tuner id})'' tc_cmd_tune,
     cmd_entry ''ch'' ''tune by physical channel (usage: ch {physical channel} {tuner id})'' tc_cmd_ch_tune,
     cmd_entry ''stop'' ''tune stop (usage: stop {tuner id})'' tc_cmd_tune_stop,
     cmd_entry ''s'' ''get tuner state'' tc_cmd_get_state]"

definition g_tuner_service_commands :: "(system_command + 'w command) command_info list" where
  "g_tuner_service_commands =
    [cmd_entry ''op'' ''open tuner resource'' ts_cmd_open,
     cmd_entry ''cl'' ''close tuner resource (usage: cl {tuner_id})'' ts_cmd_close,
     cmd_entry ''t'' ''tune by physical channel (usage: t {physical channel} {tuner id})'' ts_cmd_tune,
     cmd_entry ''stop'' ''tune stop (usage: stop {tuner_id})'' ts_cmd_tune_stop,
     cmd_entry ''d'' ''dump tuner resources'' ts_cmd_dump]"

definition g_rec_manager_commands :: "(tm \<Rightarrow> int) \<Rightarrow> (timespec \<Rightarrow> string) \<Rightarrow> (system_command + 'w command) command_info list" where
  "g_rec_manager_commands mk show_time =
    [cmd_entry ''ce'' ''add reserve - CurrentEvent (usage: ce {group_id})'' rec_cmd_add_reserve_current_event,
     cmd_entry ''e'' (''add reserve - event'' @ lf
      @ tab 32 @ ''(usage: e {tsid} {org_nid} {svcid} {evtid} {repeat})'' @ lf
      @ tab 43 @ ''- repeat is 0 (none), 1 (auto)'') rec_cmd_add_reserve_event,
     cmd_entry ''eh'' (''add reserve - event (helper)'' @ lf
      @ tab 32 @ ''(usage: eh {index} {repeat})'' @ lf
      @ tab 43 @ ''- repeat is 0 (none), 1 (auto)'') rec_cmd_add_reserve_event_helper,
     cmd_entry ''m'' (''add reserve - Manual'' @ lf
      @ tab 32 @ ''(usage: m {tsid} {org_nid} {svcid} {start_time} {end_time} {repeat})'' @ lf
      @ tab 43 @ ''- start_time, end_time format is '' @ [CHR 0x22]
      @ ''yyyyMMddHHmmss'' @ [CHR 0x22] @ lf
      @ tab 43 @ ''- repeat is 0 (none), 1 (daily), 2 (weekly)'') (rec_cmd_add_reserve_manual mk),
     cmd_entry ''r'' (''remove reserve (usage: r {tsid} {org_nid} {svcid} {evtid} {consider repeatability})'' @ lf
      @ tab 43 @ ''- consider repeatability is 0 (false), 1 (true)'') rec_cmd_remove_reserve,
     cmd_entry ''rx'' (''remove reserve by index (usage: rx {index} {consider repeatability})'' @ lf
      @ tab 43 @ ''- consider repeatability is 0 (false), 1 (true)'') rec_cmd_remove_reserve_by_index,
     cmd_entry ''g'' ''get reserves'' (rec_cmd_get_reserves show_time),
     cmd_entry ''stop'' ''force stop recording (usage: stop {group_id})'' rec_cmd_stop,
     cmd_entry ''dr'' ''dump reserves'' rec_cmd_dump_reserves,
     cmd_entry ''drl'' ''dump results'' rec_cmd_dump_results,
     cmd_entry ''drec'' ''dump recording'' rec_cmd_dump_recording]"

definition g_channel_manager_commands :: "(system_command + 'w command) command_info list" where
  "g_channel_manager_commands =
    [cmd_entry ''scan'' ''channel scan'' cm_cmd_scan,
     cmd_entry ''t'' ''tune (interactive mode)'' cm_cmd_tune_interactive,
     cmd_entry ''stop'' ''tune stop (usage: stop {group_id})'' cm_cmd_tune_stop,
     cmd_entry ''d'' ''dump channels'' cm_cmd_dump_channels]"

definition g_event_schedule_manager_commands :: "(timespec \<Rightarrow> string) \<Rightarrow> (system_command + 'w command) command_info list" where
  "g_event_schedule_manager_commands show_time =
    [cmd_entry ''cs'' ''cache schedule'' em_cmd_cache_schedule,
     cmd_entry ''csc'' ''cache schedule --force current service-- (usage: csc {group_id})'' em_cmd_cache_schedule_force_current_service,
     cmd_entry ''stop'' ''stop cache schedule'' em_cmd_stop_cache_schedule,
     cmd_entry ''dm'' ''dump schedule map'' em_cmd_dump_schedule_map,
     cmd_entry ''d'' ''dump schedule (usage: d {tsid} {org_nid} {svcid})'' em_cmd_dump_schedule,
     cmd_entry ''di'' ''dump schedule (interactive mode)'' em_cmd_dump_schedule_interactive,
     cmd_entry ''ded'' ''dump event detail --from last dumped schedule-- (usage: ded {index})'' em_cmd_dump_event_detail,
     cmd_entry ''grep'' ''grep events --search event name by keyword-- (usage: grep {keyword})'' (em_cmd_get_events_keyword_search show_time),
     cmd_entry ''grepx'' ''grep events --search event name and extended event by keyword-- (usage: grepx {keyword})''
      (em_cmd_get_events_keyword_search_ex show_time),
     cmd_entry ''dr'' ''dump reserves'' em_cmd_dump_reserves,
     cmd_entry ''h'' ''dump histories'' em_cmd_dump_histories]"

definition g_event_search_commands :: "(system_command + 'w command) command_info list" where
  "g_event_search_commands =
    [cmd_entry ''r'' ''add rec reserve (event name keyword search)'' es_cmd_add_rec_reserve_keyword_search,
     cmd_entry ''rx'' ''add rec reserve (extended event keyword search)'' es_cmd_add_rec_reserve_keyword_search_ex,
     cmd_entry ''h'' ''dump histories (event name keyword search)'' es_cmd_dump_histories,
     cmd_entry ''hx'' ''dump histories (extended event keyword search)'' es_cmd_dump_histories_ex]"

definition g_viewing_manager_commands :: "(system_command + 'w command) command_info list" where
  "g_viewing_manager_commands =
    [cmd_entry ''ch'' ''start viewing by physical channel (usage: ch {physical_channel, service_idx})''
      vm_cmd_start_by_phy_ch,
     cmd_entry ''svc'' ''start viewing by service id  (usage: svc {tsid} {org_nid} {svcid})'' vm_cmd_start_by_svc_id,
     cmd_entry ''stop'' ''force stop viewing (usage: stop {group_id})'' vm_cmd_stop,
     cmd_entry ''opt'' ''set option (usage: opt {group_id} {auto_stop_grace_period_sec})'' vm_cmd_option,
     cmd_entry ''d'' ''dump '' vm_cmd_dump]"

definition g_psisi_manager_dump_tables :: "(system_command + 'w command) command_info list" where
  "g_psisi_manager_dump_tables =
    [cmd_entry ''pat'' ''dump PAT'' (pm_cmd_dump_table ''PAT''),
     cmd_entry ''pmt'' ''dump PMT'' (pm_cmd_dump_table ''PMT''),
     cmd_entry ''eit_pf'' ''dump EIT (p/f)'' (pm_cmd_dump_table ''EIT_H_PF''),
     cmd_entry ''eit_pf_s'' ''dump EIT (p/f) simple'' (pm_cmd_dump_table ''EIT_H_PF_simple''),
     cmd_entry ''eit_sch'' ''dump EIT (schedule)'' (pm_cmd_dump_table ''EIT_H_SCHED''),
     cmd_entry ''eit_sched_e'' ''dump EIT (schedule) event'' (pm_cmd_dump_table ''EIT_H_SCHED_event''),
     cmd_entry ''eit_sched_s'' ''dump EIT (schedule) simple'' (pm_cmd_dump_table ''EIT_H_SCHED_simple''),
     cmd_entry ''nit'' ''dump NIT'' (pm_cmd_dump_table ''NIT''),
     cmd_entry ''sdt'' ''dump SDT'' (pm_cmd_dump_table ''SDT''),
     cmd_entry ''cat'' ''dump CAT'' (pm_cmd_dump_table ''CAT''),
     cmd_entry ''cdt'' ''dump CDT'' (pm_cmd_dump_table ''CDT''),
     cmd_entry ''rst'' ''dump RST'' (pm_cmd_dump_table ''RST''),
     cmd_entry ''bit'' ''dump BIT'' (pm_cmd_dump_table ''BIT'')]"

definition g_psisi_manager_commands :: "(system_command + 'w command) command_info list" where
  "g_psisi_manager_commands =
    [cmd_entry ''st'' ''set target tuner id (usage: st {tuner id})'' pm_cmd_set_target,
     cmd_entry ''dp'' ''dump program infos'' (pm_cmd_dump_caches 0),
     cmd_entry ''ds'' ''dump service infos'' (pm_cmd_dump_caches 1),
     cmd_entry ''de'' ''dump event p/f infos'' (pm_cmd_dump_caches 2),
     cmd_entry ''dn'' ''dump network info'' (pm_cmd_dump_caches 3),
     sub_table ''t'' ''dump psisi-tables'' 10]"

text \<open>The numbers of the tables are those of the root table; 10 is the second table of the PSI/SI
  manager.\<close>

definition module_tables ::
  "(tm \<Rightarrow> int) \<Rightarrow> (timespec \<Rightarrow> string) \<Rightarrow> nat \<Rightarrow> (system_command + 'w command) command_info list" where
  "module_tables mk show_time t =
    (if t = 2 then g_tuner_control_commands else if t = 3 then g_psisi_manager_commands
     else if t = 4 then g_tuner_service_commands else if t = 5 then g_rec_manager_commands mk show_time
     else if t = 6 then g_channel_manager_commands
     else if t = 7 then g_event_schedule_manager_commands show_time
     else if t = 8 then g_event_search_commands else if t = 9 then g_viewing_manager_commands
     else if t = 10 then g_psisi_manager_dump_tables else [])"

text \<open>A typed line of the command server: what it calls is run.\<close>

fun run_outputs :: "'w world \<Rightarrow> (system_command + 'w command) command_output list \<Rightarrow> 'w session \<Rightarrow> 'w cmd_result" where
  "run_outputs world [] st = Finished st"
| "run_outputs world (x # xs) st =
    (case x of
       Call (Inr cb) args \<Rightarrow>
         (case cb world args st of Finished st \<Rightarrow> run_outputs world xs st | r \<Rightarrow> r)
     | _ \<Rightarrow> run_outputs world xs st)"

definition run_line ::
  "(tm \<Rightarrow> int) \<Rightarrow> (timespec \<Rightarrow> string) \<Rightarrow> 'w world \<Rightarrow> string \<Rightarrow> (system_command + 'w command) command_server \<Rightarrow>
   'w session \<Rightarrow> 'w cmd_result" where
  "run_line mk show_time world line cs st =
    (case line_callbacks (command_tables (module_tables mk show_time)) (parse_command line) cs of
       None \<Rightarrow> Undefined
     | Some cs' \<Rightarrow> run_outputs world (drop (length (cs_out cs)) (cs_out cs')) st)"

section \<open>The modules behind the calls\<close>

record app =
  app_tuner :: tuner_service
  app_chan :: channel_manager
  app_sched :: sched_manager
  app_rec :: rec_manager

text \<open>\<open>None\<close> is undefined behaviour of a handler, or a handler that does not return.\<close>

definition answered :: "bool \<Rightarrow> reply_content \<Rightarrow> 'w \<Rightarrow> coseq_result \<times> reply_content \<times> 'w" where
  "answered ok c w = (if ok then (R_success, c, w) else (R_error, Empty, w))"

definition answered_opt :: "('a \<Rightarrow> reply_content) \<Rightarrow> 'a option \<Rightarrow> 'w \<Rightarrow> coseq_result \<times> reply_content \<times> 'w" where
  "answered_opt f x w = (case x of None \<Rightarrow> (R_error, Empty, w) | Some y \<Rightarrow> (R_success, f y, w))"

text \<open>The tuner service; \<open>caller_of\<close> gives \<open>max\<close> for a request from outside the modules, which all
  requests of the commands are.\<close>

definition tuner_dispatch :: "app option world \<Rightarrow> string \<Rightarrow> coseq_call \<Rightarrow> app \<Rightarrow> coseq_result \<times> reply_content \<times> app option" where
  "tuner_dispatch others h c a =
    (case (h, call_msg c) of
       (''on_open'', _) \<Rightarrow>
         (case on_open M_max (app_tuner a) of
            Returned (t, ts) \<Rightarrow> answered_opt C_u8 t (Some (a\<lparr>app_tuner := ts\<rparr>))
          | _ \<Rightarrow> (R_error, Empty, None))
     | (''on_close'', Msg_u8 t) \<Rightarrow>
         (case on_close t (app_tuner a) of (ok, ts) \<Rightarrow> answered ok Empty (Some (a\<lparr>app_tuner := ts\<rparr>)))
     | _ \<Rightarrow> others c (Some a))"

definition channel_dispatch :: "app option world \<Rightarrow> string \<Rightarrow> coseq_call \<Rightarrow> app \<Rightarrow> coseq_result \<times> reply_content \<times> app option" where
  "channel_dispatch others h c a =
    (case (h, call_msg c) of
       (''on_get_channels'', Msg_array n) \<Rightarrow>
         (case on_get_channels n (app_chan a) of
            None \<Rightarrow> (R_error, Empty, None)
          | Some x \<Rightarrow> answered_opt C_channels x (Some a))
     | (''on_get_transport_stream_name'', Msg_service (ts, nid, svc)) \<Rightarrow>
         answered_opt C_text (on_get_transport_stream_name ts nid (app_chan a)) (Some a)
     | (''on_get_service_name'', Msg_service (ts, nid, svc)) \<Rightarrow>
         answered_opt C_text (on_get_service_name ts nid svc (app_chan a)) (Some a)
     | (''on_get_original_network_name'', Msg_service (ts, nid, svc)) \<Rightarrow>
         answered_opt C_text (on_get_original_network_name nid (app_chan a)) (Some a)
     | _ \<Rightarrow> others c (Some a))"

text \<open>Sequence 15 is the extended search.\<close>

definition sched_dispatch :: "app option world \<Rightarrow> string \<Rightarrow> coseq_call \<Rightarrow> app \<Rightarrow> coseq_result \<times> reply_content \<times> app option" where
  "sched_dispatch others h c a =
    (case (h, call_msg c) of
       (''on_get_events_keyword_search'', Msg_event p) \<Rightarrow>
         (case ep_arg p of
            By_keyword k \<Rightarrow> answered_opt C_events
              (on_get_events_keyword_search k (ep_array_max p) (call_sequence c = 15) (app_sched a)) (Some a)
          | _ \<Rightarrow> (R_error, Empty, None))
     | (''on_dump_schedule'', Msg_service k) \<Rightarrow>
         (R_success, Empty, Some (a\<lparr>app_sched := on_dump_schedule k (app_sched a)\<rparr>))
     | _ \<Rightarrow> others c (Some a))"

definition rec_reply :: "app \<Rightarrow> bool \<times> rec_manager \<Rightarrow> coseq_result \<times> reply_content \<times> app option" where
  "rec_reply a r = answered (fst r) Empty (Some (a\<lparr>app_rec := snd r\<rparr>))"

definition rec_dispatch :: "app option world \<Rightarrow> string \<Rightarrow> coseq_call \<Rightarrow> app \<Rightarrow> coseq_result \<times> reply_content \<times> app option" where
  "rec_dispatch others h c a =
    (case (h, call_msg c) of
       (''on_add_reserve_event'', Msg_add_reserve p) \<Rightarrow>
         (case ap_evt p of
            None \<Rightarrow> (R_error, Empty, None)
          | Some evt \<Rightarrow>
              let key = (ap_tsid p, ap_nid p, ap_svc p, evt) in
              rec_reply a (on_add_reserve_event (ap_repeat p) False (event_of_key (app_sched a) key)
                (service_of_key (app_chan a) key) (app_rec a)))
     | (''on_add_reserve_manual'', Msg_add_reserve p) \<Rightarrow>
         rec_reply a (on_add_reserve_manual (ap_tsid p) (ap_nid p) (ap_svc p) (ap_start p) (ap_end p) (ap_repeat p)
           (on_get_physical_channel_by_service_id (ap_tsid p) (ap_nid p) (ap_svc p) (app_chan a))
           (on_get_service_name (ap_tsid p) (ap_nid p) (ap_svc p) (app_chan a)) (app_rec a))
     | (''on_remove_reserve'', Msg_remove p) \<Rightarrow>
         (case rp_arg p of
            By_key k \<Rightarrow>
              (case on_remove_reserve k (rp_consider_repeatability p) (rp_apply_result p) (app_rec a) of
                 None \<Rightarrow> (R_error, Empty, None) | Some r \<Rightarrow> rec_reply a r)
          | _ \<Rightarrow> (R_error, Empty, None))
     | (''on_remove_reserve_by_index'', Msg_remove p) \<Rightarrow>
         (case rp_arg p of
            By_index i \<Rightarrow>
              (case on_remove_reserve_by_index i (rp_consider_repeatability p) (rp_apply_result p) (app_rec a) of
                 None \<Rightarrow> (R_error, Empty, None) | Some r \<Rightarrow> rec_reply a r)
          | _ \<Rightarrow> (R_error, Empty, None))
     | (''on_get_reserves'', Msg_array n) \<Rightarrow>
         (case on_get_reserves True n (app_rec a) of
            (ok, k, rs) \<Rightarrow> answered ok (C_reserves rs) (Some a))
     | (''on_stop_recording'', Msg_u8 g) \<Rightarrow> rec_reply a (on_stop_recording g (app_rec a))
     | _ \<Rightarrow> others c (Some a))"

definition app_world :: "app option world \<Rightarrow> app option world" where
  "app_world others c w =
    (case w of None \<Rightarrow> (R_error, Empty, None)
     | Some a \<Rightarrow>
         (case reaches (Some (Sync c)) of
            Some (m, h) \<Rightarrow>
              if m = ''tuner_service'' then tuner_dispatch others h c a
              else if m = ''channel_manager'' then channel_dispatch others h c a
              else if m = ''event_schedule_manager'' then sched_dispatch others h c a
              else if m = ''rec_manager'' then rec_dispatch others h c a
              else others c w
          | None \<Rightarrow> others c w))"

end
