(* ===== verification/Http_Server.thy ===== *)
theory Http_Server
  imports Command_Run Logger
begin

text \<open>
  The handlers of the HTTP server (src/src/http_server.h): the checks of a request, the calls of the
  modules and the answers. Reading JSON, \<open>parse\<close> and \<open>get\<close> of the library \<open>nlohmann::json\<close>, is a
  parameter, as are the modules; an answer carries a JSON value, which the library prints.
\<close>

section \<open>Requests and answers\<close>

datatype json = J_null | J_bool bool | J_int int | J_string string | J_array "json list"
  | J_object "(string \<times> json) list"

record http_request =
  rq_method :: string
  rq_path :: string
  rq_content_type :: string
  rq_origin :: string
  rq_body :: string

text \<open>A status that is not set is left to the library, which sends 200.\<close>

record http_response =
  rs_status :: "nat option"
  rs_content :: "json option"
  rs_headers :: "(string \<times> string) list"

text \<open>A handler returns, throws, or reads a reply that is not what it expects; \<open>Elsewhere\<close>: no handler of
  the file is registered for the path.\<close>

datatype 'w http_result = Answered http_response 'w | Thrown 'w | Misread | Elsewhere

definition no_answer :: http_response where
  "no_answer = \<lparr>rs_status = None, rs_content = None, rs_headers = []\<rparr>"

definition failed :: "nat \<Rightarrow> 'w \<Rightarrow> 'w http_result" where
  "failed n w = Answered (no_answer\<lparr>rs_status := Some n\<rparr>) w"

definition allow_origin :: "http_request \<Rightarrow> string \<times> string" where
  "allow_origin rq = (''Access-Control-Allow-Origin'', rq_origin rq)"

definition succeeded :: "http_request \<Rightarrow> json option \<Rightarrow> 'w \<Rightarrow> 'w http_result" where
  "succeeded rq j w = Answered (no_answer\<lparr>rs_content := j, rs_headers := [allow_origin rq]\<rparr>) w"

section \<open>Reading the body\<close>

definition field :: "string \<Rightarrow> json \<Rightarrow> json option" where
  "field k j = (case j of J_object fs \<Rightarrow> map_of fs k | _ \<Rightarrow> None)"

definition is_object :: "json \<Rightarrow> bool" where
  "is_object j = (case j of J_object fs \<Rightarrow> True | _ \<Rightarrow> False)"

text \<open>\<open>parse\<close> and \<open>num\<close> give \<open>None\<close> where the library throws: for a text that is no JSON and for a value
  that is no number. A number is cut down to the type it is got as.\<close>

record json_library =
  jl_parse :: "string \<Rightarrow> json option"
  jl_num :: "json \<Rightarrow> int option"

definition with_body ::
  "json_library \<Rightarrow> string list \<Rightarrow> http_request \<Rightarrow> 'w \<Rightarrow> (json \<Rightarrow> 'w http_result) \<Rightarrow> 'w http_result" where
  "with_body lib keys rq w k =
    (if rq_content_type rq \<noteq> ''application/json'' then failed 400 w
     else if rq_body rq = [] then failed 400 w
     else case jl_parse lib (rq_body rq) of
       None \<Rightarrow> Thrown w
     | Some r \<Rightarrow> if list_all (\<lambda>x. field x r \<noteq> None) keys then k r else failed 400 w)"

definition get_num :: "json_library \<Rightarrow> string \<Rightarrow> json \<Rightarrow> 'w \<Rightarrow> (int \<Rightarrow> 'w http_result) \<Rightarrow> 'w http_result" where
  "get_num lib x r w k =
    (case Option.bind (field x r) (jl_num lib) of None \<Rightarrow> Thrown w | Some n \<Rightarrow> k n)"

definition as_int :: "int \<Rightarrow> int" where "as_int n = sint (word_of_int n :: 32 word)"

text \<open>The \<open>option\<close> of a start: \<open>None\<close> without one, else the period, which is 0 by default.\<close>

definition get_option :: "json_library \<Rightarrow> json \<Rightarrow> 'w \<Rightarrow> (int option \<Rightarrow> 'w http_result) \<Rightarrow> 'w http_result" where
  "get_option lib r w k =
    (case field ''option'' r of
       None \<Rightarrow> k None
     | Some opt \<Rightarrow>
         if \<not> is_object opt then k None
         else if field ''auto_stop_grace_period_sec'' opt = None then k (Some 0)
         else get_num lib ''auto_stop_grace_period_sec'' opt w (\<lambda>n. k (Some (as_int n))))"

section \<open>Viewing\<close>

text \<open>A viewing that was started: the answer is its group, and the option is set, whatever comes of it.\<close>

definition viewing_answer ::
  "'w world \<Rightarrow> http_request \<Rightarrow> int option \<Rightarrow> client_reply \<times> 'w \<Rightarrow> 'w http_result" where
  "viewing_answer world rq opt rw =
    (case rw of (r, w) \<Rightarrow>
      if get_result r = R_success then
        (case get_message r of
           C_u8 gr \<Rightarrow> succeeded rq (Some (J_object [(''group_id'', J_int (uint gr))]))
             (case opt of None \<Rightarrow> w | Some sec \<Rightarrow> snd (issue world (vm_request_set_option (gr, sec) False) w))
         | _ \<Rightarrow> Misread)
      else failed 500 w)"

definition http_start_by_physical_channel :: "json_library \<Rightarrow> 'w world \<Rightarrow> http_request \<Rightarrow> 'w \<Rightarrow> 'w http_result" where
  "http_start_by_physical_channel lib world rq w =
    with_body lib [''physical_channel'', ''service_idx''] rq w (\<lambda>r.
      get_num lib ''physical_channel'' r w (\<lambda>ch. get_num lib ''service_idx'' r w (\<lambda>i. get_option lib r w (\<lambda>opt.
        viewing_answer world rq opt
          (issue world (vm_request_start_viewing_by_physical_channel (word_of_int ch, as_int i) False) w)))))"

definition http_start_by_service_id :: "json_library \<Rightarrow> 'w world \<Rightarrow> http_request \<Rightarrow> 'w \<Rightarrow> 'w http_result" where
  "http_start_by_service_id lib world rq w =
    with_body lib [''transport_stream_id'', ''original_network_id'', ''service_id''] rq w (\<lambda>r.
      get_num lib ''transport_stream_id'' r w (\<lambda>ts. get_num lib ''original_network_id'' r w (\<lambda>nid.
      get_num lib ''service_id'' r w (\<lambda>svc. get_option lib r w (\<lambda>opt.
        viewing_answer world rq opt (issue world (vm_request_start_viewing_by_service_id
          (word_of_int ts, word_of_int nid, word_of_int svc) False) w))))))"

definition done_answer :: "http_request \<Rightarrow> client_reply \<times> 'w \<Rightarrow> 'w http_result" where
  "done_answer rq rw =
    (case rw of (r, w) \<Rightarrow> if get_result r = R_success then succeeded rq None w else failed 500 w)"

definition http_stop :: "json_library \<Rightarrow> 'w world \<Rightarrow> http_request \<Rightarrow> 'w \<Rightarrow> 'w http_result" where
  "http_stop lib world rq w =
    with_body lib [''group_id''] rq w (\<lambda>r. get_num lib ''group_id'' r w (\<lambda>g.
      done_answer rq (issue world (vm_request_stop_viewing (word_of_int g) False) w)))"

definition http_auto_stop_grace_period :: "json_library \<Rightarrow> 'w world \<Rightarrow> http_request \<Rightarrow> 'w \<Rightarrow> 'w http_result" where
  "http_auto_stop_grace_period lib world rq w =
    with_body lib [''group_id'', ''period_sec''] rq w (\<lambda>r.
      get_num lib ''group_id'' r w (\<lambda>g. get_num lib ''period_sec'' r w (\<lambda>n.
        done_answer rq (issue world (vm_request_set_option (word_of_int g, as_int n) False) w))))"

section \<open>Channels\<close>

text \<open>The keys of an object stand in the order the code assigns them; a JSON object has none.\<close>

definition channel_json :: "channel_t \<Rightarrow> json" where
  "channel_json c = J_object
    [(''physical_channel'', J_int (uint (ct_physical_channel c))),
     (''transport_stream_id'', J_int (uint (ct_tsid c))),
     (''original_network_id'', J_int (uint (ct_nid c))),
     (''remote_control_key_id'', J_int (uint (ct_remote_key c))),
     (''service_ids'', J_array (map (\<lambda>s. J_int (uint s)) (take (nat (ct_service_num c)) (ct_service_ids c))))]"

definition http_channels :: "'w world \<Rightarrow> http_request \<Rightarrow> 'w \<Rightarrow> 'w http_result" where
  "http_channels world rq w =
    (case issue world (cm_request_get_channels_sync (Some 20)) w of (r, w) \<Rightarrow>
      if get_result r = R_success then
        (case get_message r of
           C_channels cs \<Rightarrow> succeeded rq (Some (J_array (map channel_json cs))) w
         | _ \<Rightarrow> Misread)
      else failed 500 w)"

text \<open>The message of a reply without a source has the length 0.\<close>

definition name_answer :: "string \<Rightarrow> http_request \<Rightarrow> client_reply \<times> 'w \<Rightarrow> 'w http_result" where
  "name_answer x rq rw =
    (case rw of (r, w) \<Rightarrow>
      if get_result r = R_success then
        (case get_message r of
           Empty \<Rightarrow> failed 500 w
         | C_text t \<Rightarrow> if t = [] then failed 500 w else succeeded rq (Some (J_object [(x, J_string t)])) w
         | _ \<Rightarrow> Misread)
      else failed 500 w)"

definition http_original_network_name :: "'w world \<Rightarrow> string \<Rightarrow> http_request \<Rightarrow> 'w \<Rightarrow> 'w http_result" where
  "http_original_network_name world nid rq w =
    name_answer ''original_network_name'' rq
      (issue world (cm_request_get_original_network_name (Some (0, atoi_u16 nid, 0))) w)"

definition http_transport_stream_name :: "'w world \<Rightarrow> string \<Rightarrow> string \<Rightarrow> http_request \<Rightarrow> 'w \<Rightarrow> 'w http_result" where
  "http_transport_stream_name world nid ts rq w =
    name_answer ''transport_stream_name'' rq
      (issue world (cm_request_get_transport_stream_name_sync (Some (atoi_u16 ts, atoi_u16 nid, 0))) w)"

definition http_service_name ::
  "'w world \<Rightarrow> string \<Rightarrow> string \<Rightarrow> string \<Rightarrow> http_request \<Rightarrow> 'w \<Rightarrow> 'w http_result" where
  "http_service_name world ts nid svc rq w =
    name_answer ''service_name'' rq
      (issue world (cm_request_get_service_name_sync (Some (atoi_u16 ts, atoi_u16 nid, atoi_u16 svc))) w)"

section \<open>Events\<close>

definition event_json :: "event_reply \<Rightarrow> json" where
  "event_json e = J_object
    [(''transport_stream_id'', J_int (uint (er_tsid e))), (''original_network_id'', J_int (uint (er_nid e))),
     (''service_id'', J_int (uint (er_svc e))), (''event_id'', J_int (uint (er_event_id e))),
     (''start_time'', J_int (tv_sec (er_start e))), (''end_time'', J_int (tv_sec (er_end e))),
     (''event_name_char'', J_string (er_name e))]"

text \<open>What the handler of the request wrote to \<open>_event_info\<close> is the one event of the reply.\<close>

definition psisi_answer :: "http_request \<Rightarrow> client_reply \<times> 'w \<Rightarrow> 'w http_result" where
  "psisi_answer rq rw =
    (case rw of (r, w) \<Rightarrow>
      if get_result r = R_success then
        (case get_message r of C_events [e] \<Rightarrow> succeeded rq (Some (event_json e)) w | _ \<Rightarrow> Misread)
      else failed 500 w)"

definition http_present_event ::
  "'w world \<Rightarrow> string \<Rightarrow> string \<Rightarrow> string \<Rightarrow> string \<Rightarrow> http_request \<Rightarrow> 'w \<Rightarrow> 'w http_result" where
  "http_present_event world gr ts nid svc rq w =
    psisi_answer rq (issue world (pm_request_get_present_event_info_sync (atoi_u8 gr)
      (Some (atoi_u16 ts, atoi_u16 nid, atoi_u16 svc)) (Some 0)) w)"

definition http_follow_event ::
  "'w world \<Rightarrow> string \<Rightarrow> string \<Rightarrow> string \<Rightarrow> string \<Rightarrow> http_request \<Rightarrow> 'w \<Rightarrow> 'w http_result" where
  "http_follow_event world gr ts nid svc rq w =
    psisi_answer rq (issue world (pm_request_get_follow_event_info_sync (atoi_u8 gr)
      (Some (atoi_u16 ts, atoi_u16 nid, atoi_u16 svc)) (Some 0)) w)"

section \<open>Routes\<close>

definition http_options :: "http_request \<Rightarrow> 'w \<Rightarrow> 'w http_result" where
  "http_options rq w = Answered (no_answer\<lparr>rs_headers :=
    [allow_origin rq, (''Allow'', ''GET, POST, HEAD, OPTIONS''),
     (''Access-Control-Allow-Headers'', ''X-Requested-With, Content-Type, Accept, Origin, Authorization''),
     (''Access-Control-Allow-Methods'', ''OPTIONS, GET, POST, HEAD'')]\<rparr>) w"

definition http_post :: "json_library \<Rightarrow> 'w world \<Rightarrow> http_request \<Rightarrow> 'w \<Rightarrow> 'w http_result" where
  "http_post lib world rq w =
    (if rq_path rq = ''/api/ctrl/viewing/start_by_physical_channel'' then http_start_by_physical_channel lib world rq w
     else if rq_path rq = ''/api/ctrl/viewing/start_by_service_id'' then http_start_by_service_id lib world rq w
     else if rq_path rq = ''/api/ctrl/viewing/stop'' then http_stop lib world rq w
     else if rq_path rq = ''/api/ctrl/viewing/auto_stop_grace_period'' then http_auto_stop_grace_period lib world rq w
     else Elsewhere)"

definition http_get :: "'w world \<Rightarrow> http_request \<Rightarrow> 'w \<Rightarrow> 'w http_result" where
  "http_get world rq w =
    (if rq_path rq = ''/api/ctrl/channel/channels'' then http_channels world rq w
     else case split_pieces ''/'' (rq_path rq) of
       [e, a, b, c, d, x] \<Rightarrow>
         if [e, a, b, c, d] = [[], ''api'', ''ctrl'', ''channel'', ''original_network_name''] \<and> is_dec x
         then http_original_network_name world x rq w else Elsewhere
     | [e, a, b, c, d, x, y] \<Rightarrow>
         if [e, a, b, c, d] = [[], ''api'', ''ctrl'', ''channel'', ''transport_stream_name''] \<and> list_all is_dec [x, y]
         then http_transport_stream_name world x y rq w else Elsewhere
     | [e, a, b, c, d, x, y, z] \<Rightarrow>
         if [e, a, b, c, d] = [[], ''api'', ''ctrl'', ''channel'', ''service_name''] \<and> list_all is_dec [x, y, z]
         then http_service_name world x y z rq w else Elsewhere
     | [e, a, b, c, g, d, x, y, z] \<Rightarrow>
         if [e, a, b, c, d] = [[], ''api'', ''ctrl'', ''psisi'', ''present_event''] \<and> list_all is_dec [g, x, y, z]
         then http_present_event world g x y z rq w
         else if [e, a, b, c, d] = [[], ''api'', ''ctrl'', ''psisi'', ''follow_event''] \<and> list_all is_dec [g, x, y, z]
         then http_follow_event world g x y z rq w else Elsewhere
     | _ \<Rightarrow> Elsewhere)"

definition http_handle :: "json_library \<Rightarrow> 'w world \<Rightarrow> http_request \<Rightarrow> 'w \<Rightarrow> 'w http_result" where
  "http_handle lib world rq w =
    (if rq_method rq = ''POST'' then http_post lib world rq w
     else if rq_method rq = ''GET'' then http_get world rq w
     else if rq_method rq = ''OPTIONS'' \<and> length (rq_path rq) \<ge> 2 \<and> take 1 (rq_path rq) = ''/'' then http_options rq w
     else Elsewhere)"

end
