(* ===== verification/Command_Run_Claims.thy ===== *)
theory Command_Run_Claims
  imports Command_Run
begin

text \<open>
  The theorems about the requests and the commands: the addresses of the requests, the arguments
  that are read back, the commands composed with the modules behind them, and the inputs that a
  command does not cope with.
\<close>

section \<open>Addresses\<close>

lemma group_values: "group g = 0 \<or> group g = 1 \<or> group g = 2 \<or> group g = 3"
proof (cases "g \<ge> 4")
  case False
  then have "unat g < 4" by (simp add: word_le_nat_alt)
  then have "unat g = 0 \<or> unat g = 1 \<or> unat g = 2 \<or> unat g = 3" by arith
  then have "of_nat (unat g) \<in> {0, 1, 2, 3 :: u8}" by (elim disjE) simp_all
  then show ?thesis using False by (simp add: group_def GROUP_MAX_def)
qed (simp add: group_def GROUP_MAX_def)

lemma module_numbers:
  "module_no ''tuner_control'' = 4" "module_no ''psisi_manager'' = 8" "module_no ''tuner_service'' = 12"
  "module_no ''rec_manager'' = 13" "module_no ''channel_manager'' = 14"
  "module_no ''event_schedule_manager'' = 15" "module_no ''event_search'' = 16"
  "module_no ''viewing_manager'' = 17"
  by code_simp+

lemma tuner_targets:
  "list_all (\<lambda>g. target (4 + g) 2 = Some (module_ids ! (4 + g), ''on_tune'') \<and>
     target (4 + g) 4 = Some (module_ids ! (4 + g), ''on_tune_stop'') \<and>
     target (4 + g) 9 = Some (module_ids ! (4 + g), ''on_get_state'') \<and>
     target (8 + g) 20 = Some (module_ids ! (8 + g), ''on_dump_caches'')) [0, 1, 2, 3]"
  by code_simp

lemma tuner_positions:
  "position ''tune'' tc_sequences = 2" "position ''tune_stop'' tc_sequences = 4"
  "position ''get_state'' tc_sequences = 9" "position ''dump_caches'' pm_sequences = 20"
  by code_simp+

text \<open>C19: whatever number a client gives for a tuner, the request reaches a tuner control, or a PSI/SI manager, and
  never another module: a number that is no group is taken for 0.\<close>

theorem tuner_requests_stay_among_the_tuners:
  "reaches (tc_request_tune_sync g f) = Some (module_ids ! (4 + unat (group g)), ''on_tune'') \<and>
   reaches (tc_request_tune_stop_sync g) = Some (module_ids ! (4 + unat (group g)), ''on_tune_stop'') \<and>
   reaches (tc_request_get_state_sync g) = Some (module_ids ! (4 + unat (group g)), ''on_get_state'') \<and>
   reaches (pm_request_dump_caches g t) = Some (module_ids ! (8 + unat (group g)), ''on_dump_caches'') \<and>
   unat (group g) < 4 \<and> (if 4 \<le> unat g then group g = 0 else group g = g)"
proof -
  have s: "unat (4 + group g) = 4 + unat (group g)" "unat (8 + group g) = 8 + unat (group g)" "unat (group g) < 4"
    using group_values [of g] by (elim disjE; simp)+
  then have "unat (group g) \<in> set [0, 1, 2, 3]" by (simp, arith)
  note t = bspec [OF tuner_targets [unfolded list_all_iff] this]
  have "if 4 \<le> unat g then group g = 0 else group g = g"
    by (simp add: group_def GROUP_MAX_def word_le_nat_alt)
  with t s show ?thesis
    by (simp add: reaches_def tc_request_tune_sync_def tc_request_tune_stop_sync_def tc_request_get_state_sync_def
        pm_request_dump_caches_def to_module_def module_numbers tuner_positions)
qed

text \<open>The handlers are registered in the order of the sequence numbers: the name of each one follows
  from the name of its sequence, so that a request reaches the handler it is named after.\<close>

fun single_underscores :: "string \<Rightarrow> string" where
  "single_underscores [] = []"
| "single_underscores (c # cs) =
    (if c = CHR ''_'' \<and> take 1 cs = ''_'' then single_underscores cs else c # single_underscores cs)"

definition renamed_sequences :: "(string \<times> string) list" where
  "renamed_sequences =
    [(''module_up_by_groupid'', ''on_module_up_by_group_id''), (''dump_scan_results'', ''on_dump_channels''),
     (''get_events__keyword_search_ex'', ''on_get_events_keyword_search''),
     (''add_rec_reserve_keyword_search_ex'', ''on_add_rec_reserve_keyword_search''),
     (''dump_histories_ex'', ''on_dump_histories''),
     (''start_viewing_by_physical_channel'', ''on_start_viewing''),
     (''start_viewing_by_service_id'', ''on_start_viewing'')]"

definition handler_name :: "string \<Rightarrow> string" where
  "handler_name x =
    (case map_of renamed_sequences x of
       Some h \<Rightarrow> h
     | None \<Rightarrow>
         if take 4 x = ''reg_'' then ''on_register_'' @ drop 4 x
         else if take 6 x = ''unreg_'' then ''on_unregister_'' @ drop 6 x
         else ''on_'' @ single_underscores x)"

theorem handlers_follow_the_sequences:
  "list_all (\<lambda>(seqs, hs). hs = map handler_name seqs)
    [(tc_sequences, tc_handlers), (pm_sequences, pm_handlers), (ts_sequences, ts_handlers),
     (rec_sequences, rec_handlers), (cm_sequences, cm_handlers), (em_sequences, em_handlers),
     (es_sequences, es_handlers), (vm_sequences, vm_handlers)]"
  by code_simp

section \<open>Arguments\<close>

text \<open>What the lists of reservations and events print for an identifier is read back by the commands
  that take identifiers, as is the decimal form.\<close>

theorem printed_ids_are_read_back:
  "id_arg (''0x'' @ hex4 v) = Some v \<and> id_arg (dec (uint v)) = Some v"
proof -
  have "\<not> is_dec (''0x'' @ hex4 v)" by (simp add: is_dec_def is_digit_def)
  moreover have "dec (uint v) = digits 10 (unat v)" by (simp add: dec_def)
  ultimately show ?thesis
    using is_hex_hex4 [of v] by (simp add: id_arg_def strtol_hex4 is_dec_digits atoi_u16_digits)
qed

lemma id_arg_hex4 [simp]: "id_arg (CHR ''0'' # CHR ''x'' # hex4 v) = Some v"
proof -
  have "id_arg (''0x'' @ hex4 v) = Some v"
    using is_hex_hex4 [of v] by (simp add: id_arg_def strtol_hex4 is_dec_def is_digit_def)
  then show ?thesis by simp
qed

text \<open>A system for the examples: two tuners and one channel.\<close>

definition no_others :: "app option world" where
  "no_others c w = (R_error, Empty, w)"

definition example_channel :: channel_entry where
  "example_channel = entry_set 27 1 2 None 0 1 None [\<lparr>cs_service_id = 3, cs_service_type = 1, cs_service_name = []\<rparr>]
    cleared_entry"

definition app_of :: "channels \<Rightarrow> app" where
  "app_of cs = \<lparr>app_tuner = tuner_module_up 2, app_chan = (new_channel_manager None)\<lparr>channels := cs\<rparr>,
    app_sched = new_sched_manager None None, app_rec = new_rec_manager\<rparr>"

definition example_app :: app where "example_app = app_of [(27, example_channel)]"

definition new_session :: "app \<Rightarrow> app option session" where
  "new_session a = \<lparr>ss_world = Some a, ss_out = [], ss_tuner = 0xff, ss_typed = []\<rparr>"

lemma example_channels:
  "on_get_channels 20 (app_chan example_app) = Some (Some [the (to_channel_t example_channel)])"
  by (simp add: example_app_def app_of_def new_channel_manager_def on_get_channels_def get_channels_def
      to_channel_t_def example_channel_def entry_set_def cleared_entry_def)

lemma u8_of_u32: "ucast (of_nat k :: 32 word) = (of_nat (k mod 256) :: u8)"
proof -
  have "k mod 4294967296 mod 256 = k mod (256 :: nat)"
    by (rule mod_mod_cancel) simp
  then show ?thesis
    by (simp add: word_unat_eq_iff unsigned_ucast_eq unsigned_of_nat take_bit_eq_mod)
qed

text \<open>A number that is too big is not refused: a group is taken modulo 256, so that \<open>stop 256\<close> ends the
  recording of group 0.\<close>

theorem groups_are_taken_modulo_256:
  assumes "n < 2 ^ 63"
  shows "rec_cmd_stop world [digits 10 n] st = rec_cmd_stop world [digits 10 (n mod 256)] st"
proof -
  have "n mod 256 < 2 ^ 63" by (rule le_less_trans [OF mod_le_divisor]) simp_all
  then show ?thesis
    using assms by (simp add: rec_cmd_stop_def is_dec_digits atoi_u8_def c_atoi_def strtol_def number_digits
        LONG_MAX_def u8_of_u32)
qed

theorem groups_are_taken_modulo_256_witness:
  "rec_cmd_stop (app_world no_others) [digits 10 256] (new_session example_app) =
   rec_cmd_stop (app_world no_others) [digits 10 0] (new_session example_app)"
  using groups_are_taken_modulo_256 [of 256 "app_world no_others" "new_session example_app"] by simp

section \<open>Commands and modules\<close>

lemma remove_reserve_position: "position ''remove_reserve'' rec_sequences = 12"
  by code_simp

lemma remove_reserve_target: "target 13 12 = Some (''rec_manager'', ''on_remove_reserve'')"
  by code_simp

lemma flags: "one_of ''01'' ''0''" "one_of ''01'' ''1''" "atoi_int ''0'' = 0" "atoi_int ''1'' = 1"
  by (simp_all add: one_of_def atoi_int_def c_atoi_def strtol_def number_def digit_value_def is_digit_def
      LONG_MAX_def)

text \<open>C16: the command that removes a reservation, typed with the identifiers as a list prints them, is the handler of the
  recording manager on the key of the reservation, and changes nothing else of the system.\<close>

theorem typed_reserve_is_removed:
  "rec_cmd_remove_reserve (app_world others)
     [''0x'' @ hex4 ts, ''0x'' @ hex4 nid, ''0x'' @ hex4 svc, ''0x'' @ hex4 evt, if rep then ''1'' else ''0'']
     \<lparr>ss_world = Some a, ss_out = out, ss_tuner = t, ss_typed = typed\<rparr> =
   Finished \<lparr>ss_world = map_option (\<lambda>(ok, m). a\<lparr>app_rec := m\<rparr>)
       (on_remove_reserve (ts, nid, svc, evt) rep True (app_rec a)),
     ss_out = out, ss_tuner = t, ss_typed = typed\<rparr>"
proof -
  have d: "one_of ''01'' (if rep then ''1'' else ''0'')" "(atoi_int (if rep then ''1'' else ''0'') \<noteq> 0) = rep"
    by (simp_all add: flags)
  have r: "reaches (Some (Sync \<lparr>call_module = 13, call_sequence = 12, call_msg = x\<rparr>)) =
      Some (''rec_manager'', ''on_remove_reserve'')" for x
    by (simp add: reaches_def remove_reserve_target)
  show ?thesis
    by (simp add: rec_cmd_remove_reserve_def with_id_def d tell_def ask_def issue_def
        rec_request_remove_reserve_def to_module_def module_numbers remove_reserve_position app_world_def r rec_dispatch_def rec_reply_def
        answered_def split: option.splits prod.splits)
qed

section \<open>Interactive commands\<close>

lemma interactive_positions:
  "position ''open'' ts_sequences = 2" "position ''close'' ts_sequences = 3"
  "position ''get_channels'' cm_sequences = 6" "position ''get_transport_stream_name'' cm_sequences = 8"
  "position ''get_service_name'' cm_sequences = 9"
  by code_simp+

lemma interactive_targets:
  "target 12 2 = Some (''tuner_service'', ''on_open'')" "target 12 3 = Some (''tuner_service'', ''on_close'')"
  "target 14 6 = Some (''channel_manager'', ''on_get_channels'')"
  "target 14 8 = Some (''channel_manager'', ''on_get_transport_stream_name'')"
  "target 14 9 = Some (''channel_manager'', ''on_get_service_name'')"
  by code_simp+

lemmas interactive_calls = reaches_def interactive_targets to_module_def module_numbers interactive_positions

lemma ask_open:
  "ask (app_world others) ts_request_open_sync st = (case ss_world st of
     None \<Rightarrow> (Replied R_error Empty, st)
   | Some a \<Rightarrow> (case on_open M_max (app_tuner a) of
       Returned (Some g, ts) \<Rightarrow> (Replied R_success (C_u8 g), st\<lparr>ss_world := Some (a\<lparr>app_tuner := ts\<rparr>)\<rparr>)
     | Returned (None, ts) \<Rightarrow> (Replied R_error Empty, st\<lparr>ss_world := Some (a\<lparr>app_tuner := ts\<rparr>)\<rparr>)
     | _ \<Rightarrow> (Replied R_error Empty, st\<lparr>ss_world := None\<rparr>)))"
  by (simp add: ask_def issue_def ts_request_open_sync_def interactive_calls app_world_def tuner_dispatch_def
      answered_opt_def split: option.splits outcome.splits prod.splits)

lemma ask_close:
  assumes "ss_world st = Some a"
  shows "ask (app_world others) (ts_request_close_sync g) st = (case on_close g (app_tuner a) of (ok, ts) \<Rightarrow>
     (Replied (if ok then R_success else R_error) Empty, st\<lparr>ss_world := Some (a\<lparr>app_tuner := ts\<rparr>)\<rparr>))"
  using assms
  by (simp add: ask_def issue_def ts_request_close_sync_def interactive_calls app_world_def tuner_dispatch_def
      answered_def split: option.splits outcome.splits prod.splits)

lemma ask_channels:
  assumes "ss_world st = Some a" "on_get_channels n (app_chan a) = Some x"
  shows "ask (app_world others) (cm_request_get_channels_sync (Some n)) st =
    ((case x of None \<Rightarrow> Replied R_error Empty | Some cs \<Rightarrow> Replied R_success (C_channels cs)), st)"
  using assms
  by (simp add: ask_def issue_def cm_request_get_channels_sync_def interactive_calls app_world_def
      channel_dispatch_def answered_opt_def split: option.splits)

lemma ask_ts_name:
  assumes "ss_world st = Some a"
  shows "ask (app_world others) (cm_request_get_transport_stream_name_sync (Some (ts, nid, svc))) st =
    ((case on_get_transport_stream_name ts nid (app_chan a) of None \<Rightarrow> Replied R_error Empty
      | Some t \<Rightarrow> Replied R_success (C_text t)), st)"
  using assms
  by (simp add: ask_def issue_def cm_request_get_transport_stream_name_sync_def interactive_calls app_world_def
      channel_dispatch_def answered_opt_def split: option.splits)

text \<open>Listing the names of the transport streams prints them and changes nothing else.\<close>

lemma list_ts_names:
  assumes "ss_world st = Some a"
  shows "\<exists>out. list_names (app_world others) (map (\<lambda>(i, c). (i, cm_request_get_transport_stream_name_sync
      (Some (ct_tsid c, ct_nid c, 0)))) ics) st = Some (st\<lparr>ss_out := ss_out st @ out\<rparr>)"
  using assms
proof (induction ics arbitrary: st)
  case Nil
  show ?case by (rule exI [of _ "[]"]) simp
next
  case (Cons ic ics)
  obtain i c where ic: "ic = (i, c)" by (cases ic)
  show ?case
  proof (cases "on_get_transport_stream_name (ct_tsid c) (ct_nid c) (app_chan a)")
    case None
    then show ?thesis using Cons by (simp add: ic ask_ts_name get_result_def)
  next
    case (Some t)
    let ?l = "''  '' @ dec2 (int i) @ '': ['' @ t @ '']''"
    obtain out where "list_names (app_world others) (map (\<lambda>(i, c). (i, cm_request_get_transport_stream_name_sync
        (Some (ct_tsid c, ct_nid c, 0)))) ics) (say ?l st) =
        Some ((say ?l st)\<lparr>ss_out := ss_out (say ?l st) @ out\<rparr>)"
      using Cons.IH [of "say ?l st"] Cons.prems by (auto simp: say_def)
    with Some Cons.prems show ?thesis
      by (simp add: ic ask_ts_name get_result_def get_message_def) (simp add: say_def, blast)
  qed
qed

text \<open>Once the connection has ended each call of \<open>recv_data\<close> returns 0, and the loop asks again.\<close>

definition ended :: "recv_answer list list \<Rightarrow> bool" where
  "ended typed \<longleftrightarrow> (\<forall>as \<in> set typed. as = [Recv_end])"

lemma recv_ended: "recv_data [Recv_end] 32 = Some (0, [])"
  by (simp add: recv_data_def recv_data_loop.simps)

lemma select_ended:
  "ended typed \<Longrightarrow> \<exists>st'. select_loop what num typed st = (Sel_waiting, st')"
proof (induction typed arbitrary: st)
  case Nil
  then show ?case by simp
next
  case (Cons as typed)
  then have "as = [Recv_end]" "ended typed" by (simp_all add: ended_def)
  with Cons.IH show ?case by (simp add: Let_def recv_ended)
qed

lemma pick_ended:
  assumes "ss_world st = Some a" "ended (ss_typed st)"
  shows "\<exists>st'. pick_service (app_world others) cs st = Pick_waiting st'"
proof -
  let ?chs = "cs @ replicate (20 - length cs) zero_channel_t"
  obtain out where l: "list_names (app_world others) (map (\<lambda>(i, c). (i, cm_request_get_transport_stream_name_sync
      (Some (ct_tsid c, ct_nid c, 0)))) (List.enumerate 0 ?chs)) st = Some (st\<lparr>ss_out := ss_out st @ out\<rparr>)"
    using list_ts_names [OF assms(1)] by blast
  obtain st' where "select_loop ''channel'' (int (length cs)) (ss_typed st)
      (say quit_line (st\<lparr>ss_out := ss_out st @ out\<rparr>)) = (Sel_waiting, st')"
    using select_ended [OF assms(2)] by blast
  moreover have "ss_typed (say quit_line (st\<lparr>ss_out := ss_out st @ out\<rparr>)) = ss_typed st"
    by (simp add: say_def)
  ultimately show ?thesis
    by (simp add: pick_service_def Let_def l)
qed

text \<open>C22: when the connection has ended, the interactive dump of a schedule asks for a channel again and again:
  whatever number of ends it reads, it is still waiting.\<close>

theorem dump_of_a_closed_connection_never_returns:
  assumes "ss_world st = Some a" "on_get_channels 20 (app_chan a) = Some (Some cs)" "cs \<noteq> []" "ended (ss_typed st)"
  shows "\<exists>st'. em_cmd_dump_schedule_interactive (app_world others) [] st = Waiting st'"
proof -
  let ?st = "say (''syncGetChannels ch_num:['' @ dec (int (length cs)) @ '']'') st"
  obtain st' where "pick_service (app_world others) cs ?st = Pick_waiting st'"
    using pick_ended [of ?st a others cs] assms(1,4) by (auto simp: say_def)
  then show ?thesis
    using assms
    by (simp add: em_cmd_dump_schedule_interactive_def ignore_args_def ask_channels get_result_def get_message_def Let_def)
qed

theorem dump_of_a_closed_connection_never_returns_witness:
  "\<exists>st'. em_cmd_dump_schedule_interactive (app_world no_others) []
    ((new_session example_app)\<lparr>ss_typed := replicate 5 [Recv_end]\<rparr>) = Waiting st'"
proof (rule dump_of_a_closed_connection_never_returns)
  show "ss_world ((new_session example_app)\<lparr>ss_typed := replicate 5 [Recv_end]\<rparr>) = Some example_app"
    by (simp add: new_session_def)
  show "on_get_channels 20 (app_chan example_app) = Some (Some [the (to_channel_t example_channel)])"
    by (rule example_channels)
qed (simp_all add: ended_def)

text \<open>The tuner that \<open>cm t\<close> has opened stays open when there is no channel to choose; a \<open>q\<close> closes it.\<close>

theorem tuner_stays_open_without_channels:
  assumes "ss_world st = Some a" "on_open M_max (app_tuner a) = Returned (Some g, ts)"
    "on_get_channels 20 (app_chan a) \<in> {Some None, Some (Some [])}"
  shows "\<exists>out. cm_cmd_tune_interactive (app_world others) [] st =
    Finished (st\<lparr>ss_world := Some (a\<lparr>app_tuner := ts\<rparr>), ss_out := out\<rparr>)"
  using assms(3)
proof
  assume "on_get_channels 20 (app_chan a) = Some None"
  with assms(1,2) show ?thesis
    by (simp add: cm_cmd_tune_interactive_def ignore_args_def ask_open ask_channels get_result_def get_message_def
        say_def Let_def) blast
next
  assume "on_get_channels 20 (app_chan a) \<in> {Some (Some [])}"
  with assms(1,2) show ?thesis
    by (simp add: cm_cmd_tune_interactive_def ignore_args_def ask_open ask_channels get_result_def get_message_def
        say_def Let_def) blast
qed

theorem tuner_stays_open_without_channels_witness:
  "\<exists>out. cm_cmd_tune_interactive (app_world no_others) [] (new_session (app_of [])) =
    Finished ((new_session (app_of []))\<lparr>ss_world := Some ((app_of [])\<lparr>app_tuner :=
      (give_tuner 0 M_max (tuner_module_up 2))\<lparr>next_allocate_tuner_id := 1\<rparr>\<rparr>), ss_out := out\<rparr>)"
proof (rule tuner_stays_open_without_channels)
  show "on_open M_max (app_tuner (app_of [])) =
      Returned (Some 0, (give_tuner 0 M_max (tuner_module_up 2))\<lparr>next_allocate_tuner_id := 1\<rparr>)"
    by (simp add: app_of_def on_open_def tuner_module_up_def allocate_round_robin_def set_next_def
        cleared_resource_def give_tuner_def numeral_3_eq_3)
qed (simp_all add: new_session_def app_of_def on_get_channels_def get_channels_def new_channel_manager_def)

text \<open>A number that is typed goes through \<open>atoi\<close>, so that one of \<open>2 ^ 31\<close> and more is negative, passes the
  check against the number of channels and reads in front of the array.\<close>

lemma is_digit_neq:
  "is_digit c \<Longrightarrow> c \<noteq> CHR 0x00 \<and> c \<noteq> CHR 0x0a \<and> c \<noteq> CHR 0x0d \<and> c \<noteq> CHR '' '' \<and> c \<noteq> CHR ''q''"
  by (auto simp: is_digit_def)

lemma delete_lf_dec:
  assumes "is_dec s"
  shows "delete_tail_sp (delete_head_sp (delete_lf (s @ lf))) = s"
proof -
  obtain t c where s: "s = t @ [c]" and c: "is_digit c"
    using assms by (cases s rule: rev_cases) (auto simp: is_dec_def)
  obtain d u where h: "s = d # u" and d: "is_digit d"
    using assms by (cases s) (auto simp: is_dec_def)
  have "delete_lf (s @ lf) = s" "delete_tail_sp s = s"
    using is_digit_neq [OF c] by (simp_all add: s lf_def)
  moreover have "delete_head_sp s = s" using is_digit_neq [OF d] by (simp add: h)
  ultimately show ?thesis by simp
qed

lemma c_string_dec:
  assumes "is_dec s"
  shows "c_string (s @ lf @ replicate (Suc k) (CHR 0x00)) = Some (s @ lf)"
proof -
  have "\<forall>c \<in> set (s @ lf). c \<noteq> CHR 0x00"
    using assms is_digit_neq by (auto simp: is_dec_def list_all_iff lf_def)
  then have "takeWhile (\<lambda>c. c \<noteq> CHR 0x00) ((s @ lf) @ replicate (Suc k) (CHR 0x00)) = s @ lf"
    by (subst takeWhile_append2) simp_all
  then show ?thesis by (simp add: c_string_def)
qed

lemma typed_number:
  assumes "n < 2 ^ 32" "sint (of_nat n :: 32 word) < num"
  shows "select_loop what num ([Recv_bytes (digits 10 n @ lf) Not_ready] # rest) st =
    (Sel_number (sint (of_nat n :: 32 word)), (prompt (''select '' @ what @ ''. # '') st)\<lparr>ss_typed := rest\<rparr>)"
proof -
  let ?s = "digits 10 n"
  have l: "length ?s \<le> 10" using length_digits [of n 10] assms(1) by simp
  have r: "recv_data [Recv_bytes (?s @ lf) Not_ready] 32 = Some (int (length (?s @ lf)), ?s @ lf)"
    using l by (simp add: recv_data_def recv_data_loop.simps lf_def)
  obtain k where k: "32 - length (?s @ lf) = Suc k"
    using l by (cases "32 - length (?s @ lf)") (simp_all add: lf_def)
  have c: "c_string ((?s @ lf) @ replicate (32 - length (?s @ lf)) (CHR 0x00)) = Some (?s @ lf)"
    unfolding k using c_string_dec [OF is_dec_digits, of n k] by simp
  have q: "?s \<noteq> ''q''" using is_dec_digits [of n] is_digit_neq [of "CHR ''q''"] by (auto simp: is_dec_def)
  have a: "atoi_int ?s = sint (of_nat n :: 32 word)"
    using assms(1) by (simp add: atoi_int_def c_atoi_def strtol_def number_digits LONG_MAX_def min_def)
  have p: "\<not> int (length (?s @ lf)) \<le> 0" by (simp add: lf_def)
  show ?thesis
    unfolding select_loop.simps Let_def r option.case prod.case c delete_lf_dec [OF is_dec_digits]
    using q p assms(2) by (simp add: is_dec_digits a)
qed

lemma negative_u31:
  assumes "2 ^ 31 \<le> n" "n < 2 ^ 32"
  shows "sint (of_nat n :: 32 word) < 0"
proof -
  have "int n div 2147483648 = 1" using assms by simp
  then have "bit (int n) 31" by (simp add: bit_iff_odd)
  moreover have "sint (of_nat n :: 32 word) = signed_take_bit 31 (int n)" by (simp add: signed_of_nat)
  ultimately show ?thesis by (simp only: signed_take_bit_negative_iff)
qed

lemma pick_negative:
  assumes "ss_world st = Some a" "2 ^ 31 \<le> n" "n < 2 ^ 32"
    "ss_typed st = [Recv_bytes (digits 10 n @ lf) Not_ready] # rest"
  shows "pick_service (app_world others) cs st = Pick_outside"
proof -
  let ?chs = "cs @ replicate (20 - length cs) zero_channel_t"
  have neg: "sint (of_nat n :: 32 word) < 0" by (rule negative_u31 [OF assms(2,3)])
  obtain out where l: "list_names (app_world others) (map (\<lambda>(i, c). (i, cm_request_get_transport_stream_name_sync
      (Some (ct_tsid c, ct_nid c, 0)))) (List.enumerate 0 ?chs)) st = Some (st\<lparr>ss_out := ss_out st @ out\<rparr>)"
    using list_ts_names [OF assms(1)] by blast
  have t: "ss_typed (say quit_line (st\<lparr>ss_out := ss_out st @ out\<rparr>)) =
      [Recv_bytes (digits 10 n @ lf) Not_ready] # rest"
    using assms(4) by (simp add: say_def)
  have s: "select_loop ''channel'' (int (length cs)) (ss_typed (say quit_line (st\<lparr>ss_out := ss_out st @ out\<rparr>)))
      (say quit_line (st\<lparr>ss_out := ss_out st @ out\<rparr>)) = (Sel_number (sint (of_nat n :: 32 word)),
      (prompt (''select '' @ ''channel'' @ ''. # '') (say quit_line (st\<lparr>ss_out := ss_out st @ out\<rparr>)))
        \<lparr>ss_typed := rest\<rparr>)"
    unfolding t using neg by (intro typed_number [OF assms(3)]) simp
  show ?thesis
    unfolding pick_service_def Let_def l option.case s prod.case selection.case using neg by simp
qed

text \<open>When a number from \<open>2 ^ 31\<close> to \<open>2 ^ 32 - 1\<close> is typed for the channel, the interactive dump reads in front
  of the array of channels.\<close>

theorem huge_number_reads_in_front_of_the_channels:
  assumes "ss_world st = Some a" "on_get_channels 20 (app_chan a) = Some (Some cs)" "cs \<noteq> []"
    "2 ^ 31 \<le> n" "n < 2 ^ 32" "ss_typed st = [Recv_bytes (digits 10 n @ lf) Not_ready] # rest"
  shows "em_cmd_dump_schedule_interactive (app_world others) [] st = Undefined"
proof -
  let ?st = "say (''syncGetChannels ch_num:['' @ dec (int (length cs)) @ '']'') st"
  have "pick_service (app_world others) cs ?st = Pick_outside"
    using assms by (intro pick_negative) (auto simp: say_def)
  then show ?thesis
    using assms(1-3)
    by (simp add: em_cmd_dump_schedule_interactive_def ignore_args_def ask_channels get_result_def get_message_def Let_def)
qed

theorem huge_number_reads_in_front_of_the_channels_witness:
  "em_cmd_dump_schedule_interactive (app_world no_others) []
    ((new_session example_app)\<lparr>ss_typed := [[Recv_bytes (digits 10 3000000000 @ lf) Not_ready]]\<rparr>) = Undefined"
proof (rule huge_number_reads_in_front_of_the_channels)
  show "ss_world ((new_session example_app)\<lparr>ss_typed := [[Recv_bytes (digits 10 3000000000 @ lf) Not_ready]]\<rparr>) =
      Some example_app"
    by (simp add: new_session_def)
  show "on_get_channels 20 (app_chan example_app) = Some (Some [the (to_channel_t example_channel)])"
    by (rule example_channels)
qed simp_all

end
