(* ===== verification/Http_Claims.thy ===== *)
theory Http_Claims
  imports Http_Server Command_Run_Claims
begin

text \<open>
  The theorems about the HTTP server: the paths lead to the modules, a viewing that is started here is the
  one the command starts, refused requests change nothing, and the answers that are wrong.
\<close>

section \<open>Paths\<close>

lemma find_sep: "x \<notin> set a \<Longrightarrow> str_find [x] (a @ x # b) = Some (length a)"
  by (induction a) auto

lemma find_no_sep: "x \<notin> set a \<Longrightarrow> str_find [x] a = None"
  by (induction a) auto

lemma split_pieces_sep: "x \<notin> set a \<Longrightarrow> split_pieces [x] (a @ x # b) = a # split_pieces [x] b"
  by (simp add: split_pieces.simps [of "[x]" "a @ x # b"] find_sep)

lemma split_pieces_last: "x \<notin> set a \<Longrightarrow> split_pieces [x] a = [a]"
  by (simp add: split_pieces.simps [of "[x]" a] find_no_sep)

lemma split_pieces_start: "split_pieces [x] (x # b) = [] # split_pieces [x] b"
  using split_pieces_sep [of x "[]" b] by simp

lemma no_slash_digits: "CHR ''/'' \<notin> set (digits 10 n)"
proof
  assume "CHR ''/'' \<in> set (digits 10 n)"
  then have "is_digit (CHR ''/'')" using digits_dec [of n] by (auto simp: list_all_iff)
  then show False by (simp add: is_digit_def)
qed

lemma split_path:
  assumes "CHR ''/'' \<notin> set a" "CHR ''/'' \<notin> set b" "CHR ''/'' \<notin> set c" "CHR ''/'' \<notin> set d"
  shows "split_pieces ''/'' (''/'' @ a @ ''/'' @ b @ ''/'' @ c @ ''/'' @ d @ ''/'' @ rest) =
    [] # a # b # c # d # split_pieces ''/'' rest"
  using assms by (simp add: split_pieces_start split_pieces_sep)

lemma split_numbers:
  "split_pieces ''/'' (digits 10 x @ ''/'' @ digits 10 y @ ''/'' @ digits 10 z) = [digits 10 x, digits 10 y, digits 10 z]"
  by (simp add: split_pieces_sep split_pieces_last no_slash_digits)

lemma ask_service_name:
  assumes "w = Some a"
  shows "issue (app_world others) (cm_request_get_service_name_sync (Some (ts, nid, svc))) w =
    ((case on_get_service_name ts nid svc (app_chan a) of None \<Rightarrow> Replied R_error Empty
      | Some t \<Rightarrow> Replied R_success (C_text t)), w)"
  using assms
  by (simp add: issue_def cm_request_get_service_name_sync_def interactive_calls app_world_def
      channel_dispatch_def answered_opt_def split: option.splits)

text \<open>C21: the path with the numbers of a service is answered with the name the channel manager has for it.\<close>

theorem service_name_is_looked_up:
  assumes "rq_method rq = ''GET''" "rq_path rq = ''/api/ctrl/channel/service_name/'' @ digits 10 (unat ts) @ ''/''
      @ digits 10 (unat nid) @ ''/'' @ digits 10 (unat svc)"
  shows "http_handle lib (app_world others) rq (Some a) =
    (case on_get_service_name ts nid svc (app_chan a) of
       None \<Rightarrow> failed 500 (Some a)
     | Some t \<Rightarrow> succeeded rq (Some (J_object [(''service_name'', J_string t)])) (Some a))"
proof -
  let ?n = "digits 10 (unat ts) @ ''/'' @ digits 10 (unat nid) @ ''/'' @ digits 10 (unat svc)"
  have p: "rq_path rq = ''/'' @ ''api'' @ ''/'' @ ''ctrl'' @ ''/'' @ ''channel'' @ ''/'' @ ''service_name'' @ ''/'' @ ?n"
    using assms(2) by simp
  have s: "split_pieces ''/'' (rq_path rq) = [[], ''api'', ''ctrl'', ''channel'', ''service_name'', digits 10 (unat ts),
      digits 10 (unat nid), digits 10 (unat svc)]"
    unfolding p by (subst split_path) (simp_all only: split_numbers, simp_all)
  have n: "on_get_service_name ts nid svc (app_chan a) \<noteq> Some []"
    by (auto simp: on_get_service_name_def name_reply_def split: option.splits if_splits)
  have c: "rq_path rq \<noteq> ''/api/ctrl/channel/channels''" using assms(2) by simp
  have "http_handle lib (app_world others) rq (Some a) =
      http_service_name (app_world others) (digits 10 (unat ts)) (digits 10 (unat nid)) (digits 10 (unat svc)) rq (Some a)"
    using assms(1) c by (simp add: http_handle_def http_get_def s is_dec_digits)
  with n show ?thesis
    by (auto simp: http_service_name_def atoi_u16_digits ask_service_name name_answer_def get_result_def get_message_def
        split: option.splits)
qed

section \<open>Refused requests\<close>

definition harmless :: "'w \<Rightarrow> 'w http_result \<Rightarrow> bool" where
  "harmless w x =
    (case x of Answered resp w' \<Rightarrow> rs_status resp = Some 400 \<longrightarrow> w' = w | Thrown w' \<Rightarrow> w' = w | _ \<Rightarrow> True)"

named_theorems harmless_rules

lemma harmless_with_body [harmless_rules]: "(\<And>r. harmless w (k r)) \<Longrightarrow> harmless w (with_body lib keys rq w k)"
  by (auto simp: with_body_def failed_def harmless_def split: option.splits)

lemma harmless_get_num [harmless_rules]: "(\<And>n. harmless w (k n)) \<Longrightarrow> harmless w (get_num lib x r w k)"
  by (auto simp: get_num_def harmless_def split: option.splits)

lemma harmless_get_option [harmless_rules]: "(\<And>n. harmless w (k n)) \<Longrightarrow> harmless w (get_option lib r w k)"
  by (auto simp: get_option_def intro!: harmless_get_num split: option.splits)

lemma harmless_viewing_answer [harmless_rules]: "harmless w (viewing_answer world rq opt rw)"
  by (auto simp: viewing_answer_def succeeded_def failed_def harmless_def no_answer_def
      split: prod.splits reply_content.splits)

lemma harmless_done_answer [harmless_rules]: "harmless w (done_answer rq rw)"
  by (auto simp: done_answer_def succeeded_def failed_def harmless_def no_answer_def split: prod.splits)

lemma harmless_name_answer [harmless_rules]: "harmless w (name_answer x rq rw)"
  by (auto simp: name_answer_def succeeded_def failed_def harmless_def no_answer_def
      split: prod.splits reply_content.splits)

lemma harmless_psisi_answer [harmless_rules]: "harmless w (psisi_answer rq rw)"
  by (auto simp: psisi_answer_def succeeded_def failed_def harmless_def no_answer_def
      split: prod.splits reply_content.splits list.splits)




section \<open>Viewing\<close>

definition simple_library :: json_library where
  "simple_library = \<lparr>jl_parse = (\<lambda>s. if s = ''start'' then Some (J_object [(''physical_channel'', J_int 27),
      (''service_idx'', J_int 0)]) else if s = ''wide'' then Some (J_object [(''physical_channel'', J_int 65563),
      (''service_idx'', J_int 0)]) else None),
    jl_num = (\<lambda>j. case j of J_int n \<Rightarrow> Some n | _ \<Rightarrow> None)\<rparr>"

definition start_path :: string where "start_path = ''/api/ctrl/viewing/start_by_physical_channel''"

definition json_post :: "http_request \<Rightarrow> bool" where
  "json_post rq \<longleftrightarrow> rq_method rq = ''POST'' \<and> rq_content_type rq = ''application/json'' \<and> rq_body rq \<noteq> []"

lemma http_start:
  assumes "json_post rq" "rq_path rq = start_path" "\<And>n. jl_num lib (J_int n) = Some n"
    "jl_parse lib (rq_body rq) = Some (J_object [(''physical_channel'', J_int c), (''service_idx'', J_int i)])"
  shows "http_handle lib world rq w = viewing_answer world rq None
    (issue world (vm_request_start_viewing_by_physical_channel (word_of_int c, as_int i) False) w)"
proof -
  have h: "http_handle lib world rq w = http_start_by_physical_channel lib world rq w"
    using assms(1,2) by (simp add: json_post_def start_path_def http_handle_def http_post_def)
  show ?thesis
    unfolding h using assms
    by (simp add: json_post_def http_start_by_physical_channel_def with_body_def field_def get_num_def get_option_def)
qed

lemma as_int_id: "\<lbrakk>0 \<le> i; i < 2 ^ 31\<rbrakk> \<Longrightarrow> as_int i = i"
  by (simp add: as_int_def signed_of_int signed_take_bit_int_eq_self)

lemma swap_out: "\<exists>out. st\<lparr>ss_out := x, ss_world := w\<rparr> = st\<lparr>ss_world := w, ss_out := out\<rparr>"
  by (rule exI [of _ x]) simp

text \<open>C17: the browser and the command \<open>vm ch\<close> start the same viewing: the same request reaches the viewing manager
  and leaves the same state; only what is told differs.\<close>

theorem browser_and_command_start_the_same_viewing:
  assumes "json_post rq" "rq_path rq = start_path" "\<And>n. jl_num lib (J_int n) = Some n"
    "jl_parse lib (rq_body rq) = Some (J_object [(''physical_channel'', J_int (uint ch)), (''service_idx'', J_int i)])"
    "0 \<le> i" "i < 2 ^ 31"
    "issue world (vm_request_start_viewing_by_physical_channel (ch, i) False) (ss_world st) = (r, w')"
    "get_result r = R_success \<Longrightarrow> get_message r = C_u8 g"
  shows "http_handle lib world rq (ss_world st) = (if get_result r = R_success
      then succeeded rq (Some (J_object [(''group_id'', J_int (uint g))])) w' else failed 500 w') \<and>
    (\<exists>out. vm_cmd_start_by_phy_ch world [digits 10 (unat ch), digits 10 (nat i)] st =
      Finished (st\<lparr>ss_world := w', ss_out := out\<rparr>))"
proof
  show "http_handle lib world rq (ss_world st) = (if get_result r = R_success
      then succeeded rq (Some (J_object [(''group_id'', J_int (uint g))])) w' else failed 500 w')"
    using assms by (simp add: http_start as_int_id viewing_answer_def)
  have a: "atoi_int (digits 10 (nat i)) = i"
    using assms(5,6) as_int_id [of i]
    by (simp add: atoi_int_def c_atoi_def strtol_def number_digits LONG_MAX_def as_int_def min_def)
  show "\<exists>out. vm_cmd_start_by_phy_ch world [digits 10 (unat ch), digits 10 (nat i)] st =
      Finished (st\<lparr>ss_world := w', ss_out := out\<rparr>)"
    using assms(7,8)
    by (auto simp: vm_cmd_start_by_phy_ch_def is_dec_digits atoi_u16_digits a Let_def ask_def say_def
        view_started_def intro!: swap_out)
qed

definition viewing_world :: "nat world" where
  "viewing_world c n = (R_success, C_u8 1, n + 1)"

definition request_to :: "string \<Rightarrow> string \<Rightarrow> string \<Rightarrow> http_request" where
  "request_to method path body = \<lparr>rq_method = method, rq_path = path, rq_content_type = ''application/json'',
     rq_origin = ''http://localhost'', rq_body = body\<rparr>"

definition counting_session :: "nat session" where
  "counting_session = \<lparr>ss_world = 0, ss_out = [], ss_tuner = 0, ss_typed = []\<rparr>"

theorem browser_and_command_start_the_same_viewing_witness:
  "let rq = request_to ''POST'' start_path ''start'' in
   http_handle simple_library viewing_world rq 0 = succeeded rq (Some (J_object [(''group_id'', J_int 1)])) 1 \<and>
   (\<exists>out. vm_cmd_start_by_phy_ch viewing_world [digits 10 (unat (27 :: u16)), digits 10 (nat 0)] counting_session =
      Finished (counting_session\<lparr>ss_world := 1, ss_out := out\<rparr>))"
proof -
  let ?rq = "request_to ''POST'' start_path ''start''"
  have "http_handle simple_library viewing_world ?rq (ss_world counting_session) =
      (if get_result (Replied R_success (C_u8 1)) = R_success
       then succeeded ?rq (Some (J_object [(''group_id'', J_int (uint (1 :: u8)))])) 1 else failed 500 1) \<and>
    (\<exists>out. vm_cmd_start_by_phy_ch viewing_world [digits 10 (unat (27 :: u16)), digits 10 (nat 0)] counting_session =
      Finished (counting_session\<lparr>ss_world := 1, ss_out := out\<rparr>))"
    by (rule browser_and_command_start_the_same_viewing)
      (simp_all add: json_post_def request_to_def simple_library_def counting_session_def issue_def
        vm_request_start_viewing_by_physical_channel_def viewing_world_def get_message_def get_result_def)
  then show ?thesis by (simp add: get_result_def counting_session_def)
qed

text \<open>The numbers of a request are not checked: a physical channel is taken modulo 65536, so that 65563 starts
  channel 27.\<close>

theorem channels_are_taken_modulo_65536:
  assumes "json_post rq" "rq_path rq = start_path" "\<And>n. jl_num lib (J_int n) = Some n"
    "jl_parse lib (rq_body rq) = Some (J_object [(''physical_channel'', J_int c), (''service_idx'', J_int i)])"
    "json_post rq'" "rq_path rq' = start_path" "rq_origin rq' = rq_origin rq"
    "jl_parse lib (rq_body rq') = Some (J_object [(''physical_channel'', J_int (c mod 65536)), (''service_idx'', J_int i)])"
  shows "http_handle lib (world :: 'w world) rq w = http_handle lib world rq' w"
proof -
  have "word_of_int (c mod 65536) = (word_of_int c :: u16)"
    by (simp add: word_of_int_eq_iff take_bit_eq_mod)
  then have "http_handle lib world rq' w = viewing_answer world rq' None
      (issue world (vm_request_start_viewing_by_physical_channel (word_of_int c, as_int i) False) w)"
    using http_start [OF assms(5,6,3,8)] by simp
  moreover have "viewing_answer world rq' opt rw = viewing_answer world rq opt rw" for opt rw
  proof -
    have "succeeded rq' j v = succeeded rq j v" for j and v :: 'w
      using assms(7) by (simp add: succeeded_def allow_origin_def)
    then show ?thesis by (cases rw) (simp add: viewing_answer_def split: reply_content.split)
  qed
  ultimately show ?thesis using http_start [OF assms(1-4)] by simp
qed

theorem channels_are_taken_modulo_65536_witness:
  "http_handle simple_library viewing_world (request_to ''POST'' start_path ''wide'') 0 =
   http_handle simple_library viewing_world (request_to ''POST'' start_path ''start'') 0"
  by (rule channels_are_taken_modulo_65536 [where c = 65563 and i = 0])
    (simp_all add: json_post_def request_to_def simple_library_def)

section \<open>Answers that are wrong\<close>

text \<open>The name of a network is asked for without waiting for the answer: the result is always an error, although
  the channel manager has the name.\<close>

theorem network_name_is_never_given:
  "\<exists>w'. http_original_network_name world x rq w = failed 500 w'"
proof -
  obtain r m w' where "world (to_module (module_no ''channel_manager'') cm_sequences ''get_original_network_name''
      (Msg_service (0, atoi_u16 x, 0))) w = (r, m, w')"
    by (rule prod_cases3)
  then show ?thesis
    by (simp add: http_original_network_name_def cm_request_get_original_network_name_def issue_def name_answer_def
        get_result_def get_message_def) (rule exI, rule refl)
qed

text \<open>A body that is no JSON makes the handler throw, which the library answers with 500 and not with 400.\<close>

theorem malformed_body_throws:
  assumes "json_post rq" "rq_path rq = ''/api/ctrl/viewing/stop''" "jl_parse lib (rq_body rq) = None"
  shows "http_handle lib world rq w = Thrown w"
  using assms by (simp add: json_post_def http_handle_def http_post_def http_stop_def with_body_def)

theorem malformed_body_throws_witness:
  "http_handle simple_library viewing_world (request_to ''POST'' ''/api/ctrl/viewing/stop'' ''{'') 0 = Thrown 0"
  by (rule malformed_body_throws) (simp_all add: json_post_def request_to_def simple_library_def)

theorem service_name_is_looked_up_witness:
  "http_handle simple_library (app_world no_others) (request_to ''GET'' (''/api/ctrl/channel/service_name/'' @
     digits 10 (unat (1 :: u16)) @ ''/'' @ digits 10 (unat (2 :: u16)) @ ''/'' @ digits 10 (unat (3 :: u16))) [])
     (Some example_app) =
   (case on_get_service_name 1 2 3 (app_chan example_app) of
      None \<Rightarrow> failed 500 (Some example_app)
    | Some t \<Rightarrow> succeeded (request_to ''GET'' (''/api/ctrl/channel/service_name/'' @
        digits 10 (unat (1 :: u16)) @ ''/'' @ digits 10 (unat (2 :: u16)) @ ''/'' @ digits 10 (unat (3 :: u16))) [])
        (Some (J_object [(''service_name'', J_string t)])) (Some example_app))"
  by (rule service_name_is_looked_up) (simp_all add: request_to_def)

end
