(* ===== verification/Settings.thy ===== *)
theory Settings
  imports Logger Client_If
begin

text \<open>
  The settings (src/src/settings.h): their fields, what is checked when they are loaded, and the lines that
  are logged. The JSON archive of the library \<open>cereal\<close> is a parameter: it assigns the fields that are
  in the file, or throws.
\<close>

section \<open>Fields\<close>

record parameters =
  st_is_syslog_output :: bool
  st_command_server_port :: u16
  st_tuner_hal_allocates :: "string list"
  st_channels_json_path :: string
  st_rec_reserves_json_path :: string
  st_rec_results_json_path :: string
  st_rec_ts_path :: string
  st_rec_disk_space_low_limit_MB :: int
  st_rec_use_splitter :: bool
  st_dummy_tuner_ts_path :: string
  st_event_schedule_cache_is_enable :: bool
  st_event_schedule_cache_start_interval_day :: int
  st_event_schedule_cache_start_time :: string
  st_event_schedule_cache_start_hour :: int
  st_event_schedule_cache_start_min :: int
  st_event_schedule_cache_timeout_min :: int
  st_event_schedule_cache_retry_interval_min :: int
  st_event_schedule_cache_data_json_path :: string
  st_event_schedule_cache_histories_json_path :: string
  st_event_name_keywords_json_path :: string
  st_extended_event_keywords_json_path :: string
  st_event_name_search_histories_json_path :: string
  st_extended_event_search_histories_json_path :: string
  st_viewing_stream_data_path :: string
  st_viewing_stream_command_format :: string
  st_viewing_use_splitter :: bool
  st_http_server_port :: u16
  st_http_server_static_contents_path :: string
  st_logo_path :: string

record settings =
  settings_path :: string
  params :: parameters

section \<open>Checks\<close>

text \<open>The regular expression \<open>[0-9]{2}:[0-9]{2}\<close>, matched with the whole text.\<close>

definition is_clock :: "string \<Rightarrow> bool" where
  "is_clock s \<longleftrightarrow> length s = 5 \<and> list_all is_digit (take 2 s) \<and> s ! 2 = CHR '':'' \<and> list_all is_digit (drop 3 s)"

definition is_valid_event_schedule_cache_start_time :: "parameters \<Rightarrow> bool \<times> parameters" where
  "is_valid_event_schedule_cache_start_time p =
    (let s = st_event_schedule_cache_start_time p in
     if \<not> is_clock s then (False, p)
     else
       let hour = atoi_int (take 2 s); min = atoi_int (drop 3 s) in
       if hour > 23 then (False, p)
       else if min > 59 then (False, p)
       else (True, p\<lparr>st_event_schedule_cache_start_hour := hour, st_event_schedule_cache_start_min := min\<rparr>))"

definition resize_tuner_hal_allocates :: "parameters \<Rightarrow> parameters" where
  "resize_tuner_hal_allocates p =
    (if length (st_tuner_hal_allocates p) > unat GROUP_MAX
     then p\<lparr>st_tuner_hal_allocates := take (unat GROUP_MAX) (st_tuner_hal_allocates p)\<rparr> else p)"

section \<open>Loading and saving\<close>

datatype load_result = Loaded settings | Refused settings | Archive_throws settings

definition load_settings :: "(string \<Rightarrow> parameters \<Rightarrow> parameters option) \<Rightarrow> string \<Rightarrow> settings \<Rightarrow> load_result" where
  "load_settings archive path st =
    (if length path = 0 then Refused st
     else
       let st = st\<lparr>settings_path := path\<rparr> in
       case archive path (params st) of
         None \<Rightarrow> Archive_throws st
       | Some p \<Rightarrow>
           (case is_valid_event_schedule_cache_start_time p of
              (False, p) \<Rightarrow> Refused (st\<lparr>params := p\<rparr>)
            | (True, p) \<Rightarrow> Loaded (st\<lparr>params := resize_tuner_hal_allocates p\<rparr>)))"

text \<open>What is written: the path and the fields.\<close>

definition save_settings :: "settings \<Rightarrow> (string \<times> parameters) option" where
  "save_settings st = (if length (settings_path st) = 0 then None else Some (settings_path st, params st))"

section \<open>Logging\<close>

definition flag :: "bool \<Rightarrow> string" where "flag x = (if x then ''1'' else ''0'')"

definition entry_line :: "string \<Rightarrow> string \<Rightarrow> string" where
  "entry_line x v = x @ '':['' @ v @ '']''"

definition rule_line :: string where "rule_line = replicate 32 (CHR ''-'')"

definition dump_settings :: "parameters \<Rightarrow> string list" where
  "dump_settings p =
    [rule_line, ''--          settings          --'', rule_line,
      entry_line ''is_syslog_output'' (flag (st_is_syslog_output p)),
      entry_line ''command_server_port'' (dec (uint (st_command_server_port p)))] @
    [''tuner_hal_allocates:''] @ map (\<lambda>s. ''  ['' @ s @ '']'') (st_tuner_hal_allocates p) @
    [entry_line ''channels_json_path'' (st_channels_json_path p),
      entry_line ''rec_reserves_json_path'' (st_rec_reserves_json_path p),
      entry_line ''rec_results_json_path'' (st_rec_results_json_path p),
      entry_line ''rec_ts_path'' (st_rec_ts_path p),
      entry_line ''rec_disk_space_low_limit_MB'' (dec (st_rec_disk_space_low_limit_MB p)),
      entry_line ''rec_use_splitter'' (flag (st_rec_use_splitter p)),
      entry_line ''dummy_tuner_ts_path'' (st_dummy_tuner_ts_path p),
      entry_line ''event_schedule_cache_is_enable'' (flag (st_event_schedule_cache_is_enable p)),
      entry_line ''event_schedule_cache_start_interval_day'' (dec (st_event_schedule_cache_start_interval_day p)),
      entry_line ''event_schedule_cache_start_time'' (st_event_schedule_cache_start_time p),
      entry_line ''event_schedule_cache_timeout_min'' (dec (st_event_schedule_cache_timeout_min p)),
      entry_line ''event_schedule_cache_retry_interval_min'' (dec (st_event_schedule_cache_retry_interval_min p)),
      entry_line ''event_schedule_cache_data_json_path'' (st_event_schedule_cache_data_json_path p),
      entry_line ''event_schedule_cache_histories_json_path'' (st_event_schedule_cache_histories_json_path p),
      entry_line ''event_name_keywords_json_path'' (st_event_name_keywords_json_path p),
      entry_line ''extended_event_keywords_json_path'' (st_extended_event_keywords_json_path p),
      entry_line ''event_name_search_histories_json_path'' (st_event_name_search_histories_json_path p),
      entry_line ''extended_event_search_histories_json_path'' (st_extended_event_search_histories_json_path p),
      entry_line ''viewing_stream_data_path'' (st_viewing_stream_data_path p),
      entry_line ''viewing_stream_command_format'' (st_viewing_stream_command_format p),
      entry_line ''viewing_use_splitter'' (flag (st_viewing_use_splitter p)),
      entry_line ''http_server_port'' (dec (uint (st_http_server_port p))),
      entry_line ''http_server_static_contents_path'' (st_http_server_static_contents_path p),
      entry_line ''logo_path'' (st_logo_path p),
      rule_line]"

end
