(* ===== verification/Settings_Claims.thy ===== *)
theory Settings_Claims
  imports Settings Tuner_Claims Viewing_Claims
begin

text \<open>
  The theorems about the settings: what a start time is, and that the number of tuners that remains after
  loading keeps the modules within their four groups.
\<close>

section \<open>Times\<close>

lemma digit_value_table: "list_all (\<lambda>c. digit_char (digit_value c) = c \<and> digit_value c < 10) ''0123456789''"
  by code_simp

lemma digit_char_value: "is_digit c \<Longrightarrow> digit_char (digit_value c) = c \<and> digit_value c < 10"
  using digit_value_table unfolding list_all_iff is_digit_def by blast

lemma dec_int: "dec (int n) = digits 10 n"
  by (simp add: dec_def)

lemma zero_value: "digit_value c = 0 \<Longrightarrow> is_digit c \<Longrightarrow> c = CHR ''0''"
  by (auto simp: is_digit_def digit_value_def)

lemma digits_two: "digits 10 n = (if n < 10 then [digit_char n] else digits 10 (n div 10) @ [digit_char (n mod 10)])"
  by (simp add: digits.simps [of 10 n])

lemma atoi_number: "number 10 s < 100 \<Longrightarrow> atoi_int s = int (number 10 s)"
  by (simp add: atoi_int_def c_atoi_def strtol_def LONG_MAX_def min_def signed_of_nat signed_take_bit_int_eq_self)

lemma two_digits_text:
  assumes "length s = 2" "list_all is_digit s"
  shows "dec02 2 (atoi_int s) = s \<and> 0 \<le> atoi_int s"
proof -
  obtain a b where s: "s = [a, b]" using assms(1) by (auto simp: numeral_2_eq_2 length_Suc_conv)
  then have d: "is_digit a" "is_digit b" using assms(2) by simp_all
  note a = digit_char_value [OF d(1)] and b = digit_char_value [OF d(2)]
  let ?x = "digit_value a" and ?y = "digit_value b"
  have n: "number 10 s = ?x * 10 + ?y" by (simp add: s number_def)
  have v: "atoi_int s = int (?x * 10 + ?y)" using a b atoi_number [of s] by (simp add: n)
  have "dec (int (?x * 10 + ?y)) = digits 10 (?x * 10 + ?y)" by (rule dec_int)
  moreover have "digits 10 (?x * 10 + ?y) = (if ?x = 0 then [b] else [a, b])"
    using a b by (simp add: digits_two [of "?x * 10 + ?y"] digits_two [of ?x])
  moreover have "?x = 0 \<Longrightarrow> a = CHR ''0''" using zero_value d(1) by blast
  ultimately have "dec02 2 (int (?x * 10 + ?y)) = [a, b]"
    unfolding dec02_def pad_left_def by (cases "?x = 0") simp_all
  then show ?thesis unfolding v by (simp add: s)
qed

lemma digits_of_two: "\<lbrakk>0 \<le> n; n < 100\<rbrakk> \<Longrightarrow> length (dec02 2 n) = 2 \<and> list_all is_digit (dec02 2 n) \<and> atoi_int (dec02 2 n) = n"
proof -
  assume n: "0 \<le> n" "n < 100"
  have l: "length (dec02 2 n) = 2" using n by (simp add: length_dec02)
  have d: "list_all is_digit (dec02 2 n)"
  proof -
    have "is_digit (CHR ''0'')" by (simp add: is_digit_def)
    with n digits_dec [of "nat n"] show ?thesis by (auto simp: dec02_def pad_left_def dec_def list_all_iff)
  qed
  have "digit_value (CHR ''0'') = 0" by (simp add: digit_value_def is_digit_def)
  then have "number 10 (dec02 2 n) = nat n"
    using n number_digits [of 10 "nat n"] by (simp add: dec02_def pad_left_def dec_def number_zeros)
  then have "atoi_int (dec02 2 n) = n"
    using n atoi_number [of "dec02 2 n"] by simp
  with l d show ?thesis by simp
qed

text \<open>The start time is accepted exactly when it is the text of an hour and a minute of the day, which are then
  the ones that are used.\<close>

theorem start_time_is_a_time_of_day:
  "fst (is_valid_event_schedule_cache_start_time p) \<longleftrightarrow>
   (\<exists>h m. 0 \<le> h \<and> h \<le> 23 \<and> 0 \<le> m \<and> m \<le> 59 \<and>
     st_event_schedule_cache_start_time p = dec02 2 h @ '':'' @ dec02 2 m \<and>
     snd (is_valid_event_schedule_cache_start_time p) =
       p\<lparr>st_event_schedule_cache_start_hour := h, st_event_schedule_cache_start_min := m\<rparr>)"
  (is "?l \<longleftrightarrow> ?r")
proof
  let ?s = "st_event_schedule_cache_start_time p"
  assume l: ?l
  then have c: "is_clock ?s" by (auto simp: is_valid_event_schedule_cache_start_time_def Let_def split: if_splits)
  then have len: "length ?s = 5" and d: "list_all is_digit (take 2 ?s)" "list_all is_digit (drop 3 ?s)"
    and m: "?s ! 2 = CHR '':''" by (simp_all add: is_clock_def)
  have "length (take 2 ?s) = 2" "length (drop 3 ?s) = 2" using len by simp_all
  note h = two_digits_text [OF this(1) d(1)] and k = two_digits_text [OF this(2) d(2)]
  have "?s = take 2 ?s @ [?s ! 2] @ drop 3 ?s"
    using len id_take_nth_drop [of 2 ?s] by (simp add: numeral_3_eq_3)
  then have s: "?s = dec02 2 (atoi_int (take 2 ?s)) @ '':'' @ dec02 2 (atoi_int (drop 3 ?s))"
    unfolding conjunct1 [OF h] conjunct1 [OF k] m .
  define H M where "H = atoi_int (take 2 ?s)" and "M = atoi_int (drop 3 ?s)"
  have "is_valid_event_schedule_cache_start_time p = (if H > 23 then (False, p) else if M > 59 then (False, p)
      else (True, p\<lparr>st_event_schedule_cache_start_hour := H, st_event_schedule_cache_start_min := M\<rparr>))"
    using c by (simp add: is_valid_event_schedule_cache_start_time_def Let_def H_def M_def)
  with l have "H \<le> 23 \<and> M \<le> 59 \<and> snd (is_valid_event_schedule_cache_start_time p) =
      p\<lparr>st_event_schedule_cache_start_hour := H, st_event_schedule_cache_start_min := M\<rparr>"
    by (auto split: if_splits)
  moreover have "0 \<le> H" "0 \<le> M" "?s = dec02 2 H @ '':'' @ dec02 2 M"
    using h k s unfolding H_def M_def by blast+
  ultimately show ?r by blast
next
  assume ?r
  then obtain h m where hm: "0 \<le> h" "h \<le> 23" "0 \<le> m" "m \<le> 59"
      "st_event_schedule_cache_start_time p = dec02 2 h @ '':'' @ dec02 2 m" by blast
  then show ?l
    using digits_of_two [of h] digits_of_two [of m]
    by (auto simp: is_valid_event_schedule_cache_start_time_def is_clock_def Let_def nth_append)
qed

section \<open>Groups\<close>

lemma loaded:
  assumes "load_settings archive path st = Loaded s"
  shows "length (st_tuner_hal_allocates (params s)) \<le> 4"
  using assms
  by (auto simp: load_settings_def Let_def resize_tuner_hal_allocates_def GROUP_MAX_def split: if_splits option.splits prod.splits bool.splits)

lemma round_robin_max: "round_robin_loop fuel init n m ts = Returned (t, ts') \<Longrightarrow> resource_max ts' = resource_max ts"
  by (induction fuel arbitrary: n ts) (auto simp: set_next_def Let_def give_tuner_def split: if_splits)

lemma tune_attempts_max: "resource_max (snd (tune_attempts retry a m ch t ts)) = resource_max ts"
  by (induction retry arbitrary: a ts; subst tune_attempts.simps)
    (auto simp: on_tune_def Let_def set_tuned_def split: if_splits prod.splits)

lemma on_open_max: "on_open m ts = Returned (r, ts') \<Longrightarrow> resource_max ts' = resource_max ts"
  by (auto simp: on_open_def allocate_round_robin_def simp del: round_robin_loop.simps
      split: outcome.splits prod.splits dest: round_robin_max)

lemma tuner_step_max: "tuner_step e ts = Some ts' \<Longrightarrow> resource_max ts' = resource_max ts"
  by (cases e)
    (auto simp: on_close_def release_def on_tune_def on_tune_with_retry_def on_tune_stop_def Let_def set_tuned_def
      tune_attempts_max split: if_splits outcome.splits prod.splits dest: on_open_max)

lemma tuner_run_max: "tuner_run es ts = Some ts' \<Longrightarrow> resource_max ts' = resource_max ts"
  by (induction es arbitrary: ts) (auto dest: tuner_step_max split: option.splits)

text \<open>C20: with the settings that were loaded the tuner service gives only tuners that are groups of their own, so that
  the request for one never goes to another, and no request of a viewing leaves the arrays of the groups.\<close>

theorem loaded_settings_keep_the_groups:
  assumes "load_settings archive path st = Loaded s" "n = length (st_tuner_hal_allocates (params s))" "0 < n"
    "tuner_run es (tuner_module_up n) = Some ts" "vm_tuners v = int n"
  shows "(\<exists>t ts'. on_open m ts = Returned (t, ts') \<and> (\<forall>g. t = Some g \<longrightarrow> group g = g \<and> unat g < n)) \<and>
    on_stop_viewing g v \<noteq> None \<and> on_set_option clk g sec v \<noteq> None"
proof -
  have n: "n \<le> 4" using loaded [OF assms(1)] assms(2) by simp
  have ok: "service_ok ts" using n tuner_run_ok [OF assms(3) _ assms(4)] by simp
  have max: "resource_max ts = n"
    using tuner_run_max [OF assms(4)] by (simp add: tuner_module_up_def)
  have t: "tuners_ok ts" "0 < resource_max ts" using ok by (simp_all add: service_ok_def)
  have "\<exists>t ts'. on_open m ts = Returned (t, ts') \<and> (\<forall>g. t = Some g \<longrightarrow> group g = g \<and> unat g < n)"
  proof (cases "find (free_tuner ts) (turn_order ts)")
    case None
    then show ?thesis using open_result [OF t] by simp
  next
    case (Some i)
    then have "i \<in> set (turn_order ts)" by (auto simp: find_Some_iff)
    then have "i < n" using turn_order_less [OF _ t(2)] max by simp
    then have u: "unat (word_of_nat i :: u8) < n" "n \<le> 4" using n unat_tuner [of i] by simp_all
    then have "group (word_of_nat i) = word_of_nat i" by (simp add: group_def GROUP_MAX_def word_le_nat_alt)
    then show ?thesis using Some u open_result [OF t] by simp
  qed
  moreover have small: "uint g \<ge> vm_tuners v \<or> unat g < 4"
  proof -
    have "int (unat g) = uint g" by simp
    with n assms(5) show ?thesis by linarith
  qed
  moreover have "on_stop_viewing g v \<noteq> None" "on_set_option clk g sec v \<noteq> None"
    using small by (auto simp: on_stop_viewing_def on_set_option_def)
  ultimately show ?thesis by simp
qed

definition example_parameters :: parameters where
  "example_parameters =
    \<lparr>st_is_syslog_output = False, st_command_server_port = 0,
     st_tuner_hal_allocates = [''a'', ''b'', ''c'', ''d'', ''e''], st_channels_json_path = [],
     st_rec_reserves_json_path = [], st_rec_results_json_path = [], st_rec_ts_path = [],
     st_rec_disk_space_low_limit_MB = 0, st_rec_use_splitter = False, st_dummy_tuner_ts_path = [],
     st_event_schedule_cache_is_enable = False, st_event_schedule_cache_start_interval_day = 0,
     st_event_schedule_cache_start_time = dec02 2 4 @ '':'' @ dec02 2 30,
     st_event_schedule_cache_start_hour = 0, st_event_schedule_cache_start_min = 0,
     st_event_schedule_cache_timeout_min = 0, st_event_schedule_cache_retry_interval_min = 0,
     st_event_schedule_cache_data_json_path = [], st_event_schedule_cache_histories_json_path = [],
     st_event_name_keywords_json_path = [], st_extended_event_keywords_json_path = [],
     st_event_name_search_histories_json_path = [], st_extended_event_search_histories_json_path = [],
     st_viewing_stream_data_path = [], st_viewing_stream_command_format = [],
     st_viewing_use_splitter = False, st_http_server_port = 0, st_http_server_static_contents_path = [],
     st_logo_path = []\<rparr>"

definition example_settings :: settings where
  "example_settings = \<lparr>settings_path = ''settings.json'', params = snd (is_valid_event_schedule_cache_start_time
     example_parameters)\<lparr>st_tuner_hal_allocates := [''a'', ''b'', ''c'', ''d'']\<rparr>\<rparr>"

lemma example_start_time:
  "is_valid_event_schedule_cache_start_time example_parameters =
   (True, example_parameters\<lparr>st_event_schedule_cache_start_hour := 4, st_event_schedule_cache_start_min := 30\<rparr>)"
  using digits_of_two [of 4] digits_of_two [of 30]
  by (simp add: is_valid_event_schedule_cache_start_time_def is_clock_def Let_def nth_append example_parameters_def)

lemma example_loaded:
  "load_settings (\<lambda>path p. Some example_parameters) ''settings.json'' example_settings = Loaded example_settings"
  by (simp add: load_settings_def example_start_time example_settings_def resize_tuner_hal_allocates_def GROUP_MAX_def)
    (simp add: example_parameters_def)

theorem loaded_settings_keep_the_groups_witness:
  "(\<exists>t ts'. on_open M_rec_manager (tuner_module_up 4) = Returned (t, ts') \<and>
      (\<forall>g. t = Some g \<longrightarrow> group g = g \<and> unat g < 4)) \<and>
    on_stop_viewing 7 (new_viewing_manager 4 :: (unit, unit) viewing_manager) \<noteq> None \<and>
    on_set_option etime_clear 7 30 (new_viewing_manager 4 :: (unit, unit) viewing_manager) \<noteq> None"
  by (rule loaded_settings_keep_the_groups [OF example_loaded, where es = "[]"])
    (simp_all add: example_settings_def new_viewing_manager_def)

text \<open>Settings without a tuner are loaded, too: the first request for one reads behind the empty list.\<close>

theorem no_tuner_is_read_outside: "on_open m (tuner_module_up 0) = Outside"
  by (simp add: on_open_def allocate_round_robin_def tuner_module_up_def)

end
