(* ===== verification/Spec2Isabelle.thy ===== *)
theory Spec2Isabelle
  imports Section_Claims Table_Claims Rec_Claims Tuner_Claims Ts_Claims Channel_Claims Psisi_Claims
    Sched_Reserve_Claims Tuner_Control_Claims Forker_Claims Viewing_Claims Search_Claims Command_Claims
    Dsmcc_Claims Time_Offset_Table Logger_Claims Http_Claims Settings_Claims
begin

text \<open>
  A verification development for \<open>auto_rec_mini\<close>, a recorder of terrestrial digital television
  written in C++. The program is a set of modules of the framework \<open>coseq\<close>: each module has one
  thread, handles its requests one after the other, and talks to the others by requests, replies
  and notices. This library models the modules and the parsers they use as functions on their
  states and proves what the program relies on. Every definition follows one function, one loop
  or one condition of the code; paths below are relative to \<open>src/src\<close>.

  \<^bold>\<open>Conventions.\<close> Integers keep their width (\<open>u8\<close>, \<open>u16\<close>, \<open>u32\<close> are words), C++ containers are
  lists or maps, arrays are lists of their fixed length. A handler is one step: it reads the clock
  once, and where it waits for another module or a timer it is split into the parts between the
  waits. A branch of the code that is undefined, that ends the program or that never returns is a
  value of its own (\<open>None\<close>, \<open>Overrun\<close>, a flag), never left out. The clock, \<open>mktime\<close>, the conversion
  of broadcast text (\<open>third_party/aribstr\<close>), the file system and the replies of other modules are
  parameters.

  \<^bold>\<open>Shared theories.\<close> \<open>Prelude\<close> has the lemmas on lists, words and search loops; \<open>Byte_Reader\<close> reads
  bytes behind a pointer, with a read outside the buffer as a value; \<open>Ordered_Map\<close> is \<open>std::map\<close>
  and \<open>std::stable_sort\<close> over any strict weak order (locale \<open>comparison\<close>).

  \<^bold>\<open>The stream.\<close> \<open>Ts_Parser\<close> is \<open>parser/ts_parser\<close>: a buffer is cut into packets of 188 bytes
  (\<open>Ts_Claims\<close>). \<open>Section_Parser\<close> is \<open>parser/section_parser\<close> with its memory pool, the list of
  sections and the fragments that are put together; \<open>Section_Layout\<close>, \<open>Section_Inv\<close> and
  \<open>Section_Assembly\<close> relate the pool to a list of byte strings, \<open>Section_Props\<close> and \<open>Section_Claims\<close>
  show that whole sections arrive, once each, and damaged ones do not. The table classes that use
  the parser are the locale \<open>section_listener\<close>, interpreted for every one of them. \<open>Crc32\<close> and
  \<open>Arib_Common\<close> are \<open>parser/ts_arib_common\<close>: the checksum equals polynomial
  division, modified Julian dates are read back. \<open>Descriptors\<close>, \<open>Psi_Tables\<close> and \<open>Si_Tables\<close> are the
  descriptors and tables (PAT, PMT, CAT, NIT, SDT, EIT, RST, BIT, CDT); \<open>Table_Props\<close> and
  \<open>Table_Claims\<close> show that encoded tables are read back, that one version of a table is kept, and
  which malformed ones are read outside their buffer. \<open>Time_Offset_Table\<close> is the class of that name in
  \<open>parser/psisi\<close>, whose formula for a date is shown to be the one of \<open>ts_arib_common\<close>; \<open>Dsmcc\<close> and
  \<open>Dsmcc_Claims\<close> are \<open>parser/dsmcc\<close>: the messages of a download are read back from their encoding, and no
  array of a message overflows.

  \<^bold>\<open>PSI/SI manager.\<close> \<open>Psisi_Info\<close>, \<open>Psisi_Events\<close>, \<open>Png_Logo\<close> and \<open>Psisi_Manager\<close> are
  \<open>psisi_manager/psisi_manager\<close> and \<open>common/pngcrc.h\<close>: the arrays of programs, services, events and
  the network, the handlers of the notices and requests, and the logo files. \<open>Psisi_Services\<close> and
  \<open>Psisi_Invariant\<close> carry the invariant of all reachable states; \<open>Psisi_Claims\<close> shows what the other
  modules read: the current services, the event on air, the notices, and the table that ends the
  program.

  \<^bold>\<open>Tuners and channels.\<close> \<open>Tuner_Service\<close> and \<open>Tuner_Claims\<close> are \<open>tuner_service\<close>: which of the
  tuners is given to whom, and the retries of a tune (one attempt and three retries; a poll loop
  has 76 turns). The search for a free tuner has fuel of the number of tuners and one, which
  the termination theorem shows to be enough. \<open>Channel_Manager\<close> and \<open>Channel_Claims\<close> are
  \<open>channel_manager\<close>: the scan, and the queries that other modules make of its result.
  \<open>Tuner_Control\<close> and \<open>Tuner_Control_Claims\<close> are \<open>tuner_control\<close> and its thread: the process that reads a
  tuner, the handlers its stream is given to, and the waits of start and stop, whose numbers of
  turns are the code's.

  \<^bold>\<open>Recording.\<close> \<open>Etime\<close> is \<open>common/etime\<close>. \<open>Reserves\<close>, \<open>Rec_Manager\<close>, \<open>Rec_Plan\<close>, \<open>Rec_Steps\<close>,
  \<open>Rec_Checks\<close> and \<open>Rec_Handlers\<close> are \<open>rec_manager\<close>: the reservations in order of their start, the
  recordings and results, and every handler. \<open>Rec_Invariant\<close> shows that the plan stays well formed,
  \<open>Rec_Claims\<close> that insertion is insertion into a sorted list, that a due reservation is recorded,
  and where the code loses one.

  \<^bold>\<open>To the file and to the viewer.\<close> \<open>Buffered_Process\<close> is \<open>common/buffered_process.h\<close>,
  \<open>common/file_buffered_writer.h\<close>, \<open>rec_manager/rec_arib_b25.h\<close> and \<open>stream_handler/arib_b25_process.h\<close>:
  the two buffers a recording goes through; descrambler, splitter and \<open>fwrite\<close> are parameters, and loops
  that may not end are partial functions. The contract of a handler behind a buffer is the locale \<open>sink\<close>
  of \<open>Buffer_Claims\<close>, interpreted on the writer, on the descrambler over the writer, and (in
  \<open>Stream_Claims\<close>) on the process of a viewing; from it the file of a recording and what a viewer gets
  are the received stream. \<open>Forker\<close> and \<open>Forker_Claims\<close> are \<open>common/forker.h\<close> with its descriptors, arguments
  and signals; \<open>Stream_Handler\<close> is \<open>stream_handler\<close>; \<open>Viewing_Manager\<close> and \<open>Viewing_Claims\<close> are
  \<open>viewing_manager\<close>: start, stop and end of a viewing over all interleavings of its requests.

  \<^bold>\<open>Event schedule.\<close> \<open>Sched_Events\<close>, \<open>Sched_Container\<close>, \<open>Sched_Manager\<close>, \<open>Sched_Exec\<close> and \<open>Sched_Run\<close> are
  \<open>event_schedule_manager\<close>: the events of the EIT schedule tables, the map of the schedules, the
  reservations to read them, and the execution of one, as the steps between its waits and as a
  whole. \<open>Sched_Series\<close> carries the invariant over all interleavings of the steps; \<open>Sched_Claims\<close> shows
  what the queries return, \<open>Sched_Run\<close> that an execution ends, is recorded and releases its tuner,
  \<open>Sched_Reserve_Claims\<close> which reservation is executed and which ones the loop loses.

  \<^bold>\<open>Keyword reservations.\<close> \<open>Event_Search\<close> is \<open>event_search\<close>, over the models of the schedule, channel and
  recording managers it asks; \<open>Search_Claims\<close> describes a search as an operation on the sequence of the
  reservations.

  \<^bold>\<open>Commands.\<close> \<open>Strings_Util\<close> is the string functions of \<open>common/utils.cpp\<close> and \<open>common/stack.h\<close>;
  \<open>Command_Server\<close> is \<open>command_server\<close>: the buffer of a connection with all its bytes, the lines and
  arguments, and the tables, a pointer to a table being a number. \<open>Command_Claims\<close> shows that the
  segments of a connection do not matter and that no line is followed through a null pointer.

  \<^bold>\<open>Requests.\<close> \<open>Client_If\<close> is \<open>modules.cpp\<close>, \<open>modules.h\<close>, \<open>client_if.h\<close>, \<open>group.h\<close> and the \<open>client_iface\<close>
  classes of the \<open>*_if.h\<close> files: the numbers of modules and sequences, the tables of handlers, and one function
  per request, which makes a call; a \<open>world\<close> says what becomes of a call. \<open>C_Text\<close> has \<open>atoi\<close>, \<open>strtol\<close> and the
  printed numbers. \<open>Module_Commands\<close> and \<open>Command_Run\<close> are the \<open>*_commands.cpp\<close> files with their tables, run by the
  command server; \<open>Http_Server\<close> is \<open>http_server.h\<close>, over any JSON library. \<open>app_world\<close> is the world whose calls
  reach the models of the tuner service, the channel, schedule and recording managers, and any other
  world for the rest. \<open>Command_Run_Claims\<close> and \<open>Http_Claims\<close> show what a typed line or a path does to these
  modules, that the two ways to start a viewing are one, and which inputs a command does not cope with. The loop
  that waits for a selection reads one received text per turn, so it needs no fuel.

  \<^bold>\<open>Log.\<close> \<open>Logger\<close> is \<open>common/logger.h\<close> and \<open>common/syslog_util.h\<close>: the levels, the lines with their headers, and the
  datagrams; \<open>Logger_Claims\<close> shows that a text is written line by line and within the buffers, and the calls
  that are undefined or throw.

  \<^bold>\<open>Settings.\<close> \<open>Settings\<close> is \<open>settings.h\<close> over the JSON archive of \<open>cereal\<close>, which is a parameter: loading, its
  checks, and the lines that are logged. \<open>Settings_Claims\<close> shows what a start time is and that, with the
  settings that were loaded, the tuner service and the viewing manager stay within the four groups.

  \<^bold>\<open>Not modelled.\<close> See the components of the manifest; in short: the framework \<open>coseq\<close> and third-party code, \<open>main\<close>, which brings the modules up and down, functions that only print the
  fields of a table, and the JSON texts that are stored.
\<close>

end
